(* ===== verification/LS_Prelude.thy ===== *)
theory LS_Prelude
  imports Complex_Main
begin

text \<open>
  Shared vocabulary of the development: identifiers and time, the collections of hints
  the component proofs use, and tables. A database table is the list of its rows, in
  insertion order; \<open>row\<close> is a primary-key lookup, \<open>upd\<close> an UPDATE of one row,
  \<open>tsum\<close> an SQL \<open>sum(...) WHERE ...\<close>.
\<close>

named_theorems table_simps \<open>rewriting of lookups and sums over table updates\<close>
named_theorems frame_simps \<open>columns and tables an operation leaves alone\<close>

type_synonym uuid = nat
type_synonym datetime = int  \<comment> \<open>microseconds since the epoch, UTC\<close>
type_synonym date = int      \<comment> \<open>proleptic day number\<close>

section \<open>Tables\<close>

definition row :: "('r \<Rightarrow> 'k) \<Rightarrow> 'k \<Rightarrow> 'r list \<Rightarrow> 'r option" where
  "row key k rs = find (\<lambda>r. key r = k) rs"

definition upd :: "('r \<Rightarrow> 'k) \<Rightarrow> 'r \<Rightarrow> 'r list \<Rightarrow> 'r list" where
  "upd key r rs = map (\<lambda>x. if key x = key r then r else x) rs"

definition tsum :: "('r \<Rightarrow> bool) \<Rightarrow> ('r \<Rightarrow> 'n::comm_monoid_add) \<Rightarrow> 'r list \<Rightarrow> 'n" where
  "tsum P q rs = sum_list (map q (filter P rs))"

lemma row_Nil [simp]: "row key k [] = None"
  by (simp add: row_def)

lemma row_Cons [simp]: "row key k (r # rs) = (if key r = k then Some r else row key k rs)"
  by (simp add: row_def)

lemma row_SomeD: "row key k rs = Some r \<Longrightarrow> r \<in> set rs \<and> key r = k"
  by (auto simp: row_def find_Some_iff)

lemma row_key: "row key k rs = Some r \<Longrightarrow> key r = k"
  by (rule row_SomeD [THEN conjunct2])

lemma row_in_set: "row key k rs = Some r \<Longrightarrow> r \<in> set rs"
  by (rule row_SomeD [THEN conjunct1])

lemma row_None_iff: "row key k rs = None \<longleftrightarrow> k \<notin> key ` set rs"
  by (auto simp: row_def find_None_iff)

lemma row_distinct: "distinct (map key rs) \<Longrightarrow> r \<in> set rs \<Longrightarrow> row key (key r) rs = Some r"
  by (induction rs) (auto simp: rev_image_eqI)

lemma row_append [table_simps]:
  "row key k (rs @ ss) = (case row key k rs of Some r \<Rightarrow> Some r | None \<Rightarrow> row key k ss)"
  by (induction rs) auto

lemma upd_Nil [simp]: "upd key r [] = []"
  by (simp add: upd_def)

lemma upd_Cons [simp]:
  "upd key r (x # xs) = (if key x = key r then r else x) # upd key r xs"
  by (simp add: upd_def)

lemma keys_upd [simp]: "map key (upd key r rs) = map key rs"
  by (induction rs) auto

lemma key_image_upd [simp]: "key ` set (upd key r rs) = key ` set rs"
  by (metis keys_upd list.set_map)

lemma length_upd [simp]: "length (upd key r rs) = length rs"
  by (simp add: upd_def)

lemma row_upd [table_simps]:
  "row key k (upd key r rs) =
     (if key r = k then (case row key k rs of None \<Rightarrow> None | Some _ \<Rightarrow> Some r) else row key k rs)"
  by (induction rs) auto

lemma set_upd_subset: "x \<in> set (upd key r rs) \<Longrightarrow> x = r \<or> (x \<in> set rs \<and> key x \<noteq> key r)"
  by (auto simp: upd_def split: if_splits)

text \<open>An UPDATE of every row whose key is listed.\<close>

definition mark :: "('r \<Rightarrow> 'k) \<Rightarrow> ('r \<Rightarrow> 'r) \<Rightarrow> 'k set \<Rightarrow> 'r list \<Rightarrow> 'r list" where
  "mark key f ks rs = map (\<lambda>x. if key x \<in> ks then f x else x) rs"

lemma mark_empty [simp]: "mark key f {} rs = rs"
  by (simp add: mark_def)

lemma mark_upd:
  assumes "distinct (map key rs)" and "a \<in> set rs" and "key (f a) = key a" and "key a \<notin> ks"
  shows "mark key f ks (upd key (f a) rs) = mark key f (insert (key a) ks) rs"
  unfolding mark_def upd_def map_map comp_def
proof (rule map_cong [OF refl])
  fix x
  assume "x \<in> set rs"
  with assms(1,2) have "key x = key a \<Longrightarrow> x = a" by (auto simp: distinct_map dest: inj_onD)
  then show "(if key (if key x = key (f a) then f a else x) \<in> ks
              then f (if key x = key (f a) then f a else x) else if key x = key (f a) then f a else x) =
             (if key x \<in> insert (key a) ks then f x else x)"
    using assms(3,4) by auto
qed

lemma tsum_Nil [simp]: "tsum P q [] = 0"
  by (simp add: tsum_def)

lemma tsum_Cons [simp]: "tsum P q (r # rs) = (if P r then q r else 0) + tsum P q rs"
  by (simp add: tsum_def)

lemma tsum_append [table_simps]: "tsum P q (rs @ ss) = tsum P q rs + tsum P q ss"
  by (simp add: tsum_def)

lemma tsum_cong:
  "(\<And>r. r \<in> set rs \<Longrightarrow> P r = P' r) \<Longrightarrow> (\<And>r. r \<in> set rs \<Longrightarrow> P r \<Longrightarrow> q r = q' r) \<Longrightarrow>
   tsum P q rs = tsum P' q' rs"
  by (induction rs) auto

lemma tsum_none: "(\<And>r. r \<in> set rs \<Longrightarrow> \<not> P r) \<Longrightarrow> tsum P q rs = 0"
  by (induction rs) auto

lemma tsum_nonneg:
  fixes q :: "'r \<Rightarrow> 'n::ordered_comm_monoid_add"
  shows "(\<And>r. r \<in> set rs \<Longrightarrow> P r \<Longrightarrow> 0 \<le> q r) \<Longrightarrow> 0 \<le> tsum P q rs"
  by (induction rs) (auto intro: add_nonneg_nonneg)

lemma tsum_mono_pred:
  fixes q :: "'r \<Rightarrow> 'n::ordered_comm_monoid_add"
  assumes "\<And>r. r \<in> set rs \<Longrightarrow> P r \<Longrightarrow> P' r" and "\<And>r. r \<in> set rs \<Longrightarrow> P' r \<Longrightarrow> 0 \<le> q r"
  shows "tsum P q rs \<le> tsum P' q rs"
  using assms
proof (induction rs)
  case (Cons r rs)
  then have "tsum P q rs \<le> tsum P' q rs" by simp
  then show ?case using Cons.prems by (auto intro: add_mono add_increasing)
qed simp

lemma upd_absent: "key r \<notin> key ` set rs \<Longrightarrow> upd key r rs = rs"
  by (induction rs) auto

text \<open>An UPDATE of one row moves a sum by that row's old and new contribution.\<close>

lemma tsum_upd:
  fixes q :: "'r \<Rightarrow> 'n::ab_group_add"
  assumes "distinct (map key rs)" and "row key (key r) rs = Some r0"
  shows "tsum P q (upd key r rs) =
           tsum P q rs - (if P r0 then q r0 else 0) + (if P r then q r else 0)"
  using assms
proof (induction rs)
  case (Cons x xs)
  show ?case
  proof (cases "key x = key r")
    case True
    with Cons.prems have "r0 = x" and "key r \<notin> key ` set xs" by auto
    then show ?thesis using True by (simp add: upd_absent)
  next
    case False
    with Cons show ?thesis by simp
  qed
qed simp

section \<open>Results\<close>

text \<open>The value of a result that must be there, and the folding of a fallible loop body.\<close>

fun fold_err :: "('a \<Rightarrow> 's \<Rightarrow> 'e + 's) \<Rightarrow> 'a list \<Rightarrow> 's \<Rightarrow> 'e + 's" where
  "fold_err f [] s = Inr s"
| "fold_err f (x # xs) s = (case f x s of Inl e \<Rightarrow> Inl e | Inr s' \<Rightarrow> fold_err f xs s')"

lemma fold_err_invariant:
  assumes "fold_err f xs s = Inr s'" and "I s"
    and "\<And>x s s'. x \<in> set xs \<Longrightarrow> I s \<Longrightarrow> f x s = Inr s' \<Longrightarrow> I s'"
  shows "I s'"
  using assms
proof (induction xs arbitrary: s)
  case (Cons x xs)
  from Cons.prems(1) obtain t where t: "f x s = Inr t" "fold_err f xs t = Inr s'"
    by (auto split: sum.splits)
  have "I t" using Cons.prems(2) t(1) by (rule Cons.prems(3) [rotated]) simp
  with t(2) show ?case by (rule Cons.IH) (rule Cons.prems(3), simp_all)
qed simp

text \<open>A list comprehension whose condition may raise, and a fallible map.\<close>

fun filter_err :: "('a \<Rightarrow> 'e + bool) \<Rightarrow> 'a list \<Rightarrow> 'e + 'a list" where
  "filter_err P [] = Inr []"
| "filter_err P (x # xs) =
     (case P x of
        Inl e \<Rightarrow> Inl e
      | Inr b \<Rightarrow> (case filter_err P xs of Inl e \<Rightarrow> Inl e | Inr ys \<Rightarrow> Inr (if b then x # ys else ys)))"

lemma filter_err_set:
  "filter_err P xs = Inr ys \<Longrightarrow> y \<in> set ys \<longleftrightarrow> y \<in> set xs \<and> P y = Inr True"
  by (induction xs arbitrary: ys) (auto split: sum.splits if_splits)

lemma filter_err_length: "filter_err P xs = Inr ys \<Longrightarrow> length ys \<le> length xs"
  by (induction xs arbitrary: ys) (force split: sum.splits if_splits)+

lemma filter_err_distinct:
  "filter_err P xs = Inr ys \<Longrightarrow> distinct (map f xs) \<Longrightarrow> distinct (map f ys)"
proof (induction xs arbitrary: ys)
  case (Cons x xs)
  then obtain zs where zs: "filter_err P xs = Inr zs" "ys = x # zs \<or> ys = zs"
    by (auto split: sum.splits if_splits)
  then have "set zs \<subseteq> set xs" using filter_err_set by fast
  then have "f ` set zs \<subseteq> f ` set xs" by (rule image_mono)
  then show ?case using Cons.prems(2) Cons.IH [OF zs(1)] zs(2) by auto
qed simp

text \<open>Sequencing of steps that may fail, a guard, and a lookup that must succeed.\<close>

definition bind_err :: "'e + 'a \<Rightarrow> ('a \<Rightarrow> 'e + 'b) \<Rightarrow> 'e + 'b" where
  "bind_err m f = (case m of Inl e \<Rightarrow> Inl e | Inr x \<Rightarrow> f x)"

definition ensure :: "bool \<Rightarrow> 'e \<Rightarrow> 'e + unit" where
  "ensure b e = (if b then Inr () else Inl e)"

definition some_or :: "'e \<Rightarrow> 'a option \<Rightarrow> 'e + 'a" where
  "some_or e x = (case x of None \<Rightarrow> Inl e | Some y \<Rightarrow> Inr y)"

lemma bind_err_simps [simp]: "bind_err (Inr x) f = f x" "bind_err (Inl e) f = Inl e"
  by (simp_all add: bind_err_def)

lemma bind_err_Inr: "bind_err m f = Inr y \<longleftrightarrow> (\<exists>x. m = Inr x \<and> f x = Inr y)"
  by (cases m) simp_all

lemma bind_err_Inl: "bind_err m f = Inl e \<longleftrightarrow> m = Inl e \<or> (\<exists>x. m = Inr x \<and> f x = Inl e)"
  by (cases m) auto

lemma ensure_simps [simp]:
  "ensure b e = Inr u \<longleftrightarrow> b" "ensure b e = Inl e' \<longleftrightarrow> \<not> b \<and> e' = e"
  "ensure True e = Inr ()" "ensure False e = Inl e"
  by (auto simp: ensure_def)

lemma some_or_simps [simp]:
  "some_or e x = Inr y \<longleftrightarrow> x = Some y" "some_or e x = Inl e' \<longleftrightarrow> x = None \<and> e' = e"
  "some_or e (Some y) = Inr y" "some_or e None = Inl e"
  by (auto simp: some_or_def split: option.splits)

lemma bind_err_cong [fundef_cong]:
  "m = m' \<Longrightarrow> (\<And>x. m' = Inr x \<Longrightarrow> f x = f' x) \<Longrightarrow> bind_err m f = bind_err m' f'"
  by (cases m') simp_all

text \<open>A run through a pair-valued step.\<close>

lemma case_prod_Inr: "(case x of (a, b) \<Rightarrow> f a b) = Inr y \<longleftrightarrow> (\<exists>a b. x = (a, b) \<and> f a b = Inr y)"
  by (cases x) simp

lemmas run_simps = bind_err_Inr case_prod_Inr Let_def

text \<open>
  Congruences for evaluating a run on concrete rows: what comes after a step is not looked at
  before the step has a value.
\<close>

lemma bind_err_weak: "m = m' \<Longrightarrow> bind_err m f = bind_err m' f"
  by simp

lemmas eval_congs =
  bind_err_weak let_weak_cong prod.case_cong_weak sum.case_cong_weak option.case_cong_weak if_weak_cong

text \<open>Rows in the order of a key, and without duplicates: \<open>sorted(set(...))\<close>.\<close>

definition sorted_set :: "'a::linorder list \<Rightarrow> 'a list" where
  "sorted_set xs = sort (remdups xs)"

lemma sorted_set_props [simp]:
  "set (sorted_set xs) = set xs" "sorted (sorted_set xs)" "distinct (sorted_set xs)"
  by (simp_all add: sorted_set_def)

end
