(* ===== verification/LS_Vocab.thy ===== *)
theory LS_Vocab
  imports LS_Prelude
begin

text \<open>
  The vocabularies of \<open>app/domain/vocab.py\<close> as datatypes. Python's \<open>StrEnum\<close> members of
  different classes may share a value (\<open>ACTIVE\<close>, \<open>RELEASED\<close>, ...); the constructors
  here carry a prefix of their class. The members whose string is parsed or printed by
  modelled code also have their value and the parser \<open>ProductionState(text)\<close>.
\<close>

datatype role =
    ORG_ADMIN | SUPERVISOR | PLANNER | STOREKEEPER | IE_ENGINEER | QUALITY_MANAGER | VIEWER

datatype production_state =
    DRAFT | VALIDATED | PLANNED | IN_PRODUCTION | PRODUCTION_COMPLETE | DISPATCHED | CANCELLED

datatype material_state = MS_UNKNOWN | MS_READY | MS_AT_RISK | MS_SHORTAGE

datatype quality_state = QS_NOT_INSPECTED | QS_PENDING | QS_HOLD | QS_RELEASED

datatype run_status =
    RUN_QUEUED | RUN_RUNNING | RUN_AWAITING_REVIEW | RUN_COMPLETED | RUN_DEGRADED | RUN_FAILED
  | RUN_CANCELLED

datatype recommendation_status =
    REC_DRAFT | REC_PROPOSED | REC_APPROVED | REC_REJECTED | REC_EXPIRED | REC_APPLIED
  | REC_SUPERSEDED

datatype task_status = TASK_PENDING | TASK_RUNNING | TASK_SUCCEEDED | TASK_FAILED | TASK_CANCELLED

datatype job_status = JOB_READY | JOB_LEASED | JOB_DONE | JOB_FAILED | JOB_CANCELLED

datatype allocation_status = ALLOC_ACTIVE | ALLOC_RELEASED

datatype material_lot_status = LOT_QUARANTINE | LOT_ACCEPTED | LOT_REJECTED

datatype movement_type = RECEIPT | ISSUE | CORRECTION

datatype reservation_status = RES_ACTIVE | RES_RELEASED | RES_CONSUMED

datatype expected_receipt_status = ER_OPEN | ER_RECEIVED | ER_CANCELLED

datatype policy_status = POLICY_DRAFT | POLICY_ACTIVE | POLICY_RETIRED

datatype inspection_type = INLINE | FINAL

datatype inspection_result = PASS | FAIL | INSUFFICIENT_SAMPLE

datatype defect_severity = MINOR | MAJOR | CRITICAL

datatype quality_hold_status = HOLD_ACTIVE | HOLD_RELEASED

datatype approval_decision = DEC_APPROVED | DEC_REJECTED

datatype actor_type = USER | SERVICE | SYSTEM

datatype audit_outcome = SUCCESS | DENIED | FAILED

datatype document_type = DOC_SOP | DOC_QUALITY_POLICY | DOC_IE_STANDARD | DOC_OTHER

datatype document_version_status =
    DV_QUARANTINE | DV_PROCESSING | DV_ACTIVE | DV_REJECTED | DV_SUPERSEDED

datatype agent_recipient = AGENT_PLANNING | AGENT_RM | AGENT_IE | AGENT_QUALITY

datatype recommendation_kind =
    KIND_ALLOCATION | KIND_RESERVATION | KIND_ALLOCATION_AND_RESERVATION

datatype generated_by = GEN_DETERMINISTIC | GEN_MODEL

fun production_state_value :: "production_state \<Rightarrow> string" where
  "production_state_value DRAFT = ''DRAFT''"
| "production_state_value VALIDATED = ''VALIDATED''"
| "production_state_value PLANNED = ''PLANNED''"
| "production_state_value IN_PRODUCTION = ''IN_PRODUCTION''"
| "production_state_value PRODUCTION_COMPLETE = ''PRODUCTION_COMPLETE''"
| "production_state_value DISPATCHED = ''DISPATCHED''"
| "production_state_value CANCELLED = ''CANCELLED''"

definition production_states :: "production_state list" where
  "production_states =
     [DRAFT, VALIDATED, PLANNED, IN_PRODUCTION, PRODUCTION_COMPLETE, DISPATCHED, CANCELLED]"

text \<open>\<open>ProductionState(value)\<close>: \<open>None\<close> stands for the ValueError.\<close>

definition production_state_of :: "string \<Rightarrow> production_state option" where
  "production_state_of s = find (\<lambda>p. production_state_value p = s) production_states"

lemma production_state_of_value [simp]:
  "production_state_of (production_state_value p) = Some p"
  by (cases p) (simp_all add: production_state_of_def production_states_def)

lemma production_state_ofD: "production_state_of s = Some p \<Longrightarrow> production_state_value p = s"
  by (auto simp: production_state_of_def find_Some_iff)

fun approval_decision_value :: "approval_decision \<Rightarrow> string" where
  "approval_decision_value DEC_APPROVED = ''APPROVED''"
| "approval_decision_value DEC_REJECTED = ''REJECTED''"

definition approval_decision_of :: "string \<Rightarrow> approval_decision option" where
  "approval_decision_of s =
     find (\<lambda>d. approval_decision_value d = s) [DEC_APPROVED, DEC_REJECTED]"

lemma approval_decision_of_value [simp]:
  "approval_decision_of (approval_decision_value d) = Some d"
  by (cases d) (simp_all add: approval_decision_of_def)

fun inspection_type_value :: "inspection_type \<Rightarrow> string" where
  "inspection_type_value INLINE = ''INLINE''"
| "inspection_type_value FINAL = ''FINAL''"

fun inspection_result_value :: "inspection_result \<Rightarrow> string" where
  "inspection_result_value PASS = ''PASS''"
| "inspection_result_value FAIL = ''FAIL''"
| "inspection_result_value INSUFFICIENT_SAMPLE = ''INSUFFICIENT_SAMPLE''"

fun material_state_value :: "material_state \<Rightarrow> string" where
  "material_state_value MS_UNKNOWN = ''UNKNOWN''"
| "material_state_value MS_READY = ''READY''"
| "material_state_value MS_AT_RISK = ''AT_RISK''"
| "material_state_value MS_SHORTAGE = ''SHORTAGE''"

fun quality_state_value :: "quality_state \<Rightarrow> string" where
  "quality_state_value QS_NOT_INSPECTED = ''NOT_INSPECTED''"
| "quality_state_value QS_PENDING = ''PENDING''"
| "quality_state_value QS_HOLD = ''HOLD''"
| "quality_state_value QS_RELEASED = ''RELEASED''"

fun recommendation_status_value :: "recommendation_status \<Rightarrow> string" where
  "recommendation_status_value REC_DRAFT = ''DRAFT''"
| "recommendation_status_value REC_PROPOSED = ''PROPOSED''"
| "recommendation_status_value REC_APPROVED = ''APPROVED''"
| "recommendation_status_value REC_REJECTED = ''REJECTED''"
| "recommendation_status_value REC_EXPIRED = ''EXPIRED''"
| "recommendation_status_value REC_APPLIED = ''APPLIED''"
| "recommendation_status_value REC_SUPERSEDED = ''SUPERSEDED''"

fun run_status_value :: "run_status \<Rightarrow> string" where
  "run_status_value RUN_QUEUED = ''QUEUED''"
| "run_status_value RUN_RUNNING = ''RUNNING''"
| "run_status_value RUN_AWAITING_REVIEW = ''AWAITING_REVIEW''"
| "run_status_value RUN_COMPLETED = ''COMPLETED''"
| "run_status_value RUN_DEGRADED = ''DEGRADED''"
| "run_status_value RUN_FAILED = ''FAILED''"
| "run_status_value RUN_CANCELLED = ''CANCELLED''"

fun task_status_value :: "task_status \<Rightarrow> string" where
  "task_status_value TASK_PENDING = ''PENDING''"
| "task_status_value TASK_RUNNING = ''RUNNING''"
| "task_status_value TASK_SUCCEEDED = ''SUCCEEDED''"
| "task_status_value TASK_FAILED = ''FAILED''"
| "task_status_value TASK_CANCELLED = ''CANCELLED''"

fun agent_recipient_value :: "agent_recipient \<Rightarrow> string" where
  "agent_recipient_value AGENT_PLANNING = ''planning''"
| "agent_recipient_value AGENT_RM = ''rm''"
| "agent_recipient_value AGENT_IE = ''ie''"
| "agent_recipient_value AGENT_QUALITY = ''quality''"

fun recommendation_kind_value :: "recommendation_kind \<Rightarrow> string" where
  "recommendation_kind_value KIND_ALLOCATION = ''ALLOCATION''"
| "recommendation_kind_value KIND_RESERVATION = ''RESERVATION''"
| "recommendation_kind_value KIND_ALLOCATION_AND_RESERVATION = ''ALLOCATION_AND_RESERVATION''"

fun generated_by_value :: "generated_by \<Rightarrow> string" where
  "generated_by_value GEN_DETERMINISTIC = ''deterministic''"
| "generated_by_value GEN_MODEL = ''model''"

definition REPORT_EVENT_TYPE :: string where
  "REPORT_EVENT_TYPE = ''run.report''"

text \<open>The stages in the order an order passes them.\<close>

instantiation production_state :: linorder
begin

fun production_rank :: "production_state \<Rightarrow> nat" where
  "production_rank DRAFT = 0"
| "production_rank VALIDATED = 1"
| "production_rank PLANNED = 2"
| "production_rank IN_PRODUCTION = 3"
| "production_rank PRODUCTION_COMPLETE = 4"
| "production_rank DISPATCHED = 5"
| "production_rank CANCELLED = 6"

definition less_eq_production_state :: "production_state \<Rightarrow> production_state \<Rightarrow> bool" where
  "less_eq_production_state a b \<longleftrightarrow> production_rank a \<le> production_rank b"

definition less_production_state :: "production_state \<Rightarrow> production_state \<Rightarrow> bool" where
  "less_production_state a b \<longleftrightarrow> production_rank a < production_rank b"

instance
proof
  fix a b :: production_state
  assume "a \<le> b" and "b \<le> a"
  then show "a = b"
    by (cases a; cases b) (simp_all add: less_eq_production_state_def)
qed (auto simp: less_eq_production_state_def less_production_state_def)

end

end
