(* ===== verification/LS_Errors.thy ===== *)
theory LS_Errors
  imports LS_Prelude
begin

text \<open>
  The exceptions the modelled code raises, as values (\<open>app/api/errors.py\<close> and the
  built-in and library exceptions around it). An \<open>AppError\<close> carries its HTTP status,
  its contract code, its message (where the source interpolates values into the text,
  the template with the placeholders left out) and the field names of its
  \<open>field_errors\<close>. The other constructors are not turned into a contract-shaped answer by a
  handler of their own: the request ends with status 500.
\<close>

datatype error_code =
    UNAUTHENTICATED | FORBIDDEN | NOT_FOUND | VALIDATION_ERROR | CONFLICT | STALE_INPUT
  | EXPIRED | INVALID_TRANSITION | SELF_APPROVAL_DENIED | IDEMPOTENCY_KEY_REUSED | RATE_LIMITED

datatype exn =
    AppError (status_code: nat) (code: error_code) (message: string) (field_errors: "string list")
  | ValueError string
  | KeyError string
  | RuntimeError string
  | TypeError string
  | InvalidOperation
  | DivisionByZero
  | InsufficientSamples
  | UnsupportedUnitConversion
  | InvalidTransition
  | IntegrityError string
  | DataError string
  | NoResultFound
  | LookupError string
  | ValidationFailure string
  | PermanentJobError string
  | RetryableJobError string
  | LeaseLost

text \<open>Whether an exception is one of the contract-shaped rejections.\<close>

fun is_app_error :: "exn \<Rightarrow> bool" where
  "is_app_error (AppError _ _ _ _) = True"
| "is_app_error _ = False"

text \<open>A request ends with the AppError's status, or with 500 for anything unhandled.\<close>

fun http_status :: "exn \<Rightarrow> nat" where
  "http_status (AppError s _ _ _) = s"
| "http_status _ = 500"

end
