(* ===== verification/LS_Lifecycle.thy ===== *)
theory LS_Lifecycle
  imports LS_Vocab LS_Errors
begin

text \<open>
  The order lifecycle policy (\<open>app/domain/orders/lifecycle.py\<close>): the transition table
  as the source lists it and the lookup \<open>get_transition\<close>. The lemmas show which paths
  the table allows.
\<close>

record transition_rule =
  tr_source :: production_state
  tr_target :: production_state
  tr_permission :: string
  tr_preconditions :: "string list"

definition mk_rule ::
  "production_state \<Rightarrow> production_state \<Rightarrow> string \<Rightarrow> string list \<Rightarrow>
   (production_state \<times> production_state) \<times> transition_rule" where
  "mk_rule s t perm pre =
     ((s, t), \<lparr>tr_source = s, tr_target = t, tr_permission = perm, tr_preconditions = pre\<rparr>)"

definition TRANSITIONS :: "((production_state \<times> production_state) \<times> transition_rule) list" where
  "TRANSITIONS =
     [mk_rule DRAFT VALIDATED ''order:transition'' [''order_data_complete''],
      mk_rule VALIDATED PLANNED ''recommendation:apply'' [''has_active_allocation''],
      mk_rule PLANNED IN_PRODUCTION ''order:transition'' [],
      mk_rule IN_PRODUCTION PRODUCTION_COMPLETE ''order:transition'' [''produced_units_complete''],
      mk_rule PRODUCTION_COMPLETE DISPATCHED ''order:dispatch'' [''shipment_eligible''],
      mk_rule DRAFT CANCELLED ''order:cancel'' [],
      mk_rule VALIDATED CANCELLED ''order:cancel'' [],
      mk_rule PLANNED CANCELLED ''order:cancel'' []]"

definition get_transition ::
  "production_state \<Rightarrow> production_state \<Rightarrow> exn + transition_rule" where
  "get_transition source target =
     (case map_of TRANSITIONS (source, target) of
        None \<Rightarrow> Inl InvalidTransition
      | Some rule \<Rightarrow> Inr rule)"

lemmas transition_table = TRANSITIONS_def mk_rule_def

lemma get_transition_rule:
  "get_transition s t = Inr r \<Longrightarrow> tr_source r = s \<and> tr_target r = t"
  by (auto simp: get_transition_def transition_table split: option.splits if_splits)

text \<open>One step of the life of an order, and the states some sequence of steps reaches.\<close>

inductive step_allowed :: "production_state \<Rightarrow> production_state \<Rightarrow> bool" where
  "get_transition s t = Inr r \<Longrightarrow> step_allowed s t"

inductive_cases step_allowedE: "step_allowed s t"
inductive_simps step_from_cancelled: "step_allowed CANCELLED t"
inductive_simps step_from_dispatched: "step_allowed DISPATCHED t"

inductive path_allowed :: "production_state \<Rightarrow> production_state list \<Rightarrow> bool" where
  path_end: "path_allowed s []"
| path_step: "step_allowed s t \<Longrightarrow> path_allowed t ts \<Longrightarrow> path_allowed s (t # ts)"

inductive_cases path_ConsE: "path_allowed s (t # ts)"

lemma step_forward: "step_allowed s t \<Longrightarrow> s < t"
  by (auto elim!: step_allowedE
      simp: get_transition_def transition_table less_production_state_def
      split: option.splits if_splits)

lemma path_sorted: "path_allowed s ts \<Longrightarrow> sorted_wrt (<) (s # ts)"
proof (induction rule: path_allowed.induct)
  case (path_step s t ts)
  then show ?case by (auto dest: step_forward intro: less_trans)
qed simp

lemma step_into_dispatched: "step_allowed s DISPATCHED \<Longrightarrow> s = PRODUCTION_COMPLETE"
  and step_into_complete: "step_allowed s PRODUCTION_COMPLETE \<Longrightarrow> s = IN_PRODUCTION"
  and step_into_production: "step_allowed s IN_PRODUCTION \<Longrightarrow> s = PLANNED"
  and step_into_planned: "step_allowed s PLANNED \<Longrightarrow> s = VALIDATED"
  and step_into_validated: "step_allowed s VALIDATED \<Longrightarrow> s = DRAFT"
  by (auto elim!: step_allowedE simp: get_transition_def transition_table
      split: option.splits if_splits)

lemmas step_into =
  step_into_dispatched step_into_complete step_into_production step_into_planned
  step_into_validated

lemma path_to_dispatched_via:
  assumes "path_allowed s ts" and "ts \<noteq> []" and "last ts = DISPATCHED"
  shows "\<exists>n. s # ts = drop n [DRAFT, VALIDATED, PLANNED, IN_PRODUCTION, PRODUCTION_COMPLETE, DISPATCHED]"
  using assms
proof (induction rule: path_allowed.induct)
  case (path_step s t ts)
  show ?case
  proof (cases "ts = []")
    case True
    with path_step have "s = PRODUCTION_COMPLETE" by (auto dest: step_into)
    with path_step True show ?thesis by (intro exI [of _ 4]) simp
  next
    case False
    with path_step obtain n where
      n: "t # ts = drop n [DRAFT, VALIDATED, PLANNED, IN_PRODUCTION, PRODUCTION_COMPLETE, DISPATCHED]"
      by auto
    then have "n < 6" by (cases "n < 6") simp_all
    then have "n \<in> {0, 1, 2, 3, 4, 5}" by auto
    moreover have "n \<noteq> 5" using n False by auto
    moreover have "\<not> step_allowed s DRAFT" using step_forward [of s DRAFT]
      by (auto simp: less_production_state_def)
    ultimately show ?thesis using n path_step(1)
      by (elim insertE) (auto dest!: step_into intro: exI [of _ 0] exI [of _ 1] exI [of _ 2] exI [of _ 3])
  qed
qed simp

text \<open>
  C1. An order reaches DISPATCHED from DRAFT along one path only: validated, planned, put
  into production, completed, dispatched, with no stage skipped or repeated.
\<close>

theorem dispatched_only_through_every_stage:
  assumes "path_allowed DRAFT ts" and "ts \<noteq> []" and "last ts = DISPATCHED"
  shows "ts = [VALIDATED, PLANNED, IN_PRODUCTION, PRODUCTION_COMPLETE, DISPATCHED]"
proof -
  from path_to_dispatched_via [OF assms] obtain n where
    n: "DRAFT # ts = drop n [DRAFT, VALIDATED, PLANNED, IN_PRODUCTION, PRODUCTION_COMPLETE, DISPATCHED]" ..
  have "n < 6" using n by (cases "n < 6") simp_all
  then have "n \<in> {0, 1, 2, 3, 4, 5}" by auto
  then show ?thesis using n by (elim insertE) simp_all
qed

theorem dispatched_only_through_every_stage_witness:
  "path_allowed DRAFT [VALIDATED, PLANNED, IN_PRODUCTION, PRODUCTION_COMPLETE, DISPATCHED] \<and>
   last [VALIDATED, PLANNED, IN_PRODUCTION, PRODUCTION_COMPLETE, DISPATCHED] = DISPATCHED"
proof -
  have p: "path_allowed DRAFT [VALIDATED, PLANNED, IN_PRODUCTION, PRODUCTION_COMPLETE, DISPATCHED]"
    by (auto intro!: path_allowed.intros step_allowed.intros
        simp: get_transition_def transition_table)
  show ?thesis using p dispatched_only_through_every_stage [OF p] by simp
qed

text \<open>
  CANCELLED and DISPATCHED are final, every other state can still move, and an order
  whose production has started can no longer be cancelled.
\<close>

theorem final_states:
  "(\<forall>t. \<not> step_allowed CANCELLED t) \<and> (\<forall>t. \<not> step_allowed DISPATCHED t) \<and>
   (\<forall>s. s \<in> {DRAFT, VALIDATED, PLANNED, IN_PRODUCTION, PRODUCTION_COMPLETE} \<longleftrightarrow>
        (\<exists>t. step_allowed s t)) \<and>
   (\<forall>s. step_allowed s CANCELLED \<longleftrightarrow> s \<in> {DRAFT, VALIDATED, PLANNED})"
proof (intro conjI allI)
  fix s
  show "s \<in> {DRAFT, VALIDATED, PLANNED, IN_PRODUCTION, PRODUCTION_COMPLETE} \<longleftrightarrow>
        (\<exists>t. step_allowed s t)"
    by (cases s) (auto simp: step_allowed.simps get_transition_def transition_table
        split: option.splits if_splits)
  show "step_allowed s CANCELLED \<longleftrightarrow> s \<in> {DRAFT, VALIDATED, PLANNED}"
    by (cases s) (auto simp: step_allowed.simps get_transition_def transition_table)
qed (auto simp: step_from_cancelled step_from_dispatched get_transition_def transition_table
    split: option.splits if_splits)

end
