(* ===== verification/LS_Decimal.thy ===== *)
theory LS_Decimal
  imports LS_Errors
begin

text \<open>
  Python's \<open>decimal.Decimal\<close> as the code uses it: the value is a rational, every
  \<open>+ - * /\<close> is rounded to the 28 significant digits of the default context
  (ROUND_HALF_EVEN), and \<open>quantize\<close> raises InvalidOperation when its coefficient
  would not fit the context. Exponent limits, NaN and infinities are not modelled: the
  code never builds one from the columns it reads. \<open>app/domain/rounding.py\<close> is here too.
  The lemmas show when an operation is exact and how far it can be from the exact value.
\<close>

type_synonym decimal = rat

datatype rounding = ROUND_HALF_UP | ROUND_HALF_EVEN | ROUND_CEILING | ROUND_FLOOR | ROUND_DOWN

fun to_integral :: "rounding \<Rightarrow> decimal \<Rightarrow> int" where
  "to_integral ROUND_HALF_UP x =
     (if x < 0 then - \<lfloor>- x + 1 / 2\<rfloor> else \<lfloor>x + 1 / 2\<rfloor>)"
| "to_integral ROUND_HALF_EVEN x =
     (let f = \<lfloor>x\<rfloor>; d = x - of_int f
      in if d < 1 / 2 then f else if 1 / 2 < d then f + 1 else if even f then f else f + 1)"
| "to_integral ROUND_CEILING x = \<lceil>x\<rceil>"
| "to_integral ROUND_FLOOR x = \<lfloor>x\<rfloor>"
| "to_integral ROUND_DOWN x = (if x < 0 then \<lceil>x\<rceil> else \<lfloor>x\<rfloor>)"

section \<open>Rounding to an integer\<close>

text \<open>
  What every rounding mode promises: an integer stays, and no value moves by a whole
  unit or across an integer.
\<close>

locale rounding_mode =
  fixes rnd :: "rat \<Rightarrow> int"
  assumes rnd_int: "rnd (of_int n) = n"
    and rnd_near: "\<bar>of_int (rnd x) - x\<bar> < 1"
begin

lemma rnd_zero [simp]: "rnd 0 = 0"
  using rnd_int [of 0] by simp

lemma rnd_lower: "of_int n \<le> x \<Longrightarrow> n \<le> rnd x"
  using rnd_near [of x] by linarith

lemma rnd_upper: "x \<le> of_int n \<Longrightarrow> rnd x \<le> n"
  using rnd_near [of x] by linarith

lemma rnd_nonneg: "0 \<le> x \<Longrightarrow> 0 \<le> rnd x"
  using rnd_lower [of 0 x] by simp

lemma rnd_idem: "rnd (of_int (rnd x)) = rnd x"
  by (rule rnd_int)

end

text \<open>A mode that rounds to nearest moves a value by at most half a unit.\<close>

locale nearest_mode = rounding_mode +
  assumes rnd_half: "\<bar>of_int (rnd x) - x\<bar> \<le> 1 / 2"

interpretation floor_mode: rounding_mode "to_integral ROUND_FLOOR"
  by unfold_locales (simp, simp, linarith)

interpretation ceiling_mode: rounding_mode "to_integral ROUND_CEILING"
  by unfold_locales (simp, simp, linarith)

interpretation down_mode: rounding_mode "to_integral ROUND_DOWN"
  by unfold_locales (simp, simp, linarith)

lemma half_up_near: "\<bar>of_int (to_integral ROUND_HALF_UP x) - x\<bar> \<le> 1 / 2"
proof (cases "x < 0")
  case True
  then show ?thesis
    using floor_correct [of "- x + 1 / 2"] unfolding to_integral.simps abs_le_iff
    by (simp only: if_True) linarith
next
  case False
  then show ?thesis
    using floor_correct [of "x + 1 / 2"] unfolding to_integral.simps abs_le_iff
    by (simp only: if_False) linarith
qed

lemma half_even_near: "\<bar>of_int (to_integral ROUND_HALF_EVEN x) - x\<bar> \<le> 1 / 2"
proof -
  have f: "of_int \<lfloor>x\<rfloor> \<le> x" "x < of_int (\<lfloor>x\<rfloor> + 1)" using floor_correct [of x] by simp_all
  then show ?thesis
    unfolding to_integral.simps Let_def abs_le_iff by (simp only: of_int_add of_int_1 split: if_split) linarith
qed

lemma half_up_int: "to_integral ROUND_HALF_UP (of_int n) = n"
proof -
  have "\<lfloor>- of_int n + 1 / 2 :: rat\<rfloor> = - n" and "\<lfloor>of_int n + 1 / 2 :: rat\<rfloor> = n"
    by (simp_all add: floor_eq_iff)
  then show ?thesis by simp
qed

interpretation half_up: nearest_mode "to_integral ROUND_HALF_UP"
  by unfold_locales
    (rule half_up_int, rule le_less_trans [OF half_up_near], simp, rule half_up_near)

interpretation half_even: nearest_mode "to_integral ROUND_HALF_EVEN"
  by unfold_locales
    (simp add: Let_def, rule le_less_trans [OF half_even_near], simp, rule half_even_near)

declare to_integral.simps [simp del]

section \<open>Powers of ten and the position of the leading digit\<close>

definition pow10 :: "int \<Rightarrow> rat" where
  "pow10 k = (if 0 \<le> k then 10 ^ nat k else 1 / 10 ^ nat (- k))"

lemma pow10_pos [simp]: "0 < pow10 k"
  by (simp add: pow10_def)

lemma pow10_nz [simp]: "pow10 k \<noteq> 0"
  using pow10_pos [of k] by linarith

lemma pow10_0 [simp]: "pow10 0 = 1"
  by (simp add: pow10_def)

lemma pow10_add: "pow10 (a + b) = pow10 a * pow10 b"
proof -
  have *: "(10::rat) ^ m * (1 / 10 ^ n) = (if n \<le> m then 10 ^ (m - n) else 1 / 10 ^ (n - m))" for m n
    by (auto simp: power_diff divide_simps simp flip: power_add)
  show ?thesis
  proof (cases "0 \<le> a"; cases "0 \<le> b")
    assume "0 \<le> a" "0 \<le> b"
    then show ?thesis by (simp add: pow10_def nat_add_distrib power_add)
  next
    assume "0 \<le> a" "\<not> 0 \<le> b"
    then show ?thesis using * [of "nat a" "nat (- b)"]
      by (auto simp: pow10_def split: if_splits) arith+
  next
    assume "\<not> 0 \<le> a" "0 \<le> b"
    then show ?thesis using * [of "nat b" "nat (- a)"]
      by (auto simp: pow10_def mult.commute split: if_splits) arith+
  next
    assume "\<not> 0 \<le> a" "\<not> 0 \<le> b"
    then show ?thesis using nat_add_distrib [of "- a" "- b"]
      by (simp add: pow10_def power_add)
  qed
qed

lemma pow10_minus: "pow10 (- a) = 1 / pow10 a"
  using pow10_add [of a "- a"] by (simp add: field_simps)

lemma pow10_nat: "pow10 (int n) = 10 ^ n"
  by (simp add: pow10_def)

lemma pow10_less_iff [simp]: "pow10 a < pow10 b \<longleftrightarrow> a < b"
proof -
  have ge1: "1 \<le> pow10 c" if "0 \<le> c" for c using that by (simp add: pow10_def)
  have gt1: "1 < pow10 c" if "0 < c" for c using that by (simp add: pow10_def)
  have "pow10 a < pow10 b" if "a < b"
    using gt1 [of "b - a"] that pow10_add [of a "b - a"] by simp
  moreover have "pow10 b \<le> pow10 a" if "b \<le> a"
    using ge1 [of "a - b"] that pow10_add [of b "a - b"] by simp
  ultimately show ?thesis by (meson linorder_not_le)
qed

lemma pow10_le_iff [simp]: "pow10 a \<le> pow10 b \<longleftrightarrow> a \<le> b"
  by (meson linorder_not_le pow10_less_iff)

fun ndigits :: "nat \<Rightarrow> nat" where
  "ndigits n = (if n = 0 then 0 else Suc (ndigits (n div 10)))"

declare ndigits.simps [simp del]

lemma ndigits_le_iff: "ndigits n \<le> k \<longleftrightarrow> n < 10 ^ k"
proof (induction k arbitrary: n)
  case 0
  show ?case by (subst ndigits.simps) simp
next
  case (Suc k)
  have "ndigits n \<le> Suc k \<longleftrightarrow> n = 0 \<or> ndigits (n div 10) \<le> k"
    by (subst ndigits.simps) simp
  also have "\<dots> \<longleftrightarrow> n < 10 ^ Suc k"
    by (auto simp: Suc.IH div_less_iff_less_mult mult.commute)
  finally show ?case .
qed

lemma ndigits_pos: "0 < n \<Longrightarrow> 0 < ndigits n"
  by (subst ndigits.simps) simp

lemma ndigits_bounds:
  assumes "0 < n"
  shows "10 ^ (ndigits n - 1) \<le> n" and "n < 10 ^ ndigits n"
proof -
  show "n < 10 ^ ndigits n" by (simp flip: ndigits_le_iff)
  have "\<not> ndigits n \<le> ndigits n - 1" using ndigits_pos [OF assms] by simp
  then show "10 ^ (ndigits n - 1) \<le> n" by (simp add: ndigits_le_iff)
qed

text \<open>\<open>Decimal.adjusted()\<close>: the exponent of the leading digit of a nonzero value.\<close>

definition adjusted :: "decimal \<Rightarrow> int" where
  "adjusted x =
     (if 1 \<le> \<bar>x\<bar> then int (ndigits (nat \<lfloor>\<bar>x\<bar>\<rfloor>)) - 1
      else - int (ndigits (nat (\<lceil>1 / \<bar>x\<bar>\<rceil> - 1))))"

text \<open>The same digits counted on binary integers, which is what evaluation uses.\<close>

function idigits :: "int \<Rightarrow> nat" where
  "idigits n = (if n \<le> 0 then 0 else Suc (idigits (n div 10)))"
  by pat_completeness auto
termination by (relation "measure nat") auto

declare idigits.simps [simp del]

lemma idigits_ndigits: "idigits n = ndigits (nat n)"
proof (induction n rule: idigits.induct)
  case (1 n)
  then show ?case
    by (subst idigits.simps, subst ndigits.simps) (auto simp: nat_div_distrib)
qed

lemma adjusted_code [code]:
  "adjusted x =
     (if 1 \<le> \<bar>x\<bar> then int (idigits \<lfloor>\<bar>x\<bar>\<rfloor>) - 1 else - int (idigits (\<lceil>1 / \<bar>x\<bar>\<rceil> - 1)))"
  by (simp add: adjusted_def idigits_ndigits)

lemma adjusted_bounds:
  assumes "x \<noteq> 0"
  shows "pow10 (adjusted x) \<le> \<bar>x\<bar> \<and> \<bar>x\<bar> < pow10 (adjusted x + 1)"
proof (cases "1 \<le> \<bar>x\<bar>")
  case True
  define n where "n = nat \<lfloor>\<bar>x\<bar>\<rfloor>"
  have n: "0 < n" "of_nat n \<le> \<bar>x\<bar>" "\<bar>x\<bar> < of_nat n + 1"
    using True floor_correct [of "\<bar>x\<bar>"] unfolding n_def by (simp_all add: le_floor_iff)
  note b = ndigits_bounds [OF n(1)]
  have "pow10 (int (ndigits n) - 1) = (10::rat) ^ (ndigits n - 1)"
    using ndigits_pos [OF n(1)] by (simp add: of_nat_diff flip: pow10_nat)
  also have "\<dots> \<le> of_nat n" using b(1) by (metis of_nat_le_iff of_nat_numeral of_nat_power)
  finally have lo: "pow10 (int (ndigits n) - 1) \<le> \<bar>x\<bar>" using n(2) by simp
  have "of_nat n + 1 \<le> (10::rat) ^ ndigits n"
    using b(2) by (metis Suc_leI of_nat_Suc of_nat_le_iff of_nat_numeral of_nat_power add.commute)
  then have "\<bar>x\<bar> < pow10 (int (ndigits n))" using n(3) by (simp add: pow10_nat)
  with lo True show ?thesis by (simp add: adjusted_def flip: n_def)
next
  case False
  define y where "y = 1 / \<bar>x\<bar>"
  define m where "m = nat (\<lceil>y\<rceil> - 1)"
  have y: "1 < y" using False assms by (simp add: y_def)
  then have m: "0 < m" "of_nat m < y" "y \<le> of_nat m + 1"
    using ceiling_correct [of y] unfolding m_def by (simp_all add: less_ceiling_iff)
  note b = ndigits_bounds [OF m(1)]
  have "of_nat m + 1 \<le> (10::rat) ^ ndigits m"
    using b(2) by (metis Suc_leI of_nat_Suc of_nat_le_iff of_nat_numeral of_nat_power add.commute)
  then have "y \<le> pow10 (int (ndigits m))" using m(3) by (simp add: pow10_nat)
  then have lo: "pow10 (- int (ndigits m)) \<le> \<bar>x\<bar>"
    using assms by (simp add: pow10_minus y_def field_simps)
  have "pow10 (int (ndigits m) - 1) = (10::rat) ^ (ndigits m - 1)"
    using ndigits_pos [OF m(1)] by (simp add: of_nat_diff flip: pow10_nat)
  also have "\<dots> \<le> of_nat m" using b(1) by (metis of_nat_le_iff of_nat_numeral of_nat_power)
  finally have "pow10 (int (ndigits m) - 1) < y" using m(2) by simp
  then have "\<bar>x\<bar> < 1 / pow10 (int (ndigits m) - 1)"
    using assms by (simp add: y_def field_simps)
  also have "\<dots> = pow10 (- int (ndigits m) + 1)"
    by (simp flip: pow10_minus)
  finally show ?thesis using lo False by (simp add: adjusted_def y_def m_def)
qed

lemma adjusted_unique:
  assumes "pow10 a \<le> \<bar>x\<bar>" and "\<bar>x\<bar> < pow10 (a + 1)"
  shows "adjusted x = a"
proof -
  have "x \<noteq> 0" using assms(1) pow10_pos [of a] by (metis abs_zero linorder_not_le)
  then have "pow10 (adjusted x) \<le> \<bar>x\<bar>" "\<bar>x\<bar> < pow10 (adjusted x + 1)"
    using adjusted_bounds by auto
  then have "pow10 (adjusted x) < pow10 (a + 1)" "pow10 a < pow10 (adjusted x + 1)"
    using assms by (meson le_less_trans)+
  then show ?thesis by simp
qed

section \<open>The arithmetic context\<close>

definition precision :: int where
  "precision = 28"

definition ctx_round :: "decimal \<Rightarrow> decimal" where
  "ctx_round x =
     (if x = 0 then 0
      else let e = precision - 1 - adjusted x
           in of_int (to_integral ROUND_HALF_EVEN (x * pow10 e)) * pow10 (- e))"

definition dadd :: "decimal \<Rightarrow> decimal \<Rightarrow> decimal" where
  "dadd x y = ctx_round (x + y)"

definition dsub :: "decimal \<Rightarrow> decimal \<Rightarrow> decimal" where
  "dsub x y = ctx_round (x - y)"

definition dmul :: "decimal \<Rightarrow> decimal \<Rightarrow> decimal" where
  "dmul x y = ctx_round (x * y)"

text \<open>Division, for a divisor the code has already found to be nonzero.\<close>

definition ddiv :: "decimal \<Rightarrow> decimal \<Rightarrow> decimal" where
  "ddiv x y = ctx_round (x / y)"

text \<open>\<open>sum(values, Decimal(0))\<close>.\<close>

definition dsum :: "decimal list \<Rightarrow> decimal" where
  "dsum xs = foldl dadd 0 xs"

text \<open>
  \<open>scaled s x\<close>: the value has at most \<open>s\<close> decimal places. \<open>numeric p s x\<close>: it is
  a value of a PostgreSQL column \<open>numeric(p, s)\<close>.
\<close>

definition scaled :: "nat \<Rightarrow> decimal \<Rightarrow> bool" where
  "scaled s x \<longleftrightarrow> of_int \<lfloor>x * 10 ^ s\<rfloor> = x * 10 ^ s"

definition numeric :: "nat \<Rightarrow> nat \<Rightarrow> decimal \<Rightarrow> bool" where
  "numeric p s x \<longleftrightarrow> scaled s x \<and> \<bar>x\<bar> * 10 ^ s < 10 ^ p"

lemma scaledI: "x * 10 ^ s = of_int m \<Longrightarrow> scaled s x"
  by (simp add: scaled_def)

lemma scaledE:
  assumes "scaled s x"
  obtains m where "x * 10 ^ s = of_int m"
  using assms unfolding scaled_def by metis

lemma scaled_0 [simp, intro]: "scaled s 0"
  by (rule scaledI [where m = 0]) simp

lemma scaled_of_int [simp, intro]: "scaled s (of_int n)"
  by (rule scaledI [where m = "n * 10 ^ s"]) simp

lemma scaled_add [intro]: "scaled s x \<Longrightarrow> scaled s y \<Longrightarrow> scaled s (x + y)"
  by (elim scaledE) (rule scaledI, simp add: distrib_right flip: of_int_add)

lemma scaled_minus [intro]: "scaled s x \<Longrightarrow> scaled s (- x)"
  by (elim scaledE) (rule scaledI, simp flip: of_int_minus)

lemma scaled_diff [intro]: "scaled s x \<Longrightarrow> scaled s y \<Longrightarrow> scaled s (x - y)"
  by (elim scaledE) (rule scaledI, simp add: left_diff_distrib flip: of_int_diff)

lemma scaled_mult:
  assumes "scaled s x" and "scaled t y"
  shows "scaled (s + t) (x * y)"
proof -
  from assms obtain m n where "x * 10 ^ s = of_int m" and "y * 10 ^ t = of_int n"
    by (elim scaledE)
  then have "(x * 10 ^ s) * (y * 10 ^ t) = of_int (m * n)" by simp
  moreover have "x * y * 10 ^ (s + t) = (x * 10 ^ s) * (y * 10 ^ t)"
    by (simp add: power_add mult_ac)
  ultimately show ?thesis by (intro scaledI) (rule trans)
qed

lemma scaled_mono: "s \<le> t \<Longrightarrow> scaled s x \<Longrightarrow> scaled t x"
  using scaled_mult [of s x "t - s" 1] scaled_of_int [of "t - s" 1] by simp

lemma scaled_tsum: "(\<And>r. r \<in> set rs \<Longrightarrow> P r \<Longrightarrow> scaled s (q r)) \<Longrightarrow> scaled s (tsum P q rs)"
  by (induction rs) auto

lemma less_pow10:
  assumes "\<bar>x\<bar> * 10 ^ s < 10 ^ p"
  shows "\<bar>x\<bar> < pow10 (int p - int s)"
proof -
  have "\<bar>x\<bar> * pow10 (int s) < pow10 (int p)" using assms by (simp only: pow10_nat)
  also have "pow10 (int p) = pow10 (int p - int s) * pow10 (int s)"
    by (simp flip: pow10_add)
  finally show ?thesis by simp
qed

text \<open>A value with at most 28 significant digits is left alone by the context.\<close>

lemma ctx_round_exact:
  assumes "scaled s x" and "\<bar>x\<bar> * 10 ^ s < 10 ^ 28"
  shows "ctx_round x = x"
proof (cases "x = 0")
  case True
  then show ?thesis by (simp add: ctx_round_def)
next
  case False
  obtain m where m: "x * 10 ^ s = of_int m" using assms(1) by (rule scaledE)
  define e where "e = precision - 1 - adjusted x"
  have "pow10 (adjusted x) \<le> \<bar>x\<bar>" using adjusted_bounds [OF False] by simp
  also have "\<bar>x\<bar> < pow10 (28 - int s)" using less_pow10 [OF assms(2)] by simp
  finally have "int s \<le> e" by (simp add: e_def precision_def)
  then have "x * pow10 e = of_int (m * 10 ^ nat (e - int s))"
    using pow10_add [of "int s" "e - int s"] m by (simp add: pow10_nat pow10_def mult.assoc [symmetric])
  then have "to_integral ROUND_HALF_EVEN (x * pow10 e) = m * 10 ^ nat (e - int s)"
    by (metis half_even.rnd_int)
  with \<open>x * pow10 e = _\<close> have "of_int (to_integral ROUND_HALF_EVEN (x * pow10 e)) = x * pow10 e"
    by simp
  then show ?thesis
    using False by (simp add: ctx_round_def Let_def pow10_minus flip: e_def)
qed

text \<open>Otherwise the relative error is at most half a unit in the 28th digit.\<close>

lemma ctx_round_error: "\<bar>ctx_round x - x\<bar> \<le> \<bar>x\<bar> * (5 / 10 ^ 28)"
proof (cases "x = 0")
  case True
  then show ?thesis by (simp add: ctx_round_def)
next
  case False
  define e where "e = precision - 1 - adjusted x"
  let ?r = "of_int (to_integral ROUND_HALF_EVEN (x * pow10 e)) :: rat"
  have big: "pow10 27 \<le> \<bar>x\<bar> * pow10 e"
  proof -
    have "pow10 27 = pow10 (adjusted x) * pow10 e"
      by (simp add: e_def precision_def flip: pow10_add)
    then show ?thesis using adjusted_bounds [OF False] by (simp add: mult_right_mono less_imp_le)
  qed
  have "\<bar>?r - x * pow10 e\<bar> \<le> 1 / 2" by (rule half_even.rnd_half)
  also have "\<dots> \<le> \<bar>x\<bar> * pow10 e * (5 / 10 ^ 28)" using big by (simp add: pow10_def)
  finally have "\<bar>?r - x * pow10 e\<bar> * pow10 (- e) \<le> \<bar>x\<bar> * pow10 e * (5 / 10 ^ 28) * pow10 (- e)"
    by (rule mult_right_mono) (simp add: less_imp_le)
  also have "\<dots> = \<bar>x\<bar> * (5 / 10 ^ 28)" by (simp add: pow10_minus)
  also have "\<bar>?r - x * pow10 e\<bar> * pow10 (- e) = \<bar>(?r - x * pow10 e) * pow10 (- e)\<bar>"
    by (simp add: abs_mult less_imp_le)
  also have "(?r - x * pow10 e) * pow10 (- e) = ctx_round x - x"
    using False by (simp add: ctx_round_def Let_def pow10_minus diff_divide_distrib flip: e_def)
  finally show ?thesis .
qed

lemma ctx_round_0 [simp]: "ctx_round 0 = 0"
  by (simp add: ctx_round_def)

lemma ctx_round_pos: "0 < x \<Longrightarrow> 0 < ctx_round x"
proof -
  assume "0 < x"
  moreover from this have "x * (5 / 10 ^ 28) < x" by simp
  ultimately show ?thesis using ctx_round_error [of x] by linarith
qed

lemma ctx_round_nonneg: "0 \<le> x \<Longrightarrow> 0 \<le> ctx_round x"
  using ctx_round_pos [of x] by (cases "x = 0") auto

lemma ctx_round_minus_error: "0 \<le> x \<Longrightarrow> ctx_round x \<le> x + x * (5 / 10 ^ 28)"
  using ctx_round_error [of x] abs_of_nonneg [of x] by linarith

lemma dadd_exact: "scaled s x \<Longrightarrow> scaled s y \<Longrightarrow> \<bar>x + y\<bar> * 10 ^ s < 10 ^ 28 \<Longrightarrow> dadd x y = x + y"
  unfolding dadd_def by (rule ctx_round_exact) auto

lemma dsub_exact: "scaled s x \<Longrightarrow> scaled s y \<Longrightarrow> \<bar>x - y\<bar> * 10 ^ s < 10 ^ 28 \<Longrightarrow> dsub x y = x - y"
  unfolding dsub_def by (rule ctx_round_exact) auto

lemma numeric_abs: "numeric p s x \<Longrightarrow> \<bar>x\<bar> * 10 ^ s < 10 ^ p" and numeric_scaled: "numeric p s x \<Longrightarrow> scaled s x"
  by (simp_all add: numeric_def)

lemma numeric_0 [simp]: "numeric p s 0"
  by (simp add: numeric_def)

lemma numeric_le: "numeric p s y \<Longrightarrow> scaled s x \<Longrightarrow> \<bar>x\<bar> \<le> \<bar>y\<bar> \<Longrightarrow> numeric p s x"
  unfolding numeric_def by (meson le_less_trans mult_right_mono zero_le_numeral zero_le_power)

text \<open>Sums and differences of two column values of at most 27 digits are exact.\<close>

lemma numeric_dadd:
  assumes "numeric p s x" and "numeric p s y" and "p \<le> 27"
  shows "dadd x y = x + y"
proof (rule dadd_exact)
  have "\<bar>x + y\<bar> * 10 ^ s \<le> \<bar>x\<bar> * 10 ^ s + \<bar>y\<bar> * 10 ^ s"
    unfolding distrib_right [symmetric] by (rule mult_right_mono [OF abs_triangle_ineq]) simp
  also have "\<dots> < 10 ^ p + 10 ^ p"
    using assms by (intro add_strict_mono numeric_abs)
  also have "\<dots> \<le> (2::rat) * 10 ^ 27"
    using power_increasing [OF assms(3), of "10::rat"] by simp
  also have "\<dots> < 10 ^ 28" by simp
  finally show "\<bar>x + y\<bar> * 10 ^ s < 10 ^ 28" .
qed (use assms in \<open>simp_all add: numeric_def\<close>)

lemma numeric_minus: "numeric p s x \<Longrightarrow> numeric p s (- x)"
  by (auto simp: numeric_def)

lemma numeric_dsub: "numeric p s x \<Longrightarrow> numeric p s y \<Longrightarrow> p \<le> 27 \<Longrightarrow> dsub x y = x - y"
  using numeric_dadd [of p s x "- y"] by (simp add: numeric_minus dadd_def dsub_def)

lemma dsum_Nil [simp]: "dsum [] = 0"
  by (simp add: dsum_def)

text \<open>A running sum of nonnegative column values is exact as long as its total is.\<close>

lemma foldl_dadd_exact:
  assumes "\<And>x. x \<in> set xs \<Longrightarrow> scaled s x \<and> 0 \<le> x" and "scaled s a" and "0 \<le> a"
    and "(a + sum_list xs) * 10 ^ s < 10 ^ 28"
  shows "foldl dadd a xs = a + sum_list xs"
  using assms
proof (induction xs arbitrary: a)
  case (Cons x xs)
  have nn: "0 \<le> sum_list xs" using Cons.prems(1) by (intro sum_list_nonneg) auto
  have "dadd a x = a + x"
  proof (rule dadd_exact)
    have "\<bar>a + x\<bar> * 10 ^ s \<le> (a + sum_list (x # xs)) * 10 ^ s"
      using Cons.prems(1) [of x] Cons.prems(3) nn by (intro mult_right_mono) auto
    from le_less_trans [OF this Cons.prems(4)] show "\<bar>a + x\<bar> * 10 ^ s < 10 ^ 28" .
  qed (use Cons.prems in auto)
  moreover have "foldl dadd (a + x) xs = a + x + sum_list xs"
    using Cons.prems by (intro Cons.IH) (auto simp: add.assoc)
  ultimately show ?case by (simp add: add.assoc)
qed simp

lemma dsum_exact:
  assumes "\<And>x. x \<in> set xs \<Longrightarrow> scaled s x \<and> 0 \<le> x" and "sum_list xs * 10 ^ s < 10 ^ 28"
  shows "dsum xs = sum_list xs"
  unfolding dsum_def using foldl_dadd_exact [of xs s 0] assms by simp

text \<open>
  A quotient of two values with few digits stays on its side of every integer when the
  context rounds it, so that the floor and the ceiling of a computed quotient are those of
  the exact one.
\<close>

lemma ddiv_side:
  assumes a: "x * 10 ^ s = of_int a" "\<bar>of_int a * 10 ^ t\<bar> * 5 < (10::rat) ^ 28"
    and b: "y * 10 ^ t = of_int b" "0 < y"
  shows "x / y < of_int k \<Longrightarrow> ddiv x y < of_int k" and "of_int k < x / y \<Longrightarrow> of_int k < ddiv x y"
proof -
  let ?q = "x / y"
  have bpos: "0 < (of_int b :: rat)" unfolding b(1) [symmetric] using b(2) by simp
  have q: "?q * (of_int b * 10 ^ s) = of_int a * 10 ^ t"
    using a(1) b by (simp add: field_simps)
  have err: "\<bar>ddiv x y - ?q\<bar> * (of_int b * 10 ^ s) < 1"
  proof -
    have "\<bar>ddiv x y - ?q\<bar> * (of_int b * 10 ^ s) \<le> (\<bar>?q\<bar> * (5 / 10 ^ 28)) * (of_int b * 10 ^ s)"
      unfolding ddiv_def using ctx_round_error [of ?q] bpos by (intro mult_right_mono) simp_all
    also have "\<dots> = \<bar>?q * (of_int b * 10 ^ s)\<bar> * (5 / 10 ^ 28)"
      using bpos by (simp add: abs_mult)
    also have "\<dots> = \<bar>of_int a * 10 ^ t\<bar> * 5 / 10 ^ 28" unfolding q by simp
    also have "\<dots> < 1" using a(2) by simp
    finally show ?thesis .
  qed
  have gap: "1 \<le> \<bar>?q - of_int k\<bar> * (of_int b * 10 ^ s)" if "?q \<noteq> of_int k"
  proof -
    define d where "d = a * 10 ^ t - k * b * 10 ^ s"
    have e: "(?q - of_int k) * (of_int b * 10 ^ s) = of_int d"
      using q by (simp add: d_def left_diff_distrib mult.assoc)
    then have "d \<noteq> 0" using that bpos by auto
    then have "1 \<le> \<bar>of_int d :: rat\<bar>" by linarith
    then show ?thesis using bpos unfolding e [symmetric] abs_mult by simp
  qed
  have near: "\<bar>ddiv x y - ?q\<bar> < \<bar>?q - of_int k\<bar>" if "?q \<noteq> of_int k"
    using less_le_trans [OF err gap [OF that]] bpos by (simp add: mult_less_cancel_right)
  show "ddiv x y < of_int k" if "?q < of_int k" using near that by linarith
  show "of_int k < ddiv x y" if "of_int k < ?q" using near that by linarith
qed

lemma ddiv_floor_ceiling:
  assumes a: "x * 10 ^ s = of_int a" "\<bar>of_int a * 10 ^ t\<bar> * 5 < (10::rat) ^ 28"
    and b: "y * 10 ^ t = of_int b" "0 < y"
    and small: "\<bar>x / y\<bar> < 10 ^ 28"
  shows "\<lfloor>ddiv x y\<rfloor> = \<lfloor>x / y\<rfloor>" and "\<lceil>ddiv x y\<rceil> = \<lceil>x / y\<rceil>"
proof -
  note side = ddiv_side [OF a b]
  have int: "ddiv x y = of_int k" if "x / y = of_int k" for k
    unfolding ddiv_def that using small that by (intro ctx_round_exact [where s = 0]) auto
  have ge: "of_int k \<le> ddiv x y" if "of_int k \<le> x / y" for k
    using side(2) [of k] int [of k] that by (cases "x / y = of_int k") auto
  have le: "ddiv x y \<le> of_int k" if "x / y \<le> of_int k" for k
    using side(1) [of k] int [of k] that by (cases "x / y = of_int k") auto
  show "\<lfloor>ddiv x y\<rfloor> = \<lfloor>x / y\<rfloor>"
    using ge [of "\<lfloor>x / y\<rfloor>"] side(1) [of "\<lfloor>x / y\<rfloor> + 1"] floor_correct [of "x / y"]
    by (intro floor_unique) simp_all
  show "\<lceil>ddiv x y\<rceil> = \<lceil>x / y\<rceil>"
    using le [of "\<lceil>x / y\<rceil>"] side(2) [of "\<lceil>x / y\<rceil> - 1"] ceiling_correct [of "x / y"]
    by (intro ceiling_unique) simp_all
qed

text \<open>Division by a zero the code has not ruled out raises.\<close>

definition ddiv_exn :: "decimal \<Rightarrow> decimal \<Rightarrow> exn + decimal" where
  "ddiv_exn x y =
     (if y = 0 then Inl (if x = 0 then InvalidOperation else DivisionByZero) else Inr (ddiv x y))"

section \<open>Rounding to a number of places\<close>

text \<open>\<open>value.quantize(Decimal(1).scaleb(-places), rounding=...)\<close>.\<close>

definition quantize :: "rounding \<Rightarrow> int \<Rightarrow> decimal \<Rightarrow> exn + decimal" where
  "quantize m places x =
     (let n = to_integral m (x * pow10 places)
      in if 10 ^ 28 \<le> \<bar>n\<bar> then Inl InvalidOperation else Inr (of_int n * pow10 (- places)))"

lemma scaled_quantize:
  assumes "quantize m (int s) x = Inr y"
  shows "scaled s y"
  using assms by (auto simp: quantize_def Let_def pow10_minus pow10_nat split: if_splits intro!: scaledI)

lemmas quantize_2 = scaled_quantize [where s = 2, simplified]
lemmas quantize_4 = scaled_quantize [where s = 4, simplified]

definition quantize_display :: "decimal \<Rightarrow> int \<Rightarrow> exn + decimal" where
  "quantize_display value places = quantize ROUND_HALF_UP places value"

definition round_up_to_pack :: "decimal \<Rightarrow> decimal option \<Rightarrow> exn + decimal" where
  "round_up_to_pack quantity pack_size =
     (case pack_size of
        None \<Rightarrow> Inr quantity
      | Some p \<Rightarrow>
          if p \<le> 0 then Inl (ValueError ''pack_size must be positive'')
          else let multiples = of_int (to_integral ROUND_CEILING (ddiv quantity p))
               in Inr (dmul multiples p))"

end
