(* ===== verification/LS_PlanningCalc.thy ===== *)
theory LS_PlanningCalc
  imports LS_Decimal LS_Vocab
    "HOL-Library.List_Lexorder" "HOL-Library.Char_ord" "HOL-Library.Product_Lexorder"
begin

text \<open>
  Planning formulas (\<open>app/domain/planning/calc.py\<close>): standard minutes, utilization and the
  earliest-slot allocation. Line ids sort as their fixed-width hexadecimal text does, that
  is, as numbers. The lemmas bound what a plan takes from a slot and allocates in all, and
  one exhibits a plan whose last allocation is too small to be booked.
\<close>

record slot_capacity =
  sc_slot_id :: uuid
  sc_line_id :: uuid
  sc_slot_date :: date
  sc_shift_code :: string
  sc_available_operator_minutes :: decimal
  sc_planned_efficiency :: decimal
  sc_allocated_standard_minutes :: decimal

definition capacity_standard_minutes :: "slot_capacity \<Rightarrow> decimal" where
  "capacity_standard_minutes s = dmul (sc_available_operator_minutes s) (sc_planned_efficiency s)"

definition remaining_standard_minutes :: "slot_capacity \<Rightarrow> exn + decimal" where
  "remaining_standard_minutes s =
     (let free = max 0 (dsub (capacity_standard_minutes s) (sc_allocated_standard_minutes s))
      in quantize ROUND_DOWN 2 free)"

record slot_allocation =
  sa_slot_id :: uuid
  sa_line_id :: uuid
  sa_slot_date :: date
  sa_shift_code :: string
  sa_standard_minutes :: decimal
  sa_units :: decimal

datatype unscheduled_reason =
    NO_COMPATIBLE_LINE | INSUFFICIENT_CAPACITY_BEFORE_DUE_DATE | LIMITED_BY_MATERIAL

record allocation_plan =
  ap_allocations :: "slot_allocation list"
  ap_requested_units :: int
  ap_allocated_units :: decimal
  ap_unscheduled_units :: decimal
  ap_unscheduled_reason :: "unscheduled_reason option"
  ap_finish_date :: "date option"
  ap_required_standard_minutes :: decimal

definition required_standard_minutes :: "int \<Rightarrow> decimal \<Rightarrow> exn + decimal" where
  "required_standard_minutes remaining_units sam_minutes_per_unit =
     (if remaining_units < 0 then Inl (ValueError ''remaining_units must be >= 0'')
      else if sam_minutes_per_unit \<le> 0 then Inl (ValueError ''sam_minutes_per_unit must be positive'')
      else Inr (dmul (of_int remaining_units) sam_minutes_per_unit))"

definition available_standard_minutes :: "decimal list \<Rightarrow> decimal \<Rightarrow> exn + decimal" where
  "available_standard_minutes operator_minutes planned_efficiency =
     (if \<not> (0 < planned_efficiency \<and> planned_efficiency \<le> 1)
      then Inl (ValueError ''planned_efficiency must be in (0, 1]'')
      else Inr (dmul (dsum operator_minutes) planned_efficiency))"

definition utilization :: "decimal \<Rightarrow> decimal \<Rightarrow> decimal option" where
  "utilization allocated available = (if available = 0 then None else Some (ddiv allocated available))"

text \<open>The body of the loop of \<open>plan_earliest_slots\<close>: the allocations in the order made.\<close>

definition take_from_slot :: "decimal \<Rightarrow> decimal \<Rightarrow> decimal \<Rightarrow> slot_capacity \<Rightarrow> slot_allocation" where
  "take_from_slot sam remaining_target free slot =
     (let required_minutes_for_remaining = dmul remaining_target sam;
          take_minutes = min required_minutes_for_remaining free;
          take_units = ddiv take_minutes sam
      in \<lparr>sa_slot_id = sc_slot_id slot, sa_line_id = sc_line_id slot,
          sa_slot_date = sc_slot_date slot, sa_shift_code = sc_shift_code slot,
          sa_standard_minutes = take_minutes, sa_units = take_units\<rparr>)"

fun allocate_loop :: "decimal \<Rightarrow> slot_capacity list \<Rightarrow> decimal \<Rightarrow> exn + slot_allocation list" where
  "allocate_loop sam [] remaining_target = Inr []"
| "allocate_loop sam (slot # slots) remaining_target =
     (if remaining_target \<le> 0 then Inr []
      else case remaining_standard_minutes slot of
             Inl e \<Rightarrow> Inl e
           | Inr free \<Rightarrow>
             let a = take_from_slot sam remaining_target free slot
             in case allocate_loop sam slots (dsub remaining_target (sa_units a)) of
                  Inl e \<Rightarrow> Inl e
                | Inr allocations \<Rightarrow> Inr (a # allocations))"

definition slot_eligible :: "uuid list \<Rightarrow> date \<Rightarrow> date \<Rightarrow> slot_capacity \<Rightarrow> exn + bool" where
  "slot_eligible compatible_line_ids earliest_date due_date slot =
     (if sc_line_id slot \<in> set compatible_line_ids \<and>
         earliest_date \<le> sc_slot_date slot \<and> sc_slot_date slot \<le> due_date
      then case remaining_standard_minutes slot of Inl e \<Rightarrow> Inl e | Inr free \<Rightarrow> Inr (0 < free)
      else Inr False)"

definition slot_key :: "slot_capacity \<Rightarrow> date \<times> string \<times> uuid" where
  "slot_key s = (sc_slot_date s, sc_shift_code s, sc_line_id s)"

text \<open>\<open>value.quantize(_COMPARISON_PLACES)\<close>: six places in the context's rounding.\<close>

definition comparison_quantize :: "decimal \<Rightarrow> exn + decimal" where
  "comparison_quantize x = quantize ROUND_HALF_EVEN 6 x"

definition plan_reason :: "decimal \<Rightarrow> decimal \<Rightarrow> decimal \<Rightarrow> unscheduled_reason option" where
  "plan_reason allocated_q target_q total_q =
     (if target_q \<le> allocated_q
      then if total_q \<le> target_q then None else Some LIMITED_BY_MATERIAL
      else Some INSUFFICIENT_CAPACITY_BEFORE_DUE_DATE)"

definition plan_earliest_slots ::
  "int \<Rightarrow> decimal \<Rightarrow> slot_capacity list \<Rightarrow> date \<Rightarrow> date \<Rightarrow> uuid list \<Rightarrow> decimal option \<Rightarrow>
   exn + allocation_plan" where
  "plan_earliest_slots units sam slots earliest_date due_date compatible_line_ids max_units =
     (if units < 0 then Inl (ValueError ''units must be >= 0'')
      else if sam \<le> 0 then Inl (ValueError ''sam_minutes_per_unit must be positive'')
      else case required_standard_minutes units sam of
        Inl e \<Rightarrow> Inl e
      | Inr total_required_minutes \<Rightarrow>
        (let total_units = of_int units;
             target_units = (case max_units of None \<Rightarrow> total_units | Some m \<Rightarrow> min total_units m)
         in if \<not> list_ex (\<lambda>s. sc_line_id s \<in> set compatible_line_ids) slots
            then Inr \<lparr>ap_allocations = [], ap_requested_units = units, ap_allocated_units = 0,
                      ap_unscheduled_units = total_units,
                      ap_unscheduled_reason = Some NO_COMPATIBLE_LINE, ap_finish_date = None,
                      ap_required_standard_minutes = total_required_minutes\<rparr>
            else case filter_err (slot_eligible compatible_line_ids earliest_date due_date) slots of
              Inl e \<Rightarrow> Inl e
            | Inr eligible \<Rightarrow>
              (case allocate_loop sam (sort_key slot_key eligible) target_units of
                 Inl e \<Rightarrow> Inl e
               | Inr allocations \<Rightarrow>
                 (let allocated_units = dsum (map sa_units allocations)
                  in case comparison_quantize allocated_units of
                       Inl e \<Rightarrow> Inl e
                     | Inr allocated_q \<Rightarrow>
                       (case comparison_quantize target_units of
                          Inl e \<Rightarrow> Inl e
                        | Inr target_q \<Rightarrow>
                          (case comparison_quantize total_units of
                             Inl e \<Rightarrow> Inl e
                           | Inr total_q \<Rightarrow>
                             Inr \<lparr>ap_allocations = allocations, ap_requested_units = units,
                                  ap_allocated_units = allocated_units,
                                  ap_unscheduled_units = dsub total_units allocated_units,
                                  ap_unscheduled_reason = plan_reason allocated_q target_q total_q,
                                  ap_finish_date =
                                    (if allocations = [] then None
                                     else Some (sa_slot_date (last allocations))),
                                  ap_required_standard_minutes = total_required_minutes\<rparr>))))))"

lemma quantize_down:
  assumes "quantize ROUND_DOWN places x = Inr y" and "0 \<le> x"
  shows "0 \<le> y" and "y \<le> x"
proof -
  let ?n = "to_integral ROUND_DOWN (x * pow10 places)"
  have y: "y = of_int ?n * pow10 (- places)"
    using assms(1) by (auto simp: quantize_def Let_def split: if_splits)
  have x: "0 \<le> x * pow10 places" using assms(2) by (simp add: less_imp_le)
  then have n: "?n = \<lfloor>x * pow10 places\<rfloor>" by (simp add: to_integral.simps)
  then have "0 \<le> ?n" using x by simp
  then show "0 \<le> y" by (simp add: y less_imp_le)
  have "of_int ?n \<le> x * pow10 places" by (simp add: n)
  then show "y \<le> x" by (simp add: y pow10_minus divide_le_eq)
qed

lemma remaining_bounds:
  assumes "remaining_standard_minutes s = Inr free"
  shows "0 \<le> free"
    and "free \<le> max 0 (dsub (capacity_standard_minutes s) (sc_allocated_standard_minutes s))"
  using quantize_down [OF assms [unfolded remaining_standard_minutes_def Let_def]] by simp_all

text \<open>What one pass of the loop promises.\<close>

lemma take_from_slot_simps [simp]:
  "sa_slot_id (take_from_slot sam rem free s) = sc_slot_id s"
  "sa_line_id (take_from_slot sam rem free s) = sc_line_id s"
  "sa_slot_date (take_from_slot sam rem free s) = sc_slot_date s"
  "sa_shift_code (take_from_slot sam rem free s) = sc_shift_code s"
  "sa_standard_minutes (take_from_slot sam rem free s) = min (dmul rem sam) free"
  "sa_units (take_from_slot sam rem free s) = ddiv (min (dmul rem sam) free) sam"
  by (simp_all add: take_from_slot_def Let_def)

lemma allocate_loop_ids:
  "allocate_loop sam slots rem = Inr as \<Longrightarrow>
   \<exists>k. map sa_slot_id as = map sc_slot_id (take k slots) \<and>
       map sa_slot_date as = map sc_slot_date (take k slots)"
proof (induction sam slots rem arbitrary: as rule: allocate_loop.induct)
  case (2 sam slot slots rem)
  show ?case
  proof (cases "rem \<le> 0")
    case True
    then show ?thesis using 2 by (intro exI [of _ 0]) simp
  next
    case False
    with 2(2) obtain free bs where r: "remaining_standard_minutes slot = Inr free"
      and bs: "allocate_loop sam slots (dsub rem (sa_units (take_from_slot sam rem free slot))) = Inr bs"
      and as: "as = take_from_slot sam rem free slot # bs"
      by (auto simp: Let_def simp del: take_from_slot_simps split: sum.splits)
    from 2(1) [OF False r refl bs] obtain k where
      "map sa_slot_id bs = map sc_slot_id (take k slots)"
      "map sa_slot_date bs = map sc_slot_date (take k slots)" by blast
    then show ?thesis by (intro exI [of _ "Suc k"]) (simp add: as)
  qed
qed simp

lemma allocate_loop_each:
  assumes "allocate_loop sam slots rem = Inr as" and "0 < sam" and "a \<in> set as"
    and "\<And>s. s \<in> set slots \<Longrightarrow> \<exists>free > 0. remaining_standard_minutes s = Inr free"
  shows "\<exists>s \<in> set slots. \<exists>free. remaining_standard_minutes s = Inr free \<and>
           sa_slot_id a = sc_slot_id s \<and> sa_line_id a = sc_line_id s \<and>
           sa_slot_date a = sc_slot_date s \<and>
           0 < sa_standard_minutes a \<and> sa_standard_minutes a \<le> free \<and> 0 < sa_units a"
  using assms
proof (induction sam slots rem arbitrary: as rule: allocate_loop.induct)
  case (2 sam slot slots rem)
  from 2(2,4) have False: "\<not> rem \<le> 0" by (auto split: if_splits)
  obtain free where r: "remaining_standard_minutes slot = Inr free" "0 < free"
    using 2(5) [of slot] by auto
  from 2(2) False r obtain bs
    where bs: "allocate_loop sam slots (dsub rem (sa_units (take_from_slot sam rem free slot))) = Inr bs"
      and as: "as = take_from_slot sam rem free slot # bs"
    by (auto simp: Let_def simp del: take_from_slot_simps split: sum.splits)
  show ?case
  proof (cases "a \<in> set bs")
    case True
    from 2(1) [OF False r(1) refl bs 2(3) True] 2(5) show ?thesis by fastforce
  next
    case a: False
    have "0 < dmul rem sam" unfolding dmul_def using False 2(3) by (intro ctx_round_pos) simp
    then have m: "0 < min (dmul rem sam) free" using r(2) by simp
    then have "0 < ddiv (min (dmul rem sam) free) sam"
      unfolding ddiv_def using 2(3) by (intro ctx_round_pos) simp
    then show ?thesis using 2(4) a r m by (intro bexI [of _ slot]) (auto simp: as)
  qed
qed simp

section \<open>The units of a plan\<close>

text \<open>The most one rounding of the context can enlarge a value, as a factor.\<close>

definition slack :: decimal where
  "slack = 1 + 5 / 10 ^ 28"

lemma slack_ge1 [simp]: "1 \<le> slack" and slack_pos [simp]: "0 < slack" "0 \<le> slack"
  by (simp_all add: slack_def)

lemma ctx_round_slack: "0 \<le> x \<Longrightarrow> ctx_round x \<le> x * slack"
  using ctx_round_minus_error [of x] by (simp add: slack_def algebra_simps)

lemma ctx_round_nonpos: "x \<le> 0 \<Longrightarrow> ctx_round x \<le> 0"
proof -
  assume "x \<le> 0"
  then have "\<bar>x\<bar> * (5 / 10 ^ 28) \<le> - x" by simp
  then show ?thesis using ctx_round_error [of x] by linarith
qed

lemma take_units_slack:
  assumes "0 \<le> rem" and "0 < sam" and "0 \<le> free"
  shows "ddiv (min (dmul rem sam) free) sam \<le> rem * slack ^ 2"
proof -
  let ?t = "min (dmul rem sam) free"
  have "0 \<le> dmul rem sam" unfolding dmul_def using assms by (intro ctx_round_nonneg) simp
  then have "0 \<le> ?t / sam" using assms by simp
  then have "ddiv ?t sam \<le> ?t / sam * slack" unfolding ddiv_def by (rule ctx_round_slack)
  also have "?t / sam \<le> (rem * sam * slack) / sam"
    using assms ctx_round_slack [of "rem * sam"] unfolding dmul_def
    by (intro divide_right_mono min.coboundedI1) simp_all
  also have "(rem * sam * slack) / sam * slack = rem * slack ^ 2"
    using assms by (simp add: power2_eq_square)
  finally show ?thesis by simp
qed

lemma allocate_loop_units:
  assumes "allocate_loop sam slots rem = Inr as" and "0 < sam" and "0 \<le> rem"
  shows "sum_list (map sa_units as) \<le> rem * slack ^ (length slots + 1)"
  using assms
proof (induction sam slots rem arbitrary: as rule: allocate_loop.induct)
  case (2 sam slot slots rem)
  show ?case
  proof (cases "rem \<le> 0")
    case True
    then show ?thesis using 2 by simp
  next
    case False
    with 2(2) obtain free bs where r: "remaining_standard_minutes slot = Inr free"
      and bs: "allocate_loop sam slots (dsub rem (sa_units (take_from_slot sam rem free slot))) = Inr bs"
      and as: "as = take_from_slot sam rem free slot # bs"
      by (auto simp: Let_def simp del: take_from_slot_simps split: sum.splits)
    define u where "u = ddiv (min (dmul rem sam) free) sam"
    let ?n = "length slots + 2"
    have sum: "sum_list (map sa_units as) = u + sum_list (map sa_units bs)"
      by (simp add: as u_def)
    have big: "1 \<le> slack ^ ?n" by (rule one_le_power) simp
    have u: "u \<le> rem * slack ^ 2"
      unfolding u_def using 2(3,4) remaining_bounds(1) [OF r] by (intro take_units_slack)
    show ?thesis
    proof (cases "dsub rem u \<le> 0")
      case True
      then have "bs = []" using bs by (cases slots) (auto simp: u_def)
      then have "sum_list (map sa_units as) \<le> rem * slack ^ 2" using u sum by simp
      also have "\<dots> \<le> rem * slack ^ ?n"
        using 2(4) by (intro mult_left_mono power_increasing) simp_all
      finally show ?thesis by simp
    next
      case pos: False
      then have d: "0 < rem - u" using ctx_round_nonpos [of "rem - u"] unfolding dsub_def by linarith
      have "sum_list (map sa_units bs) \<le> dsub rem u * slack ^ (length slots + 1)"
        using 2(1) [OF False r refl bs 2(3)] pos by (simp add: u_def)
      also have "\<dots> \<le> ((rem - u) * slack) * slack ^ (length slots + 1)"
        using d unfolding dsub_def by (intro mult_right_mono ctx_round_slack) simp_all
      also have "\<dots> = (rem - u) * slack ^ ?n" by simp
      finally have "sum_list (map sa_units as) \<le> u + (rem - u) * slack ^ ?n" using sum by simp
      moreover have "u \<le> u * slack ^ ?n" if "0 \<le> u" using mult_left_mono [OF big that] by simp
      moreover have "0 \<le> u"
        unfolding u_def ddiv_def using 2(3,4) remaining_bounds(1) [OF r]
        by (intro ctx_round_nonneg divide_nonneg_pos) (simp_all add: dmul_def ctx_round_nonneg)
      ultimately show ?thesis by (simp add: left_diff_distrib)
    qed
  qed
qed simp

text \<open>The successful plan with a compatible line, in one piece.\<close>

lemma plan_InrD:
  assumes "plan_earliest_slots units sam slots e d lines mx = Inr plan"
  shows "0 \<le> units" and "0 < sam"
    and "ap_allocations plan = [] \<or>
         (\<exists>eligible. filter_err (slot_eligible lines e d) slots = Inr eligible \<and>
            allocate_loop sam (sort_key slot_key eligible)
              (case mx of None \<Rightarrow> of_int units | Some m \<Rightarrow> min (of_int units) m)
              = Inr (ap_allocations plan))"
  using assms
  by (auto simp: plan_earliest_slots_def Let_def split: sum.splits if_splits)

lemma eligible_positive:
  "filter_err (slot_eligible lines e d) slots = Inr el \<Longrightarrow> s \<in> set el \<Longrightarrow>
   s \<in> set slots \<and> sc_line_id s \<in> set lines \<and> e \<le> sc_slot_date s \<and> sc_slot_date s \<le> d \<and>
   (\<exists>free > 0. remaining_standard_minutes s = Inr free)"
  by (auto simp: filter_err_set slot_eligible_def split: sum.splits if_splits)

lemma sorted_slot_dates: "sorted (map sc_slot_date (sort_key slot_key el))"
proof -
  have "sorted_wrt (\<lambda>x y. slot_key x \<le> slot_key y) (sort_key slot_key el)"
    using sorted_sort_key [of slot_key el] by (simp add: sorted_map)
  then have "sorted_wrt (\<lambda>x y. sc_slot_date x \<le> sc_slot_date y) (sort_key slot_key el)"
    by (rule sorted_wrt_mono_rel [rotated]) (auto simp: slot_key_def less_eq_prod_def)
  then show ?thesis by (simp add: sorted_map)
qed

text \<open>
  C7. A plan only books what is there: each allocation is in one of the given slots, on a
  compatible line and inside the date window, takes a positive number of minutes of at most
  what the slot has free (floored to two places), no slot is used twice, and the slots are
  filled in the order of their dates.
\<close>

theorem plan_within_capacity:
  assumes plan: "plan_earliest_slots units sam slots e d lines mx = Inr plan"
    and ids: "distinct (map sc_slot_id slots)"
  shows "(\<forall>a. a \<in> set (ap_allocations plan) \<longrightarrow>
            (\<exists>s free. s \<in> set slots \<and> sa_slot_id a = sc_slot_id s \<and>
               sc_line_id s \<in> set lines \<and> e \<le> sc_slot_date s \<and> sc_slot_date s \<le> d \<and>
               remaining_standard_minutes s = Inr free \<and>
               0 < sa_standard_minutes a \<and> sa_standard_minutes a \<le> free \<and> 0 < sa_units a)) \<and>
         distinct (map sa_slot_id (ap_allocations plan)) \<and>
         sorted (map sa_slot_date (ap_allocations plan))"
proof (cases "ap_allocations plan = []")
  case False
  with plan_InrD(3) [OF plan] obtain el rem where
    el: "filter_err (slot_eligible lines e d) slots = Inr el"
    and al: "allocate_loop sam (sort_key slot_key el) rem = Inr (ap_allocations plan)" by blast
  note pos = eligible_positive [OF el]
  from allocate_loop_ids [OF al] obtain k where
    k: "map sa_slot_id (ap_allocations plan) = take k (map sc_slot_id (sort_key slot_key el))"
      "map sa_slot_date (ap_allocations plan) = take k (map sc_slot_date (sort_key slot_key el))"
    by (auto simp: take_map)
  have "distinct (map sc_slot_id el)" using el ids by (rule filter_err_distinct)
  then have "distinct (map sc_slot_id (sort_key slot_key el))"
    by (simp add: distinct_map)
  then have "distinct (map sa_slot_id (ap_allocations plan))" unfolding k by (rule distinct_take)
  moreover have "sorted (map sa_slot_date (ap_allocations plan))"
    unfolding k by (rule sorted_wrt_take [OF sorted_slot_dates])
  moreover have "\<exists>s free. s \<in> set slots \<and> sa_slot_id a = sc_slot_id s \<and>
               sc_line_id s \<in> set lines \<and> e \<le> sc_slot_date s \<and> sc_slot_date s \<le> d \<and>
               remaining_standard_minutes s = Inr free \<and>
               0 < sa_standard_minutes a \<and> sa_standard_minutes a \<le> free \<and> 0 < sa_units a"
    if "a \<in> set (ap_allocations plan)" for a
    using allocate_loop_each [OF al plan_InrD(2) [OF plan] that] pos by fastforce
  ultimately show ?thesis by blast
qed simp

text \<open>
  C8. A plan never allocates more units than its target (the requested units, or what the
  material covers when that is less), up to one rounding of the context per step.
\<close>

theorem plan_units_bounded:
  assumes "plan_earliest_slots units sam slots e d lines mx = Inr plan"
    and "0 \<le> target" and "target = (case mx of None \<Rightarrow> of_int units | Some m \<Rightarrow> min (of_int units) m)"
  shows "sum_list (map sa_units (ap_allocations plan)) \<le> target * slack ^ (length slots + 1)"
proof (cases "ap_allocations plan = []")
  case True
  then show ?thesis using assms(2) by simp
next
  case False
  with plan_InrD(3) [OF assms(1)] obtain el where
    el: "filter_err (slot_eligible lines e d) slots = Inr el"
    and al: "allocate_loop sam (sort_key slot_key el) target = Inr (ap_allocations plan)"
    unfolding assms(3) by blast
  have "sum_list (map sa_units (ap_allocations plan)) \<le> target * slack ^ (length el + 1)"
    using allocate_loop_units [OF al plan_InrD(2) [OF assms(1)] assms(2)] by simp
  also have "\<dots> \<le> target * slack ^ (length slots + 1)"
    using filter_err_length [OF el] assms(2)
    by (intro mult_left_mono power_increasing) simp_all
  finally show ?thesis .
qed

text \<open>The successful path of the plan, one step and one check at a time.\<close>

lemma allocate_loop_step:
  assumes "\<not> rem \<le> 0" and "remaining_standard_minutes s = Inr f"
    and "min (dmul rem sam) f = t" and "ddiv t sam = u" and "dsub rem u = rem'"
    and "allocate_loop sam ss rem' = Inr as"
  shows "allocate_loop sam (s # ss) rem =
           Inr (\<lparr>sa_slot_id = sc_slot_id s, sa_line_id = sc_line_id s,
                 sa_slot_date = sc_slot_date s, sa_shift_code = sc_shift_code s,
                 sa_standard_minutes = t, sa_units = u\<rparr> # as)"
  using assms by (simp add: take_from_slot_def Let_def del: take_from_slot_simps)

lemma plan_InrI:
  assumes "0 \<le> units" and "0 < sam" and "list_ex (\<lambda>s. sc_line_id s \<in> set lines) slots"
    and "filter_err (slot_eligible lines e d) slots = Inr el"
    and "allocate_loop sam (sort_key slot_key el)
           (case mx of None \<Rightarrow> of_int units | Some m \<Rightarrow> min (of_int units) m) = Inr as"
    and "comparison_quantize (dsum (map sa_units as)) = Inr aq"
    and "comparison_quantize (case mx of None \<Rightarrow> of_int units | Some m \<Rightarrow> min (of_int units) m) = Inr tq"
    and "comparison_quantize (of_int units) = Inr oq"
  shows "\<exists>plan. plan_earliest_slots units sam slots e d lines mx = Inr plan \<and>
           ap_allocations plan = as \<and> ap_unscheduled_reason plan = plan_reason aq tq oq"
  using assms by (simp add: plan_earliest_slots_def required_standard_minutes_def Let_def)

text \<open>An order of 2304 units at 0.7634 minutes each over three slots of one line.\<close>

definition sliver_slots :: "slot_capacity list" where
  "sliver_slots =
     [\<lparr>sc_slot_id = 1, sc_line_id = 1, sc_slot_date = 1, sc_shift_code = ''A'',
       sc_available_operator_minutes = 130841 / 100, sc_planned_efficiency = 1,
       sc_allocated_standard_minutes = 0\<rparr>,
      \<lparr>sc_slot_id = 2, sc_line_id = 1, sc_slot_date = 2, sc_shift_code = ''A'',
       sc_available_operator_minutes = 140846 / 100, sc_planned_efficiency = 1,
       sc_allocated_standard_minutes = 0\<rparr>,
      \<lparr>sc_slot_id = 3, sc_line_id = 1, sc_slot_date = 3, sc_shift_code = ''A'',
       sc_available_operator_minutes = 57404 / 100, sc_planned_efficiency = 1,
       sc_allocated_standard_minutes = 0\<rparr>]"

definition sliver_allocations :: "slot_allocation list" where
  "sliver_allocations =
     [\<lparr>sa_slot_id = 1, sa_line_id = 1, sa_slot_date = 1, sa_shift_code = ''A'',
       sa_standard_minutes = 130841 / 10 ^ 2,
       sa_units = 1713924548074403982184962012 / 10 ^ 24\<rparr>,
      \<lparr>sa_slot_id = 2, sa_line_id = 1, sa_slot_date = 2, sa_shift_code = ''A'',
       sa_standard_minutes = 4504636 / 10 ^ 4,
       sa_units = 5900754519255960178150379879 / 10 ^ 25\<rparr>,
      \<lparr>sa_slot_id = 3, sa_line_id = 1, sa_slot_date = 3, sa_shift_code = ''A'',
       sa_standard_minutes = 7634 / 10 ^ 29, sa_units = 1 / 10 ^ 25\<rparr>]"

lemma sliver_remaining:
  "map remaining_standard_minutes sliver_slots =
     [Inr (130841 / 10 ^ 2), Inr (140846 / 10 ^ 2), Inr (57404 / 10 ^ 2)]"
  by code_simp

lemma sliver_loop: "allocate_loop (7634 / 10 ^ 4) sliver_slots 2304 = Inr sliver_allocations"
proof -
  obtain a b c where s: "sliver_slots = [a, b, c]" by (simp add: sliver_slots_def)
  have r: "remaining_standard_minutes a = Inr (130841 / 10 ^ 2)"
    "remaining_standard_minutes b = Inr (140846 / 10 ^ 2)"
    "remaining_standard_minutes c = Inr (57404 / 10 ^ 2)"
    using sliver_remaining unfolding s list.map list.inject by blast+
  have *: "allocate_loop (7634 / 10 ^ 4) [a, b, c] 2304 = Inr
      [\<lparr>sa_slot_id = sc_slot_id a, sa_line_id = sc_line_id a, sa_slot_date = sc_slot_date a,
        sa_shift_code = sc_shift_code a, sa_standard_minutes = 130841 / 10 ^ 2,
        sa_units = 1713924548074403982184962012 / 10 ^ 24\<rparr>,
       \<lparr>sa_slot_id = sc_slot_id b, sa_line_id = sc_line_id b, sa_slot_date = sc_slot_date b,
        sa_shift_code = sc_shift_code b, sa_standard_minutes = 4504636 / 10 ^ 4,
        sa_units = 5900754519255960178150379879 / 10 ^ 25\<rparr>,
       \<lparr>sa_slot_id = sc_slot_id c, sa_line_id = sc_line_id c, sa_slot_date = sc_slot_date c,
        sa_shift_code = sc_shift_code c, sa_standard_minutes = 7634 / 10 ^ 29,
        sa_units = 1 / 10 ^ 25\<rparr>]"
    by (rule allocate_loop_step [OF _ r(1), where rem' = "590075451925596017815037988 / 10 ^ 24"],
        code_simp, code_simp, code_simp, code_simp,
        rule allocate_loop_step [OF _ r(2), where rem' = "1 / 10 ^ 25"],
        code_simp, code_simp, code_simp, code_simp,
        rule allocate_loop_step [OF _ r(3), where rem' = 0],
        code_simp, code_simp, code_simp, code_simp, simp)
  have "sliver_slots = [a, b, c] \<Longrightarrow> ?thesis"
    unfolding * [folded s] by (auto simp: sliver_slots_def sliver_allocations_def)
  from this [OF s] show ?thesis .
qed

lemma sliver_quantize:
  "comparison_quantize (dsum (map sa_units sliver_allocations)) = Inr 2304"
  "comparison_quantize 2304 = Inr 2304"
proof -
  have "dsum (map sa_units sliver_allocations) = 2304"
    unfolding sliver_allocations_def dsum_def list.map slot_allocation.select_convs foldl.simps
    by code_simp
  moreover show "comparison_quantize 2304 = Inr 2304" by code_simp
  ultimately show "comparison_quantize (dsum (map sa_units sliver_allocations)) = Inr 2304" by simp
qed

lemma sliver_plan:
  "\<exists>plan. plan_earliest_slots 2304 (7634 / 10 ^ 4) sliver_slots 0 10 [1] None = Inr plan \<and>
     ap_allocations plan = sliver_allocations \<and> ap_unscheduled_reason plan = None"
proof -
  have el: "filter_err (slot_eligible [1] 0 10) sliver_slots = Inr sliver_slots"
    by code_simp
  have so: "sort_key slot_key sliver_slots = sliver_slots"
    by (simp add: sliver_slots_def slot_key_def less_eq_prod_def)
  have "plan_reason 2304 2304 2304 = None" by (simp add: plan_reason_def)
  then show ?thesis
    using plan_InrI [where units = 2304 and sam = "7634 / 10 ^ 4" and mx = None,
        OF _ _ _ el, unfolded so, where as = sliver_allocations] sliver_loop sliver_quantize
    by (simp add: sliver_slots_def)
qed

text \<open>
  C9. Flooring the free minutes to two places does not keep slivers out of a plan: the
  28-digit quotient of the second allocation leaves a remainder of 10^-25 units, and the
  plan books it on the third slot with far less than the 0.01 minutes a slot can hold,
  while it reports that every unit is scheduled.
\<close>

theorem plan_can_propose_a_sliver:
  "\<exists>plan. plan_earliest_slots 2304 (7634 / 10 ^ 4) sliver_slots 0 10 [1] None = Inr plan \<and>
     ap_unscheduled_reason plan = None \<and> length (ap_allocations plan) = 3 \<and>
     0 < sa_standard_minutes (ap_allocations plan ! 2) \<and>
     sa_standard_minutes (ap_allocations plan ! 2) < 1 / 10 ^ 25"
proof -
  have "length sliver_allocations = 3" "0 < sa_standard_minutes (sliver_allocations ! 2)"
    "sa_standard_minutes (sliver_allocations ! 2) < 1 / 10 ^ 25"
    by (simp_all add: sliver_allocations_def)
  with sliver_plan show ?thesis by auto
qed

theorem plan_within_capacity_witness:
  "\<exists>plan. plan_earliest_slots 2304 (7634 / 10 ^ 4) sliver_slots 0 10 [1] None = Inr plan \<and>
     distinct (map sa_slot_id (ap_allocations plan)) \<and>
     sorted (map sa_slot_date (ap_allocations plan))"
proof -
  obtain plan where
    plan: "plan_earliest_slots 2304 (7634 / 10 ^ 4) sliver_slots 0 10 [1] None = Inr plan"
    using sliver_plan by blast
  have "distinct (map sc_slot_id sliver_slots)" by (simp add: sliver_slots_def)
  from plan_within_capacity [OF plan this] plan show ?thesis by blast
qed

theorem plan_units_bounded_witness:
  "\<exists>plan. plan_earliest_slots 2304 (7634 / 10 ^ 4) sliver_slots 0 10 [1] None = Inr plan \<and>
     sum_list (map sa_units (ap_allocations plan)) \<le> 2304 * slack ^ 4"
proof -
  obtain plan where
    plan: "plan_earliest_slots 2304 (7634 / 10 ^ 4) sliver_slots 0 10 [1] None = Inr plan"
    using sliver_plan by blast
  have n: "length sliver_slots + 1 = 4" by (simp add: sliver_slots_def)
  have "sum_list (map sa_units (ap_allocations plan)) \<le> 2304 * slack ^ (length sliver_slots + 1)"
    by (rule plan_units_bounded [OF plan]) simp_all
  with plan show ?thesis unfolding n by blast
qed

end
