(* ===== verification/LS_Json.thy ===== *)
theory LS_Json
  imports LS_Errors
begin

text \<open>
  JSON columns and texts. A text is kept by what it denotes: \<open>Id u\<close> is a text that
  \<open>uuid.UUID\<close> reads as \<open>u\<close> (in particular \<open>str(u)\<close>), \<open>Dec d\<close> one that \<open>Decimal\<close> reads
  as \<open>d\<close> (in particular \<open>str(d)\<close>), \<open>Time t\<close> and \<open>Day d\<close> the ISO texts of an instant and of
  a date, \<open>Lit s\<close> any other text. Texts that several of them read (32 decimal digits) and
  the texts of a non-finite \<open>Decimal\<close> do not occur. Floats do not occur: the code
  stores decimals as text. Also \<open>int(value)\<close> on a JSON value, with Python's syntax of an
  integer literal restricted to ASCII.
\<close>

datatype jtext = Lit string | Id uuid | Dec rat | Time datetime | Day date

datatype json =
    JNull | JBool bool | JInt int | JText jtext | JArr "json list" | JObj "(jtext \<times> json) list"

abbreviation JStr :: "string \<Rightarrow> json" where
  "JStr s \<equiv> JText (Lit s)"

text \<open>\<open>value.get(key)\<close> on a dict.\<close>

definition json_get :: "(jtext \<times> json) list \<Rightarrow> string \<Rightarrow> json option" where
  "json_get fields key = map_of fields (Lit key)"

definition is_space :: "char \<Rightarrow> bool" where
  "is_space c \<longleftrightarrow> (let n = of_char c :: nat in (9 \<le> n \<and> n \<le> 13) \<or> (28 \<le> n \<and> n \<le> 32))"

definition digit_value :: "char \<Rightarrow> int option" where
  "digit_value c = (let n = of_char c :: nat in if 48 \<le> n \<and> n \<le> 57 then Some (int n - 48) else None)"

text \<open>\<open>str.strip()\<close>.\<close>

definition strip :: "string \<Rightarrow> string" where
  "strip s = rev (dropWhile is_space (rev (dropWhile is_space s)))"

text \<open>Digits, with single underscores allowed between two digits.\<close>

fun parse_digits :: "int \<Rightarrow> string \<Rightarrow> int option" where
  "parse_digits acc [] = Some acc"
| "parse_digits acc (c # cs) =
     (case digit_value c of
        Some d \<Rightarrow> parse_digits (acc * 10 + d) cs
      | None \<Rightarrow>
          if c = CHR ''_'' then
            (case cs of
               [] \<Rightarrow> None
             | d # ds \<Rightarrow> (case digit_value d of None \<Rightarrow> None | Some v \<Rightarrow> parse_digits (acc * 10 + v) ds))
          else None)"

definition parse_nat :: "string \<Rightarrow> int option" where
  "parse_nat s =
     (case s of
        [] \<Rightarrow> None
      | c # cs \<Rightarrow> (case digit_value c of None \<Rightarrow> None | Some d \<Rightarrow> parse_digits d cs))"

definition parse_int :: "string \<Rightarrow> int option" where
  "parse_int text =
     (case strip text of
        [] \<Rightarrow> None
      | c # cs \<Rightarrow>
          if c = CHR ''-'' then map_option uminus (parse_nat cs)
          else if c = CHR ''+'' then parse_nat cs
          else parse_nat (c # cs))"

text \<open>\<open>int(value)\<close>.\<close>

fun int_of_json :: "json \<Rightarrow> exn + int" where
  "int_of_json (JInt n) = Inr n"
| "int_of_json (JBool b) = Inr (if b then 1 else 0)"
| "int_of_json (JText (Lit s)) =
     some_or (ValueError ''invalid literal for int() with base 10'') (parse_int s)"
| "int_of_json (JText (Time _)) = Inl (ValueError ''invalid literal for int() with base 10'')"
| "int_of_json (JText (Day _)) = Inl (ValueError ''invalid literal for int() with base 10'')"
| "int_of_json (JText (Id _)) = Inl (ValueError ''invalid literal for int() with base 10'')"
| "int_of_json (JText (Dec d)) =
     (if of_int \<lfloor>d\<rfloor> = d then Inr \<lfloor>d\<rfloor>
      else Inl (ValueError ''invalid literal for int() with base 10''))"
| "int_of_json _ = Inl (TypeError ''int() argument must be a string or a number'')"

lemma strip_idem [simp]: "strip (strip s) = strip s"
proof -
  have dw: "dropWhile P (rev (dropWhile P (rev (dropWhile P xs)))) = rev (dropWhile P (rev (dropWhile P xs)))"
    for P :: "char \<Rightarrow> bool" and xs
  proof (cases "dropWhile P xs")
    case Nil
    then show ?thesis by (simp only: rev.simps dropWhile.simps)
  next
    case (Cons y ys)
    then have "\<not> P y" by (metis hd_dropWhile list.discI list.sel(1))
    then have "dropWhile P (rev ys @ [y]) = dropWhile P (rev ys) @ [y]"
      by (induction "rev ys" arbitrary: ys rule: list.induct) (auto simp: dropWhile_append)
    then show ?thesis using Cons \<open>\<not> P y\<close> by simp
  qed
  show ?thesis by (simp add: strip_def dw)
qed

section \<open>Reading documents\<close>

text \<open>\<open>str(n)\<close>.\<close>

fun digits :: "nat \<Rightarrow> string" where
  "digits n =
     (if n < 10 then [char_of (48 + n)] else digits (n div 10) @ [char_of (48 + n mod 10)])"

definition int_text :: "int \<Rightarrow> string" where
  "int_text n = (if n < 0 then CHR ''-'' # digits (nat (- n)) else digits (nat n))"

text \<open>
  \<open>uuid.UUID(str(value))\<close>, \<open>None\<close> for the ValueError: an integer of 32 decimal digits is read
  as 32 hexadecimal ones, its sign is dropped with the hyphens.
\<close>

fun hex_reading :: "nat \<Rightarrow> nat" where
  "hex_reading n = (if n < 10 then n else 16 * hex_reading (n div 10) + n mod 10)"

definition uuid_of_text :: "jtext \<Rightarrow> uuid option" where
  "uuid_of_text t = (case t of Id u \<Rightarrow> Some u | _ \<Rightarrow> None)"

fun uuid_of_json :: "json \<Rightarrow> uuid option" where
  "uuid_of_json (JText t) = uuid_of_text t"
| "uuid_of_json (JInt n) =
     (if 10 ^ 31 \<le> \<bar>n\<bar> \<and> \<bar>n\<bar> < 10 ^ 32 then Some (hex_reading (nat \<bar>n\<bar>)) else None)"
| "uuid_of_json _ = None"

text \<open>\<open>Decimal(str(value))\<close>, \<open>None\<close> for the InvalidOperation.\<close>

fun decimal_of_json :: "json \<Rightarrow> rat option" where
  "decimal_of_json (JText (Dec d)) = Some d"
| "decimal_of_json (JInt n) = Some (of_int n)"
| "decimal_of_json _ = None"

text \<open>The dicts of the list \<open>document[key]\<close>; none when there is no such list.\<close>

definition json_rows :: "json \<Rightarrow> string \<Rightarrow> (jtext \<times> json) list list" where
  "json_rows document key =
     (case document of
        JObj fields \<Rightarrow>
          (case json_get fields key of
             Some (JArr rows) \<Rightarrow>
               List.map_filter (\<lambda>r. case r of JObj f \<Rightarrow> Some f | _ \<Rightarrow> None) rows
           | _ \<Rightarrow> [])
      | _ \<Rightarrow> [])"

text \<open>\<open>row.get(key)\<close>, \<open>null\<close> standing for the missing value.\<close>

definition json_at :: "(jtext \<times> json) list \<Rightarrow> string \<Rightarrow> json" where
  "json_at fields key = (case json_get fields key of None \<Rightarrow> JNull | Some v \<Rightarrow> v)"

lemma json_size:
  "(k, v) \<in> set fields \<Longrightarrow> size v < Suc (size_list (size_prod (\<lambda>_. 0) size) fields)"
  "(v, w) \<in> set (zip xs ys) \<Longrightarrow> size v < Suc (size_list size xs)"
  for fields :: "(jtext \<times> json) list" and xs ys :: "json list"
proof -
  show "(k, v) \<in> set fields \<Longrightarrow> size v < Suc (size_list (size_prod (\<lambda>_. 0) size) fields)"
    by (induction fields) auto
  show "(v, w) \<in> set (zip xs ys) \<Longrightarrow> size v < Suc (size_list size xs)"
    by (drule set_zip_leftD, induction xs) auto
qed

text \<open>\<open>a == b\<close>: dicts compare without regard to the order of their keys.\<close>

function (sequential) json_eq :: "json \<Rightarrow> json \<Rightarrow> bool" where
  "json_eq (JObj xs) (JObj ys) \<longleftrightarrow>
     length xs = length ys \<and>
     list_all (\<lambda>(k, v). case map_of ys k of None \<Rightarrow> False | Some w \<Rightarrow> json_eq v w) xs"
| "json_eq (JArr xs) (JArr ys) \<longleftrightarrow>
     length xs = length ys \<and> list_all (\<lambda>(v, w). json_eq v w) (zip xs ys)"
| "json_eq (JBool a) (JInt n) \<longleftrightarrow> n = (if a then 1 else 0)"
| "json_eq (JInt n) (JBool a) \<longleftrightarrow> n = (if a then 1 else 0)"
| "json_eq a b \<longleftrightarrow> a = b"
  by pat_completeness auto
termination by (relation "measure (\<lambda>(a, b). size a)") (auto simp: json_size)

section \<open>Printing and reading an integer\<close>

declare digits.simps [simp del]

lemma digit_value_char: "n < 10 \<Longrightarrow> digit_value (char_of (48 + n)) = Some (int n)"
  by (simp add: digit_value_def)

lemma parse_digits_text:
  "parse_digits acc (digits n @ cs) = parse_digits (acc * 10 ^ length (digits n) + int n) cs"
proof (induction n arbitrary: acc cs rule: digits.induct)
  case (1 n)
  show ?case
  proof (cases "n < 10")
    case True
    then show ?thesis by (simp add: digits.simps [of n] digit_value_char)
  next
    case False
    have "parse_digits acc (digits n @ cs) =
        parse_digits acc (digits (n div 10) @ char_of (48 + n mod 10) # cs)"
      using False by (simp add: digits.simps [of n])
    also have "\<dots> = parse_digits (acc * 10 ^ length (digits (n div 10)) + int (n div 10))
        (char_of (48 + n mod 10) # cs)"
      by (rule 1) (use False in simp)
    also have "\<dots> = parse_digits ((acc * 10 ^ length (digits (n div 10)) + int (n div 10)) * 10 + int (n mod 10)) cs"
      by (simp add: digit_value_char)
    also have "(acc * 10 ^ length (digits (n div 10)) + int (n div 10)) * 10 + int (n mod 10) =
        acc * 10 ^ length (digits n) + int n"
      using False by (simp add: digits.simps [of n] algebra_simps) (simp add: zdiv_int zmod_int)
    finally show ?thesis .
  qed
qed

lemma set_digits: "c \<in> set (digits n) \<Longrightarrow> \<exists>k::nat. k < 10 \<and> c = char_of (48 + k)"
proof (induction n rule: digits.induct)
  case (1 n)
  show ?case
  proof (cases "n < 10")
    case True
    then show ?thesis using 1(2) by (auto simp: digits.simps [of n])
  next
    case False
    then have "c \<in> set (digits (n div 10)) \<or> c = char_of (48 + n mod 10)"
      using 1(2) by (auto simp: digits.simps [of n])
    then show ?thesis
    proof
      assume "c \<in> set (digits (n div 10))"
      then show ?thesis using 1(1) False by blast
    next
      assume "c = char_of (48 + n mod 10)"
      then show ?thesis by (intro exI [of _ "n mod 10"]) simp
    qed
  qed
qed

lemma digits_Cons: obtains k :: nat and cs where "k < 10" "digits n = char_of (48 + k) # cs"
proof (cases "digits n")
  case Nil
  have "digits n \<noteq> []" by (subst digits.simps) simp
  with Nil show thesis by simp
next
  case (Cons c cs)
  then show thesis using set_digits [of c n] that by auto
qed

lemma digit_char_props:
  "k < 10 \<Longrightarrow> \<not> is_space (char_of (48 + k))" "k < 10 \<Longrightarrow> char_of (48 + k) \<noteq> CHR ''-''"
  "k < 10 \<Longrightarrow> char_of (48 + k) \<noteq> CHR ''+''" for k :: nat
  by (auto simp: is_space_def Let_def dest: arg_cong [of _ _ "of_char :: char \<Rightarrow> nat"])

lemma strip_id: "(\<And>c. c \<in> set s \<Longrightarrow> \<not> is_space c) \<Longrightarrow> strip s = s"
proof -
  have *: "(\<And>c. c \<in> set s \<Longrightarrow> \<not> is_space c) \<Longrightarrow> dropWhile is_space s = s" for s
    by (cases s) auto
  then show "(\<And>c. c \<in> set s \<Longrightarrow> \<not> is_space c) \<Longrightarrow> strip s = s"
    using * [of "rev s"] by (simp add: strip_def)
qed

lemma parse_nat_digits: "parse_nat (digits n) = Some (int n)"
proof -
  obtain k :: nat and cs where k: "k < 10" and d: "digits n = char_of (48 + k) # cs" by (rule digits_Cons)
  have "parse_nat (digits n) = parse_digits 0 (digits n @ [])"
    using k by (simp add: d parse_nat_def digit_value_char)
  then show ?thesis unfolding parse_digits_text by simp
qed

lemma parse_int_text: "parse_int (int_text n) = Some n"
proof (cases "n < 0")
  case True
  have "strip (int_text n) = int_text n"
    using True set_digits digit_char_props(1)
    by (intro strip_id) (fastforce simp: int_text_def is_space_def)
  then show ?thesis using True by (simp add: parse_int_def int_text_def parse_nat_digits)
next
  case False
  have "strip (int_text n) = int_text n"
    using False set_digits digit_char_props(1) by (intro strip_id) (fastforce simp: int_text_def)
  moreover obtain k :: nat and cs where "k < 10" "digits (nat n) = char_of (48 + k) # cs" by (rule digits_Cons)
  ultimately show ?thesis
    using False parse_nat_digits [of "nat n"] digit_char_props by (simp add: parse_int_def int_text_def)
qed

lemma int_text_inj [simp]: "int_text m = int_text n \<longleftrightarrow> m = n"
  by (metis option.inject parse_int_text)

end
