(* ===== verification/LS_QualityCalc.thy ===== *)
theory LS_QualityCalc
  imports LS_Decimal LS_Vocab LS_Json "HOL-Library.List_Lexorder" "HOL-Library.Char_ord"
begin

text \<open>
  Quality rules (\<open>app/domain/quality/calc.py\<close>): the versioned policy, the disposition of an
  inspection, shipment eligibility and the quality state. A frozenset of inspection types is
  a list without regard to order. A required inspection type that is not a text is rejected
  when the policy is read; the source would only fail when it compares or prints it.
\<close>

record quality_policy_rules =
  qr_sample_size :: int
  qr_max_defective_units :: int
  qr_max_critical_defects :: int
  qr_required_inspection_types :: "string list"

text \<open>\<open>tuple(value)\<close> of a JSON value whose elements are texts.\<close>

fun strings_of_json :: "json \<Rightarrow> exn + string list" where
  "strings_of_json (JArr []) = Inr []"
| "strings_of_json (JArr (JText (Lit s) # xs)) =
     bind_err (strings_of_json (JArr xs)) (\<lambda>ss. Inr (s # ss))"
| "strings_of_json (JText (Lit s)) = Inr (map (\<lambda>c. [c]) s)"
| "strings_of_json _ = Inl (TypeError ''not a list of texts'')"

definition rules_from_json :: "(jtext \<times> json) list \<Rightarrow> exn + quality_policy_rules" where
  "rules_from_json data =
     bind_err (some_or (KeyError ''sample_size'') (json_get data ''sample_size'')) (\<lambda>j1.
     bind_err (int_of_json j1) (\<lambda>sample_size.
     bind_err (some_or (KeyError ''max_defective_units'') (json_get data ''max_defective_units'')) (\<lambda>j2.
     bind_err (int_of_json j2) (\<lambda>max_defective_units.
     bind_err (some_or (KeyError ''max_critical_defects'') (json_get data ''max_critical_defects'')) (\<lambda>j3.
     bind_err (int_of_json j3) (\<lambda>max_critical_defects.
     bind_err (some_or (KeyError ''required_inspection_types'')
       (json_get data ''required_inspection_types'')) (\<lambda>j4.
     bind_err (strings_of_json j4) (\<lambda>types.
     bind_err (ensure (0 \<le> sample_size) (ValueError ''sample_size must be >= 0'')) (\<lambda>_.
     bind_err (ensure (0 \<le> max_defective_units) (ValueError ''max_defective_units must be >= 0'')) (\<lambda>_.
     bind_err (ensure (0 \<le> max_critical_defects) (ValueError ''max_critical_defects must be >= 0'')) (\<lambda>_.
     bind_err (ensure (types \<noteq> []) (ValueError ''required_inspection_types must not be empty'')) (\<lambda>_.
     Inr \<lparr>qr_sample_size = sample_size, qr_max_defective_units = max_defective_units,
          qr_max_critical_defects = max_critical_defects,
          qr_required_inspection_types = types\<rparr>))))))))))))"

record inspection_evaluation =
  ie_result :: inspection_result
  ie_reasons :: "string list"

record shipment_facts =
  sf_production_state :: production_state
  sf_quantity :: int
  sf_packed_units :: int
  sf_passed_inspection_types :: "string list"
  sf_required_inspection_types :: "string list"
  sf_has_active_hold :: bool
  sf_has_valid_release :: bool
  sf_policy_known :: bool

record shipment_eligibility =
  se_eligible :: bool
  se_reasons :: "string list"

definition defective_rate :: "int \<Rightarrow> int \<Rightarrow> decimal option" where
  "defective_rate defective_units inspected_units =
     (if inspected_units = 0 then None
      else Some (ddiv (of_int defective_units) (of_int inspected_units)))"

definition defects_per_hundred_units :: "int \<Rightarrow> int \<Rightarrow> decimal option" where
  "defects_per_hundred_units total_defects inspected_units =
     (if inspected_units = 0 then None
      else Some (dmul (ddiv (of_int total_defects) (of_int inspected_units)) 100))"

definition evaluate_inspection ::
  "quality_policy_rules \<Rightarrow> int \<Rightarrow> int \<Rightarrow> int \<Rightarrow> inspection_evaluation" where
  "evaluate_inspection rules inspected_units defective_units critical_defects =
     (if inspected_units < qr_sample_size rules
      then \<lparr>ie_result = INSUFFICIENT_SAMPLE, ie_reasons = []\<rparr>
      else let reasons =
             (if qr_max_defective_units rules < defective_units
              then [''DEFECTIVE_UNITS_EXCEEDED''] else []) @
             (if qr_max_critical_defects rules < critical_defects
              then [''CRITICAL_DEFECTS_EXCEEDED''] else [])
           in if reasons \<noteq> [] then \<lparr>ie_result = FAIL, ie_reasons = reasons\<rparr>
              else \<lparr>ie_result = PASS, ie_reasons = []\<rparr>)"

text \<open>\<open>sorted(required - passed)\<close>.\<close>

definition missing_types :: "shipment_facts \<Rightarrow> string list" where
  "missing_types facts =
     sorted_set (filter (\<lambda>t. t \<notin> set (sf_passed_inspection_types facts))
       (sf_required_inspection_types facts))"

definition shipment_eligibility_of :: "shipment_facts \<Rightarrow> shipment_eligibility" where
  "shipment_eligibility_of facts =
     (let reasons =
        (if \<not> sf_policy_known facts then [''POLICY_UNKNOWN''] else []) @
        (if sf_production_state facts \<noteq> PRODUCTION_COMPLETE
         then [''PRODUCTION_NOT_COMPLETE''] else []) @
        (if sf_packed_units facts < sf_quantity facts then [''PACKING_INCOMPLETE''] else []) @
        map (\<lambda>t. ''INSPECTION_MISSING:'' @ t) (missing_types facts) @
        (if sf_has_active_hold facts then [''ACTIVE_QUALITY_HOLD''] else []) @
        (if \<not> sf_has_valid_release facts then [''NO_QUALITY_RELEASE''] else [])
      in \<lparr>se_eligible = (reasons = []), se_reasons = reasons\<rparr>)"

definition quality_state_of :: "bool \<Rightarrow> bool \<Rightarrow> bool \<Rightarrow> quality_state" where
  "quality_state_of has_inspection has_active_hold has_valid_release =
     (if \<not> has_inspection then QS_NOT_INSPECTED
      else if has_active_hold then QS_HOLD
      else if has_valid_release then QS_RELEASED
      else QS_PENDING)"

section \<open>What the rules decide\<close>

lemma rules_from_json_valid:
  assumes "rules_from_json data = Inr rules"
  shows "0 \<le> qr_sample_size rules" and "0 \<le> qr_max_defective_units rules"
    and "0 \<le> qr_max_critical_defects rules" and "qr_required_inspection_types rules \<noteq> []"
  using assms by (auto simp: rules_from_json_def bind_err_Inr)

lemma evaluate_inspection_result:
  "ie_result (evaluate_inspection rules n d c) = PASS \<longleftrightarrow>
     qr_sample_size rules \<le> n \<and> d \<le> qr_max_defective_units rules \<and> c \<le> qr_max_critical_defects rules"
  "ie_result (evaluate_inspection rules n d c) = FAIL \<longleftrightarrow>
     qr_sample_size rules \<le> n \<and>
     (qr_max_defective_units rules < d \<or> qr_max_critical_defects rules < c)"
  by (auto simp: evaluate_inspection_def Let_def)

lemma missing_types_empty:
  "missing_types facts = [] \<longleftrightarrow>
     set (sf_required_inspection_types facts) \<subseteq> set (sf_passed_inspection_types facts)"
  using set_empty [of "missing_types facts"] by (auto simp: missing_types_def simp del: set_empty)

text \<open>The gates of a shipment.\<close>

lemma eligible_iff:
  "se_eligible (shipment_eligibility_of facts) \<longleftrightarrow>
     sf_policy_known facts \<and> sf_production_state facts = PRODUCTION_COMPLETE \<and>
     sf_quantity facts \<le> sf_packed_units facts \<and>
     set (sf_required_inspection_types facts) \<subseteq> set (sf_passed_inspection_types facts) \<and>
     \<not> sf_has_active_hold facts \<and> sf_has_valid_release facts"
  by (auto simp: shipment_eligibility_of_def Let_def missing_types_empty)

text \<open>
  An inspection that a policy passes still passes with a larger sample, fewer defective
  units and fewer critical defects: the disposition is monotone.
\<close>

lemma evaluate_inspection_mono:
  assumes "ie_result (evaluate_inspection rules n d c) = PASS"
    and "n \<le> n'" and "d' \<le> d" and "c' \<le> c"
  shows "ie_result (evaluate_inspection rules n' d' c') = PASS"
  using assms by (simp add: evaluate_inspection_result)

end
