(* ===== verification/LS_IECalc.thy ===== *)
theory LS_IECalc
  imports LS_Decimal LS_Vocab
begin

text \<open>
  Industrial engineering formulas (\<open>app/domain/ie/calc.py\<close>): the representative cycle time
  (a median), the line balance with its bottleneck, and throughput. A division by a zero
  cycle raises, as the source's does. The lemmas show that the bottleneck is the first
  maximum of the cycles.
\<close>

record operation_cycle =
  oc_operation_id :: uuid
  oc_operation_code :: string
  oc_representative_seconds :: decimal
  oc_parallel_operators :: int
  oc_sample_count :: int

record line_balance_result =
  lb_effective_cycles :: "decimal list"
  lb_bottleneck_index :: nat
  lb_bottleneck_effective_seconds :: decimal
  lb_units_per_hour :: decimal
  lb_balance_index_percent :: decimal

text \<open>\<open>statistics.median\<close>: the middle of the sorted data, or the mean of the middle two.\<close>

definition median :: "decimal list \<Rightarrow> exn + decimal" where
  "median data =
     (let d = sort data; n = length d
      in if n = 0 then Inl (ValueError ''no median for empty data'')
         else if odd n then Inr (d ! (n div 2))
         else Inr (ddiv (dadd (d ! (n div 2 - 1)) (d ! (n div 2))) 2))"

definition representative_cycle_seconds :: "decimal list \<Rightarrow> int \<Rightarrow> exn + decimal" where
  "representative_cycle_seconds samples min_samples =
     (if int (length samples) < min_samples then Inl InsufficientSamples else median samples)"

definition effective_cycle_seconds :: "decimal \<Rightarrow> int \<Rightarrow> exn + decimal" where
  "effective_cycle_seconds representative_seconds parallel_operators =
     ddiv_exn representative_seconds (of_int parallel_operators)"

text \<open>The loop over \<open>enumerate(effective_cycles)\<close>: index, bottleneck and its index so far.\<close>

fun bottleneck_loop :: "nat \<Rightarrow> decimal list \<Rightarrow> nat \<times> decimal \<Rightarrow> nat \<times> decimal" where
  "bottleneck_loop index [] best = best"
| "bottleneck_loop index (c # cs) (bi, b) =
     bottleneck_loop (Suc index) cs (if b < c then (index, c) else (bi, b))"

definition line_balance :: "decimal list \<Rightarrow> exn + line_balance_result" where
  "line_balance effective_cycles =
     (case effective_cycles of
        [] \<Rightarrow> Inl (ValueError ''effective_cycles must not be empty'')
      | first # _ \<Rightarrow>
        (let (bottleneck_index, bottleneck) = bottleneck_loop 0 effective_cycles (0, first)
         in bind_err (ddiv_exn 3600 bottleneck) (\<lambda>units_per_hour.
            let total = dsum effective_cycles
            in bind_err (ddiv_exn total (dmul (of_nat (length effective_cycles)) bottleneck)) (\<lambda>q.
               Inr \<lparr>lb_effective_cycles = effective_cycles, lb_bottleneck_index = bottleneck_index,
                    lb_bottleneck_effective_seconds = bottleneck,
                    lb_units_per_hour = units_per_hour, lb_balance_index_percent = dmul q 100\<rparr>))))"

definition sam_capacity_units_per_hour :: "int \<Rightarrow> decimal \<Rightarrow> decimal \<Rightarrow> exn + decimal" where
  "sam_capacity_units_per_hour operators sam_minutes_per_unit planned_efficiency =
     (if sam_minutes_per_unit \<le> 0
      then Inl (ValueError ''sam_minutes_per_unit must be greater than zero'')
      else Inr (ddiv (dmul (dmul (of_int operators) 60) planned_efficiency) sam_minutes_per_unit))"

definition observed_units_per_hour :: "int \<Rightarrow> decimal \<Rightarrow> exn + decimal" where
  "observed_units_per_hour units_output hours =
     (if hours \<le> 0 then Inl (ValueError ''hours must be greater than zero'')
      else Inr (ddiv (of_int units_output) hours))"

text \<open>The loop keeps the first maximum of what it has seen.\<close>

lemma bottleneck_loop_first_max:
  assumes "bottleneck_loop (length pre) cs (bi, b) = (i, m)"
    and "bi < length pre" and "pre ! bi = b"
    and "\<And>j. j < length pre \<Longrightarrow> pre ! j \<le> b" and "\<And>j. j < bi \<Longrightarrow> pre ! j < b"
  shows "i < length (pre @ cs) \<and> (pre @ cs) ! i = m \<and>
         (\<forall>j < length (pre @ cs). (pre @ cs) ! j \<le> m) \<and> (\<forall>j < i. (pre @ cs) ! j < m)"
  using assms
proof (induction cs arbitrary: pre bi b)
  case Nil
  then show ?case by auto
next
  case (Cons c cs)
  let ?st = "if b < c then (length pre, c) else (bi, b)"
  have run: "bottleneck_loop (length (pre @ [c])) cs (fst ?st, snd ?st) = (i, m)"
    using Cons.prems(1) by simp
  have "i < length ((pre @ [c]) @ cs) \<and> ((pre @ [c]) @ cs) ! i = m \<and>
        (\<forall>j < length ((pre @ [c]) @ cs). ((pre @ [c]) @ cs) ! j \<le> m) \<and>
        (\<forall>j < i. ((pre @ [c]) @ cs) ! j < m)"
    using Cons.prems(2-5)
    by (intro Cons.IH [OF run]) (auto simp: nth_append less_Suc_eq split: if_splits
        intro: le_less_trans less_imp_le order_trans)
  then show ?case by simp
qed

text \<open>
  The bottleneck of a line is the first operation with the largest effective cycle:
  no operation is slower, and every earlier one is strictly faster.
\<close>

theorem line_balance_bottleneck:
  assumes "line_balance cycles = Inr r"
  shows "lb_bottleneck_index r < length cycles \<and>
         cycles ! lb_bottleneck_index r = lb_bottleneck_effective_seconds r \<and>
         (\<forall>j. j < length cycles \<longrightarrow> cycles ! j \<le> lb_bottleneck_effective_seconds r) \<and>
         (\<forall>j. j < lb_bottleneck_index r \<longrightarrow> cycles ! j < lb_bottleneck_effective_seconds r)"
proof -
  from assms obtain c cs i m where cycles: "cycles = c # cs"
    and run: "bottleneck_loop (length [c]) cs (0, c) = (i, m)"
    and r: "lb_bottleneck_index r = i" "lb_bottleneck_effective_seconds r = m"
    by (auto simp: line_balance_def bind_err_Inr Let_def split: list.splits prod.splits)
  show ?thesis
    unfolding r using bottleneck_loop_first_max [OF run] cycles by auto
qed

theorem line_balance_bottleneck_witness:
  "\<exists>r. line_balance [30, 45, 45, 20] = Inr r \<and> lb_bottleneck_index r = 1 \<and>
     lb_bottleneck_effective_seconds r = 45"
proof -
  have "bottleneck_loop 0 [30, 45, 45, 20] (0, 30) = (1, 45)" by simp
  moreover have "dmul 4 45 \<noteq> 0" using ctx_round_pos [of "4 * 45"] by (simp add: dmul_def)
  ultimately obtain r where r: "line_balance [30, 45, 45, 20] = Inr r" "lb_bottleneck_index r = 1"
    by (simp add: line_balance_def ddiv_exn_def Let_def)
  show ?thesis using line_balance_bottleneck [OF r(1)] r by auto
qed

end
