(* ===== verification/LS_Policy.thy ===== *)
theory LS_Policy
  imports LS_Vocab LS_Errors "HOL-Library.List_Lexorder" "HOL-Library.Char_ord"
begin

text \<open>
  Roles, permissions and the authenticated principal (\<open>app/auth/policy.py\<close>), and the
  organization and factory scoping of a row (\<open>app/auth/scope.py\<close>). The principal's
  \<open>roles_by_factory\<close> is an association list with the key \<open>None\<close> for the org-wide roles,
  a role set is a list without regard to order.
\<close>

definition all_roles :: "role list" where
  "all_roles =
     [ORG_ADMIN, SUPERVISOR, PLANNER, STOREKEEPER, IE_ENGINEER, QUALITY_MANAGER, VIEWER]"

definition read_permissions :: "string list" where
  "read_permissions =
     [''order:read'', ''analysis:read'', ''inventory:read'', ''capacity:read'', ''ie:read'',
      ''quality:read'', ''document:read'']"

definition PERMISSIONS :: "(string \<times> role list) list" where
  "PERMISSIONS =
     map (\<lambda>p. (p, all_roles)) read_permissions @
     [(''order:create'', [PLANNER, SUPERVISOR]),
      (''order:import'', [PLANNER, SUPERVISOR]),
      (''order:transition'', [PLANNER, SUPERVISOR]),
      (''order:dispatch'', [SUPERVISOR]),
      (''order:cancel'', [SUPERVISOR]),
      (''analysis:run'', [PLANNER, SUPERVISOR]),
      (''recommendation:decide'', [SUPERVISOR]),
      (''recommendation:apply'', [SUPERVISOR]),
      (''inventory:write'', [STOREKEEPER]),
      (''ie:write'', [IE_ENGINEER]),
      (''quality:inspect'', [QUALITY_MANAGER]),
      (''quality:hold'', [QUALITY_MANAGER]),
      (''quality:release'', [QUALITY_MANAGER]),
      (''document:upload'', [ORG_ADMIN, SUPERVISOR, QUALITY_MANAGER, IE_ENGINEER]),
      (''note:create'', [SUPERVISOR, PLANNER, STOREKEEPER, IE_ENGINEER, QUALITY_MANAGER]),
      (''audit:read'', [ORG_ADMIN, SUPERVISOR]),
      (''admin:manage'', [ORG_ADMIN])]"

text \<open>\<open>PERMISSIONS[permission]\<close>: a name outside the policy raises KeyError.\<close>

definition permission_roles :: "string \<Rightarrow> exn + role list" where
  "permission_roles permission =
     (case map_of PERMISSIONS permission of
        None \<Rightarrow> Inl (KeyError permission)
      | Some roles \<Rightarrow> Inr roles)"

text \<open>\<open>sorted(p for p, allowed in PERMISSIONS.items() if roles & allowed)\<close>.\<close>

definition intersects :: "role list \<Rightarrow> role list \<Rightarrow> bool" where
  "intersects a b \<longleftrightarrow> list_ex (\<lambda>r. r \<in> set b) a"

definition permissions_for_roles :: "role list \<Rightarrow> string list" where
  "permissions_for_roles roles =
     sort (map fst (filter (\<lambda>(_, allowed). intersects roles allowed) PERMISSIONS))"

record principal =
  p_user_id :: uuid
  p_organization_id :: uuid
  p_session_id :: uuid
  p_csrf_token :: string
  p_display_name :: string
  p_roles_by_factory :: "(uuid option \<times> role list) list"

definition roles_at :: "principal \<Rightarrow> uuid option \<Rightarrow> role list" where
  "roles_at p key = (case map_of (p_roles_by_factory p) key of None \<Rightarrow> [] | Some rs \<Rightarrow> rs)"

definition roles_for :: "principal \<Rightarrow> uuid \<Rightarrow> role list" where
  "roles_for p factory_id = roles_at p (Some factory_id) @ roles_at p None"

definition has :: "principal \<Rightarrow> string \<Rightarrow> uuid \<Rightarrow> exn + bool" where
  "has p permission factory_id =
     (case permission_roles permission of
        Inl e \<Rightarrow> Inl e
      | Inr allowed \<Rightarrow> Inr (intersects (roles_for p factory_id) allowed))"

definition has_anywhere :: "principal \<Rightarrow> string \<Rightarrow> exn + bool" where
  "has_anywhere p permission =
     (case permission_roles permission of
        Inl e \<Rightarrow> Inl e
      | Inr allowed \<Rightarrow> Inr (list_ex (\<lambda>(_, roles). intersects roles allowed) (p_roles_by_factory p)))"

text \<open>\<open>factory_ids\<close> and \<open>has_org_wide_roles\<close>.\<close>

definition factory_ids :: "principal \<Rightarrow> uuid list" where
  "factory_ids p =
     List.map_filter (\<lambda>(key, roles). if roles \<noteq> [] then key else None) (p_roles_by_factory p)"

definition has_org_wide_roles :: "principal \<Rightarrow> bool" where
  "has_org_wide_roles p \<longleftrightarrow> roles_at p None \<noteq> []"

definition not_found :: exn where
  "not_found = AppError 404 NOT_FOUND ''Resource not found.'' []"

definition forbidden :: exn where
  "forbidden = AppError 403 FORBIDDEN ''Missing permission .'' []"

definition require :: "principal \<Rightarrow> string \<Rightarrow> uuid \<Rightarrow> exn + unit" where
  "require p permission factory_id =
     (case has p permission factory_id of
        Inl e \<Rightarrow> Inl e
      | Inr ok \<Rightarrow> if ok then Inr () else Inl forbidden)"

text \<open>
  \<open>load_scoped\<close> on a table: the lookup by primary key, the tenancy check, then the roles.
  The columns are parameters because the code applies it to every model:
  \<open>org\<close> is \<open>getattr(row, "organization_id", None)\<close>, \<open>fac\<close> is the row's own id for a
  Factory and \<open>getattr(row, "factory_id", None)\<close> otherwise.
\<close>

definition load_scoped ::
  "('r \<Rightarrow> uuid) \<Rightarrow> ('r \<Rightarrow> uuid option) \<Rightarrow> ('r \<Rightarrow> uuid option) \<Rightarrow> 'r list \<Rightarrow>
   uuid \<Rightarrow> principal \<Rightarrow> string \<Rightarrow> exn + 'r" where
  "load_scoped key org fac rs resource_id p permission =
     (case permission_roles permission of
        Inl e \<Rightarrow> Inl e
      | Inr allowed \<Rightarrow>
        (case row key resource_id rs of
           None \<Rightarrow> Inl not_found
         | Some r \<Rightarrow>
           if org r \<noteq> Some (p_organization_id p) then Inl not_found
           else (case fac r of
                   None \<Rightarrow>
                     if \<not> list_ex (\<lambda>(_, roles). roles \<noteq> []) (p_roles_by_factory p) then Inl not_found
                     else if \<not> list_ex (\<lambda>(_, roles). intersects roles allowed) (p_roles_by_factory p)
                     then Inl forbidden
                     else Inr r
                 | Some f \<Rightarrow>
                     let roles = roles_for p f
                     in if roles = [] then Inl not_found
                        else if \<not> intersects roles allowed then Inl forbidden
                        else Inr r)))"

text \<open>
  The list filters. A \<open>Factory\<close> row; \<open>ORDER BY code\<close> is a stable sort (the code is unique
  in an organization).
\<close>

record factory =
  fa_id :: uuid
  fa_organization_id :: uuid
  fa_code :: string
  fa_name :: string
  fa_timezone :: string

definition accessible_factory_ids :: "factory list \<Rightarrow> principal \<Rightarrow> string \<Rightarrow> exn + uuid list" where
  "accessible_factory_ids factories p permission =
     (case permission_roles permission of
        Inl e \<Rightarrow> Inl e
      | Inr allowed \<Rightarrow>
        (let stmt = sort_key fa_code
               (filter (\<lambda>f. fa_organization_id f = p_organization_id p) factories)
         in if \<not> intersects (roles_at p None) allowed
            then let explicit = List.map_filter
                       (\<lambda>(factory_id, roles). if intersects roles allowed then factory_id else None)
                       (p_roles_by_factory p)
                 in if explicit = [] then Inr []
                    else Inr (map fa_id (filter (\<lambda>f. fa_id f \<in> set explicit) stmt))
            else Inr (map fa_id stmt)))"

definition visible_factories :: "factory list \<Rightarrow> principal \<Rightarrow> factory list" where
  "visible_factories factories p =
     (let stmt = sort_key fa_code
            (filter (\<lambda>f. fa_organization_id f = p_organization_id p) factories)
      in if \<not> has_org_wide_roles p
         then let explicit = factory_ids p
              in if explicit = [] then []
                 else filter (\<lambda>f. fa_id f \<in> set explicit) stmt
         else stmt)"

lemma load_scoped_cases:
  assumes "load_scoped key org fac rs k p perm = Inr r"
  shows "row key k rs = Some r" and "org r = Some (p_organization_id p)"
    and "fac r = Some f \<Longrightarrow> has p perm f = Inr True"
  using assms
  by (auto simp: load_scoped_def has_def Let_def split: sum.splits option.splits if_splits)

lemma load_scoped_rejects:
  assumes "load_scoped key org fac rs k p perm = Inl e" and "permission_roles perm = Inr allowed"
  shows "e = not_found \<or> e = forbidden"
  using assms
  by (auto simp: load_scoped_def Let_def split: sum.splits option.splits if_splits)

text \<open>Two tables that agree on what the principal may see answer alike.\<close>

lemma load_scoped_invisible:
  assumes "permission_roles perm = Inr allowed"
    and "\<And>r. row key k rs = Some r \<Longrightarrow>
           org r \<noteq> Some (p_organization_id p) \<or> (\<exists>f. fac r = Some f \<and> roles_for p f = [])"
  shows "load_scoped key org fac rs k p perm = Inl not_found"
proof (cases "row key k rs")
  case None
  then show ?thesis using assms(1) by (simp add: load_scoped_def)
next
  case (Some r)
  from assms(2) [OF Some] show ?thesis
    using assms(1) Some by (auto simp: load_scoped_def)
qed

text \<open>
  C2. Tenancy: a row of another organization, or of a factory where the caller has no role
  at all, cannot be told from a row that does not exist, whatever its contents: the answer
  is the same 404.
\<close>

theorem load_scoped_hides_other_tenants:
  assumes "permission_roles perm = Inr allowed"
    and "row key k rs = Some r"
    and "org r \<noteq> Some (p_organization_id p) \<or> (\<exists>f. fac r = Some f \<and> roles_for p f = [])"
  shows "load_scoped key org fac rs k p perm = load_scoped key org fac [] k p perm"
proof -
  have "load_scoped key org fac rs k p perm = Inl not_found"
    using assms by (intro load_scoped_invisible [OF assms(1)]) auto
  moreover have "load_scoped key org fac [] k p perm = Inl not_found"
    by (rule load_scoped_invisible [OF assms(1)]) simp
  ultimately show ?thesis by simp
qed

theorem load_scoped_hides_other_tenants_witness:
  "load_scoped fa_id (\<lambda>f. Some (fa_organization_id f)) (\<lambda>f. Some (fa_id f))
     [\<lparr>fa_id = 7, fa_organization_id = 2, fa_code = ''DHK'', fa_name = ''DHK'', fa_timezone = ''UTC''\<rparr>] 7
     \<lparr>p_user_id = 1, p_organization_id = 1, p_session_id = 1, p_csrf_token = '''',
      p_display_name = '''', p_roles_by_factory = [(None, [SUPERVISOR])]\<rparr> ''order:read''
   = Inl not_found"
  by (subst load_scoped_hides_other_tenants [where allowed = all_roles
        and r = "\<lparr>fa_id = 7, fa_organization_id = 2, fa_code = ''DHK'', fa_name = ''DHK'', fa_timezone = ''UTC''\<rparr>"])
    (simp_all add: load_scoped_def permission_roles_def PERMISSIONS_def read_permissions_def)

text \<open>
  C3. What a loaded row guarantees: it is the row asked for, in the caller's organization,
  and a row of a factory is only returned when a role for that factory (or an org-wide
  role) grants the permission.
\<close>

theorem load_scoped_sound:
  assumes "load_scoped key org (\<lambda>r. Some (f r)) rs k p perm = Inr r"
  shows "row key k rs = Some r \<and> org r = Some (p_organization_id p) \<and>
         (\<exists>allowed role. permission_roles perm = Inr allowed \<and>
            role \<in> set (roles_for p (f r)) \<and> role \<in> set allowed)"
  using assms
  by (auto simp: load_scoped_def Let_def intersects_def list_ex_iff
      split: sum.splits option.splits if_splits)

theorem load_scoped_sound_witness:
  "load_scoped fa_id (\<lambda>f. Some (fa_organization_id f)) (\<lambda>f. Some (fa_id f))
     [\<lparr>fa_id = 7, fa_organization_id = 1, fa_code = ''DHK'', fa_name = ''DHK'', fa_timezone = ''UTC''\<rparr>] 7
     \<lparr>p_user_id = 1, p_organization_id = 1, p_session_id = 1, p_csrf_token = '''',
      p_display_name = '''', p_roles_by_factory = [(Some 7, [SUPERVISOR])]\<rparr> ''order:dispatch''
   = Inr \<lparr>fa_id = 7, fa_organization_id = 1, fa_code = ''DHK'', fa_name = ''DHK'', fa_timezone = ''UTC''\<rparr> \<and>
   (\<exists>allowed role. permission_roles ''order:dispatch'' = Inr allowed \<and>
      role \<in> set (roles_for \<lparr>p_user_id = 1, p_organization_id = 1, p_session_id = 1,
        p_csrf_token = '''', p_display_name = '''',
        p_roles_by_factory = [(Some 7, [SUPERVISOR])]\<rparr> 7) \<and> role \<in> set allowed)"
  (is "load_scoped ?key ?org ?fac ?rs ?k ?p ?perm = Inr ?r \<and> _")
proof -
  have l: "load_scoped ?key ?org ?fac ?rs ?k ?p ?perm = Inr ?r"
    by (simp add: load_scoped_def permission_roles_def PERMISSIONS_def read_permissions_def
        roles_for_def roles_at_def intersects_def)
  from load_scoped_sound [OF l] l show ?thesis by simp
qed

text \<open>The table entries the guards of the services read.\<close>

lemma permission_roles_simps [simp]:
  "permission_roles ''recommendation:decide'' = Inr [SUPERVISOR]"
  "permission_roles ''recommendation:apply'' = Inr [SUPERVISOR]"
  "permission_roles ''inventory:write'' = Inr [STOREKEEPER]"
  "permission_roles ''order:read'' = Inr all_roles"
  "permission_roles ''order:transition'' = Inr [PLANNER, SUPERVISOR]"
  "permission_roles ''order:dispatch'' = Inr [SUPERVISOR]"
  "permission_roles ''order:cancel'' = Inr [SUPERVISOR]"
  "permission_roles ''order:create'' = Inr [PLANNER, SUPERVISOR]"
  "permission_roles ''quality:inspect'' = Inr [QUALITY_MANAGER]"
  "permission_roles ''quality:hold'' = Inr [QUALITY_MANAGER]"
  "permission_roles ''quality:release'' = Inr [QUALITY_MANAGER]"
  by (simp_all add: permission_roles_def PERMISSIONS_def read_permissions_def)

lemma roles_at_iff:
  assumes "distinct (map fst (p_roles_by_factory p))"
  shows "r \<in> set (roles_at p key) \<longleftrightarrow> (\<exists>rs. (key, rs) \<in> set (p_roles_by_factory p) \<and> r \<in> set rs)"
  using assms by (auto simp: roles_at_def split: option.splits dest: map_of_SomeD)

lemma explicit_iff:
  assumes "distinct (map fst (p_roles_by_factory p))"
  shows "f \<in> set (List.map_filter (\<lambda>(k, roles). if intersects roles allowed then k else None)
            (p_roles_by_factory p)) \<longleftrightarrow> intersects (roles_at p (Some f)) allowed"
proof -
  have mf: "x \<in> set (List.map_filter g xs) \<longleftrightarrow> (\<exists>y\<in>set xs. g y = Some x)"
    for x :: uuid and g :: "uuid option \<times> role list \<Rightarrow> uuid option" and xs
    by (force simp: List.map_filter_def)
  have "intersects (roles_at p (Some f)) allowed \<longleftrightarrow>
          (\<exists>rs. (Some f, rs) \<in> set (p_roles_by_factory p) \<and> intersects rs allowed)"
    unfolding intersects_def list_ex_iff Bex_def roles_at_iff [OF assms] by blast
  then show ?thesis unfolding mf by (force split: if_splits)
qed

text \<open>
  C4. The list filter and the row check agree: the accessible factories are, in the order of
  their codes, exactly the factories of the caller's organization at which the caller has
  the permission.
\<close>

theorem accessible_iff_has:
  assumes "distinct (map fst (p_roles_by_factory p))"
  shows "accessible_factory_ids factories p perm =
           (case permission_roles perm of Inl e \<Rightarrow> Inl e
            | Inr _ \<Rightarrow> Inr (map fa_id (filter (\<lambda>f. has p perm (fa_id f) = Inr True)
                (sort_key fa_code
                  (filter (\<lambda>f. fa_organization_id f = p_organization_id p) factories)))))"
proof (cases "permission_roles perm")
  case (Inr allowed)
  have split: "intersects (roles_for p f) allowed \<longleftrightarrow>
      intersects (roles_at p (Some f)) allowed \<or> intersects (roles_at p None) allowed" for f
    by (auto simp: intersects_def roles_for_def)
  have none: "\<not> intersects (roles_at p (Some f)) allowed"
    if "List.map_filter (\<lambda>(k, roles). if intersects roles allowed then k else None)
          (p_roles_by_factory p) = []" for f
    using that explicit_iff [OF assms, of f allowed] by simp
  show ?thesis
    using none Inr by (simp add: accessible_factory_ids_def has_def Let_def split explicit_iff [OF assms])
qed (simp add: accessible_factory_ids_def)

theorem accessible_iff_has_witness:
  "accessible_factory_ids
     [\<lparr>fa_id = 7, fa_organization_id = 1, fa_code = ''DHK'', fa_name = ''DHK'', fa_timezone = ''UTC''\<rparr>,
      \<lparr>fa_id = 8, fa_organization_id = 1, fa_code = ''CTG'', fa_name = ''CTG'', fa_timezone = ''UTC''\<rparr>]
     \<lparr>p_user_id = 1, p_organization_id = 1, p_session_id = 1, p_csrf_token = '''',
      p_display_name = '''', p_roles_by_factory = [(Some 7, [SUPERVISOR]), (Some 8, [PLANNER])]\<rparr>
     ''order:dispatch'' = Inr [7]"
  by (subst accessible_iff_has)
    (simp_all add: has_def roles_for_def roles_at_def intersects_def)

end
