(* ===== verification/LS_Protocol.thy ===== *)
theory LS_Protocol
  imports LS_Vocab LS_Json
begin

text \<open>
  The agent task protocol (\<open>app/orchestration/protocol.py\<close>) and the schema of a run snapshot
  (\<open>app/orchestration/snapshot.py\<close>). A pydantic model is a record of its fields; a field
  that a \<open>Literal\<close> fixes to one value is left out. A JSON column that holds a dumped model is
  kept as the model's value, since the code only stores \<open>model_dump\<close> of a model and reads it
  back with \<open>model_validate\<close>. A metric's value is a finite number: pydantic does not accept
  another one.
\<close>

section \<open>Tasks\<close>

datatype agent_error_code =
    AE_MISSING_DATA | AE_STALE_INPUT | AE_PROVIDER_UNAVAILABLE | AE_BUDGET_EXCEEDED
  | AE_INVALID_AGENT_OUTPUT | AE_POLICY_DENIED | AE_DEADLINE_EXCEEDED

fun agent_error_code_value :: "agent_error_code \<Rightarrow> string" where
  "agent_error_code_value AE_MISSING_DATA = ''MISSING_DATA''"
| "agent_error_code_value AE_STALE_INPUT = ''STALE_INPUT''"
| "agent_error_code_value AE_PROVIDER_UNAVAILABLE = ''PROVIDER_UNAVAILABLE''"
| "agent_error_code_value AE_BUDGET_EXCEEDED = ''BUDGET_EXCEEDED''"
| "agent_error_code_value AE_INVALID_AGENT_OUTPUT = ''INVALID_AGENT_OUTPUT''"
| "agent_error_code_value AE_POLICY_DENIED = ''POLICY_DENIED''"
| "agent_error_code_value AE_DEADLINE_EXCEEDED = ''DEADLINE_EXCEEDED''"

definition RETRYABLE :: "agent_error_code \<Rightarrow> bool" where
  "RETRYABLE c \<longleftrightarrow> c = AE_PROVIDER_UNAVAILABLE"

fun ALLOWED_TASK_TYPES :: "agent_recipient \<Rightarrow> string list" where
  "ALLOWED_TASK_TYPES AGENT_RM = [''assess_material_readiness'', ''validate_plan_materials'']"
| "ALLOWED_TASK_TYPES AGENT_IE = [''assess_line_capability'']"
| "ALLOWED_TASK_TYPES AGENT_PLANNING = [''propose_allocation'', ''revise_allocation'']"
| "ALLOWED_TASK_TYPES AGENT_QUALITY = [''assess_quality_status'']"

text \<open>The key as the list of the texts it is put together from.\<close>

definition idempotency_key_for :: "uuid \<Rightarrow> agent_recipient \<Rightarrow> uuid \<Rightarrow> int \<Rightarrow> jtext list" where
  "idempotency_key_for run_id recipient snapshot_id round_no =
     [Id run_id, Lit '':'', Lit (agent_recipient_value recipient), Lit '':'', Id snapshot_id,
      Lit '':round-'', Lit (int_text round_no)]"

datatype input_ref_type =
    REF_ORDER | REF_SNAPSHOT | REF_AGENT_RESULT | REF_MATERIAL_BALANCE | REF_CAPACITY_SLOT
  | REF_POLICY

record input_ref =
  ir_type :: input_ref_type
  ir_id :: uuid
  ir_version :: "int option"

record task_envelope =
  te_message_id :: uuid
  te_run_id :: uuid
  te_parent_task_id :: "uuid option"
  te_organization_id :: uuid
  te_factory_id :: uuid
  te_order_id :: uuid
  te_snapshot_id :: uuid
  te_recipient :: agent_recipient
  te_task_type :: string
  te_idempotency_key :: "jtext list"
  te_round :: int
  te_deadline_at :: datetime
  te_input_refs :: "input_ref list"
  te_max_tool_calls :: int
  te_trace_id :: string

text \<open>What pydantic checks when an envelope is built or read.\<close>

definition envelope_valid :: "task_envelope \<Rightarrow> bool" where
  "envelope_valid e \<longleftrightarrow>
     te_task_type e \<in> set (ALLOWED_TASK_TYPES (te_recipient e)) \<and>
     0 \<le> te_round e \<and> te_round e \<le> 1 \<and>
     0 \<le> te_max_tool_calls e \<and> te_max_tool_calls e \<le> 4 \<and> length (te_trace_id e) \<le> 200"

section \<open>Results\<close>

datatype evidence_kind = EV_RECORD | EV_DOCUMENT | EV_CALCULATION

record evidence_ref =
  ev_evidence_id :: string
  ev_kind :: evidence_kind
  ev_record_type :: "string option"
  ev_record_id :: "uuid option"
  ev_record_version :: "int option"
  ev_document_id :: "uuid option"
  ev_document_version_id :: "uuid option"
  ev_chunk_id :: "uuid option"
  ev_page_number :: "int option"
  ev_section :: "string option"
  ev_description :: string

datatype severity_level = SEV_INFO | SEV_WARNING | SEV_CRITICAL

record finding =
  fi_finding_id :: string
  fi_severity :: severity_level
  fi_code :: string
  fi_message :: string
  fi_evidence_ids :: "string list"
  fi_source :: generated_by

record metric =
  me_name :: string
  me_value :: "rat option"
  me_unit :: string
  me_note :: "string option"

datatype action_kind =
    ACT_ALLOCATION | ACT_RESERVATION | ACT_ALLOCATION_AND_RESERVATION
  | ACT_REPLENISHMENT_SUGGESTION | ACT_QUALITY_HOLD_REVIEW | ACT_IE_REVIEW

record recommended_action =
  ra_action_id :: string
  ra_kind :: action_kind
  ra_summary :: string
  ra_payload :: "(jtext \<times> json) list"
  ra_evidence_ids :: "string list"
  ra_rank :: int
  ra_source :: generated_by

record data_quality =
  dq_complete :: bool
  dq_missing :: "string list"
  dq_notes :: "string list"

record execution_metadata =
  em_provider :: string
  em_model :: string
  em_model_calls :: int
  em_tool_calls :: "string list"
  em_input_tokens :: int
  em_output_tokens :: int
  em_prompt_version :: string
  em_degraded :: bool
  em_degraded_reason :: "string option"
  em_started_at :: datetime
  em_completed_at :: datetime

datatype result_status = AR_SUCCEEDED | AR_DEGRADED | AR_FAILED

fun result_status_value :: "result_status \<Rightarrow> string" where
  "result_status_value AR_SUCCEEDED = ''SUCCEEDED''"
| "result_status_value AR_DEGRADED = ''DEGRADED''"
| "result_status_value AR_FAILED = ''FAILED''"

record agent_result =
  ar_task_id :: uuid
  ar_agent :: agent_recipient
  ar_status :: result_status
  ar_summary :: string
  ar_summary_source :: generated_by
  ar_findings :: "finding list"
  ar_metrics :: "metric list"
  ar_recommended_actions :: "recommended_action list"
  ar_evidence_refs :: "evidence_ref list"
  ar_warnings :: "string list"
  ar_input_versions :: "(jtext \<times> json) list"
  ar_data_quality :: data_quality
  ar_execution_metadata :: execution_metadata
  ar_error_code :: "agent_error_code option"

text \<open>\<open>ref.model_dump(mode="json")\<close>.\<close>

fun evidence_kind_value :: "evidence_kind \<Rightarrow> string" where
  "evidence_kind_value EV_RECORD = ''record''"
| "evidence_kind_value EV_DOCUMENT = ''document''"
| "evidence_kind_value EV_CALCULATION = ''calculation''"

definition json_opt :: "('a \<Rightarrow> json) \<Rightarrow> 'a option \<Rightarrow> json" where
  "json_opt f x = (case x of None \<Rightarrow> JNull | Some v \<Rightarrow> f v)"

definition evidence_fields :: "evidence_ref \<Rightarrow> (jtext \<times> json) list" where
  "evidence_fields e =
     [(Lit ''evidence_id'', JStr (ev_evidence_id e)),
      (Lit ''kind'', JStr (evidence_kind_value (ev_kind e))),
      (Lit ''record_type'', json_opt JStr (ev_record_type e)),
      (Lit ''record_id'', json_opt (JText \<circ> Id) (ev_record_id e)),
      (Lit ''record_version'', json_opt JInt (ev_record_version e)),
      (Lit ''document_id'', json_opt (JText \<circ> Id) (ev_document_id e)),
      (Lit ''document_version_id'', json_opt (JText \<circ> Id) (ev_document_version_id e)),
      (Lit ''chunk_id'', json_opt (JText \<circ> Id) (ev_chunk_id e)),
      (Lit ''page_number'', json_opt JInt (ev_page_number e)),
      (Lit ''section'', json_opt JStr (ev_section e)),
      (Lit ''description'', JStr (ev_description e))]"

section \<open>The snapshot of a run\<close>

record snapshot_order =
  xo_id :: uuid
  xo_version :: int
  xo_external_ref :: string
  xo_customer_code :: string
  xo_style_id :: uuid
  xo_style_code :: string
  xo_quantity :: int
  xo_produced_units :: int
  xo_remaining_units :: int
  xo_due_date :: date
  xo_priority :: int
  xo_production_state :: production_state
  xo_factory_timezone :: string

record snapshot_bom_line =
  xl_bom_line_id :: uuid
  xl_material_id :: uuid
  xl_material_code :: string
  xl_material_name :: string
  xl_material_unit :: string
  xl_bom_unit :: string
  xl_quantity_per_unit :: rat
  xl_wastage_fraction :: rat
  xl_safety_stock :: rat
  xl_lead_time_days :: int
  xl_pack_size :: "rat option"

record snapshot_bom =
  xb_bom_version_id :: uuid
  xb_version_no :: int
  xb_lines :: "snapshot_bom_line list"

record snapshot_receipt =
  xr_id :: uuid
  xr_quantity :: rat
  xr_expected_date :: date

record snapshot_material =
  xm_balance_id :: "uuid option"
  xm_balance_version :: "int option"
  xm_on_hand_accepted :: rat
  xm_reserved :: rat
  xm_open_receipts :: "snapshot_receipt list"
  xm_issues_14d :: "(date \<times> rat) list"

record snapshot_operation =
  xp_operation_id :: uuid
  xp_sequence :: int
  xp_code :: string
  xp_name :: string
  xp_sam_minutes :: rat
  xp_skill_code :: string

record snapshot_line =
  xn_line_id :: uuid
  xn_code :: string
  xn_name :: string
  xn_operator_count :: int
  xn_compatible :: bool
  xn_missing_skills :: "string list"

record snapshot_slot =
  xs_slot_id :: uuid
  xs_line_id :: uuid
  xs_line_code :: string
  xs_slot_date :: date
  xs_shift_code :: string
  xs_available_operator_minutes :: rat
  xs_planned_efficiency :: rat
  xs_allocated_standard_minutes :: rat
  xs_version :: int

record snapshot_quality =
  xq_policy :: "(jtext \<times> json) list option"
  xq_inspections :: "(jtext \<times> json) list list"
  xq_active_holds :: "(jtext \<times> json) list list"
  xq_releases :: "(jtext \<times> json) list list"
  xq_shipment :: "bool \<times> string list"
  xq_quality_state :: quality_state

text \<open>The keys of \<open>materials\<close> and \<open>ie\<close> are texts of identifiers.\<close>

record snapshot_data =
  xd_order :: snapshot_order
  xd_as_of_date :: date
  xd_bom :: snapshot_bom
  xd_materials :: "(uuid \<times> snapshot_material) list"
  xd_operations :: "snapshot_operation list"
  xd_sam_total_minutes :: rat
  xd_lines :: "snapshot_line list"
  xd_slots :: "snapshot_slot list"
  xd_ie :: "(uuid \<times> (jtext \<times> json) list) list"
  xd_quality :: snapshot_quality

definition snapshot_balance_ids :: "snapshot_data \<Rightarrow> uuid list" where
  "snapshot_balance_ids d = List.map_filter (xm_balance_id \<circ> snd) (xd_materials d)"

definition snapshot_slot_ids :: "snapshot_data \<Rightarrow> uuid list" where
  "snapshot_slot_ids d = map xs_slot_id (xd_slots d)"

section \<open>Keys name their task\<close>

lemma recipient_value_inj [simp]: "agent_recipient_value a = agent_recipient_value b \<longleftrightarrow> a = b"
  by (cases a; cases b) simp_all

lemma idempotency_key_inj:
  "idempotency_key_for r a s n = idempotency_key_for r' a' s' n' \<longleftrightarrow>
   r = r' \<and> a = a' \<and> s = s' \<and> n = n'"
  by (auto simp: idempotency_key_for_def)

end
