(* ===== verification/LS_Models.thy ===== *)
theory LS_Models
  imports LS_Policy LS_Protocol LS_Decimal
begin

text \<open>
  The database: the rows of \<open>app/db/models\<close> the modelled services use, and the statements a
  flush sends. The state of a transaction is the record \<open>db\<close>: the tables, the pool
  \<open>uuid4\<close> of identifiers Python draws its primary keys from (\<open>drawn\<close> counts the draws), the
  transaction's clock readings and the row locks it has taken, in order. A service call is a
  function from a state to a failure (the transaction is rolled back) or a result and the
  new state. A flush checks what PostgreSQL checks: the primary key, the unique and check
  constraints (IntegrityError) and the range of a numeric column (DataError). Foreign keys
  are modelled where the code can meet a dangling one, the 32-bit range of integer columns
  is not. A record has the columns of its table, in their order, without the \<open>created_at\<close>
  and \<open>updated_at\<close> stamps that no modelled operation reads and without the serial number of
  the append-only audit log, which is the position in the list. A link is a path prefix and
  an identifier, a deduplication key the list of the texts it is put together from.
\<close>

section \<open>Rows\<close>

record material =
  ma_id :: uuid
  ma_organization_id :: uuid
  ma_code :: string
  ma_name :: string
  ma_unit :: string
  ma_safety_stock :: decimal
  ma_lead_time_days :: int
  ma_pack_size :: "decimal option"

record material_lot =
  lo_id :: uuid
  lo_organization_id :: uuid
  lo_factory_id :: uuid
  lo_material_id :: uuid
  lo_lot_code :: string
  lo_status :: material_lot_status
  lo_received_at :: datetime

record stock_movement =
  mv_id :: uuid
  mv_organization_id :: uuid
  mv_factory_id :: uuid
  mv_material_id :: uuid
  mv_lot_id :: "uuid option"
  mv_movement_type :: movement_type
  mv_quantity :: decimal
  mv_corrects_movement_id :: "uuid option"
  mv_reason :: "string option"
  mv_order_id :: "uuid option"
  mv_created_by :: "uuid option"
  mv_created_at :: datetime

record material_balance =
  ba_id :: uuid
  ba_organization_id :: uuid
  ba_factory_id :: uuid
  ba_material_id :: uuid
  ba_on_hand_accepted :: decimal
  ba_reserved :: decimal
  ba_version :: int

record reservation =
  rv_id :: uuid
  rv_organization_id :: uuid
  rv_factory_id :: uuid
  rv_material_id :: uuid
  rv_order_id :: uuid
  rv_quantity :: decimal
  rv_status :: reservation_status
  rv_recommendation_id :: "uuid option"
  rv_created_by :: "uuid option"
  rv_created_at :: datetime

record expected_receipt =
  er_id :: uuid
  er_organization_id :: uuid
  er_factory_id :: uuid
  er_material_id :: uuid
  er_quantity :: decimal
  er_expected_date :: date
  er_supplier_ref :: string
  er_status :: expected_receipt_status
  
record bom_version =
  bv_id :: uuid
  bv_style_id :: uuid
  bv_version_no :: int
  bv_is_active :: bool
  bv_approved_by :: "uuid option"
  bv_approved_at :: "datetime option"

record bom_line =
  bl_id :: uuid
  bl_bom_version_id :: uuid
  bl_material_id :: uuid
  bl_quantity_per_unit :: decimal
  bl_unit :: string
  bl_wastage_fraction :: decimal

record customer =
  cu_id :: uuid
  cu_organization_id :: uuid
  cu_code :: string
  cu_name :: string

record style =
  st_id :: uuid
  st_organization_id :: uuid
  st_code :: string
  st_name :: string
  st_product_type :: string

record style_operation =
  so_id :: uuid
  so_style_id :: uuid
  so_sequence :: int
  so_code :: string
  so_name :: string
  so_sam_minutes :: decimal
  so_machine_type :: string
  so_skill_code :: string

record line =
  li_id :: uuid
  li_organization_id :: uuid
  li_factory_id :: uuid
  li_code :: string
  li_name :: string
  li_operator_count :: int
  li_is_active :: bool

record line_capability =
  lc_id :: uuid
  lc_line_id :: uuid
  lc_skill_code :: string

record line_capacity_slot =
  sl_id :: uuid
  sl_organization_id :: uuid
  sl_factory_id :: uuid
  sl_line_id :: uuid
  sl_slot_date :: date
  sl_shift_code :: string
  sl_available_operator_minutes :: decimal
  sl_planned_efficiency :: decimal
  sl_allocated_standard_minutes :: decimal
  sl_version :: int

record allocation =
  al_id :: uuid
  al_organization_id :: uuid
  al_factory_id :: uuid
  al_order_id :: uuid
  al_slot_id :: uuid
  al_standard_minutes :: decimal
  al_units :: decimal
  al_status :: allocation_status
  al_recommendation_id :: "uuid option"
  al_created_by :: "uuid option"
  al_created_at :: datetime

record order =
  or_id :: uuid
  or_organization_id :: uuid
  or_factory_id :: uuid
  or_customer_id :: uuid
  or_style_id :: uuid
  or_bom_version_id :: uuid
  or_external_ref :: string
  or_quantity :: int
  or_produced_units :: int
  or_packed_units :: int
  or_due_date :: date
  or_priority :: int
  or_production_state :: production_state
  or_material_state :: material_state
  or_quality_state :: quality_state
  or_source :: string
  or_created_by :: "uuid option"
  or_version :: int
  or_updated_at :: datetime

record quality_policy_version =
  qp_id :: uuid
  qp_organization_id :: uuid
  qp_code :: string
  qp_version_no :: int
  qp_status :: policy_status
  qp_rules :: "(jtext \<times> json) list"
  qp_is_demo :: bool
  qp_approved_by :: "uuid option"
  qp_approved_at :: "datetime option"

record inspection =
  in_id :: uuid
  in_organization_id :: uuid
  in_factory_id :: uuid
  in_order_id :: uuid
  in_line_id :: "uuid option"
  in_inspection_type :: inspection_type
  in_inspected_units :: int
  in_defective_units :: int
  in_policy_version_id :: uuid
  in_result :: inspection_result
  in_inspected_by :: "uuid option"
  in_inspected_at :: datetime

record defect_observation =
  df_id :: uuid
  df_inspection_id :: uuid
  df_defect_code :: string
  df_severity :: defect_severity
  df_count :: int
  df_operation_id :: "uuid option"

record quality_hold =
  ho_id :: uuid
  ho_organization_id :: uuid
  ho_factory_id :: uuid
  ho_order_id :: uuid
  ho_inspection_id :: "uuid option"
  ho_reason :: string
  ho_status :: quality_hold_status
  ho_created_by :: "uuid option"
  ho_created_at :: datetime
  ho_released_by :: "uuid option"
  ho_released_at :: "datetime option"
  ho_release_id :: "uuid option"

record quality_release =
  re_id :: uuid
  re_organization_id :: uuid
  re_factory_id :: uuid
  re_order_id :: uuid
  re_inspection_id :: uuid
  re_policy_version_id :: uuid
  re_released_by :: uuid
  re_released_at :: datetime
  re_notes :: "string option"

record recommendation =
  rc_id :: uuid
  rc_organization_id :: uuid
  rc_factory_id :: uuid
  rc_order_id :: uuid
  rc_run_id :: uuid
  rc_kind :: recommendation_kind
  rc_status :: recommendation_status
  rc_proposal :: json
  rc_proposal_hash :: string
  rc_input_versions :: json
  rc_rationale :: string
  rc_evidence_refs :: json
  rc_generated_by :: generated_by
  rc_proposed_by_agent :: string
  rc_proposer_user_id :: uuid
  rc_expires_at :: datetime
  rc_applied_by :: "uuid option"
  rc_applied_at :: "datetime option"
  rc_superseded_reason :: "string option"
  rc_version :: int
  rc_created_at :: datetime

record approval =
  ap_id :: uuid
  ap_recommendation_id :: uuid
  ap_decision :: approval_decision
  ap_decided_by :: uuid
  ap_reason :: string
  ap_proposal_hash :: string
  ap_decided_at :: datetime

record notification =
  no_id :: uuid
  no_organization_id :: uuid
  no_factory_id :: uuid
  no_user_id :: "uuid option"
  no_role :: "role option"
  no_kind :: string
  no_title :: string
  no_body :: string
  no_link :: "(string \<times> uuid) option"
  no_read_at :: "datetime option"

record audit_event =
  au_organization_id :: uuid
  au_factory_id :: "uuid option"
  au_actor_type :: actor_type
  au_actor_id :: jtext
  au_action :: string
  au_target_type :: string
  au_target_id :: jtext
  au_outcome :: audit_outcome
  au_reason :: "string option"
  au_trace_id :: "string option"
  au_run_id :: "uuid option"
  au_before :: "json option"
  au_after :: "json option"

record job =
  jb_id :: uuid
  jb_queue :: string
  jb_job_type :: string
  jb_payload :: json
  jb_dedupe_key :: "jtext list option"
  jb_status :: job_status
  jb_attempt :: int
  jb_max_attempts :: int
  jb_available_at :: datetime
  jb_leased_until :: "datetime option"
  jb_lease_token :: "uuid option"
  jb_worker_id :: "string option"
  jb_heartbeat_at :: "datetime option"
  jb_last_error :: "string option"
  jb_created_at :: datetime
  jb_completed_at :: "datetime option"

text \<open>Identity.\<close>

record user =
  us_id :: uuid
  us_issuer :: string
  us_subject :: string
  us_email :: string
  us_display_name :: string
  us_is_active :: bool

record membership =
  mb_id :: uuid
  mb_organization_id :: uuid
  mb_user_id :: uuid
  mb_is_active :: bool
  mb_created_at :: datetime

record role_assignment =
  as_id :: uuid
  as_membership_id :: uuid
  as_factory_id :: "uuid option"
  as_role :: role

record session_record =
  ss_id :: uuid
  ss_token_hash :: string
  ss_user_id :: uuid
  ss_csrf_token :: string
  ss_created_at :: datetime
  ss_expires_at :: datetime
  ss_last_seen_at :: datetime
  ss_revoked_at :: "datetime option"

text \<open>Documents, without the search columns of a chunk.\<close>

record document =
  dc_id :: uuid
  dc_organization_id :: uuid
  dc_factory_id :: "uuid option"
  dc_slug :: string
  dc_title :: string
  dc_doc_type :: document_type
  dc_created_by :: "uuid option"

record document_version =
  dv_id :: uuid
  dv_document_id :: uuid
  dv_version_no :: int
  dv_status :: document_version_status
  dv_sha256 :: string
  dv_storage_key :: string
  dv_media_type :: string
  dv_size_bytes :: int
  dv_page_count :: "int option"
  dv_rejection_reason :: "string option"
  dv_created_by :: "uuid option"
  dv_activated_at :: "datetime option"

record chunk =
  ck_id :: uuid
  ck_document_version_id :: uuid
  ck_organization_id :: uuid
  ck_factory_id :: "uuid option"
  ck_chunk_index :: int
  ck_page_number :: "int option"
  ck_section :: "string option"
  ck_text :: string
  ck_token_count :: int

text \<open>Analysis runs.\<close>

record analysis_run =
  ru_id :: uuid
  ru_organization_id :: uuid
  ru_factory_id :: uuid
  ru_order_id :: uuid
  ru_status :: run_status
  ru_requested_by :: uuid
  ru_idempotency_key :: string
  ru_snapshot_id :: "uuid option"
  ru_replan_count :: int
  ru_model_calls_used :: int
  ru_model_calls_limit :: int
  ru_tokens_used :: int
  ru_token_budget :: int
  ru_llm_provider :: string
  ru_llm_model :: string
  ru_degraded_reason :: "string option"
  ru_error_code :: "string option"
  ru_trace_id :: string
  ru_deadline_at :: datetime
  ru_started_at :: "datetime option"
  ru_completed_at :: "datetime option"
  ru_version :: int
  ru_created_at :: datetime

record run_snapshot =
  sn_id :: uuid
  sn_run_id :: uuid
  sn_organization_id :: uuid
  sn_factory_id :: uuid
  sn_order_id :: uuid
  sn_input_versions :: "(jtext \<times> json) list"
  sn_data :: snapshot_data

record agent_task =
  tk_id :: uuid
  tk_run_id :: uuid
  tk_organization_id :: uuid
  tk_factory_id :: uuid
  tk_parent_task_id :: "uuid option"
  tk_message_id :: uuid
  tk_sender :: string
  tk_recipient :: agent_recipient
  tk_task_type :: string
  tk_round :: int
  tk_idempotency_key :: "jtext list"
  tk_status :: task_status
  tk_envelope :: task_envelope
  tk_attempt :: int
  tk_max_attempts :: int
  tk_error_code :: "string option"
  tk_error_detail :: "string option"
  tk_deadline_at :: datetime
  tk_created_at :: datetime
  tk_completed_at :: "datetime option"

record agent_result_record =
  rr_id :: uuid
  rr_task_id :: uuid
  rr_run_id :: uuid
  rr_schema_version :: string
  rr_status :: result_status
  rr_payload :: agent_result

record run_event =
  rn_run_id :: uuid
  rn_event_type :: string
  rn_actor :: string
  rn_payload :: json

record idempotency_key =
  ik_id :: uuid
  ik_organization_id :: uuid
  ik_actor_id :: string
  ik_operation :: string
  ik_key :: string
  ik_request_hash :: string
  ik_response_status :: "int option"
  ik_response_body :: "json option"
  ik_created_at :: datetime
  ik_expires_at :: datetime

text \<open>Industrial engineering.\<close>

record operator_alias =
  oa_id :: uuid
  oa_organization_id :: uuid
  oa_factory_id :: uuid
  oa_alias_code :: string
  oa_line_id :: "uuid option"
  oa_is_active :: bool

record operation_staffing =
  os_id :: uuid
  os_organization_id :: uuid
  os_factory_id :: uuid
  os_line_id :: uuid
  os_style_id :: uuid
  os_operation_id :: uuid
  os_parallel_operators :: int

record cycle_observation =
  cy_id :: uuid
  cy_organization_id :: uuid
  cy_factory_id :: uuid
  cy_line_id :: uuid
  cy_style_id :: uuid
  cy_operation_id :: uuid
  cy_operator_alias_id :: uuid
  cy_observed_seconds :: decimal
  cy_observed_at :: datetime
  cy_recorded_by :: "uuid option"
  cy_is_outlier :: bool
  cy_outlier_approved_by :: "uuid option"

record line_measurement =
  lm_id :: uuid
  lm_organization_id :: uuid
  lm_factory_id :: uuid
  lm_line_id :: uuid
  lm_style_id :: uuid
  lm_measured_on :: date
  lm_hours :: decimal
  lm_units_output :: int

section \<open>The state of a transaction\<close>

datatype lock =
    LockOrder uuid | LockRecommendation uuid | LockRun uuid | LockKey uuid | LockSlot uuid | LockBalance uuid
  | LockLot uuid | LockReservation uuid | LockAllocation uuid | LockHold uuid

record db =
  t_factories :: "factory list"
  t_materials :: "material list"
  t_lots :: "material_lot list"
  t_movements :: "stock_movement list"
  t_balances :: "material_balance list"
  t_reservations :: "reservation list"
  t_expected_receipts :: "expected_receipt list"
  t_bom_versions :: "bom_version list"
  t_bom_lines :: "bom_line list"
  t_customers :: "customer list"
  t_styles :: "style list"
  t_style_operations :: "style_operation list"
  t_lines :: "line list"
  t_line_capabilities :: "line_capability list"
  t_slots :: "line_capacity_slot list"
  t_allocations :: "allocation list"
  t_orders :: "order list"
  t_policies :: "quality_policy_version list"
  t_inspections :: "inspection list"
  t_defects :: "defect_observation list"
  t_holds :: "quality_hold list"
  t_releases :: "quality_release list"
  t_recommendations :: "recommendation list"
  t_approvals :: "approval list"
  t_notifications :: "notification list"
  t_jobs :: "job list"
  t_audits :: "audit_event list"
  t_users :: "user list"
  t_memberships :: "membership list"
  t_role_assignments :: "role_assignment list"
  t_sessions :: "session_record list"
  t_documents :: "document list"
  t_document_versions :: "document_version list"
  t_chunks :: "chunk list"
  t_runs :: "analysis_run list"
  t_snapshots :: "run_snapshot list"
  t_tasks :: "agent_task list"
  t_results :: "agent_result_record list"
  t_events :: "run_event list"
  t_idempotency_keys :: "idempotency_key list"
  t_operator_aliases :: "operator_alias list"
  t_staffing :: "operation_staffing list"
  t_cycles :: "cycle_observation list"
  t_measurements :: "line_measurement list"
  uuid4 :: "nat \<Rightarrow> uuid"
  drawn :: nat
  utcnow :: datetime
  today_in :: "string \<Rightarrow> date"
  trace_id_var :: "string option"
  locks :: "lock list"

text \<open>\<open>SELECT ... FOR UPDATE\<close>: a lock the transaction already holds is not taken again.\<close>

definition take_locks :: "lock list \<Rightarrow> db \<Rightarrow> db" where
  "take_locks ls s = s\<lparr>locks := locks s @ filter (\<lambda>l. l \<notin> set (locks s)) ls\<rparr>"

definition draw :: "db \<Rightarrow> uuid \<times> db" where
  "draw s = (uuid4 s (drawn s), s\<lparr>drawn := Suc (drawn s)\<rparr>)"

section \<open>What a flush stores\<close>

text \<open>A value written to a numeric column: rounded half away from zero, then range-checked.\<close>

definition to_column :: "nat \<Rightarrow> nat \<Rightarrow> decimal \<Rightarrow> exn + decimal" where
  "to_column p s x =
     (let v = of_int (to_integral ROUND_HALF_UP (x * 10 ^ s)) / 10 ^ s
      in if \<bar>v\<bar> * 10 ^ s < 10 ^ p then Inr v else Inl (DataError ''numeric field overflow''))"

text \<open>An INSERT: the primary key must be new.\<close>

definition insert_row :: "('r \<Rightarrow> uuid) \<Rightarrow> 'r \<Rightarrow> 'r list \<Rightarrow> exn + 'r list" where
  "insert_row key r rs =
     (if key r \<in> key ` set rs then Inl (IntegrityError ''primary key'') else Inr (rs @ [r]))"

lemma insert_row_Inr:
  "insert_row key r rs = Inr rs' \<longleftrightarrow> key r \<notin> key ` set rs \<and> rs' = rs @ [r]"
  by (auto simp: insert_row_def)

lemma to_column_scaled:
  assumes "scaled s x"
  shows "to_column p s x = Inr v \<longleftrightarrow> v = x \<and> numeric p s x"
proof -
  obtain m where m: "x * 10 ^ s = of_int m" using assms by (rule scaledE)
  have "of_int m / 10 ^ s = x" unfolding m [symmetric] by simp
  then show ?thesis using assms
    by (auto simp: to_column_def Let_def m half_up.rnd_int numeric_def)
qed

lemma to_column_bound:
  assumes "to_column p s x = Inr v"
  shows "numeric p s v" and "\<bar>x\<bar> * 10 ^ s < 10 ^ p + 1"
proof -
  let ?n = "to_integral ROUND_HALF_UP (x * 10 ^ s)"
  have v: "v = of_int ?n / 10 ^ s" and b: "\<bar>v\<bar> * 10 ^ s < 10 ^ p"
    using assms by (auto simp: to_column_def Let_def split: if_splits)
  have "v * 10 ^ s = of_int ?n" unfolding v by simp
  then have "scaled s v" by (rule scaledI)
  with b show "numeric p s v" by (simp add: numeric_def)
  have "\<bar>of_int ?n\<bar> < (10::rat) ^ p" using b unfolding v by (simp add: abs_mult)
  moreover have "\<bar>of_int ?n - x * 10 ^ s\<bar> \<le> 1 / 2" by (rule half_up.rnd_half)
  ultimately have "\<bar>x * 10 ^ s\<bar> < 10 ^ p + 1" by linarith
  then show "\<bar>x\<bar> * 10 ^ s < 10 ^ p + 1" by (simp add: abs_mult)
qed

text \<open>
  A sum or difference of column-scaled values that a flush accepts was computed exactly: the
  context can only have rounded values far outside the column's range.
\<close>

lemma to_column_ctx_round:
  assumes "scaled s z" and "to_column p s (ctx_round z) = Inr v" and "p \<le> 26"
  shows "v = z" and "ctx_round z = z" and "numeric p s z"
proof -
  have "\<bar>z\<bar> \<le> \<bar>ctx_round z\<bar> + \<bar>z\<bar> * (5 / 10 ^ 28)" using ctx_round_error [of z] by linarith
  then have "\<bar>z\<bar> \<le> \<bar>ctx_round z\<bar> * 2" by simp
  then have "\<bar>z\<bar> * 10 ^ s \<le> (\<bar>ctx_round z\<bar> * 10 ^ s) * 2"
    using mult_right_mono [of "\<bar>z\<bar>" "\<bar>ctx_round z\<bar> * 2" "10 ^ s"] by simp
  also have "\<dots> < (10 ^ p + 1) * 2" using to_column_bound(2) [OF assms(2)] by simp
  also have "\<dots> \<le> ((10::rat) ^ 26 + 1) * 2"
    using power_increasing [OF assms(3), of "10::rat"] by simp
  also have "\<dots> < 10 ^ 28" by simp
  finally show "ctx_round z = z" using assms(1) by (intro ctx_round_exact)
  with assms show "v = z" "numeric p s z" by (simp_all add: to_column_scaled)
qed

lemma to_column_dadd:
  assumes "scaled s x" and "scaled s y" and "to_column p s (dadd x y) = Inr v" and "p \<le> 26"
  shows "v = x + y" and "dadd x y = x + y" and "numeric p s (x + y)"
  using to_column_ctx_round [OF scaled_add [OF assms(1,2)] assms(3) [unfolded dadd_def] assms(4)]
  by (simp_all add: dadd_def)

lemma to_column_dsub:
  assumes "scaled s x" and "scaled s y" and "to_column p s (dsub x y) = Inr v" and "p \<le> 26"
  shows "v = x - y" and "dsub x y = x - y" and "numeric p s (x - y)"
  using to_column_ctx_round [OF scaled_diff [OF assms(1,2)] assms(3) [unfolded dsub_def] assms(4)]
  by (simp_all add: dsub_def)

section \<open>Inserts and updates of the tables\<close>

definition insert_movement :: "stock_movement \<Rightarrow> db \<Rightarrow> exn + (stock_movement \<times> db)" where
  "insert_movement r s =
     (let (i, s) = draw s
      in bind_err (to_column 14 4 (mv_quantity r)) (\<lambda>q.
         let r = r\<lparr>mv_id := i, mv_quantity := q, mv_created_at := utcnow s\<rparr>
         in bind_err (ensure (case mv_movement_type r of RECEIPT \<Rightarrow> 0 < q | ISSUE \<Rightarrow> q < 0
                                | CORRECTION \<Rightarrow> q \<noteq> 0)
              (IntegrityError ''quantity_sign_matches_movement_type'')) (\<lambda>_.
            bind_err (insert_row mv_id r (t_movements s)) (\<lambda>rs.
            Inr (r, s\<lparr>t_movements := rs\<rparr>)))))"

definition insert_reservation :: "reservation \<Rightarrow> db \<Rightarrow> exn + (reservation \<times> db)" where
  "insert_reservation r s =
     (let (i, s) = draw s
      in bind_err (to_column 14 4 (rv_quantity r)) (\<lambda>q.
         let r = r\<lparr>rv_id := i, rv_quantity := q, rv_created_at := utcnow s\<rparr>
         in bind_err (ensure (0 < q) (IntegrityError ''quantity_positive'')) (\<lambda>_.
            bind_err (insert_row rv_id r (t_reservations s)) (\<lambda>rs.
            Inr (r, s\<lparr>t_reservations := rs\<rparr>)))))"

definition update_reservation :: "reservation \<Rightarrow> db \<Rightarrow> exn + db" where
  "update_reservation r s =
     bind_err (to_column 14 4 (rv_quantity r)) (\<lambda>q.
     bind_err (ensure (0 < q) (IntegrityError ''quantity_positive'')) (\<lambda>_.
     Inr (s\<lparr>t_reservations := upd rv_id (r\<lparr>rv_quantity := q\<rparr>) (t_reservations s)\<rparr>)))"

definition update_balance :: "material_balance \<Rightarrow> db \<Rightarrow> exn + db" where
  "update_balance b s =
     bind_err (to_column 14 4 (ba_on_hand_accepted b)) (\<lambda>on_hand.
     bind_err (to_column 14 4 (ba_reserved b)) (\<lambda>reserved.
     bind_err (ensure (0 \<le> on_hand) (IntegrityError ''on_hand_accepted_non_negative'')) (\<lambda>_.
     bind_err (ensure (0 \<le> reserved) (IntegrityError ''reserved_non_negative'')) (\<lambda>_.
     bind_err (ensure (reserved \<le> on_hand) (IntegrityError ''reserved_within_on_hand'')) (\<lambda>_.
     Inr (s\<lparr>t_balances := upd ba_id (b\<lparr>ba_on_hand_accepted := on_hand, ba_reserved := reserved\<rparr>)
             (t_balances s)\<rparr>))))))"

definition update_lot :: "material_lot \<Rightarrow> db \<Rightarrow> exn + db" where
  "update_lot l s = Inr (s\<lparr>t_lots := upd lo_id l (t_lots s)\<rparr>)"

definition insert_allocation :: "allocation \<Rightarrow> db \<Rightarrow> exn + (allocation \<times> db)" where
  "insert_allocation r s =
     (let (i, s) = draw s
      in bind_err (to_column 12 2 (al_standard_minutes r)) (\<lambda>m.
         bind_err (to_column 14 4 (al_units r)) (\<lambda>u.
         let r = r\<lparr>al_id := i, al_standard_minutes := m, al_units := u, al_created_at := utcnow s\<rparr>
         in bind_err (ensure (0 < m) (IntegrityError ''standard_minutes_positive'')) (\<lambda>_.
            bind_err (ensure (0 < u) (IntegrityError ''units_positive'')) (\<lambda>_.
            bind_err (insert_row al_id r (t_allocations s)) (\<lambda>rs.
            Inr (r, s\<lparr>t_allocations := rs\<rparr>)))))))"

definition update_allocation :: "allocation \<Rightarrow> db \<Rightarrow> exn + db" where
  "update_allocation r s = Inr (s\<lparr>t_allocations := upd al_id r (t_allocations s)\<rparr>)"

definition update_slot :: "line_capacity_slot \<Rightarrow> db \<Rightarrow> exn + db" where
  "update_slot r s =
     bind_err (to_column 12 2 (sl_allocated_standard_minutes r)) (\<lambda>a.
     bind_err (ensure (0 \<le> a) (IntegrityError ''allocated_standard_minutes_non_negative'')) (\<lambda>_.
     bind_err (ensure (a \<le> sl_available_operator_minutes r * sl_planned_efficiency r)
       (IntegrityError ''allocated_within_capacity'')) (\<lambda>_.
     Inr (s\<lparr>t_slots := upd sl_id (r\<lparr>sl_allocated_standard_minutes := a\<rparr>) (t_slots s)\<rparr>))))"

definition order_checks :: "order \<Rightarrow> exn + unit" where
  "order_checks r =
     bind_err (ensure (0 < or_quantity r) (IntegrityError ''quantity_positive'')) (\<lambda>_.
     bind_err (ensure (0 \<le> or_produced_units r) (IntegrityError ''produced_units_non_negative'')) (\<lambda>_.
     bind_err (ensure (0 \<le> or_packed_units r) (IntegrityError ''packed_units_non_negative'')) (\<lambda>_.
     ensure (1 \<le> or_priority r \<and> or_priority r \<le> 5) (IntegrityError ''priority_range''))))"

definition insert_order :: "order \<Rightarrow> db \<Rightarrow> exn + (order \<times> db)" where
  "insert_order r s =
     (let (i, s) = draw s; r = r\<lparr>or_id := i, or_updated_at := utcnow s\<rparr>
      in bind_err (order_checks r) (\<lambda>_.
         bind_err (ensure (\<not> list_ex (\<lambda>x. or_organization_id x = or_organization_id r \<and>
             or_external_ref x = or_external_ref r) (t_orders s))
           (IntegrityError ''uq_orders_organization_id_external_ref'')) (\<lambda>_.
         bind_err (insert_row or_id r (t_orders s)) (\<lambda>rs.
         Inr (r, s\<lparr>t_orders := rs\<rparr>)))))"

definition update_order :: "order \<Rightarrow> db \<Rightarrow> exn + db" where
  "update_order r s =
     bind_err (order_checks r) (\<lambda>_.
     Inr (s\<lparr>t_orders := upd or_id (r\<lparr>or_updated_at := utcnow s\<rparr>) (t_orders s)\<rparr>))"

definition update_recommendation :: "recommendation \<Rightarrow> db \<Rightarrow> db" where
  "update_recommendation r s = s\<lparr>t_recommendations := upd rc_id r (t_recommendations s)\<rparr>"

definition insert_recommendation :: "recommendation \<Rightarrow> db \<Rightarrow> exn + (recommendation \<times> db)" where
  "insert_recommendation r s =
     (let (i, s) = draw s; r = r\<lparr>rc_id := i, rc_created_at := utcnow s\<rparr>
      in bind_err (insert_row rc_id r (t_recommendations s)) (\<lambda>rs.
         Inr (r, s\<lparr>t_recommendations := rs\<rparr>)))"

definition insert_approval :: "approval \<Rightarrow> db \<Rightarrow> exn + db" where
  "insert_approval r s =
     (let (i, s) = draw s; r = r\<lparr>ap_id := i\<rparr>
      in bind_err (ensure (ap_recommendation_id r \<notin> ap_recommendation_id ` set (t_approvals s))
           (IntegrityError ''uq_approvals_recommendation_id'')) (\<lambda>_.
         bind_err (insert_row ap_id r (t_approvals s)) (\<lambda>rs.
         Inr (s\<lparr>t_approvals := rs\<rparr>))))"

definition insert_notification :: "notification \<Rightarrow> db \<Rightarrow> exn + db" where
  "insert_notification r s =
     (let (i, s) = draw s
      in bind_err (insert_row no_id (r\<lparr>no_id := i\<rparr>) (t_notifications s)) (\<lambda>rs.
         Inr (s\<lparr>t_notifications := rs\<rparr>)))"

section \<open>Reading rows\<close>

text \<open>\<open>WHERE id IN (...) ORDER BY id\<close>.\<close>

definition rows_by_id :: "('r \<Rightarrow> uuid) \<Rightarrow> uuid list \<Rightarrow> 'r list \<Rightarrow> 'r list" where
  "rows_by_id key ids rs = List.map_filter (\<lambda>i. row key i rs) (sorted_set ids)"

lemma set_map_filter: "x \<in> set (List.map_filter f xs) \<longleftrightarrow> (\<exists>y \<in> set xs. f y = Some x)"
  by (force simp: List.map_filter_def)

lemma set_rows_by_id:
  "distinct (map key rs) \<Longrightarrow> set (rows_by_id key ids rs) = {r \<in> set rs. key r \<in> set ids}"
  using row_distinct [of key rs] by (fastforce simp: rows_by_id_def set_map_filter dest: row_SomeD)

lemma keys_rows_by_id: "map key (rows_by_id key ids rs) = filter (\<lambda>i. i \<in> key ` set rs) (sorted_set ids)"
proof -
  have "map key (List.map_filter (\<lambda>i. row key i rs) is) = filter (\<lambda>i. i \<in> key ` set rs) is" for "is"
  proof (induction "is")
    case (Cons i "is")
    show ?case
    proof (cases "row key i rs")
      case None
      then have "i \<notin> key ` set rs" by (simp add: row_None_iff)
      with None Cons show ?thesis by (simp add: List.map_filter_simps)
    next
      case (Some r)
      then have "key r = i" and "i \<in> key ` set rs" by (auto dest: row_SomeD)
      with Some Cons show ?thesis by (simp add: List.map_filter_simps)
    qed
  qed (simp add: List.map_filter_simps)
  then show ?thesis by (simp add: rows_by_id_def)
qed

lemma sorted_rows_by_id: "sorted (map key (rows_by_id key ids rs))"
  by (simp add: keys_rows_by_id sorted_wrt_filter)

lemma distinct_rows_by_id: "distinct (map key (rows_by_id key ids rs))"
  by (simp add: keys_rows_by_id)

lemma upd_same: "distinct (map key rs) \<Longrightarrow> r \<in> set rs \<Longrightarrow> upd key r rs = rs"
  by (auto simp: upd_def distinct_map intro!: map_idI dest: inj_onD)

text \<open>Who acts: a user, or the system when there is none.\<close>

definition actor_of :: "uuid option \<Rightarrow> actor_type \<times> jtext" where
  "actor_of actor_user_id =
     (case actor_user_id of Some u \<Rightarrow> (USER, Id u) | None \<Rightarrow> (SYSTEM, Lit ''system''))"

definition json_id_opt :: "uuid option \<Rightarrow> json" where
  "json_id_opt x = (case x of None \<Rightarrow> JNull | Some u \<Rightarrow> JText (Id u))"

section \<open>Lock order\<close>

text \<open>
  The order the services agree on: order rows, then capacity slots, then stock balances,
  each by ascending id. Locks of other rows are only taken under one of these.
\<close>

fun lock_key :: "lock \<Rightarrow> (nat \<times> uuid) option" where
  "lock_key (LockOrder i) = Some (0, i)"
| "lock_key (LockSlot i) = Some (1, i)"
| "lock_key (LockBalance i) = Some (2, i)"
| "lock_key _ = None"

definition lock_before :: "nat \<times> uuid \<Rightarrow> nat \<times> uuid \<Rightarrow> bool" where
  "lock_before a b \<longleftrightarrow> fst a < fst b \<or> (fst a = fst b \<and> snd a < snd b)"

definition locks_ordered :: "lock list \<Rightarrow> bool" where
  "locks_ordered ls \<longleftrightarrow> sorted_wrt lock_before (List.map_filter lock_key ls)"

text \<open>The highest group a list of locks reaches.\<close>

definition locks_below :: "nat \<Rightarrow> lock list \<Rightarrow> bool" where
  "locks_below n ls \<longleftrightarrow> (\<forall>k \<in> set (List.map_filter lock_key ls). fst k < n)"

lemma lock_map_filter_append:
  "List.map_filter f (xs @ ys) = List.map_filter f xs @ List.map_filter f ys"
  by (simp add: List.map_filter_def)

lemma locks_ordered_Nil [simp]: "locks_ordered []"
  by (simp add: locks_ordered_def List.map_filter_def)

lemma locks_below_Nil [simp]: "locks_below n []"
  by (simp add: locks_below_def List.map_filter_def)

lemma locks_below_mono: "locks_below m ls \<Longrightarrow> m \<le> n \<Longrightarrow> locks_below n ls"
  by (force simp: locks_below_def)

text \<open>
  Taking a group of locks: the rows of one table in ascending id order, after locks of
  earlier groups only.
\<close>

lemma take_group:
  assumes mk: "\<And>i. lock_key (mk i) = Some (n, i)" and "sorted ids" and "distinct ids"
    and "locks_ordered (locks s)" and "locks_below n (locks s)"
  shows "locks_ordered (locks (take_locks (map mk ids) s))"
    and "locks_below (Suc n) (locks (take_locks (map mk ids) s))"
proof -
  let ?new = "filter (\<lambda>l. l \<notin> set (locks s)) (map mk ids)"
  have mf: "List.map_filter lock_key (filter P (map mk is)) = map (Pair n) (filter (\<lambda>i. P (mk i)) is)"
    for P "is"
    by (induction "is") (auto simp: mk List.map_filter_simps)
  have "sorted_wrt (<) ids" using assms(2,3) by (simp add: strict_sorted_iff)
  then have "sorted_wrt lock_before (map (Pair n) (filter P ids))" for P
    by (simp add: sorted_wrt_map lock_before_def sorted_wrt_filter)
  with assms(4,5) show "locks_ordered (locks (take_locks (map mk ids) s))"
    by (fastforce simp: locks_ordered_def locks_below_def take_locks_def lock_map_filter_append mf
        sorted_wrt_append lock_before_def)
  show "locks_below (Suc n) (locks (take_locks (map mk ids) s))"
    using assms(5) by (fastforce simp: locks_below_def take_locks_def lock_map_filter_append mf)
qed

text \<open>A lock the transaction has needs no place in the order.\<close>

lemma take_held: "set ls \<subseteq> set (locks s) \<Longrightarrow> take_locks ls s = s"
  by (auto simp: take_locks_def intro!: db.equality filter_False)

lemma take_other:
  assumes "\<And>l. l \<in> set ls \<Longrightarrow> lock_key l = None"
  shows "locks_ordered (locks (take_locks ls s)) = locks_ordered (locks s)"
    and "locks_below n (locks (take_locks ls s)) = locks_below n (locks s)"
proof -
  have "List.map_filter lock_key (filter P ls) = []" for P
    using assms by (auto simp: List.map_filter_def filter_empty_conv)
  then show "locks_ordered (locks (take_locks ls s)) = locks_ordered (locks s)"
    and "locks_below n (locks (take_locks ls s)) = locks_below n (locks s)"
    by (simp_all add: locks_ordered_def locks_below_def take_locks_def lock_map_filter_append)
qed

section \<open>Scoped reads\<close>

text \<open>\<open>load_scoped\<close> on the tables with an organization and a factory column, and on Factory.\<close>

definition load_factory :: "uuid \<Rightarrow> principal \<Rightarrow> string \<Rightarrow> db \<Rightarrow> exn + factory" where
  "load_factory i p perm s =
     load_scoped fa_id (Some \<circ> fa_organization_id) (Some \<circ> fa_id) (t_factories s) i p perm"

definition load_order :: "uuid \<Rightarrow> principal \<Rightarrow> string \<Rightarrow> db \<Rightarrow> exn + order" where
  "load_order i p perm s =
     load_scoped or_id (Some \<circ> or_organization_id) (Some \<circ> or_factory_id) (t_orders s) i p perm"

definition load_lot :: "uuid \<Rightarrow> principal \<Rightarrow> string \<Rightarrow> db \<Rightarrow> exn + material_lot" where
  "load_lot i p perm s =
     load_scoped lo_id (Some \<circ> lo_organization_id) (Some \<circ> lo_factory_id) (t_lots s) i p perm"

definition load_movement :: "uuid \<Rightarrow> principal \<Rightarrow> string \<Rightarrow> db \<Rightarrow> exn + stock_movement" where
  "load_movement i p perm s =
     load_scoped mv_id (Some \<circ> mv_organization_id) (Some \<circ> mv_factory_id) (t_movements s) i p perm"

definition load_reservation :: "uuid \<Rightarrow> principal \<Rightarrow> string \<Rightarrow> db \<Rightarrow> exn + reservation" where
  "load_reservation i p perm s =
     load_scoped rv_id (Some \<circ> rv_organization_id) (Some \<circ> rv_factory_id) (t_reservations s) i p perm"

definition load_recommendation :: "uuid \<Rightarrow> principal \<Rightarrow> string \<Rightarrow> db \<Rightarrow> exn + recommendation" where
  "load_recommendation i p perm s =
     load_scoped rc_id (Some \<circ> rc_organization_id) (Some \<circ> rc_factory_id) (t_recommendations s) i p perm"

lemmas load_defs =
  load_factory_def load_order_def load_lot_def load_movement_def load_reservation_def
  load_recommendation_def

section \<open>A database without rows\<close>

definition empty_db :: db where
  "empty_db =
     \<lparr>t_factories = [], t_materials = [], t_lots = [], t_movements = [], t_balances = [],
      t_reservations = [], t_expected_receipts = [], t_bom_versions = [], t_bom_lines = [],
      t_customers = [], t_styles = [], t_style_operations = [], t_lines = [],
      t_line_capabilities = [], t_slots = [], t_allocations = [], t_orders = [], t_policies = [],
      t_inspections = [], t_defects = [], t_holds = [], t_releases = [], t_recommendations = [],
      t_approvals = [], t_notifications = [], t_jobs = [], t_audits = [], t_users = [], t_memberships = [],
      t_role_assignments = [], t_sessions = [], t_documents = [], t_document_versions = [],
      t_chunks = [], t_runs = [], t_snapshots = [], t_tasks = [], t_results = [], t_events = [],
      t_idempotency_keys = [], t_operator_aliases = [], t_staffing = [], t_cycles = [],
      t_measurements = [],
      uuid4 = (\<lambda>n. 1000 + n), drawn = 0, utcnow = 0, today_in = (\<lambda>_. 0),
      trace_id_var = None, locks = []\<rparr>"

definition demo_order :: order where
  "demo_order =
     \<lparr>or_id = 9, or_organization_id = 1, or_factory_id = 7, or_customer_id = 1, or_style_id = 1,
      or_bom_version_id = 1, or_external_ref = ''SO-1'', or_quantity = 100, or_produced_units = 0,
      or_packed_units = 0, or_due_date = 30, or_priority = 3, or_production_state = VALIDATED,
      or_material_state = MS_UNKNOWN, or_quality_state = QS_NOT_INSPECTED, or_source = ''MANUAL'',
      or_created_by = None, or_version = 1, or_updated_at = 0\<rparr>"

definition demo_factory :: factory where
  "demo_factory = \<lparr>fa_id = 7, fa_organization_id = 1, fa_code = ''DHK'', fa_name = ''DHK'', fa_timezone = ''UTC''\<rparr>"

definition demo_user :: "uuid \<Rightarrow> role list \<Rightarrow> principal" where
  "demo_user i roles =
     \<lparr>p_user_id = i, p_organization_id = 1, p_session_id = 1, p_csrf_token = '''',
      p_display_name = '''', p_roles_by_factory = [(Some 7, roles)]\<rparr>"

end
