(* ===== verification/LS_Audit.thy ===== *)
theory LS_Audit
  imports LS_Models
begin

text \<open>
  The audit log (\<open>app/audit/service.py\<close>): which keys hold credentials, the redaction of the
  before and after documents, and the append of an event. Text is ASCII. What a credential
  is called is stated a second time, on the words of a key; the lemmas show that the keys the
  code finds sensitive are exactly these, that nothing stored under one of them survives
  redaction at any depth, and that everything else does.
\<close>

definition REDACTED :: json where
  "REDACTED = JStr ''[REDACTED]''"

definition SENSITIVE_KEYS :: "string list" where
  "SENSITIVE_KEYS =
     [''token'', ''password'', ''passwd'', ''secret'', ''api_key'', ''apikey'', ''authorization'',
      ''cookie'', ''set_cookie'', ''credentials'', ''private_key'']"

definition SENSITIVE_SUFFIXES :: "string list" where
  "SENSITIVE_SUFFIXES = [''_token'', ''_password'', ''_secret'', ''_api_key'', ''_private_key'']"

definition is_upper :: "char \<Rightarrow> bool" where
  "is_upper c \<longleftrightarrow> (let n = of_char c :: nat in 65 \<le> n \<and> n \<le> 90)"

definition is_lower_or_digit :: "char \<Rightarrow> bool" where
  "is_lower_or_digit c \<longleftrightarrow> (let n = of_char c :: nat in (97 \<le> n \<and> n \<le> 122) \<or> (48 \<le> n \<and> n \<le> 57))"

definition to_lower :: "char \<Rightarrow> char" where
  "to_lower c = (if is_upper c then char_of ((of_char c :: nat) + 32) else c)"

text \<open>\<open>_CAMEL_BOUNDARY.sub("_", key)\<close>.\<close>

fun camel_boundary :: "string \<Rightarrow> string" where
  "camel_boundary (a # b # cs) =
     (if is_lower_or_digit a \<and> is_upper b then a # CHR ''_'' # camel_boundary (b # cs)
      else a # camel_boundary (b # cs))"
| "camel_boundary cs = cs"

definition normalize_key :: "string \<Rightarrow> string" where
  "normalize_key key =
     map to_lower (map (\<lambda>c. if c = CHR ''-'' then CHR ''_'' else c) (camel_boundary key))"

definition ends_with :: "string \<Rightarrow> string \<Rightarrow> bool" where
  "ends_with s suffix \<longleftrightarrow> length suffix \<le> length s \<and> drop (length s - length suffix) s = suffix"

text \<open>The texts of identifiers and decimals are never sensitive names.\<close>

fun is_sensitive_key :: "jtext \<Rightarrow> bool" where
  "is_sensitive_key (Lit key) =
     (let name = normalize_key key
      in name \<in> set SENSITIVE_KEYS \<or> list_ex (ends_with name) SENSITIVE_SUFFIXES)"
| "is_sensitive_key _ = False"

fun redact :: "json \<Rightarrow> json" where
  "redact (JObj entries) =
     JObj (map (\<lambda>(key, item). (key, if is_sensitive_key key then REDACTED else redact item)) entries)"
| "redact (JArr items) = JArr (map redact items)"
| "redact v = v"

definition record_audit ::
  "uuid \<Rightarrow> uuid option \<Rightarrow> actor_type \<Rightarrow> jtext \<Rightarrow> string \<Rightarrow> string \<Rightarrow> jtext \<Rightarrow> audit_outcome \<Rightarrow>
   string option \<Rightarrow> string option \<Rightarrow> uuid option \<Rightarrow> json option \<Rightarrow> json option \<Rightarrow> db \<Rightarrow> db" where
  "record_audit organization_id factory_id actor_type actor_id action target_type target_id outcome
     reason trace_id run_id before after s =
     s\<lparr>t_audits := t_audits s @
       [\<lparr>au_organization_id = organization_id, au_factory_id = factory_id,
         au_actor_type = actor_type, au_actor_id = actor_id, au_action = action,
         au_target_type = target_type, au_target_id = target_id, au_outcome = outcome,
         au_reason = reason,
         au_trace_id = (case trace_id of Some t \<Rightarrow> Some t
                        | None \<Rightarrow> if trace_id_var s = Some '''' then None else trace_id_var s),
         au_run_id = run_id,
         au_before = map_option redact before, au_after = map_option redact after\<rparr>]\<rparr>"

text \<open>\<open>audit_denied\<close> writes in a transaction of its own, from the last committed state.\<close>

definition audit_denied ::
  "uuid \<Rightarrow> uuid option \<Rightarrow> jtext \<Rightarrow> string \<Rightarrow> string \<Rightarrow> jtext \<Rightarrow> string \<Rightarrow> actor_type \<Rightarrow>
   string option \<Rightarrow> uuid option \<Rightarrow> db \<Rightarrow> db" where
  "audit_denied organization_id factory_id actor_id action target_type target_id reason actor_type
     trace_id run_id s =
     record_audit organization_id factory_id actor_type actor_id action target_type target_id DENIED
       (Some reason) trace_id run_id None None s"

section \<open>Credentials\<close>

text \<open>
  What counts as a credential, stated on the words of a key rather than on its normalized
  spelling: the parts between dashes, underscores and camel humps, in lower case. A key names
  a credential when it is one of the listed names, or when it ends in the word token, password
  or secret, or in the words api key or private key.
\<close>

fun key_words :: "string \<Rightarrow> string list" where
  "key_words [] = [[]]"
| "key_words (c # cs) =
     (case key_words cs of
        [] \<Rightarrow> [[to_lower c]]
      | w # ws \<Rightarrow>
          if c = CHR ''-'' \<or> c = CHR ''_'' then [] # w # ws
          else if is_lower_or_digit c \<and> cs \<noteq> [] \<and> is_upper (hd cs) then [c] # w # ws
          else (to_lower c # w) # ws)"

definition CREDENTIAL_NAMES :: "string list list" where
  "CREDENTIAL_NAMES =
     [[''passwd''], [''apikey''], [''authorization''], [''cookie''], [''set'', ''cookie''],
      [''credentials'']]"

definition CREDENTIAL_ENDINGS :: "string list list" where
  "CREDENTIAL_ENDINGS =
     [[''token''], [''password''], [''secret''], [''api'', ''key''], [''private'', ''key'']]"

definition ends_in :: "string list \<Rightarrow> string list \<Rightarrow> bool" where
  "ends_in e ws \<longleftrightarrow> length e \<le> length ws \<and> drop (length ws - length e) ws = e"

definition names_credential :: "string list \<Rightarrow> bool" where
  "names_credential ws \<longleftrightarrow>
     ws \<in> set CREDENTIAL_NAMES \<or> list_ex (\<lambda>e. ends_in e ws) CREDENTIAL_ENDINGS"

fun credential_key :: "jtext \<Rightarrow> bool" where
  "credential_key (Lit key) = names_credential (key_words key)"
| "credential_key _ = False"

fun join_words :: "string list \<Rightarrow> string" where
  "join_words [] = []"
| "join_words [w] = w"
| "join_words (w # ws) = w @ CHR ''_'' # join_words ws"

lemma join_words_Cons: "ws \<noteq> [] \<Longrightarrow> join_words (w # ws) = w @ CHR ''_'' # join_words ws"
  by (cases ws) simp_all

lemma key_words_nonempty: "key_words cs \<noteq> []"
  by (induction cs) (simp_all split: list.splits)

lemma to_lower_id: "\<not> is_upper c \<Longrightarrow> to_lower c = c"
  by (simp add: to_lower_def)

lemma lower_not_upper: "is_lower_or_digit c \<Longrightarrow> \<not> is_upper c"
  by (auto simp: is_lower_or_digit_def is_upper_def Let_def)

lemma separators_lower: "\<not> is_upper CHR ''-''" "\<not> is_upper CHR ''_''"
  "\<not> is_lower_or_digit CHR ''-''" "\<not> is_lower_or_digit CHR ''_''"
  by (simp_all add: is_upper_def is_lower_or_digit_def)

lemma camel_Cons:
  "camel_boundary (c # cs) =
     (if is_lower_or_digit c \<and> cs \<noteq> [] \<and> is_upper (hd cs) then c # CHR ''_'' # camel_boundary cs
      else c # camel_boundary cs)"
  by (cases cs) simp_all

text \<open>The normalized key is its words with underscores between them.\<close>

lemma normalize_words: "normalize_key key = join_words (key_words key)"
proof (induction key)
  case (Cons c cs)
  obtain w ws where ks: "key_words cs = w # ws" using key_words_nonempty by (cases "key_words cs") auto
  have join: "join_words ((x # w) # ws) = x # join_words (w # ws)" for x by (cases ws) simp_all
  have "join_words (w # ws) = map to_lower (map (\<lambda>c. if c = CHR ''-'' then CHR ''_'' else c) (camel_boundary cs))"
    using Cons ks by (simp add: normalize_key_def)
  then show ?case
    using join separators_lower lower_not_upper [of c]
    by (auto simp: normalize_key_def camel_Cons ks to_lower_id join_words_Cons)
qed (simp add: normalize_key_def)

lemma words_plain: "w \<in> set (key_words key) \<Longrightarrow> CHR ''_'' \<notin> set w"
proof (induction key arbitrary: w)
  case (Cons c cs)
  have l: "to_lower c \<noteq> CHR ''_''" if "c \<noteq> CHR ''_''"
  proof (cases "is_upper c")
    case True
    then have "97 \<le> (of_char (to_lower c) :: nat)"  "(of_char (to_lower c) :: nat) \<le> 122"
      by (auto simp: to_lower_def is_upper_def Let_def)
    then show ?thesis by auto
  qed (use that in \<open>simp add: to_lower_def\<close>)
  then show ?case using Cons key_words_nonempty [of cs] by (auto split: list.splits if_splits)
qed simp

text \<open>Words without underscores can be read back.\<close>

lemma append_sep_eq:
  assumes "c \<notin> set x" and "c \<notin> set y"
  shows "x @ c # xs = y @ c # ys \<longleftrightarrow> x = y \<and> xs = ys"
  using assms
proof (induction x arbitrary: y)
  case Nil
  then show ?case by (cases y) auto
next
  case (Cons a x)
  then show ?case by (cases y) auto
qed

lemma join_words_inj:
  assumes "\<forall>w \<in> set us. CHR ''_'' \<notin> set w" and "\<forall>w \<in> set vs. CHR ''_'' \<notin> set w"
    and "us \<noteq> []" and "vs \<noteq> []" and "join_words us = join_words vs"
  shows "us = vs"
  using assms
proof (induction us arbitrary: vs rule: join_words.induct)
  case (2 w)
  then show ?case by (cases vs rule: join_words.cases) auto
next
  case (3 w v ws)
  show ?case
  proof (cases vs rule: join_words.cases)
    case vs: (3 a b cs)
    then have "w = a" "join_words (v # ws) = join_words (b # cs)" using 3(2,3,6) by (simp_all add: append_sep_eq)
    moreover from this(2) have "v # ws = b # cs" using 3(1) [of "b # cs"] 3(2,3) vs by simp
    ultimately show ?thesis using vs by simp
  qed (use 3 in auto)
qed simp

lemma join_words_append: "us \<noteq> [] \<Longrightarrow> vs \<noteq> [] \<Longrightarrow> join_words (us @ vs) = join_words us @ CHR ''_'' # join_words vs"
  by (induction us rule: join_words.induct) (simp_all add: join_words_Cons)

text \<open>Ending in words, and ending in their spelling after an underscore.\<close>

lemma ends_with_append: "ends_with s p \<longleftrightarrow> (\<exists>u. s = u @ p)"
proof
  assume "ends_with s p"
  then show "\<exists>u. s = u @ p" unfolding ends_with_def by (metis append_take_drop_id)
qed (auto simp: ends_with_def)

lemma ends_in_append: "ends_in e ws \<longleftrightarrow> (\<exists>us. ws = us @ e)"
proof
  assume "ends_in e ws"
  then show "\<exists>us. ws = us @ e" unfolding ends_in_def by (metis append_take_drop_id)
qed (auto simp: ends_in_def)

lemma split_at_underscore:
  assumes "join_words ws = u @ CHR ''_'' # v" and "ws \<noteq> []" and "\<forall>w \<in> set ws. CHR ''_'' \<notin> set w"
  shows "\<exists>us vs. ws = us @ vs \<and> us \<noteq> [] \<and> vs \<noteq> [] \<and> join_words us = u \<and> join_words vs = v"
  using assms
proof (induction ws arbitrary: u rule: join_words.induct)
  case (3 w w' ws)
  have eq: "w @ CHR ''_'' # join_words (w' # ws) = u @ CHR ''_'' # v" using 3(2) by simp
  show ?case
  proof (cases "CHR ''_'' \<in> set u")
    case False
    then have "w = u" "join_words (w' # ws) = v" using eq 3(4) append_sep_eq [of "CHR ''_''" w u] by auto
    then show ?thesis by (intro exI [of _ "[w]"] exI [of _ "w' # ws"]) simp
  next
    case True
    then obtain a b where u: "u = a @ CHR ''_'' # b" "CHR ''_'' \<notin> set a" by (meson split_list_first)
    then have "w = a" "join_words (w' # ws) = b @ CHR ''_'' # v"
      using eq 3(4) append_sep_eq [of "CHR ''_''" w a] by auto
    with 3(1) [of b] 3(4) obtain us vs where
        "w' # ws = us @ vs" "us \<noteq> []" "vs \<noteq> []" "join_words us = b" "join_words vs = v" by auto
    then show ?thesis using u(1) \<open>w = a\<close>
      by (intro exI [of _ "w # us"] exI [of _ vs]) (simp add: join_words_Cons)
  qed
qed auto

lemma ends_in_words:
  assumes ws: "ws \<noteq> []" "\<forall>w \<in> set ws. CHR ''_'' \<notin> set w" and e: "e \<noteq> []" "\<forall>w \<in> set e. CHR ''_'' \<notin> set w"
  shows "ends_with (join_words ws) (CHR ''_'' # join_words e) \<longleftrightarrow> ends_in e ws \<and> ws \<noteq> e"
proof
  assume "ends_with (join_words ws) (CHR ''_'' # join_words e)"
  then obtain u where "join_words ws = u @ CHR ''_'' # join_words e" by (auto simp: ends_with_append)
  from split_at_underscore [OF this ws] obtain us vs where
      v: "ws = us @ vs" "us \<noteq> []" "vs \<noteq> []" "join_words vs = join_words e" by blast
  have "vs = e" by (rule join_words_inj) (use v ws e in auto)
  then show "ends_in e ws \<and> ws \<noteq> e" using v by (auto simp: ends_in_append)
next
  assume "ends_in e ws \<and> ws \<noteq> e"
  then obtain us where "ws = us @ e" "us \<noteq> []" by (auto simp: ends_in_append)
  then show "ends_with (join_words ws) (CHR ''_'' # join_words e)"
    using e(1) by (auto simp: join_words_append ends_with_append)
qed

text \<open>The function of the code finds exactly the credentials.\<close>

lemma normalized_name:
  assumes "e \<noteq> []" and "\<forall>w \<in> set e. CHR ''_'' \<notin> set w"
  shows "normalize_key key = join_words e \<longleftrightarrow> key_words key = e"
  using join_words_inj [of "key_words key" e] assms words_plain [of _ key] key_words_nonempty [of key]
  by (auto simp: normalize_words)

lemma normalized_ending:
  assumes "e \<noteq> []" and "\<forall>w \<in> set e. CHR ''_'' \<notin> set w"
  shows "ends_with (normalize_key key) (CHR ''_'' # join_words e) \<longleftrightarrow> ends_in e (key_words key) \<and> key_words key \<noteq> e"
  using ends_in_words [of "key_words key" e] assms words_plain [of _ key] key_words_nonempty [of key]
  by (auto simp: normalize_words)

lemmas name_of_words =
  normalized_name [of "[''token'']", simplified] normalized_name [of "[''password'']", simplified]
  normalized_name [of "[''passwd'']", simplified] normalized_name [of "[''secret'']", simplified]
  normalized_name [of "[''api'', ''key'']", simplified] normalized_name [of "[''apikey'']", simplified]
  normalized_name [of "[''authorization'']", simplified] normalized_name [of "[''cookie'']", simplified]
  normalized_name [of "[''set'', ''cookie'']", simplified] normalized_name [of "[''credentials'']", simplified]
  normalized_name [of "[''private'', ''key'']", simplified]

lemmas ending_of_words =
  normalized_ending [of "[''token'']", simplified] normalized_ending [of "[''password'']", simplified]
  normalized_ending [of "[''secret'']", simplified] normalized_ending [of "[''api'', ''key'']", simplified]
  normalized_ending [of "[''private'', ''key'']", simplified]

lemma sensitive_iff_credential: "is_sensitive_key k \<longleftrightarrow> credential_key k"
proof (cases k)
  case (Lit key)
  then show ?thesis
    by (auto simp: SENSITIVE_KEYS_def SENSITIVE_SUFFIXES_def CREDENTIAL_NAMES_def CREDENTIAL_ENDINGS_def
        names_credential_def name_of_words ending_of_words ends_in_def)
qed simp_all

text \<open>Names of credentials, and counters that only mention one.\<close>

lemmas credential_evals = names_credential_def CREDENTIAL_NAMES_def CREDENTIAL_ENDINGS_def ends_in_def
  is_upper_def is_lower_or_digit_def to_lower_def

lemma credential_examples:
  "credential_key (Lit ''password'')" "credential_key (Lit ''accessToken'')" "credential_key (Lit ''X-Api-Key'')"
  "credential_key (Lit ''Set-Cookie'')" "credential_key (Lit ''client_secret'')" "credential_key (Lit ''_token'')"
  "\<not> credential_key (Lit ''input_tokens'')" "\<not> credential_key (Lit ''token_count'')"
  "\<not> credential_key (Lit ''secretary'')" "\<not> credential_key (Lit ''user'')"
  by (simp_all add: credential_evals char_of_def bit_Suc_0_iff)

section \<open>Redaction\<close>

text \<open>The values a document holds under the name of a credential, at any depth.\<close>

fun exposed :: "json \<Rightarrow> json list" where
  "exposed (JObj entries) =
     concat (map (\<lambda>(key, item). if credential_key key then [item] else exposed item) entries)"
| "exposed (JArr items) = concat (map exposed items)"
| "exposed v = []"

lemma redact_exposed: "set (exposed (redact j)) \<subseteq> {REDACTED}"
proof (induction j rule: redact.induct)
  case (1 entries)
  then show ?case by (fastforce simp: sensitive_iff_credential split: if_splits prod.splits)
qed auto

lemma redact_REDACTED [simp]: "redact REDACTED = REDACTED"
  by (simp add: REDACTED_def)

lemma redact_idem: "redact (redact j) = redact j"
proof (induction j rule: redact.induct)
  case (1 entries)
  then show ?case by (auto split: prod.splits)
qed auto

text \<open>The place of a value in a document, and the places under the name of a credential.\<close>

datatype jstep = Field jtext | Item nat

fun at_path :: "jstep list \<Rightarrow> json \<Rightarrow> json option" where
  "at_path [] j = Some j"
| "at_path (Field k # p) (JObj entries) = Option.bind (map_of entries k) (at_path p)"
| "at_path (Item n # p) (JArr items) = (if n < length items then at_path p (items ! n) else None)"
| "at_path _ _ = None"

fun hidden :: "jstep list \<Rightarrow> bool" where
  "hidden [] = False"
| "hidden (Field k # p) = (credential_key k \<or> hidden p)"
| "hidden (Item n # p) = hidden p"

fun is_leaf :: "json \<Rightarrow> bool" where
  "is_leaf (JObj entries) = False"
| "is_leaf (JArr items) = False"
| "is_leaf v = True"

lemma map_of_redact:
  "map_of (map (\<lambda>(key, item). (key, if is_sensitive_key key then REDACTED else redact item)) entries) k =
   map_option (\<lambda>item. if credential_key k then REDACTED else redact item) (map_of entries k)"
  by (induction entries) (auto simp: sensitive_iff_credential)

lemma below_REDACTED: "at_path p REDACTED \<in> {None, Some REDACTED}"
  by (cases p rule: hidden.cases) (simp_all add: REDACTED_def)

lemma redact_hidden: "hidden p \<Longrightarrow> at_path p (redact d) \<in> {None, Some REDACTED}"
proof (induction p d rule: at_path.induct)
  case (2 k p entries)
  then show ?case using below_REDACTED [of p]
    by (cases "map_of entries k") (auto simp: map_of_redact)
qed (use below_REDACTED in auto)

lemma redact_shown: "\<not> hidden p \<Longrightarrow> at_path p (redact d) = map_option redact (at_path p d)"
proof (induction p d rule: at_path.induct)
  case (2 k p entries)
  then show ?case by (cases "map_of entries k") (auto simp: map_of_redact)
qed auto

lemma redact_leaf: "is_leaf v \<Longrightarrow> redact u = v \<longleftrightarrow> u = v"
  by (cases u) auto

text \<open>\<open>d'\<close> shows \<open>d\<close> without its credentials: nothing under their names, everything else.\<close>

definition shown_as :: "json \<Rightarrow> json \<Rightarrow> bool" where
  "shown_as d d' \<longleftrightarrow>
     set (exposed d') \<subseteq> {REDACTED} \<and>
     (\<forall>p. hidden p \<longrightarrow> at_path p d' \<in> {None, Some REDACTED}) \<and>
     (\<forall>p v. \<not> hidden p \<longrightarrow> is_leaf v \<longrightarrow> at_path p d' = Some v \<longleftrightarrow> at_path p d = Some v)"

lemma shown_asD:
  assumes "shown_as d d'"
  shows "hidden p \<Longrightarrow> at_path p d' \<in> {None, Some REDACTED}"
    and "\<not> hidden p \<Longrightarrow> is_leaf v \<Longrightarrow> at_path p d' = Some v \<longleftrightarrow> at_path p d = Some v"
  using assms by (simp_all add: shown_as_def)

lemma shown_redacted: "shown_as d (redact d)"
  unfolding shown_as_def
  by (intro conjI allI impI redact_exposed redact_hidden) (auto simp: redact_shown redact_leaf)

text \<open>
  C10. No credential reaches the audit log: recording an event appends one event and changes
  nothing else of the log, and in its documents every value under the name of a credential
  (a name such as password or cookie, or one whose last words are token, password, secret, api
  key or private key, in any of the spellings with dashes, underscores, camel humps or capitals)
  is the redaction mark, at any depth of objects and arrays, while every other value is
  recorded as it was given.
\<close>

theorem audit_holds_no_credential:
  "\<exists>event. t_audits (record_audit org fac ty actor action tt target out reason trace run before after s)
       = t_audits s @ [event] \<and>
     rel_option shown_as before (au_before event) \<and> rel_option shown_as after (au_after event)"
proof -
  have "rel_option shown_as d (map_option redact d)" for d
    using shown_redacted by (cases d) simp_all
  note docs = this [of before] this [of after]
  have "\<exists>event. t_audits (record_audit org fac ty a ac tt ti out rs tr run before after s)
           = t_audits s @ [event] \<and>
         au_before event = map_option redact before \<and> au_after event = map_option redact after"
    for a ac ti rs tr tt by (simp add: record_audit_def)
  then show ?thesis using docs by metis
qed

text \<open>A document with an access token and a counter of tokens.\<close>

definition token_demo :: json where
  "token_demo = JObj [(Lit ''user'', JObj [(Lit ''accessToken'', JStr ''abc''), (Lit ''input_tokens'', JInt 12)])]"

theorem audit_holds_no_credential_witness:
  "\<exists>d. map au_before (t_audits (record_audit 1 None USER (Id 2) ''login'' ''user'' (Id 2) SUCCESS None None None
         (Some token_demo) None empty_db)) = [Some d] \<and>
     at_path [Field (Lit ''user''), Field (Lit ''accessToken'')] d \<noteq> Some (JStr ''abc'') \<and>
     at_path [Field (Lit ''user''), Field (Lit ''input_tokens'')] d = Some (JInt 12)"
proof -
  have empty: "t_audits empty_db = []" by (simp add: empty_db_def)
  obtain event where e: "t_audits (record_audit 1 None USER (Id 2) ''login'' ''user'' (Id 2) SUCCESS None None None
         (Some token_demo) None empty_db) = [event]" "rel_option shown_as (Some token_demo) (au_before event)"
    using audit_holds_no_credential [of 1 None USER "Id 2" "''login''" "''user''" "Id 2" SUCCESS None None None
         "Some token_demo" None empty_db] by (auto simp: empty)
  then obtain d where d: "au_before event = Some d" "shown_as token_demo d"
    by (cases "au_before event") auto
  have h: "hidden [Field (Lit ''user''), Field (Lit ''accessToken'')]"
    "\<not> hidden [Field (Lit ''user''), Field (Lit ''input_tokens'')]" by (simp_all only: hidden.simps credential_examples simp_thms)
  have c: "at_path [Field (Lit ''user''), Field (Lit ''input_tokens'')] token_demo = Some (JInt 12)"
    by (simp add: token_demo_def)
  have "at_path [Field (Lit ''user''), Field (Lit ''accessToken'')] d \<noteq> Some (JStr ''abc'')"
    using shown_asD(1) [OF d(2) h(1)] by (auto simp: REDACTED_def)
  moreover have "at_path [Field (Lit ''user''), Field (Lit ''input_tokens'')] d = Some (JInt 12)"
    using shown_asD(2) [OF d(2) h(2)] c by simp
  ultimately show ?thesis using e(1) d(1) by simp
qed

text \<open>What an audit leaves alone.\<close>

lemma record_audit_frame [simp, frame_simps]:
  fixes s :: db
  shows "t_factories (record_audit o1 f ty a ac tt ti out re tr ru be af s) = t_factories s"
    "t_materials (record_audit o1 f ty a ac tt ti out re tr ru be af s) = t_materials s"
    "t_lots (record_audit o1 f ty a ac tt ti out re tr ru be af s) = t_lots s"
    "t_movements (record_audit o1 f ty a ac tt ti out re tr ru be af s) = t_movements s"
    "t_balances (record_audit o1 f ty a ac tt ti out re tr ru be af s) = t_balances s"
    "t_reservations (record_audit o1 f ty a ac tt ti out re tr ru be af s) = t_reservations s"
    "t_slots (record_audit o1 f ty a ac tt ti out re tr ru be af s) = t_slots s"
    "t_allocations (record_audit o1 f ty a ac tt ti out re tr ru be af s) = t_allocations s"
    "t_orders (record_audit o1 f ty a ac tt ti out re tr ru be af s) = t_orders s"
    "t_policies (record_audit o1 f ty a ac tt ti out re tr ru be af s) = t_policies s"
    "t_inspections (record_audit o1 f ty a ac tt ti out re tr ru be af s) = t_inspections s"
    "t_holds (record_audit o1 f ty a ac tt ti out re tr ru be af s) = t_holds s"
    "t_releases (record_audit o1 f ty a ac tt ti out re tr ru be af s) = t_releases s"
    "t_recommendations (record_audit o1 f ty a ac tt ti out re tr ru be af s) = t_recommendations s"
    "t_approvals (record_audit o1 f ty a ac tt ti out re tr ru be af s) = t_approvals s"
    "t_notifications (record_audit o1 f ty a ac tt ti out re tr ru be af s) = t_notifications s"
    "t_jobs (record_audit o1 f ty a ac tt ti out re tr ru be af s) = t_jobs s"
    "t_bom_lines (record_audit o1 f ty a ac tt ti out re tr ru be af s) = t_bom_lines s"
    "t_users (record_audit o1 f ty a ac tt ti out re tr ru be af s) = t_users s"
    "t_memberships (record_audit o1 f ty a ac tt ti out re tr ru be af s) = t_memberships s"
    "t_role_assignments (record_audit o1 f ty a ac tt ti out re tr ru be af s) = t_role_assignments s"
    "t_sessions (record_audit o1 f ty a ac tt ti out re tr ru be af s) = t_sessions s"
    "t_documents (record_audit o1 f ty a ac tt ti out re tr ru be af s) = t_documents s"
    "t_document_versions (record_audit o1 f ty a ac tt ti out re tr ru be af s) = t_document_versions s"
    "t_chunks (record_audit o1 f ty a ac tt ti out re tr ru be af s) = t_chunks s"
    "t_runs (record_audit o1 f ty a ac tt ti out re tr ru be af s) = t_runs s"
    "t_snapshots (record_audit o1 f ty a ac tt ti out re tr ru be af s) = t_snapshots s"
    "t_tasks (record_audit o1 f ty a ac tt ti out re tr ru be af s) = t_tasks s"
    "t_results (record_audit o1 f ty a ac tt ti out re tr ru be af s) = t_results s"
    "t_events (record_audit o1 f ty a ac tt ti out re tr ru be af s) = t_events s"
    "t_idempotency_keys (record_audit o1 f ty a ac tt ti out re tr ru be af s) = t_idempotency_keys s"
    "utcnow (record_audit o1 f ty a ac tt ti out re tr ru be af s) = utcnow s"
    "today_in (record_audit o1 f ty a ac tt ti out re tr ru be af s) = today_in s"
    "uuid4 (record_audit o1 f ty a ac tt ti out re tr ru be af s) = uuid4 s"
    "drawn (record_audit o1 f ty a ac tt ti out re tr ru be af s) = drawn s"
    "locks (record_audit o1 f ty a ac tt ti out re tr ru be af s) = locks s"
  by (simp_all add: record_audit_def)

text \<open>\<open>s'\<close> is \<open>s\<close> with one more event in the log.\<close>

definition audited :: "db \<Rightarrow> db \<Rightarrow> bool" where
  "audited s s' \<longleftrightarrow> (\<exists>e. s' = s\<lparr>t_audits := t_audits s @ [e]\<rparr>)"

lemma audited_record [simp, intro]:
  "audited s (record_audit o1 f ty a ac tt ti out re tr ru be af s)"
  unfolding audited_def record_audit_def by (rule exI, rule refl)

lemma audited_frame:
  assumes "audited s s'"
  shows "t_factories s' = t_factories s" "t_materials s' = t_materials s" "t_lots s' = t_lots s"
    "t_movements s' = t_movements s" "t_balances s' = t_balances s"
    "t_reservations s' = t_reservations s" "t_slots s' = t_slots s"
    "t_allocations s' = t_allocations s" "t_orders s' = t_orders s"
    "t_policies s' = t_policies s" "t_inspections s' = t_inspections s" "t_holds s' = t_holds s"
    "t_releases s' = t_releases s" "t_recommendations s' = t_recommendations s"
    "t_approvals s' = t_approvals s" "t_jobs s' = t_jobs s" "t_bom_lines s' = t_bom_lines s"
    "t_expected_receipts s' = t_expected_receipts s"
    "t_runs s' = t_runs s" "t_snapshots s' = t_snapshots s" "t_tasks s' = t_tasks s"
    "t_results s' = t_results s" "t_events s' = t_events s"
    "utcnow s' = utcnow s" "today_in s' = today_in s" "uuid4 s' = uuid4 s" "drawn s' = drawn s"
    "locks s' = locks s"
  using assms by (auto simp: audited_def)

end
