(* ===== verification/LS_Booking.thy ===== *)
theory LS_Booking
  imports LS_Models
begin

text \<open>
  The interface the capacity and the inventory services share: bookings (rows with an amount
  that count while they are active) against resources (rows with a running total).
  \<open>charge d\<close> is the services' update of a resource: its total moves by \<open>d\<close>, exactly when the
  amounts fit the arithmetic. The laws say so, and that a charge keeps the resource's keys; the lemmas show that booking,
  releasing and consuming keep every running total equal to the sum of the active bookings.
  The services interpret it on allocations over capacity slots and on reservations over
  stock balances.
\<close>

locale booking =
  fixes bkey :: "'b \<Rightarrow> uuid" and res :: "'b \<Rightarrow> 'c" and amount :: "'b \<Rightarrow> rat" and active :: "'b \<Rightarrow> bool"
    and rkey :: "'r \<Rightarrow> uuid" and rcode :: "'r \<Rightarrow> 'c" and total :: "'r \<Rightarrow> rat"
    and charge :: "rat \<Rightarrow> 'r \<Rightarrow> 'r" and fits :: "'r \<Rightarrow> rat \<Rightarrow> bool"
  assumes total_charge: "fits r d \<Longrightarrow> total (charge d r) = total r + d"
    and rcode_charge: "rcode (charge d r) = rcode r"
    and rkey_charge: "rkey (charge d r) = rkey r"
begin

definition booked :: "'b list \<Rightarrow> 'c \<Rightarrow> rat" where
  "booked bs c = tsum (\<lambda>b. active b \<and> res b = c) amount bs"

definition balanced :: "'b list \<Rightarrow> 'r list \<Rightarrow> bool" where
  "balanced bs rs \<longleftrightarrow>
     distinct (map bkey bs) \<and> distinct (map rkey rs) \<and> inj_on rcode (set rs) \<and>
     (\<forall>r \<in> set rs. total r = booked bs (rcode r))"

lemma balancedD:
  assumes "balanced bs rs"
  shows "distinct (map bkey bs)" and "distinct (map rkey rs)" and "inj_on rcode (set rs)"
    and "r \<in> set rs \<Longrightarrow> total r = booked bs (rcode r)"
  using assms by (simp_all add: balanced_def)

lemma booked_append: "booked (bs @ [b]) c = booked bs c + (if active b \<and> res b = c then amount b else 0)"
  by (simp add: booked_def tsum_append)

lemma booked_upd:
  assumes "distinct (map bkey bs)" and "row bkey (bkey b) bs = Some b0"
  shows "booked (upd bkey b bs) c =
           booked bs c - (if active b0 \<and> res b0 = c then amount b0 else 0)
             + (if active b \<and> res b = c then amount b else 0)"
  unfolding booked_def using assms by (rule tsum_upd)

text \<open>An active booking is at most what its resource has booked.\<close>

lemma booked_member:
  assumes "b \<in> set bs" and "active b" and "\<And>x. x \<in> set bs \<Longrightarrow> 0 \<le> amount x"
  shows "amount b \<le> booked bs (res b)"
  using assms
proof (induction bs)
  case (Cons x xs)
  have "0 \<le> booked xs (res b)"
    unfolding booked_def using Cons.prems(3) by (intro tsum_nonneg) auto
  moreover have "0 \<le> amount x" using Cons.prems(3) by simp
  ultimately show ?case using Cons by (auto simp: booked_def intro: add_increasing)
qed simp

text \<open>A charge of \<open>d\<close> on one resource, with a change of the bookings that is worth \<open>d\<close>.\<close>

lemma balanced_change:
  assumes bal: "balanced bs rs" and r: "r \<in> set rs"
    and bs': "distinct (map bkey bs')" "\<And>c. booked bs' c = booked bs c + (if c = rcode r then d else 0)"
    and r': "rkey r' = rkey r" "rcode r' = rcode r" "total r' = total r + d"
  shows "balanced bs' (upd rkey r' rs)"
proof -
  note inv = balancedD [OF bal]
  have mem: "y = r' \<or> (y \<in> set rs \<and> rkey y \<noteq> rkey r)" if "y \<in> set (upd rkey r' rs)" for y
    using set_upd_subset [OF that] r'(1) by simp
  have other: "rcode y \<noteq> rcode r" if "y \<in> set rs" "rkey y \<noteq> rkey r" for y
    using that r inv(3) by (metis inj_onD)
  have "inj_on rcode (set (upd rkey r' rs))"
  proof (rule inj_onI)
    fix x y
    assume "x \<in> set (upd rkey r' rs)" "y \<in> set (upd rkey r' rs)" "rcode x = rcode y"
    then show "x = y" using mem [of x] mem [of y] other r'(2) inv(3) by (metis inj_onD)
  qed
  moreover have "total y = booked bs' (rcode y)" if "y \<in> set (upd rkey r' rs)" for y
    using mem [OF that] other inv(4) [OF r] inv(4) [of y] bs'(2) r' by fastforce
  ultimately show ?thesis using inv(2) bs'(1) by (simp add: balanced_def)
qed

lemma balanced_book:
  assumes "balanced bs rs" and "r \<in> set rs" and "bkey b \<notin> bkey ` set bs"
    and "active b" and "res b = rcode r" and "fits r (amount b)"
  shows "balanced (bs @ [b]) (upd rkey (charge (amount b) r) rs)"
  using assms balancedD(1) [OF assms(1)]
  by (intro balanced_change [where d = "amount b" and bs = bs and r = r])
    (auto simp: booked_append total_charge rcode_charge rkey_charge)

lemma balanced_add_inactive:
  assumes "balanced bs rs" and "\<not> active b" and "bkey b \<notin> bkey ` set bs"
  shows "balanced (bs @ [b]) rs"
  using assms by (auto simp: balanced_def booked_append)

text \<open>A new resource starts at zero, and nothing may be booked on it before.\<close>

lemma balanced_new_resource:
  assumes "balanced bs rs" and "rkey r \<notin> rkey ` set rs" and "rcode r \<notin> rcode ` set rs"
    and "total r = 0" and "booked bs (rcode r) = 0"
  shows "balanced bs (rs @ [r])"
  using assms by (auto simp: balanced_def)

text \<open>A booking that ends or shrinks gives its resource the difference back.\<close>

lemma balanced_reduce:
  assumes "balanced bs rs" and "r \<in> set rs" and "row bkey (bkey b) bs = Some b0"
    and "active b0" and "res b0 = rcode r" and "res b = rcode r"
    and "d = amount b0 - (if active b then amount b else 0)"
    and "rkey r' = rkey r" and "rcode r' = rcode r" and "total r' = total r - d"
  shows "balanced (upd bkey b bs) (upd rkey r' rs)"
  using assms balancedD(1) [OF assms(1)]
  by (intro balanced_change [where d = "- d" and bs = bs and r = r]) (auto simp: booked_upd)

lemma balanced_release:
  assumes "balanced bs rs" and "r \<in> set rs" and "row bkey (bkey b) bs = Some b0"
    and "active b0" and "res b0 = rcode r" and "res b = rcode r" and "\<not> active b"
    and "fits r (- amount b0)"
  shows "balanced (upd bkey b bs) (upd rkey (charge (- amount b0) r) rs)"
  by (rule balanced_reduce [OF assms(1-6) refl])
    (simp_all add: assms(7,8) total_charge rcode_charge rkey_charge)

end

end
