(* ===== verification/LS_Capacity.thy ===== *)
theory LS_Capacity
  imports LS_Audit LS_Booking LS_PlanningCalc
begin

text \<open>
  The capacity service (\<open>app/domain/capacity/service.py\<close>): locking slots, the lines that can
  make a style, the slots of a planning window, allocating minutes of a slot to an order,
  releasing the allocations of an order, and the capacity board. The lemmas show that the
  minutes a slot shows as allocated are those of its active allocations and never exceed its
  capacity.
\<close>

definition MAX_BOARD_DAYS :: int where
  "MAX_BOARD_DAYS = 31"

definition to_capacity :: "line_capacity_slot \<Rightarrow> slot_capacity" where
  "to_capacity slot =
     \<lparr>sc_slot_id = sl_id slot, sc_line_id = sl_line_id slot, sc_slot_date = sl_slot_date slot,
      sc_shift_code = sl_shift_code slot,
      sc_available_operator_minutes = sl_available_operator_minutes slot,
      sc_planned_efficiency = sl_planned_efficiency slot,
      sc_allocated_standard_minutes = sl_allocated_standard_minutes slot\<rparr>"

definition lock_slots :: "uuid list \<Rightarrow> db \<Rightarrow> line_capacity_slot list \<times> db" where
  "lock_slots slot_ids s =
     (let rows = rows_by_id sl_id slot_ids (t_slots s)
      in (rows, take_locks (map LockSlot (map sl_id rows)) s))"

definition compatible_line_ids :: "uuid \<Rightarrow> uuid \<Rightarrow> db \<Rightarrow> uuid list" where
  "compatible_line_ids factory_id style_id s =
     (let required = map so_skill_code (filter (\<lambda>p. so_style_id p = style_id) (t_style_operations s));
          active = map li_id (filter (\<lambda>l. li_factory_id l = factory_id \<and> li_is_active l) (t_lines s));
          skills = (\<lambda>l. map lc_skill_code
            (filter (\<lambda>c. lc_line_id c = l) (t_line_capabilities s)))
      in if required = [] then []
         else filter (\<lambda>l. set required \<subseteq> set (skills l)) active)"

definition slot_capacities ::
  "uuid \<Rightarrow> date \<Rightarrow> date \<Rightarrow> uuid list option \<Rightarrow> db \<Rightarrow> slot_capacity list" where
  "slot_capacities factory_id start end_date line_ids s =
     map to_capacity
       (sort_key (\<lambda>r. (sl_slot_date r, sl_shift_code r, sl_line_id r))
         (filter (\<lambda>r. sl_factory_id r = factory_id \<and> start \<le> sl_slot_date r \<and>
            sl_slot_date r \<le> end_date \<and>
            (case line_ids of None \<Rightarrow> True | Some ls \<Rightarrow> sl_line_id r \<in> set ls)) (t_slots s)))"

text \<open>The update of a slot by an allocation or a release: its minutes and its version.\<close>

definition charge_slot :: "decimal \<Rightarrow> line_capacity_slot \<Rightarrow> line_capacity_slot" where
  "charge_slot d r =
     r\<lparr>sl_allocated_standard_minutes := dadd (sl_allocated_standard_minutes r) d,
       sl_version := sl_version r + 1\<rparr>"

definition insufficient_capacity :: exn where
  "insufficient_capacity =
     AppError 409 CONFLICT ''Insufficient remaining capacity'' [''standard_minutes'']"

definition allocate ::
  "uuid \<Rightarrow> uuid \<Rightarrow> decimal \<Rightarrow> decimal \<Rightarrow> uuid option \<Rightarrow> uuid option \<Rightarrow> db \<Rightarrow> exn + (allocation \<times> db)" where
  "allocate slot_id order_id standard_minutes units actor_user_id recommendation_id s =
     bind_err (quantize ROUND_HALF_UP 2 standard_minutes) (\<lambda>standard_minutes.
     bind_err (quantize ROUND_HALF_UP 4 units) (\<lambda>units.
     bind_err (ensure (0 < standard_minutes \<and> 0 < units)
       (AppError 422 VALIDATION_ERROR ''Allocation minutes and units must be positive.'' [])) (\<lambda>_.
     bind_err (some_or (AppError 404 NOT_FOUND ''Resource not found.'' [])
       (row sl_id slot_id (t_slots s))) (\<lambda>slot.
     bind_err (some_or (AppError 422 VALIDATION_ERROR ''Order and capacity slot must share a factory.'' [])
       (row or_id order_id (t_orders s))) (\<lambda>ord.
     bind_err (ensure (or_factory_id ord = sl_factory_id slot)
       (AppError 422 VALIDATION_ERROR ''Order and capacity slot must share a factory.'' [])) (\<lambda>_.
     let capacity = dmul (sl_available_operator_minutes slot) (sl_planned_efficiency slot)
     in bind_err (ensure (\<not> capacity < dadd (sl_allocated_standard_minutes slot) standard_minutes)
          insufficient_capacity) (\<lambda>_.
        bind_err (insert_allocation
          \<lparr>al_id = 0, al_organization_id = sl_organization_id slot,
           al_factory_id = sl_factory_id slot, al_order_id = or_id ord, al_slot_id = sl_id slot,
           al_standard_minutes = standard_minutes, al_units = units, al_status = ALLOC_ACTIVE,
           al_recommendation_id = recommendation_id, al_created_by = actor_user_id,
           al_created_at = utcnow s\<rparr> s) (\<lambda>(allocation, s).
        let slot' = charge_slot standard_minutes slot
        in bind_err (update_slot slot' s) (\<lambda>s.
           Inr (allocation,
             record_audit (sl_organization_id slot) (Some (sl_factory_id slot))
               (fst (actor_of actor_user_id)) (snd (actor_of actor_user_id))
               ''capacity.allocate'' ''allocation'' (Id (al_id allocation)) SUCCESS None None None
               (Some (JObj [(Lit ''slot_id'', JText (Id (sl_id slot))),
                  (Lit ''allocated_standard_minutes'', JText (Dec (sl_allocated_standard_minutes slot))),
                  (Lit ''version'', JInt (sl_version slot))]))
               (Some (JObj [(Lit ''slot_id'', JText (Id (sl_id slot))),
                  (Lit ''order_id'', JText (Id (or_id ord))),
                  (Lit ''standard_minutes'', JText (Dec standard_minutes)),
                  (Lit ''units'', JText (Dec units)),
                  (Lit ''allocated_standard_minutes'',
                     JText (Dec (sl_allocated_standard_minutes slot'))),
                  (Lit ''version'', JInt (sl_version slot'))])) s))))))))))"

text \<open>
  The loop of \<open>release_order_allocations\<close> over the locked rows: it changes the rows in
  memory, the flush after it checks and stores them.
\<close>

fun release_allocations_loop :: "allocation list \<Rightarrow> db \<Rightarrow> db" where
  "release_allocations_loop [] s = s"
| "release_allocations_loop (a # as) s =
     release_allocations_loop as
       (case row sl_id (al_slot_id a) (t_slots s) of
          None \<Rightarrow> s
        | Some slot \<Rightarrow>
            s\<lparr>t_slots := upd sl_id (slot\<lparr>sl_allocated_standard_minutes :=
                  dsub (sl_allocated_standard_minutes slot) (al_standard_minutes a),
                sl_version := sl_version slot + 1\<rparr>) (t_slots s),
              t_allocations := upd al_id (a\<lparr>al_status := ALLOC_RELEASED\<rparr>) (t_allocations s)\<rparr>)"

fun flush_slots :: "uuid list \<Rightarrow> db \<Rightarrow> exn + db" where
  "flush_slots [] s = Inr s"
| "flush_slots (i # is) s =
     (case row sl_id i (t_slots s) of
        None \<Rightarrow> flush_slots is s
      | Some r \<Rightarrow> bind_err (update_slot r s) (flush_slots is))"

definition active_allocations_of :: "uuid \<Rightarrow> db \<Rightarrow> allocation list" where
  "active_allocations_of order_id s =
     sort_key al_id (filter (\<lambda>a. al_order_id a = order_id \<and> al_status a = ALLOC_ACTIVE)
       (t_allocations s))"

definition allocation_slot_ids :: "uuid \<Rightarrow> db \<Rightarrow> uuid list" where
  "allocation_slot_ids order_id s =
     remdups (map al_slot_id (filter (\<lambda>a. al_order_id a = order_id) (t_allocations s)))"

definition release_order_allocations :: "order \<Rightarrow> db \<Rightarrow> exn + (allocation list \<times> db)" where
  "release_order_allocations ord s =
     (let slot_ids = allocation_slot_ids (or_id ord) s
      in if slot_ids = [] then Inr ([], s)
         else let (slots, s) = lock_slots slot_ids s;
                  allocations = active_allocations_of (or_id ord) s;
                  s = take_locks (map (LockAllocation \<circ> al_id) allocations) s
              in if list_ex (\<lambda>a. al_slot_id a \<notin> sl_id ` set slots) allocations
                 then Inl (AppError 409 CONFLICT
                   ''The order's allocations changed concurrently; please retry.'' [])
                 else bind_err (flush_slots (map sl_id slots) (release_allocations_loop allocations s))
                   (\<lambda>s. Inr (map (\<lambda>a. a\<lparr>al_status := ALLOC_RELEASED\<rparr>) allocations, s)))"

definition validate_range :: "date \<Rightarrow> date \<Rightarrow> exn + unit" where
  "validate_range start end_date =
     bind_err (ensure (\<not> end_date < start)
       (AppError 422 VALIDATION_ERROR ''The end date must not be before the start date.'' [''end''])) (\<lambda>_.
     ensure (\<not> MAX_BOARD_DAYS < end_date - start + 1)
       (AppError 422 VALIDATION_ERROR ''The date range may span at most 31 days.'' [''end'']))"

record board_allocation =
  bda_id :: uuid
  bda_order_id :: uuid
  bda_order_external_ref :: string
  bda_standard_minutes :: decimal
  bda_units :: decimal

record board_slot =
  bds_slot :: line_capacity_slot
  bds_capacity_standard_minutes :: decimal
  bds_remaining_standard_minutes :: decimal
  bds_utilization :: "decimal option"
  bds_allocations :: "board_allocation list"

record board_line =
  bdl_line :: line
  bdl_slots :: "board_slot list"

record capacity_board =
  bd_factory_id :: uuid
  bd_start :: date
  bd_end :: date
  bd_lines :: "board_line list"

definition board_allocations :: "uuid \<Rightarrow> db \<Rightarrow> board_allocation list" where
  "board_allocations slot_id s =
     List.map_filter (\<lambda>a.
         case row or_id (al_order_id a) (t_orders s) of
           None \<Rightarrow> None
         | Some ord \<Rightarrow> Some \<lparr>bda_id = al_id a, bda_order_id = al_order_id a,
             bda_order_external_ref = or_external_ref ord,
             bda_standard_minutes = al_standard_minutes a, bda_units = al_units a\<rparr>)
       (sort_key (\<lambda>a. (al_created_at a, al_id a))
         (filter (\<lambda>a. al_slot_id a = slot_id \<and> al_status a = ALLOC_ACTIVE) (t_allocations s)))"

definition board_slot_of :: "line_capacity_slot \<Rightarrow> db \<Rightarrow> exn + board_slot" where
  "board_slot_of slot s =
     (let capacity = to_capacity slot
      in bind_err (remaining_standard_minutes capacity) (\<lambda>remaining.
         Inr \<lparr>bds_slot = slot,
              bds_capacity_standard_minutes = capacity_standard_minutes capacity,
              bds_remaining_standard_minutes = remaining,
              bds_utilization = utilization (sl_allocated_standard_minutes slot)
                (capacity_standard_minutes capacity),
              bds_allocations = board_allocations (sl_id slot) s\<rparr>))"

fun map_err :: "('a \<Rightarrow> 'e + 'b) \<Rightarrow> 'a list \<Rightarrow> 'e + 'b list" where
  "map_err f [] = Inr []"
| "map_err f (x # xs) = bind_err (f x) (\<lambda>y. bind_err (map_err f xs) (\<lambda>ys. Inr (y # ys)))"

definition capacity_board_of :: "uuid \<Rightarrow> date \<Rightarrow> date \<Rightarrow> db \<Rightarrow> exn + capacity_board" where
  "capacity_board_of factory_id start end_date s =
     bind_err (validate_range start end_date) (\<lambda>_.
     let lines = sort_key li_code (filter (\<lambda>l. li_factory_id l = factory_id) (t_lines s));
         slots = sort_key (\<lambda>r. (sl_slot_date r, sl_shift_code r))
           (filter (\<lambda>r. sl_factory_id r = factory_id \<and> start \<le> sl_slot_date r \<and>
              sl_slot_date r \<le> end_date) (t_slots s))
     in bind_err (map_err (\<lambda>r. bind_err (board_slot_of r s) (\<lambda>b. Inr (sl_line_id r, b))) slots) (\<lambda>board.
        Inr \<lparr>bd_factory_id = factory_id, bd_start = start, bd_end = end_date,
             bd_lines = map (\<lambda>l. \<lparr>bdl_line = l,
               bdl_slots = map snd (filter (\<lambda>(i, _). i = li_id l) board)\<rparr>) lines\<rparr>))"

definition list_lines :: "uuid \<Rightarrow> nat \<Rightarrow> nat \<Rightarrow> db \<Rightarrow> (line \<times> string list) list \<times> nat" where
  "list_lines factory_id limit offset s =
     (let base = filter (\<lambda>l. li_factory_id l = factory_id) (t_lines s);
          lines = take limit (drop offset (sort_key li_code base))
      in (map (\<lambda>l. (l, sort (map lc_skill_code
             (filter (\<lambda>c. lc_line_id c = li_id l) (t_line_capabilities s))))) lines,
          length base))"

section \<open>The capacity invariant\<close>

definition slot_fits :: "line_capacity_slot \<Rightarrow> decimal \<Rightarrow> bool" where
  "slot_fits r d \<longleftrightarrow> dadd (sl_allocated_standard_minutes r) d = sl_allocated_standard_minutes r + d"

interpretation alloc: booking al_id al_slot_id al_standard_minutes "\<lambda>a. al_status a = ALLOC_ACTIVE"
  sl_id sl_id sl_allocated_standard_minutes charge_slot slot_fits
  by unfold_locales (simp_all add: charge_slot_def slot_fits_def)

definition slot_ok :: "line_capacity_slot \<Rightarrow> bool" where
  "slot_ok r \<longleftrightarrow>
     numeric 12 2 (sl_available_operator_minutes r) \<and> 0 \<le> sl_available_operator_minutes r \<and>
     numeric 5 4 (sl_planned_efficiency r) \<and> 0 < sl_planned_efficiency r \<and> sl_planned_efficiency r \<le> 1 \<and>
     numeric 12 2 (sl_allocated_standard_minutes r) \<and> 0 \<le> sl_allocated_standard_minutes r \<and>
     sl_allocated_standard_minutes r \<le> sl_available_operator_minutes r * sl_planned_efficiency r"

definition allocation_ok :: "line_capacity_slot list \<Rightarrow> allocation \<Rightarrow> bool" where
  "allocation_ok slots a \<longleftrightarrow>
     numeric 12 2 (al_standard_minutes a) \<and> 0 < al_standard_minutes a \<and>
     numeric 14 4 (al_units a) \<and> 0 < al_units a \<and> al_slot_id a \<in> sl_id ` set slots"

definition capacity_ok :: "db \<Rightarrow> bool" where
  "capacity_ok s \<longleftrightarrow>
     alloc.balanced (t_allocations s) (t_slots s) \<and>
     (\<forall>r \<in> set (t_slots s). slot_ok r) \<and>
     (\<forall>a \<in> set (t_allocations s). allocation_ok (t_slots s) a)"

lemma capacity_okD:
  assumes "capacity_ok s"
  shows "alloc.balanced (t_allocations s) (t_slots s)"
    and "r \<in> set (t_slots s) \<Longrightarrow> slot_ok r"
    and "a \<in> set (t_allocations s) \<Longrightarrow> allocation_ok (t_slots s) a"
    and "distinct (map sl_id (t_slots s))" and "distinct (map al_id (t_allocations s))"
  using assms alloc.balancedD [of "t_allocations s" "t_slots s"] by (simp_all add: capacity_ok_def)

text \<open>The invariant only reads two tables.\<close>

lemma capacity_ok_frame:
  "t_slots s' = t_slots s \<Longrightarrow> t_allocations s' = t_allocations s \<Longrightarrow> capacity_ok s' = capacity_ok s"
  by (simp add: capacity_ok_def)

lemma capacity_exact:
  assumes "slot_ok r"
  shows "dmul (sl_available_operator_minutes r) (sl_planned_efficiency r)
           = sl_available_operator_minutes r * sl_planned_efficiency r"
proof -
  let ?a = "sl_available_operator_minutes r" and ?e = "sl_planned_efficiency r"
  have a: "scaled 2 ?a" "0 \<le> ?a" "?a * 10 ^ 2 < 10 ^ 12" and e: "scaled 4 ?e" "0 < ?e" "?e \<le> 1"
    using assms by (auto simp: slot_ok_def numeric_def)
  have "scaled (2 + 4) (?a * ?e)" using a(1) e(1) by (rule scaled_mult)
  moreover have "?a * ?e \<le> ?a * 1" using a e by (intro mult_left_mono) simp_all
  then have "\<bar>?a * ?e\<bar> * 10 ^ 6 < 10 ^ 28" using a e by simp
  ultimately show ?thesis unfolding dmul_def by (intro ctx_round_exact [where s = 6]) simp_all
qed

text \<open>What a successful flush of an allocation and of its slot stored.\<close>

lemma insert_allocationD:
  assumes "insert_allocation r s = Inr (a, s')" and "scaled 2 (al_standard_minutes r)" and "scaled 4 (al_units r)"
  shows "a = r\<lparr>al_id := uuid4 s (drawn s), al_created_at := utcnow s\<rparr>"
    and "s' = s\<lparr>drawn := Suc (drawn s), t_allocations := t_allocations s @ [a]\<rparr>"
    and "al_id a \<notin> al_id ` set (t_allocations s)"
    and "numeric 12 2 (al_standard_minutes a)" and "0 < al_standard_minutes a"
    and "numeric 14 4 (al_units a)" and "0 < al_units a"
  using assms
  by (auto simp: insert_allocation_def draw_def Let_def bind_err_Inr insert_row_Inr to_column_scaled)

lemma update_slotD:
  assumes "update_slot r s = Inr s'" and "scaled 2 (sl_allocated_standard_minutes r)"
  shows "s' = s\<lparr>t_slots := upd sl_id r (t_slots s)\<rparr>"
    and "numeric 12 2 (sl_allocated_standard_minutes r)" and "0 \<le> sl_allocated_standard_minutes r"
    and "sl_allocated_standard_minutes r \<le> sl_available_operator_minutes r * sl_planned_efficiency r"
  using assms by (auto simp: update_slot_def bind_err_Inr to_column_scaled)

lemma update_slot_charge:
  assumes "update_slot (charge_slot d slot) s = Inr s'" and "slot_ok slot" and "scaled 2 d"
  shows "slot_fits slot d" and "s' = s\<lparr>t_slots := upd sl_id (charge_slot d slot) (t_slots s)\<rparr>"
    and "slot_ok (charge_slot d slot)"
proof -
  have sc: "scaled 2 (sl_allocated_standard_minutes slot)" using assms(2) by (simp add: slot_ok_def numeric_def)
  from assms(1) obtain v where "to_column 12 2 (dadd (sl_allocated_standard_minutes slot) d) = Inr v"
    by (auto simp: update_slot_def bind_err_Inr charge_slot_def)
  note ex = to_column_dadd [OF sc assms(3) this]
  show fits: "slot_fits slot d" using ex(2) by (simp add: slot_fits_def)
  have "scaled 2 (sl_allocated_standard_minutes (charge_slot d slot))"
    using ex sc assms(3) by (auto simp: charge_slot_def)
  note u = update_slotD [OF assms(1) this]
  show "s' = s\<lparr>t_slots := upd sl_id (charge_slot d slot) (t_slots s)\<rparr>" by (rule u(1))
  show "slot_ok (charge_slot d slot)"
    using u(2-4) assms(2) by (simp add: slot_ok_def charge_slot_def)
qed

lemma allocation_ok_upd: "allocation_ok (upd sl_id r rs) a = allocation_ok rs a"
  by (simp add: allocation_ok_def)

section \<open>Allocating\<close>

text \<open>The whole effect of a successful allocation.\<close>

lemma allocateD:
  assumes "allocate slot_id order_id m u actor rec s = Inr (a, s')"
  obtains m' u' slot ord s1 s2 where
    "quantize ROUND_HALF_UP 2 m = Inr m'" "quantize ROUND_HALF_UP 4 u = Inr u'"
    "row sl_id slot_id (t_slots s) = Some slot" "row or_id order_id (t_orders s) = Some ord"
    "or_factory_id ord = sl_factory_id slot"
    "dadd (sl_allocated_standard_minutes slot) m'
       \<le> dmul (sl_available_operator_minutes slot) (sl_planned_efficiency slot)"
    "insert_allocation \<lparr>al_id = 0, al_organization_id = sl_organization_id slot,
       al_factory_id = sl_factory_id slot, al_order_id = or_id ord, al_slot_id = sl_id slot,
       al_standard_minutes = m', al_units = u', al_status = ALLOC_ACTIVE,
       al_recommendation_id = rec, al_created_by = actor, al_created_at = utcnow s\<rparr> s = Inr (a, s1)"
    "update_slot (charge_slot m' slot) s1 = Inr s2" "audited s2 s'"
  using assms
  by (auto simp: allocate_def bind_err_Inr Let_def not_less)

lemma slot_row_in: "row sl_id i (t_slots s) = Some slot \<Longrightarrow> slot \<in> set (t_slots s) \<and> sl_id slot = i"
  by (auto dest: row_SomeD)

lemma charge_slot_id [simp]: "sl_id (charge_slot d r) = sl_id r"
  by (simp add: charge_slot_def)

lemma allocate_ok:
  assumes inv: "capacity_ok s" and al: "allocate slot_id order_id m u actor rec s = Inr (a, s')"
  shows "capacity_ok s'"
proof -
  from al obtain m' u' slot ord s1 s2 where q: "quantize ROUND_HALF_UP 2 m = Inr m'"
      "quantize ROUND_HALF_UP 4 u = Inr u'"
    and slot: "row sl_id slot_id (t_slots s) = Some slot" "row or_id order_id (t_orders s) = Some ord"
    and ins: "insert_allocation \<lparr>al_id = 0, al_organization_id = sl_organization_id slot,
       al_factory_id = sl_factory_id slot, al_order_id = or_id ord, al_slot_id = sl_id slot,
       al_standard_minutes = m', al_units = u', al_status = ALLOC_ACTIVE,
       al_recommendation_id = rec, al_created_by = actor, al_created_at = utcnow s\<rparr> s = Inr (a, s1)"
    and up: "update_slot (charge_slot m' slot) s1 = Inr s2" and au: "audited s2 s'"
    by (rule allocateD) blast
  note sc = quantize_2 [OF q(1)] quantize_4 [OF q(2)]
  note in_slot = slot_row_in [OF slot(1)]
  have i: "al_standard_minutes a = m'" "al_slot_id a = sl_id slot" "al_status a = ALLOC_ACTIVE"
    "t_allocations s1 = t_allocations s @ [a]" "t_slots s1 = t_slots s"
    "al_id a \<notin> al_id ` set (t_allocations s)"
    "numeric 12 2 (al_standard_minutes a)" "0 < al_standard_minutes a"
    "numeric 14 4 (al_units a)" "0 < al_units a"
    using insert_allocationD [OF ins] sc by auto
  have ok: "slot_ok slot" using capacity_okD(2) [OF inv] in_slot by blast
  note u = update_slot_charge [OF up ok sc(1)]
  have tabs: "t_slots s' = upd sl_id (charge_slot m' slot) (t_slots s)"
    "t_allocations s' = t_allocations s @ [a]"
    using u(2) i(4,5) audited_frame [OF au] by auto
  have "alloc.balanced (t_allocations s') (t_slots s')"
    unfolding tabs using alloc.balanced_book [OF capacity_okD(1) [OF inv], of slot a] in_slot i u(1) by simp
  moreover have "slot_ok r" if "r \<in> set (t_slots s')" for r
    using that set_upd_subset [of r sl_id] u(3) capacity_okD(2) [OF inv] unfolding tabs by blast
  moreover have "al_slot_id a \<in> sl_id ` set (t_slots s)" using in_slot i(2) by (metis imageI)
  then have "allocation_ok (t_slots s') b" if "b \<in> set (t_allocations s')" for b
    using that i capacity_okD(3) [OF inv]
    unfolding tabs allocation_ok_upd by (auto simp: allocation_ok_def)
  ultimately show ?thesis by (simp add: capacity_ok_def)
qed

text \<open>
  C11. Allocating keeps the books of the slots: afterwards every slot again shows exactly the
  minutes of its active allocations, within its capacity.
\<close>

theorem allocate_preserves:
  assumes "capacity_ok s" and "allocate slot_id order_id m u actor rec s = Inr (a, s')"
  shows "capacity_ok s'"
  using assms by (rule allocate_ok)

section \<open>Releasing\<close>

text \<open>One pass of the loop is a charge of minus the allocation's minutes.\<close>

lemma release_step:
  "slot\<lparr>sl_allocated_standard_minutes := dsub (sl_allocated_standard_minutes slot) m,
        sl_version := sl_version slot + 1\<rparr> = charge_slot (- m) slot"
  by (simp add: charge_slot_def dsub_def dadd_def)

definition released_one :: "allocation \<Rightarrow> line_capacity_slot \<Rightarrow> db \<Rightarrow> db" where
  "released_one a slot s =
     s\<lparr>t_slots := upd sl_id (charge_slot (- al_standard_minutes a) slot) (t_slots s),
       t_allocations := upd al_id (a\<lparr>al_status := ALLOC_RELEASED\<rparr>) (t_allocations s)\<rparr>"

lemma active_slot:
  assumes "capacity_ok s" and "a \<in> set (t_allocations s)"
  obtains slot where "row sl_id (al_slot_id a) (t_slots s) = Some slot" "slot \<in> set (t_slots s)"
    "sl_id slot = al_slot_id a"
proof -
  have "al_slot_id a \<in> sl_id ` set (t_slots s)"
    using capacity_okD(3) [OF assms] by (simp add: allocation_ok_def)
  then obtain slot where "slot \<in> set (t_slots s)" "sl_id slot = al_slot_id a" by auto
  with row_distinct [OF capacity_okD(4) [OF assms(1)]] that show ?thesis by metis
qed

lemma release_one_ok:
  assumes inv: "capacity_ok s" and a: "a \<in> set (t_allocations s)" "al_status a = ALLOC_ACTIVE"
    and slot: "slot \<in> set (t_slots s)" "sl_id slot = al_slot_id a"
  shows "capacity_ok (released_one a slot s)"
proof -
  let ?m = "al_standard_minutes a"
  note ok = capacity_okD(2) [OF inv slot(1)] and aok = capacity_okD(3) [OF inv a(1)]
  have total: "sl_allocated_standard_minutes slot = alloc.booked (t_allocations s) (sl_id slot)"
    using alloc.balancedD(4) [OF capacity_okD(1) [OF inv] slot(1)] .
  have "0 \<le> al_standard_minutes x" if "x \<in> set (t_allocations s)" for x
    using capacity_okD(3) [OF inv that] by (simp add: allocation_ok_def)
  then have "?m \<le> alloc.booked (t_allocations s) (al_slot_id a)"
    using a by (intro alloc.booked_member) auto
  then have le: "?m \<le> sl_allocated_standard_minutes slot" using total slot(2) by simp
  have num: "numeric 12 2 (sl_allocated_standard_minutes slot)" "numeric 12 2 ?m" "0 < ?m"
    using ok aok by (auto simp: slot_ok_def allocation_ok_def)
  then have fits: "slot_fits slot (- ?m)"
    using numeric_dadd [of 12 2 _ "- ?m"] by (simp add: slot_fits_def numeric_minus)
  have "scaled 2 (sl_allocated_standard_minutes slot - ?m)" using num by (auto simp: numeric_def)
  then have "numeric 12 2 (sl_allocated_standard_minutes slot - ?m)"
    using num le by (intro numeric_le [OF num(1)]) auto
  then have "slot_ok (charge_slot (- ?m) slot)"
    using ok fits le num(3) by (simp add: slot_ok_def charge_slot_def slot_fits_def)
  moreover have "alloc.balanced (t_allocations (released_one a slot s)) (t_slots (released_one a slot s))"
    using alloc.balanced_release [OF capacity_okD(1) [OF inv] slot(1), of "a\<lparr>al_status := ALLOC_RELEASED\<rparr>" a]
      row_distinct [OF capacity_okD(5) [OF inv] a(1)] a slot fits by (simp add: released_one_def)
  moreover have "allocation_ok (t_slots s) b"
    if "b \<in> set (upd al_id (a\<lparr>al_status := ALLOC_RELEASED\<rparr>) (t_allocations s))" for b
    using set_upd_subset [OF that] aok capacity_okD(3) [OF inv] by (auto simp: allocation_ok_def)
  moreover have "slot_ok r"
    if "r \<in> set (upd sl_id (charge_slot (- ?m) slot) (t_slots s))" and "slot_ok (charge_slot (- ?m) slot)" for r
    using set_upd_subset [OF that(1)] that(2) capacity_okD(2) [OF inv] by auto
  ultimately show ?thesis
    by (simp add: capacity_ok_def released_one_def allocation_ok_upd)
qed

text \<open>The tables after the loop.\<close>

definition release_all :: "allocation list \<Rightarrow> allocation list \<Rightarrow> allocation list" where
  "release_all as rows =
     mark al_id (\<lambda>x. x\<lparr>al_status := ALLOC_RELEASED\<rparr>) (al_id ` set as) rows"

lemma release_all_Nil [simp]: "release_all [] rows = rows"
  by (simp add: release_all_def)

lemma release_all_upd:
  assumes "distinct (map al_id rows)" and "a \<in> set rows" and "al_id a \<notin> al_id ` set as"
  shows "release_all as (upd al_id (a\<lparr>al_status := ALLOC_RELEASED\<rparr>) rows) = release_all (a # as) rows"
  using mark_upd [OF assms(1,2) _ assms(3), of "\<lambda>a. a\<lparr>al_status := ALLOC_RELEASED\<rparr>"]
  by (simp add: release_all_def)

lemma release_loop_ok:
  assumes "capacity_ok s" and "distinct (map al_id as)"
    and "\<And>a. a \<in> set as \<Longrightarrow> a \<in> set (t_allocations s) \<and> al_status a = ALLOC_ACTIVE"
  shows "capacity_ok (release_allocations_loop as s) \<and>
         (\<exists>slots. release_allocations_loop as s =
            s\<lparr>t_slots := slots, t_allocations := release_all as (t_allocations s)\<rparr>)"
  using assms
proof (induction as s rule: release_allocations_loop.induct)
  case (1 s)
  show ?case using 1(1) by (auto intro!: exI [of _ "t_slots s"])
next
  case (2 a as s)
  have a: "a \<in> set (t_allocations s)" "al_status a = ALLOC_ACTIVE" using 2(4) [of a] by simp_all
  obtain slot where slot: "row sl_id (al_slot_id a) (t_slots s) = Some slot" "slot \<in> set (t_slots s)"
    "sl_id slot = al_slot_id a" using active_slot [OF 2(2) a(1)] .
  let ?s = "released_one a slot s"
  have step: "release_allocations_loop (a # as) s = release_allocations_loop as ?s"
    by (simp add: slot(1) release_step released_one_def)
  have inv: "capacity_ok ?s" using release_one_ok [OF 2(2) a slot(2,3)] .
  have rest: "x \<in> set (t_allocations ?s) \<and> al_status x = ALLOC_ACTIVE" if "x \<in> set as" for x
    using 2(3) 2(4) [of x] that by (force simp: released_one_def upd_def image_iff)
  have "capacity_ok (release_allocations_loop as ?s) \<and>
      (\<exists>slots. release_allocations_loop as ?s =
         ?s\<lparr>t_slots := slots, t_allocations := release_all as (t_allocations ?s)\<rparr>)"
    using 2(1) inv 2(3) rest slot(1) by (simp add: release_step released_one_def)
  moreover have "release_all as (t_allocations ?s) = release_all (a # as) (t_allocations s)"
    using release_all_upd [OF capacity_okD(5) [OF 2(2)] a(1)] 2(3) by (simp add: released_one_def)
  ultimately show ?case unfolding step by (auto simp: released_one_def)
qed

lemma flush_slots_clean:
  assumes "capacity_ok s"
  shows "flush_slots is s = Inr s"
proof (induction "is")
  case (Cons i "is")
  show ?case
  proof (cases "row sl_id i (t_slots s)")
    case (Some r)
    then have r: "r \<in> set (t_slots s)" by (rule row_in_set)
    have "slot_ok r" using capacity_okD(2) [OF assms r] .
    then have "update_slot r s = Inr s"
      using upd_same [OF capacity_okD(4) [OF assms] r]
      by (auto simp: update_slot_def slot_ok_def bind_err_Inr to_column_scaled numeric_scaled)
    with Some Cons show ?thesis by simp
  qed (simp add: Cons)
qed simp

text \<open>What a release leaves: the slots, the order's allocations and the locks change.\<close>

definition allocations_released :: "uuid \<Rightarrow> db \<Rightarrow> allocation list" where
  "allocations_released oid s =
     map (\<lambda>a. if al_order_id a = oid \<and> al_status a = ALLOC_ACTIVE
              then a\<lparr>al_status := ALLOC_RELEASED\<rparr> else a) (t_allocations s)"

lemma release_allocations_run:
  assumes inv: "capacity_ok s"
  shows "\<exists>released s' slots lks. release_order_allocations ord s = Inr (released, s') \<and> capacity_ok s' \<and>
           s' = s\<lparr>t_slots := slots, t_allocations := allocations_released (or_id ord) s, locks := lks\<rparr>"
proof (cases "allocation_slot_ids (or_id ord) s = []")
  case True
  then have "\<not> (al_order_id a = or_id ord \<and> al_status a = ALLOC_ACTIVE)" if "a \<in> set (t_allocations s)" for a
    using that by (auto simp: allocation_slot_ids_def filter_empty_conv)
  then have "map (\<lambda>a. if al_order_id a = or_id ord \<and> al_status a = ALLOC_ACTIVE
                      then a\<lparr>al_status := ALLOC_RELEASED\<rparr> else a) (t_allocations s) = t_allocations s"
    by (intro map_idI) auto
  then have "allocations_released (or_id ord) s = t_allocations s" by (simp only: allocations_released_def)
  then show ?thesis using True inv
    by (intro exI [of _ "[]"] exI [of _ s] exI [of _ "t_slots s"] exI [of _ "locks s"])
      (simp add: release_order_allocations_def)
next
  case False
  let ?ids = "allocation_slot_ids (or_id ord) s"
  define slots where "slots = fst (lock_slots ?ids s)"
  define s1 where "s1 = snd (lock_slots ?ids s)"
  define as where "as = active_allocations_of (or_id ord) s1"
  define s2 where "s2 = take_locks (map (LockAllocation \<circ> al_id) as) s1"
  have same: "t_slots s2 = t_slots s" "t_allocations s2 = t_allocations s"
    "t_allocations s1 = t_allocations s"
    by (simp_all add: s2_def s1_def lock_slots_def take_locks_def Let_def)
  have inv2: "capacity_ok s2" using inv capacity_ok_frame [of s2 s] same by simp
  have mem: "a \<in> set as \<longleftrightarrow> a \<in> set (t_allocations s) \<and> al_order_id a = or_id ord \<and> al_status a = ALLOC_ACTIVE" for a
    using same by (auto simp: as_def active_allocations_of_def)
  have dist: "distinct (map al_id as)"
    using capacity_okD(5) [OF inv] same
    by (simp add: as_def active_allocations_of_def distinct_map inj_on_def)
  define lks where "lks = locks s2"
  have s2: "s2 = s\<lparr>locks := lks\<rparr>"
    by (simp add: lks_def s2_def s1_def lock_slots_def take_locks_def Let_def)
  have as_in: "a \<in> set (t_allocations s2) \<and> al_status a = ALLOC_ACTIVE" if "a \<in> set as" for a
    using mem same that by simp
  obtain slots' where loop: "capacity_ok (release_allocations_loop as s2)"
    "release_allocations_loop as s2 = s2\<lparr>t_slots := slots', t_allocations := release_all as (t_allocations s)\<rparr>"
    using release_loop_ok [OF inv2 dist as_in] same(2) by auto
  have locked: "al_slot_id a \<in> sl_id ` set slots" if "a \<in> set as" for a
  proof -
    have "al_slot_id a \<in> sl_id ` set (t_slots s)"
      using capacity_okD(3) [OF inv] that mem by (auto simp: allocation_ok_def)
    moreover have "al_slot_id a \<in> set ?ids" using that mem by (auto simp: allocation_slot_ids_def)
    ultimately show ?thesis
      using set_rows_by_id [OF capacity_okD(4) [OF inv], of ?ids]
      by (auto simp: slots_def lock_slots_def Let_def)
  qed
  have run: "release_order_allocations ord s =
      Inr (map (\<lambda>a. a\<lparr>al_status := ALLOC_RELEASED\<rparr>) as, release_allocations_loop as s2)"
    using False locked flush_slots_clean [OF loop(1)]
    by (auto simp: release_order_allocations_def Let_def list_ex_iff case_prod_beta
        simp flip: slots_def s1_def as_def s2_def)
  have "al_id x \<in> al_id ` set as \<longleftrightarrow> al_order_id x = or_id ord \<and> al_status x = ALLOC_ACTIVE"
    if "x \<in> set (t_allocations s)" for x
    using that capacity_okD(5) [OF inv] mem by (auto simp: distinct_map dest: inj_onD)
  then have "release_all as (t_allocations s) = allocations_released (or_id ord) s"
    by (simp add: release_all_def mark_def allocations_released_def)
  then have "release_allocations_loop as s2 =
      s\<lparr>t_slots := slots', t_allocations := allocations_released (or_id ord) s, locks := lks\<rparr>"
    unfolding loop(2) by (simp add: s2)
  with run loop(1) show ?thesis by blast
qed

text \<open>
  C12. Releasing an order's allocations always succeeds on sound books and gives every slot
  its minutes back: exactly the order's active allocations become released, nothing else in
  the table changes, and the books stay sound.
\<close>

theorem release_allocations_total:
  assumes inv: "capacity_ok s"
  shows "\<exists>released s'. release_order_allocations ord s = Inr (released, s') \<and> capacity_ok s' \<and>
           t_allocations s' =
             map (\<lambda>a. if al_order_id a = or_id ord \<and> al_status a = ALLOC_ACTIVE
                      then a\<lparr>al_status := ALLOC_RELEASED\<rparr> else a) (t_allocations s)"
  using release_allocations_run [OF inv] by (force simp: allocations_released_def)

section \<open>One slot with one allocation\<close>

definition capacity_demo :: db where
  "capacity_demo =
     empty_db\<lparr>t_orders := [demo_order],
       t_slots := [\<lparr>sl_id = 1, sl_organization_id = 1, sl_factory_id = 7, sl_line_id = 1,
         sl_slot_date = 1, sl_shift_code = ''A'', sl_available_operator_minutes = 480,
         sl_planned_efficiency = 4 / 5, sl_allocated_standard_minutes = 100, sl_version = 1\<rparr>],
       t_allocations := [\<lparr>al_id = 5, al_organization_id = 1, al_factory_id = 7, al_order_id = 9,
         al_slot_id = 1, al_standard_minutes = 100, al_units = 50, al_status = ALLOC_ACTIVE,
         al_recommendation_id = None, al_created_by = None, al_created_at = 0\<rparr>]\<rparr>"

lemma capacity_demo_ok: "capacity_ok capacity_demo"
  by (simp add: capacity_ok_def capacity_demo_def empty_db_def alloc.balanced_def alloc.booked_def
      slot_ok_def allocation_ok_def numeric_def scaled_def)

lemma capacity_demo_arithmetic:
  "quantize ROUND_HALF_UP 2 60 = Inr 60" "quantize ROUND_HALF_UP 4 30 = Inr 30"
  "dmul 480 (4 / 5) = 384" "dadd 100 60 = 160"
  "to_column 12 2 60 = Inr 60" "to_column 14 4 30 = Inr 30" "to_column 12 2 160 = Inr 160"
  by code_simp+

lemma capacity_demo_allocate:
  "\<exists>a s'. allocate 1 9 60 30 (Some 2) None capacity_demo = Inr (a, s') \<and> al_standard_minutes a = 60"
  by (simp add: allocate_def capacity_demo_arithmetic capacity_demo_def empty_db_def demo_order_def
      insert_allocation_def update_slot_def draw_def insert_row_def charge_slot_def Let_def)

theorem allocate_preserves_witness:
  "\<exists>a s'. allocate 1 9 60 30 (Some 2) None capacity_demo = Inr (a, s') \<and> capacity_ok s'"
  using capacity_demo_allocate allocate_preserves [OF capacity_demo_ok] by blast

theorem release_allocations_total_witness:
  "\<exists>released s'. release_order_allocations demo_order capacity_demo = Inr (released, s') \<and>
     capacity_ok s' \<and> map al_status (t_allocations s') = [ALLOC_RELEASED]"
proof -
  obtain released s' where r: "release_order_allocations demo_order capacity_demo = Inr (released, s')"
    and ok: "capacity_ok s'"
    and t: "t_allocations s' =
             map (\<lambda>a. if al_order_id a = or_id demo_order \<and> al_status a = ALLOC_ACTIVE
                      then a\<lparr>al_status := ALLOC_RELEASED\<rparr> else a) (t_allocations capacity_demo)"
    using release_allocations_total [OF capacity_demo_ok, of demo_order] by blast
  have "map al_status (t_allocations s') = [ALLOC_RELEASED]"
    unfolding t by (simp add: capacity_demo_def empty_db_def demo_order_def)
  with r ok show ?thesis by (intro exI conjI)
qed

end
