(* ===== verification/LS_InventoryCalc.thy ===== *)
theory LS_InventoryCalc
  imports LS_Decimal LS_Vocab
begin

text \<open>
  The inventory formulas (\<open>app/domain/inventory/calc.py\<close>): availability, demand,
  shortage, projected balance, reorder point, coverage, unit conversion, coverable units and
  the material state of an order. Arithmetic is Decimal arithmetic: each operation rounds to
  the context. The lemmas show that on column values the roundings do not change a result.
\<close>

definition APPROVED_CONVERSIONS :: "((string \<times> string) \<times> decimal) list" where
  "APPROVED_CONVERSIONS =
     [((''m'', ''m''), 1), ((''kg'', ''kg''), 1), ((''pcs'', ''pcs''), 1),
      ((''cone'', ''cone''), 1), ((''cm'', ''m''), 1 / 100), ((''g'', ''kg''), 1 / 1000)]"

definition available_now :: "decimal \<Rightarrow> decimal \<Rightarrow> decimal" where
  "available_now accepted_on_hand active_reservations = dsub accepted_on_hand active_reservations"

definition gross_demand :: "decimal \<Rightarrow> decimal \<Rightarrow> decimal \<Rightarrow> decimal" where
  "gross_demand planned_units quantity_per_unit wastage_fraction =
     dmul (dmul planned_units quantity_per_unit) (dadd 1 wastage_fraction)"

definition shortage :: "decimal \<Rightarrow> decimal \<Rightarrow> decimal" where
  "shortage available demand = (let deficit = dsub demand available in if 0 < deficit then deficit else 0)"

definition projected_balance ::
  "decimal \<Rightarrow> (date \<times> decimal) list \<Rightarrow> (date \<times> decimal) list \<Rightarrow> date \<Rightarrow> decimal" where
  "projected_balance available receipts demand at_date =
     (let eligible_receipts = dsum (map snd (filter (\<lambda>(w, _). w \<le> at_date) receipts));
          eligible_demand = dsum (map snd (filter (\<lambda>(w, _). w \<le> at_date) demand))
      in dsub (dadd available eligible_receipts) eligible_demand)"

definition reorder_point :: "decimal \<Rightarrow> int \<Rightarrow> decimal \<Rightarrow> decimal" where
  "reorder_point expected_daily_consumption lead_time_days safety_stock =
     dadd (dmul expected_daily_consumption (of_int lead_time_days)) safety_stock"

definition coverage_days :: "decimal \<Rightarrow> decimal \<Rightarrow> decimal option" where
  "coverage_days available expected_daily_consumption =
     (if expected_daily_consumption \<le> 0 then None
      else Some (ddiv available expected_daily_consumption))"

definition average_daily_consumption ::
  "(date \<times> decimal) list \<Rightarrow> int \<Rightarrow> date \<Rightarrow> exn + decimal" where
  "average_daily_consumption issues window_days as_of =
     (let lower_bound_exclusive = as_of - window_days;
          total = dsum (map (\<lambda>(_, qty). ctx_round \<bar>qty\<bar>)
            (filter (\<lambda>(w, _). lower_bound_exclusive < w \<and> w \<le> as_of) issues))
      in ddiv_exn total (of_int window_days))"

definition convert_quantity ::
  "decimal \<Rightarrow> string \<Rightarrow> string \<Rightarrow> ((string \<times> string) \<times> decimal) list \<Rightarrow> exn + decimal" where
  "convert_quantity quantity from_unit to_unit rules =
     (case map_of rules (from_unit, to_unit) of
        None \<Rightarrow> Inl UnsupportedUnitConversion
      | Some factor \<Rightarrow> Inr (dmul quantity factor))"

definition coverable_units :: "decimal \<Rightarrow> decimal \<Rightarrow> decimal \<Rightarrow> exn + decimal" where
  "coverable_units available quantity_per_unit wastage_fraction =
     (if available \<le> 0 then Inr 0
      else let per_unit_with_wastage = dmul quantity_per_unit (dadd 1 wastage_fraction)
           in case ddiv_exn available per_unit_with_wastage of
                Inl e \<Rightarrow> Inl e
              | Inr q \<Rightarrow> Inr (of_int (to_integral ROUND_FLOOR q)))"

text \<open>The name \<open>material_state\<close> is the datatype's; this is the function of that name.\<close>

definition material_state_of :: "decimal \<Rightarrow> decimal \<Rightarrow> bool \<Rightarrow> material_state" where
  "material_state_of shortage_qty projected_shortage_at_due data_complete =
     (if \<not> data_complete then MS_UNKNOWN
      else if 0 < shortage_qty
           then if 0 < projected_shortage_at_due then MS_SHORTAGE else MS_AT_RISK
           else MS_READY)"

section \<open>Exactness on column values\<close>

lemma available_now_exact:
  "numeric p s a \<Longrightarrow> numeric p s r \<Longrightarrow> p \<le> 27 \<Longrightarrow> available_now a r = a - r"
  by (simp add: available_now_def numeric_dsub)

lemma one_plus_wastage_exact:
  assumes "scaled 4 w" and "0 \<le> w" and "w < 1"
  shows "dadd 1 w = 1 + w"
proof (rule dadd_exact [where s = 4])
  show "scaled 4 (1::rat)" using scaled_of_int [of 4 1] by simp
qed (use assms in simp_all)

lemma per_unit_exact:
  assumes q: "scaled 6 q" "0 \<le> q" "q < 10 ^ 8" and w: "scaled 4 w" "0 \<le> w" "w < 1"
  shows "dmul q (dadd 1 w) = q * (1 + w)"
proof -
  have "scaled (6 + 4) (q * (1 + w))"
    using q(1) w(1) scaled_of_int [of 4 1] by (intro scaled_mult scaled_add) simp_all
  moreover have "q * (1 + w) < 10 ^ 8 * 2"
    using q w by (intro mult_strict_mono) simp_all
  then have "\<bar>q * (1 + w)\<bar> * 10 ^ 10 < 10 ^ 28" using q w by simp
  ultimately show ?thesis
    unfolding one_plus_wastage_exact [OF w] dmul_def by (intro ctx_round_exact [where s = 10]) simp_all
qed

text \<open>
  C5. The coverable units are the units the material suffices for: on column values, the
  demand of the answer is at most what is available and that of one more unit exceeds it,
  although the quotient is computed in 28 digits.
\<close>

theorem coverable_units_maximal:
  assumes a: "numeric 14 4 a" "0 < a"
    and q: "numeric 14 6 q" "0 < q" and w: "scaled 4 w" "0 \<le> w" "w < 1"
  shows "\<exists>k::int. coverable_units a q w = Inr (of_int k) \<and> 0 \<le> k \<and>
           of_int k * (q * (1 + w)) \<le> a \<and> a < (of_int k + 1) * (q * (1 + w))"
proof -
  let ?p = "q * (1 + w)"
  have q': "scaled 6 q" "q < 10 ^ 8" using q numeric_abs [OF q(1)] by (simp_all add: numeric_scaled)
  have p: "dmul q (dadd 1 w) = ?p" and pos: "0 < ?p"
    using q q' w by (simp_all add: per_unit_exact)
  have "scaled (6 + 4) ?p"
    using q'(1) w(1) scaled_of_int [of 4 1] by (intro scaled_mult scaled_add) simp_all
  then obtain b where b: "?p * 10 ^ 10 = of_int b" by (auto elim: scaledE)
  obtain m where m: "a * 10 ^ 4 = of_int m" using numeric_scaled [OF a(1)] by (rule scaledE)
  have m14: "\<bar>of_int m :: rat\<bar> < 10 ^ 14" using numeric_abs [OF a(1)] m a(2) by simp
  have "0 < (of_int b :: rat)" unfolding b [symmetric] using pos by simp
  then have "1 \<le> b" by simp
  then have "1 \<le> ?p * 10 ^ 10" unfolding b by simp
  then have "a * 1 \<le> a * (?p * 10 ^ 10)" using a(2) by (intro mult_left_mono) simp_all
  then have "a / ?p \<le> a * 10 ^ 10" using pos by (simp add: pos_divide_le_eq mult_ac)
  also have "\<dots> < 10 ^ 28" using numeric_abs [OF a(1)] a(2) by simp
  finally have small: "\<bar>a / ?p\<bar> < 10 ^ 28" using a(2) pos by simp
  have fl: "\<lfloor>ddiv a ?p\<rfloor> = \<lfloor>a / ?p\<rfloor>"
    using m14 by (intro ddiv_floor_ceiling(1) [OF m _ b pos small]) (simp add: abs_mult)
  define k where "k = \<lfloor>a / ?p\<rfloor>"
  have "of_int k \<le> a / ?p" "a / ?p < of_int k + 1" unfolding k_def by linarith+
  then have "of_int k * ?p \<le> a" "a < (of_int k + 1) * ?p" using pos by (simp_all add: field_simps)
  moreover have "0 \<le> k" using a(2) pos by (simp add: k_def)
  moreover have "coverable_units a q w = Inr (of_int k)"
    using a(2) q(2) w(2) p fl by (simp add: coverable_units_def ddiv_exn_def k_def to_integral.simps Let_def)
  ultimately show ?thesis by blast
qed

theorem coverable_units_maximal_witness:
  "\<exists>k::int. coverable_units (3333333 / 10000) (3 / 2) (1 / 20) = Inr (of_int k) \<and> 0 \<le> k \<and>
     of_int k * (3 / 2 * (1 + 1 / 20)) \<le> (3333333 / 10000 :: rat) \<and>
     3333333 / 10000 < (of_int k + 1) * (3 / 2 * (1 + 1 / 20 :: rat))"
  by (rule coverable_units_maximal) (simp_all add: numeric_def scaled_def)

text \<open>
  C6. Rounding up to the pack size never falls short and never orders a pack too many: on
  column values the result is a whole number of packs that covers the quantity, and one
  pack less would not.
\<close>

theorem round_up_to_pack_covers:
  assumes a: "numeric 14 4 a" "0 \<le> a" and p: "numeric 14 4 p" "0 < p"
  shows "\<exists>k::int. round_up_to_pack a (Some p) = Inr (of_int k * p) \<and>
           a \<le> of_int k * p \<and> of_int k * p - p < a"
proof -
  obtain b where b: "p * 10 ^ 4 = of_int b" using numeric_scaled [OF p(1)] by (rule scaledE)
  obtain m where m: "a * 10 ^ 4 = of_int m" using numeric_scaled [OF a(1)] by (rule scaledE)
  have m14: "\<bar>of_int m :: rat\<bar> < 10 ^ 14" using numeric_abs [OF a(1)] m a(2) by simp
  have "0 < (of_int b :: rat)" unfolding b [symmetric] using p(2) by simp
  then have "1 \<le> b" by simp
  then have "1 \<le> p * 10 ^ 4" unfolding b by simp
  then have "a * 1 \<le> a * (p * 10 ^ 4)" using a(2) by (rule mult_left_mono)
  then have "a / p \<le> a * 10 ^ 4" using a(2) p(2) by (simp add: field_simps)
  also have "\<dots> < 10 ^ 28" using numeric_abs [OF a(1)] a(2) by simp
  finally have small: "\<bar>a / p\<bar> < 10 ^ 28" using a(2) p(2) by simp
  have ce: "\<lceil>ddiv a p\<rceil> = \<lceil>a / p\<rceil>"
    using m14 by (intro ddiv_floor_ceiling(2) [OF m _ b p(2) small]) (simp add: abs_mult)
  define k where "k = \<lceil>a / p\<rceil>"
  have "a / p \<le> of_int k" "of_int k < a / p + 1" unfolding k_def by linarith+
  then have le: "a \<le> of_int k * p" and lt: "of_int k * p - p < a"
    using p(2) by (simp_all add: field_simps)
  have "of_int k * p < a + p" using lt by simp
  also have "(a + p) * 10 ^ 4 < 10 ^ 14 + 10 ^ 14"
    using numeric_abs [OF a(1)] numeric_abs [OF p(1)] a(2) p(2) by (simp add: distrib_right)
  finally have "dmul (of_int k) p = of_int k * p"
    unfolding dmul_def using le a(2) scaled_mult [OF scaled_of_int [of 0 k] numeric_scaled [OF p(1)]]
    by (intro ctx_round_exact [where s = 4]) simp_all
  then show ?thesis using p(2) ce le lt
    by (intro exI [of _ k]) (simp add: round_up_to_pack_def Let_def to_integral.simps k_def)
qed

theorem round_up_to_pack_covers_witness:
  "\<exists>k::int. round_up_to_pack (1001 / 10) (Some 25) = Inr (of_int k * 25) \<and>
     (1001 / 10 :: rat) \<le> of_int k * 25 \<and> of_int k * 25 - 25 < (1001 / 10 :: rat)"
  by (rule round_up_to_pack_covers) (simp_all add: numeric_def scaled_def)

end
