(* ===== verification/LS_Readiness.thy ===== *)
theory LS_Readiness
  imports LS_Audit LS_InventoryCalc "HOL-Library.Product_Lexorder"
begin

text \<open>
  Material readiness of orders (\<open>app/domain/inventory/readiness.py\<close>): which orders a change
  of a material affects, locking them in ascending id order, and recomputing their
  \<open>material_state\<close> from the bill of materials, the stock balances, their own reservations and
  the expected receipts. The lemmas show what a recomputation may change and what the
  verdict READY means.
\<close>

definition MATERIAL_STATE_ORDER_LIMIT :: nat where
  "MATERIAL_STATE_ORDER_LIMIT = 500"

definition MATERIAL_STATE_ORDER_STATES :: "production_state list" where
  "MATERIAL_STATE_ORDER_STATES = [DRAFT, VALIDATED, PLANNED]"

fun severity :: "material_state \<Rightarrow> nat" where
  "severity MS_READY = 0"
| "severity MS_AT_RISK = 1"
| "severity MS_SHORTAGE = 2"
| "severity MS_UNKNOWN = 3"

definition orders_using_materials :: "uuid \<Rightarrow> uuid list \<Rightarrow> db \<Rightarrow> uuid list" where
  "orders_using_materials factory_id material_ids s =
     (if material_ids = [] then []
      else map or_id (take MATERIAL_STATE_ORDER_LIMIT
        (sort_key (\<lambda>r. (or_due_date r, or_id r))
          (filter (\<lambda>r. or_factory_id r = factory_id \<and>
             or_production_state r \<in> set MATERIAL_STATE_ORDER_STATES \<and>
             list_ex (\<lambda>b. bl_bom_version_id b = or_bom_version_id r \<and>
               bl_material_id b \<in> set material_ids) (t_bom_lines s)) (t_orders s)))))"

definition lock_orders :: "uuid list \<Rightarrow> db \<Rightarrow> order list \<times> db" where
  "lock_orders order_ids s =
     (let rows = rows_by_id or_id order_ids (t_orders s)
      in (rows, take_locks (map LockOrder (map or_id rows)) s))"

definition lock_orders_using_materials :: "uuid \<Rightarrow> uuid list \<Rightarrow> uuid list \<Rightarrow> db \<Rightarrow> uuid list \<times> db" where
  "lock_orders_using_materials factory_id material_ids extra_order_ids s =
     (let (rows, s) = lock_orders (orders_using_materials factory_id material_ids s @ extra_order_ids) s
      in (map or_id rows, s))"

text \<open>\<open>max(states, key=severity, default=UNKNOWN)\<close>: the first of the most severe.\<close>

fun max_severity :: "material_state \<Rightarrow> material_state list \<Rightarrow> material_state" where
  "max_severity best [] = best"
| "max_severity best (x # xs) = max_severity (if severity best < severity x then x else best) xs"

definition worst_material_state :: "material_state list \<Rightarrow> material_state" where
  "worst_material_state states = (case states of [] \<Rightarrow> MS_UNKNOWN | x # xs \<Rightarrow> max_severity x xs)"

definition own_reserved :: "uuid \<Rightarrow> uuid \<Rightarrow> db \<Rightarrow> decimal" where
  "own_reserved order_id material_id s =
     tsum (\<lambda>r. rv_order_id r = order_id \<and> rv_material_id r = material_id \<and> rv_status r = RES_ACTIVE)
       rv_quantity (t_reservations s)"

definition open_receipts :: "uuid \<Rightarrow> uuid \<Rightarrow> db \<Rightarrow> (date \<times> decimal) list" where
  "open_receipts factory_id material_id s =
     map (\<lambda>r. (er_expected_date r, er_quantity r))
       (filter (\<lambda>r. er_factory_id r = factory_id \<and> er_material_id r = material_id \<and>
          er_status r = ER_OPEN) (t_expected_receipts s))"

definition balance_of :: "uuid \<Rightarrow> uuid \<Rightarrow> db \<Rightarrow> material_balance option" where
  "balance_of factory_id material_id s =
     find (\<lambda>b. ba_factory_id b = factory_id \<and> ba_material_id b = material_id) (t_balances s)"

text \<open>What an order may use of a material, and what it still needs.\<close>

definition usable_for :: "order \<Rightarrow> material_balance \<Rightarrow> uuid \<Rightarrow> db \<Rightarrow> decimal" where
  "usable_for ord balance material_id s =
     dadd (available_now (ba_on_hand_accepted balance) (ba_reserved balance))
       (own_reserved (or_id ord) material_id s)"

definition remaining_units :: "order \<Rightarrow> decimal" where
  "remaining_units ord = of_int (max 0 (or_quantity ord - or_produced_units ord))"

definition line_state :: "uuid \<Rightarrow> date \<Rightarrow> order \<Rightarrow> bom_line \<Rightarrow> db \<Rightarrow> exn + material_state" where
  "line_state factory_id as_of ord line s =
     bind_err (some_or (KeyError ''material'') (row ma_id (bl_material_id line) (t_materials s))) (\<lambda>material.
     case convert_quantity (bl_quantity_per_unit line) (bl_unit line) (ma_unit material)
            APPROVED_CONVERSIONS of
       Inl _ \<Rightarrow> Inr MS_UNKNOWN
     | Inr per_unit \<Rightarrow>
       (case balance_of factory_id (bl_material_id line) s of
          None \<Rightarrow> Inr MS_UNKNOWN
        | Some balance \<Rightarrow>
          let demand = gross_demand (remaining_units ord) per_unit (bl_wastage_fraction line);
              usable = usable_for ord balance (bl_material_id line) s;
              projected = projected_balance usable (open_receipts factory_id (bl_material_id line) s)
                [(min as_of (or_due_date ord), demand)] (or_due_date ord)
          in Inr (material_state_of (shortage usable demand) (max 0 (ctx_round (- projected))) True)))"

fun line_states :: "uuid \<Rightarrow> date \<Rightarrow> order \<Rightarrow> bom_line list \<Rightarrow> db \<Rightarrow> exn + material_state list" where
  "line_states factory_id as_of ord [] s = Inr []"
| "line_states factory_id as_of ord (l # ls) s =
     bind_err (line_state factory_id as_of ord l s) (\<lambda>x.
     bind_err (line_states factory_id as_of ord ls s) (\<lambda>xs. Inr (x # xs)))"

definition order_state :: "uuid \<Rightarrow> date \<Rightarrow> order \<Rightarrow> db \<Rightarrow> exn + material_state" where
  "order_state factory_id as_of ord s =
     bind_err (line_states factory_id as_of ord
       (filter (\<lambda>l. bl_bom_version_id l = or_bom_version_id ord) (t_bom_lines s)) s) (\<lambda>states.
     Inr (worst_material_state states))"

fun order_states :: "uuid \<Rightarrow> date \<Rightarrow> order list \<Rightarrow> db \<Rightarrow> exn + (order \<times> material_state) list" where
  "order_states factory_id as_of [] s = Inr []"
| "order_states factory_id as_of (r # rs) s =
     bind_err (order_state factory_id as_of r s) (\<lambda>x.
     bind_err (order_states factory_id as_of rs s) (\<lambda>xs. Inr ((r, x) # xs)))"

text \<open>The changed rows, flushed: a new state and a new version.\<close>

fun store_states :: "(order \<times> material_state) list \<Rightarrow> db \<Rightarrow> exn + db" where
  "store_states [] s = Inr s"
| "store_states ((r, state) # rest) s =
     bind_err (if or_material_state r \<noteq> state
               then update_order (r\<lparr>or_material_state := state, or_version := or_version r + 1\<rparr>) s
               else Inr s) (store_states rest)"

definition recompute_material_states ::
  "uuid \<Rightarrow> uuid list \<Rightarrow> uuid list option \<Rightarrow> db \<Rightarrow> exn + ((uuid \<times> material_state) list \<times> db)" where
  "recompute_material_states factory_id material_ids order_ids s =
     (case row fa_id factory_id (t_factories s) of
        None \<Rightarrow> Inr ([], s)
      | Some factory \<Rightarrow>
        (let candidate_ids = (case order_ids of
               None \<Rightarrow> orders_using_materials factory_id material_ids s | Some ids \<Rightarrow> ids);
             (rows, s) = lock_orders candidate_ids s;
             orders = filter (\<lambda>r. or_factory_id r = factory_id \<and>
               or_production_state r \<in> set MATERIAL_STATE_ORDER_STATES) rows
         in if orders = [] then Inr ([], s)
            else let as_of = today_in s (fa_timezone factory)
                 in bind_err (order_states factory_id as_of orders s) (\<lambda>states.
                    bind_err (store_states states s) (\<lambda>s.
                    Inr (map (\<lambda>(r, x). (or_id r, x)) states, s)))))"

section \<open>What a recomputation may change\<close>

text \<open>Two orders that differ at most in the material state, the version and the time stamp.\<close>

definition same_order :: "order \<Rightarrow> order \<Rightarrow> bool" where
  "same_order r r' \<longleftrightarrow>
     r' = r\<lparr>or_material_state := or_material_state r', or_version := or_version r',
            or_updated_at := or_updated_at r'\<rparr> \<and>
     or_version r \<le> or_version r' \<and>
     (or_material_state r \<noteq> or_material_state r' \<longrightarrow> or_version r < or_version r')"

lemma same_order_refl [simp]: "same_order r r"
  by (simp add: same_order_def)

lemma same_order_trans: "same_order a b \<Longrightarrow> same_order b c \<Longrightarrow> same_order a c"
  unfolding same_order_def by (cases a; cases b; cases c) auto

text \<open>The frame: orders keep all but these columns, and only the order locks can grow.\<close>

definition states_refreshed :: "db \<Rightarrow> db \<Rightarrow> bool" where
  "states_refreshed s s' \<longleftrightarrow>
     (\<exists>rows ls. s' = s\<lparr>t_orders := rows, locks := ls\<rparr> \<and> list_all2 same_order (t_orders s) rows)"

lemma states_refreshedI:
  "list_all2 same_order (t_orders s) rows \<Longrightarrow> states_refreshed s (s\<lparr>t_orders := rows, locks := ls\<rparr>)"
  "list_all2 same_order (t_orders s) rows \<Longrightarrow> states_refreshed s (s\<lparr>t_orders := rows\<rparr>)"
  "states_refreshed s (s\<lparr>locks := ls\<rparr>)"
proof -
  show *: "list_all2 same_order (t_orders s) rows \<Longrightarrow> states_refreshed s (s\<lparr>t_orders := rows, locks := ls\<rparr>)"
    for rows ls unfolding states_refreshed_def by blast
  show "list_all2 same_order (t_orders s) rows \<Longrightarrow> states_refreshed s (s\<lparr>t_orders := rows\<rparr>)"
    using * [of rows "locks s"] by (cases s) simp
  show "states_refreshed s (s\<lparr>locks := ls\<rparr>)"
    using * [of "t_orders s" ls] by (cases s) (simp add: list_all2_refl)
qed

lemma states_refreshed_refl [simp]: "states_refreshed s s"
  using states_refreshedI(3) [of s "locks s"] by (cases s) simp

lemma states_refreshed_trans:
  assumes "states_refreshed s t" and "states_refreshed t u"
  shows "states_refreshed s u"
proof -
  from assms obtain r1 l1 r2 l2 where
    "t = s\<lparr>t_orders := r1, locks := l1\<rparr>" "list_all2 same_order (t_orders s) r1"
    "u = t\<lparr>t_orders := r2, locks := l2\<rparr>" "list_all2 same_order (t_orders t) r2"
    unfolding states_refreshed_def by blast
  then have "u = s\<lparr>t_orders := r2, locks := l2\<rparr>" "list_all2 same_order (t_orders s) r2"
    using list_all2_trans [OF same_order_trans] by (auto intro: list_all2_trans [OF same_order_trans])
  then show ?thesis using states_refreshedI(1) by simp
qed

lemma states_refreshed_locks [simp]: "states_refreshed s (take_locks ls s)"
  unfolding take_locks_def by (rule states_refreshedI(3))

lemma states_refreshed_frame:
  assumes "states_refreshed s s'"
  shows "t_factories s' = t_factories s" "t_materials s' = t_materials s" "t_lots s' = t_lots s"
    "t_movements s' = t_movements s" "t_balances s' = t_balances s"
    "t_reservations s' = t_reservations s" "t_slots s' = t_slots s"
    "t_allocations s' = t_allocations s" "t_bom_lines s' = t_bom_lines s"
    "t_expected_receipts s' = t_expected_receipts s" "t_audits s' = t_audits s"
    "t_recommendations s' = t_recommendations s" "t_jobs s' = t_jobs s"
    "utcnow s' = utcnow s" "today_in s' = today_in s" "uuid4 s' = uuid4 s" "drawn s' = drawn s"
  using assms by (auto simp: states_refreshed_def)

lemma lock_orders_refreshed: "states_refreshed s (snd (lock_orders ids s))"
  by (simp add: lock_orders_def Let_def)

lemma update_order_refreshed:
  assumes up: "update_order (r\<lparr>or_material_state := x, or_version := or_version r + 1\<rparr>) s = Inr s'"
    and r: "r \<in> set (t_orders s)" and d: "distinct (map or_id (t_orders s))"
  shows "states_refreshed s s'"
proof -
  let ?r' = "r\<lparr>or_material_state := x, or_version := or_version r + 1, or_updated_at := utcnow s\<rparr>"
  have s': "s' = s\<lparr>t_orders := upd or_id ?r' (t_orders s)\<rparr>"
    using up by (auto simp: update_order_def bind_err_Inr)
  have "list_all2 same_order (t_orders s) (upd or_id ?r' (t_orders s))"
    unfolding upd_def list.rel_map
  proof (rule list.rel_refl_strong)
    fix y
    assume "y \<in> set (t_orders s)"
    then have "or_id y = or_id r \<Longrightarrow> y = r" using r d by (metis distinct_map inj_onD)
    then show "same_order y (if or_id y = or_id ?r' then ?r' else y)"
      by (auto simp: same_order_def)
  qed
  then show ?thesis unfolding s' by (rule states_refreshedI(2))
qed

lemma order_states_rows: "order_states f d rs s = Inr xs \<Longrightarrow> map fst xs = rs"
  by (induction rs arbitrary: xs) (auto simp: bind_err_Inr)

lemma order_states_member:
  "order_states f d rs s = Inr xs \<Longrightarrow> (r, x) \<in> set xs \<Longrightarrow> order_state f d r s = Inr x"
  by (induction rs arbitrary: xs) (auto simp: bind_err_Inr)

lemma store_states_refreshed:
  assumes "store_states xs s = Inr s'" and "\<And>r x. (r, x) \<in> set xs \<Longrightarrow> r \<in> set (t_orders s)"
    and "distinct (map (or_id \<circ> fst) xs)" and "distinct (map or_id (t_orders s))"
  shows "states_refreshed s s'"
  using assms
proof (induction xs s rule: store_states.induct)
  case (2 r x rest s)
  let ?r' = "r\<lparr>or_material_state := x, or_version := or_version r + 1\<rparr>"
  from 2(2) obtain t where t: "store_states rest t = Inr s'"
    "(if or_material_state r \<noteq> x then update_order ?r' s else Inr s) = Inr t"
    by (auto simp: bind_err_Inr)
  have r: "r \<in> set (t_orders s)" using 2(3) [of r x] by simp
  show ?case
  proof (cases "or_material_state r \<noteq> x")
    case False
    then have "t = s" using t(2) by simp
    then show ?thesis using 2(1) [of s] 2(3-5) t False by force
  next
    case True
    then have up: "update_order ?r' s = Inr t" using t(2) by simp
    have rows: "t_orders t = upd or_id (?r'\<lparr>or_updated_at := utcnow s\<rparr>) (t_orders s)"
      using up by (auto simp: update_order_def bind_err_Inr)
    have "states_refreshed s t" using update_order_refreshed [OF up r 2(5)] .
    moreover have "states_refreshed t s'"
    proof (rule 2(1) [OF t(2) t(1)])
      show "distinct (map (or_id \<circ> fst) rest)" using 2(4) by (simp add: comp_def)
      show "distinct (map or_id (t_orders t))" using 2(5) by (simp add: rows)
      fix r1 x1
      assume m: "(r1, x1) \<in> set rest"
      then have "or_id r1 \<noteq> or_id r" using 2(4) by force
      then show "r1 \<in> set (t_orders t)" using 2(3) [of r1 x1] m by (auto simp: rows upd_def image_iff)
    qed
    ultimately show ?thesis by (rule states_refreshed_trans)
  qed
qed simp

lemma lock_orders_rows:
  "distinct (map or_id (t_orders s)) \<Longrightarrow> r \<in> set (fst (lock_orders ids s)) \<Longrightarrow> r \<in> set (t_orders s)"
  "distinct (map or_id (fst (lock_orders ids s)))"
  by (simp_all add: lock_orders_def Let_def set_rows_by_id distinct_rows_by_id)

lemma lock_orders_frame [simp]:
  "t_orders (snd (lock_orders ids s)) = t_orders s" "t_bom_lines (snd (lock_orders ids s)) = t_bom_lines s"
  by (simp_all add: lock_orders_def Let_def take_locks_def)

text \<open>The run of a recomputation that had orders to look at.\<close>

lemma recomputeD:
  assumes "recompute_material_states f ms ids s = Inr (res, s')"
  shows "(res = [] \<and> (s' = s \<or> (\<exists>cs. s' = snd (lock_orders cs s)))) \<or>
     (\<exists>factory cs xs t. row fa_id f (t_factories s) = Some factory \<and> t = snd (lock_orders cs s) \<and>
        cs = (case ids of None \<Rightarrow> orders_using_materials f ms s | Some is \<Rightarrow> is) \<and>
        order_states f (today_in s (fa_timezone factory))
          (filter (\<lambda>r. or_factory_id r = f \<and> or_production_state r \<in> set MATERIAL_STATE_ORDER_STATES)
             (fst (lock_orders cs s))) t = Inr xs \<and>
        store_states xs t = Inr s' \<and> res = map (\<lambda>(r, x). (or_id r, x)) xs)"
proof (cases "row fa_id f (t_factories s)")
  case (Some factory)
  let ?cs = "case ids of None \<Rightarrow> orders_using_materials f ms s | Some is \<Rightarrow> is"
  have today: "today_in (snd (lock_orders ?cs s)) = today_in s"
    by (simp add: states_refreshed_frame [OF lock_orders_refreshed])
  show ?thesis
    using assms Some
    by (auto simp: recompute_material_states_def Let_def case_prod_beta bind_err_Inr today
        split: if_splits)
next
  case None
  then show ?thesis using assms by (simp add: recompute_material_states_def)
qed

lemma recompute_refreshed:
  assumes "recompute_material_states f ms ids s = Inr (res, s')"
    and d: "distinct (map or_id (t_orders s))"
  shows "states_refreshed s s'"
  using recomputeD [OF assms(1)]
proof (elim disjE conjE exE)
  assume "s' = s"
  then show ?thesis by simp
next
  fix cs
  assume "s' = snd (lock_orders cs s)"
  then show ?thesis by (simp add: lock_orders_refreshed)
next
  fix factory cs xs t
  assume t: "t = snd (lock_orders cs s)" and st: "store_states xs t = Inr s'"
    and xs: "order_states f (today_in s (fa_timezone factory))
          (filter (\<lambda>r. or_factory_id r = f \<and> or_production_state r \<in> set MATERIAL_STATE_ORDER_STATES)
             (fst (lock_orders cs s))) t = Inr xs"
  note fst_xs = order_states_rows [OF xs]
  have mem: "r \<in> set (t_orders t)" if "(r, x) \<in> set xs" for r x
  proof -
    have "r \<in> set (map fst xs)" using that by force
    then show ?thesis using lock_orders_rows(1) [OF d, of r cs] by (simp add: fst_xs t)
  qed
  have "distinct (map or_id (map fst xs))"
    unfolding fst_xs using lock_orders_rows(2) by (intro distinct_map_filter)
  then have "states_refreshed t s'" using store_states_refreshed [OF st mem] d by (simp add: t)
  then show ?thesis using lock_orders_refreshed states_refreshed_trans by (metis t)
qed

section \<open>What READY means\<close>

lemma severity_zero: "severity x = 0 \<longleftrightarrow> x = MS_READY"
  by (cases x) simp_all

lemma max_severity_start: "severity b \<le> severity (max_severity b xs)"
proof (induction xs arbitrary: b)
  case (Cons x xs)
  have "severity b \<le> severity (if severity b < severity x then x else b)" by simp
  also have "\<dots> \<le> severity (max_severity (if severity b < severity x then x else b) xs)"
    by (rule Cons.IH)
  finally show ?case by simp
qed simp

lemma max_severity_bound: "y = b \<or> y \<in> set xs \<Longrightarrow> severity y \<le> severity (max_severity b xs)"
proof (induction xs arbitrary: b)
  case (Cons x xs)
  let ?b = "if severity b < severity x then x else b"
  have "severity x \<le> severity ?b" by simp
  then have x: "severity x \<le> severity (max_severity ?b xs)"
    using max_severity_start order_trans by blast
  show ?case
    using Cons.prems x Cons.IH [of ?b] max_severity_start [of b "x # xs"] by auto
qed simp

lemma worst_ready:
  assumes "worst_material_state xs = MS_READY"
  shows "xs \<noteq> []" and "x \<in> set xs \<Longrightarrow> x = MS_READY"
proof -
  show ne: "xs \<noteq> []" using assms by (auto simp: worst_material_state_def)
  assume "x \<in> set xs"
  then have "severity x \<le> severity (worst_material_state xs)"
    using max_severity_bound ne by (cases xs) (auto simp: worst_material_state_def)
  then show "x = MS_READY" using assms severity_zero by simp
qed

lemma line_states_all:
  "line_states f d ord ls s = Inr xs \<Longrightarrow>
   length xs = length ls \<and> (\<forall>l \<in> set ls. \<exists>x \<in> set xs. line_state f d ord l s = Inr x)"
  by (induction ls arbitrary: xs) (auto simp: bind_err_Inr)

text \<open>What it takes for one line of the bill of materials to be covered.\<close>

definition line_covered :: "uuid \<Rightarrow> order \<Rightarrow> bom_line \<Rightarrow> db \<Rightarrow> bool" where
  "line_covered f ord l s \<longleftrightarrow>
     (\<exists>material per_unit balance.
        row ma_id (bl_material_id l) (t_materials s) = Some material \<and>
        convert_quantity (bl_quantity_per_unit l) (bl_unit l) (ma_unit material) APPROVED_CONVERSIONS
          = Inr per_unit \<and>
        balance_of f (bl_material_id l) s = Some balance \<and>
        gross_demand (remaining_units ord) per_unit (bl_wastage_fraction l)
          \<le> usable_for ord balance (bl_material_id l) s)"

lemma shortage_zero: "\<not> 0 < shortage available demand \<Longrightarrow> demand \<le> available"
proof (rule ccontr)
  assume none: "\<not> 0 < shortage available demand" and "\<not> demand \<le> available"
  then have "0 < dsub demand available" unfolding dsub_def by (intro ctx_round_pos) simp
  with none show False by (simp add: shortage_def Let_def)
qed

lemma line_state_ready:
  assumes "line_state f d ord l s = Inr MS_READY"
  shows "line_covered f ord l s"
proof -
  from assms obtain material where m: "row ma_id (bl_material_id l) (t_materials s) = Some material"
    by (auto simp: line_state_def bind_err_Inr)
  with assms obtain per_unit where
    p: "convert_quantity (bl_quantity_per_unit l) (bl_unit l) (ma_unit material) APPROVED_CONVERSIONS
          = Inr per_unit"
    by (auto simp: line_state_def split: sum.splits)
  with assms m obtain balance where b: "balance_of f (bl_material_id l) s = Some balance"
    by (auto simp: line_state_def split: option.splits)
  have "\<not> 0 < shortage (usable_for ord balance (bl_material_id l) s)
            (gross_demand (remaining_units ord) per_unit (bl_wastage_fraction l))"
    using assms by (auto simp: line_state_def m p b Let_def material_state_of_def split: if_splits)
  from shortage_zero [OF this] m p b show ?thesis unfolding line_covered_def by blast
qed

lemma line_covered_frame:
  "states_refreshed s s' \<Longrightarrow> line_covered f ord l s' = line_covered f ord l s"
  by (simp add: line_covered_def balance_of_def usable_for_def own_reserved_def states_refreshed_frame)

text \<open>
  C13. The verdict READY can be trusted: an order that a recomputation finds READY has a
  bill of materials, and for every line of it the unit conversion is approved and the
  available stock plus the order's own reservations covers the gross demand of the units
  still to produce.
\<close>

theorem ready_means_covered:
  assumes re: "recompute_material_states f ms ids s = Inr (res, s')"
    and ready: "(i, MS_READY) \<in> set res" and d: "distinct (map or_id (t_orders s))"
  shows "\<exists>ord. row or_id i (t_orders s) = Some ord \<and>
           (\<exists>l \<in> set (t_bom_lines s). bl_bom_version_id l = or_bom_version_id ord) \<and>
           (\<forall>l \<in> set (t_bom_lines s). bl_bom_version_id l = or_bom_version_id ord \<longrightarrow>
              line_covered f ord l s)"
proof -
  from recomputeD [OF re] ready obtain cs xs t day r where
    t: "t = snd (lock_orders cs s)"
    and xs: "order_states f day
        (filter (\<lambda>r. or_factory_id r = f \<and> or_production_state r \<in> set MATERIAL_STATE_ORDER_STATES)
           (fst (lock_orders cs s))) t = Inr xs"
    and r: "(r, MS_READY) \<in> set xs" "or_id r = i"
    by fastforce
  have "r \<in> set (map fst xs)" using r(1) by force
  then have "r \<in> set (t_orders s)"
    using lock_orders_rows(1) [OF d, of r cs] unfolding order_states_rows [OF xs] by simp
  then have row: "row or_id i (t_orders s) = Some r" using row_distinct [OF d] r(2) by blast
  from order_states_member [OF xs r(1)] obtain states where
    st: "line_states f day r (filter (\<lambda>l. bl_bom_version_id l = or_bom_version_id r) (t_bom_lines s)) t
           = Inr states" "worst_material_state states = MS_READY"
    by (auto simp: order_state_def bind_err_Inr t)
  note all = line_states_all [OF st(1)]
  have ref: "states_refreshed s t" by (simp add: t lock_orders_refreshed)
  have "filter (\<lambda>l. bl_bom_version_id l = or_bom_version_id r) (t_bom_lines s) \<noteq> []"
    using all worst_ready(1) [OF st(2)] by auto
  then have "\<exists>l \<in> set (t_bom_lines s). bl_bom_version_id l = or_bom_version_id r"
    by (auto simp: filter_empty_conv)
  moreover have "line_covered f r l s"
    if "l \<in> set (t_bom_lines s)" "bl_bom_version_id l = or_bom_version_id r" for l
  proof -
    have "l \<in> set (filter (\<lambda>l. bl_bom_version_id l = or_bom_version_id r) (t_bom_lines s))"
      using that by simp
    with all obtain x where x: "x \<in> set states" "line_state f day r l t = Inr x" by blast
    then have "line_state f day r l t = Inr MS_READY" using worst_ready(2) [OF st(2)] by auto
    then show ?thesis using line_state_ready line_covered_frame [OF ref] by blast
  qed
  ultimately show ?thesis using row by blast
qed

section \<open>Held locks are not taken again\<close>

lemma update_order_locks: "update_order r s = Inr s' \<Longrightarrow> locks s' = locks s"
  by (auto simp: update_order_def bind_err_Inr)

lemma store_states_locks: "store_states xs s = Inr s' \<Longrightarrow> locks s' = locks s"
  by (induction xs s rule: store_states.induct)
    (auto simp: bind_err_Inr update_order_locks split: if_splits)

lemma lock_orders_held:
  "(\<And>i. i \<in> set ids \<Longrightarrow> LockOrder i \<in> set (locks s)) \<Longrightarrow> snd (lock_orders ids s) = s"
  unfolding lock_orders_def Let_def snd_conv
proof (rule take_held, rule subsetI)
  assume held: "\<And>i. i \<in> set ids \<Longrightarrow> LockOrder i \<in> set (locks s)"
  fix l
  assume "l \<in> set (map LockOrder (map or_id (rows_by_id or_id ids (t_orders s))))"
  then obtain i where "l = LockOrder i" "i \<in> set ids" by (auto simp: keys_rows_by_id)
  then show "l \<in> set (locks s)" using held by simp
qed

lemma recompute_locks_held:
  assumes "recompute_material_states f ms (Some ids) s = Inr (res, s')"
    and held: "\<And>i. i \<in> set ids \<Longrightarrow> LockOrder i \<in> set (locks s)"
  shows "locks s' = locks s"
proof -
  have "s' = s \<or> s' = snd (lock_orders ids s) \<or> (\<exists>xs. store_states xs (snd (lock_orders ids s)) = Inr s')"
    using assms(1)
    by (auto simp: recompute_material_states_def Let_def case_prod_beta bind_err_Inr
        split: option.splits if_splits)
  then show ?thesis using lock_orders_held [OF held] store_states_locks by auto
qed

section \<open>An order with one line\<close>

definition readiness_demo :: db where
  "readiness_demo =
     empty_db\<lparr>t_factories := [\<lparr>fa_id = 7, fa_organization_id = 1, fa_code = ''DHK'', fa_name = ''DHK'',
         fa_timezone = ''UTC''\<rparr>],
       t_orders := [demo_order],
       t_materials := [\<lparr>ma_id = 3, ma_organization_id = 1, ma_code = ''FAB'', ma_name = ''Fabric'', ma_unit = ''m'',
         ma_safety_stock = 0, ma_lead_time_days = 7, ma_pack_size = None\<rparr>],
       t_balances := [\<lparr>ba_id = 4, ba_organization_id = 1, ba_factory_id = 7, ba_material_id = 3,
         ba_on_hand_accepted = 500, ba_reserved = 0, ba_version = 1\<rparr>],
       t_bom_lines := [\<lparr>bl_id = 2, bl_bom_version_id = 1, bl_material_id = 3,
         bl_quantity_per_unit = 2, bl_unit = ''m'', bl_wastage_fraction = 1 / 20\<rparr>]\<rparr>"

lemma readiness_demo_arithmetic:
  "dmul 2 1 = 2" "dmul 100 2 = 200" "dadd 1 (1 / 20) = 21 / 20" "dmul 200 (21 / 20) = 210"
  "dsub 500 0 = 500" "dadd 500 0 = 500" "dsub 210 500 = -290" "dadd 0 210 = 210"
  "dsub 500 210 = 290" "ctx_round (- 290) = - 290"
  by code_simp+

lemma readiness_demo_run:
  "\<exists>s'. recompute_material_states 7 [3] None readiness_demo = Inr ([(9, MS_READY)], s')"
  by (simp add: recompute_material_states_def readiness_demo_def empty_db_def demo_order_def
      orders_using_materials_def MATERIAL_STATE_ORDER_STATES_def MATERIAL_STATE_ORDER_LIMIT_def
      lock_orders_def rows_by_id_def sorted_set_def List.map_filter_simps take_locks_def Let_def
      order_state_def line_state_def convert_quantity_def APPROVED_CONVERSIONS_def balance_of_def
      gross_demand_def remaining_units_def usable_for_def available_now_def own_reserved_def
      open_receipts_def projected_balance_def dsum_def shortage_def material_state_of_def
      worst_material_state_def update_order_def order_checks_def readiness_demo_arithmetic)

theorem ready_means_covered_witness:
  "\<exists>s'. recompute_material_states 7 [3] None readiness_demo = Inr ([(9, MS_READY)], s') \<and>
     (\<exists>ord l. row or_id 9 (t_orders readiness_demo) = Some ord \<and> l \<in> set (t_bom_lines readiness_demo) \<and>
        line_covered 7 ord l readiness_demo)"
proof -
  obtain s' where s': "recompute_material_states 7 [3] None readiness_demo = Inr ([(9, MS_READY)], s')"
    using readiness_demo_run by blast
  have "distinct (map or_id (t_orders readiness_demo))"
    by (simp add: readiness_demo_def empty_db_def)
  from ready_means_covered [OF s' _ this, of 9] s' show ?thesis by auto
qed

end
