(* ===== verification/LS_Inventory.thy ===== *)
theory LS_Inventory
  imports LS_Readiness LS_Booking
begin

text \<open>
  The inventory service (\<open>app/domain/inventory/service.py\<close>): the ledger commands (receipt, lot
  acceptance, issue, correction) and the reservations, each under the locks the source takes.
  The lemmas of this theory and of \<open>LS_Stock\<close> show the three invariants the module promises:
  the accepted stock is the sum of the movements on accepted lots, the reserved stock is the
  sum of the active reservations, and nothing is reserved that is not there.
\<close>

definition RESERVABLE_ORDER_STATES :: "production_state list" where
  "RESERVABLE_ORDER_STATES = MATERIAL_STATE_ORDER_STATES @ [IN_PRODUCTION]"

definition positive_quantity :: "decimal \<Rightarrow> string \<Rightarrow> exn + decimal" where
  "positive_quantity x field =
     bind_err (quantize ROUND_HALF_UP 4 x) (\<lambda>rounded.
     bind_err (ensure (\<not> rounded \<le> 0)
       (AppError 422 VALIDATION_ERROR ''Quantity must be greater than zero.'' [field])) (\<lambda>_.
     Inr rounded))"

definition invalid :: "string \<Rightarrow> string \<Rightarrow> exn" where
  "invalid field msg = AppError 422 VALIDATION_ERROR msg [field]"

definition conflict :: "string \<Rightarrow> exn" where
  "conflict msg = AppError 409 CONFLICT msg []"

definition balance_snapshot :: "material_balance \<Rightarrow> (jtext \<times> json) list" where
  "balance_snapshot b =
     [(Lit ''material_id'', JText (Id (ba_material_id b))),
      (Lit ''on_hand_accepted'', JText (Dec (ba_on_hand_accepted b))),
      (Lit ''reserved'', JText (Dec (ba_reserved b))),
      (Lit ''version'', JInt (ba_version b))]"

definition inventory_audit ::
  "uuid \<Rightarrow> uuid \<Rightarrow> uuid option \<Rightarrow> string \<Rightarrow> string \<Rightarrow> uuid \<Rightarrow> string option \<Rightarrow>
   json option \<Rightarrow> json option \<Rightarrow> db \<Rightarrow> db" where
  "inventory_audit organization_id factory_id actor_user_id action target_type target_id reason
     before after s =
     record_audit organization_id (Some factory_id) (fst (actor_of actor_user_id))
       (snd (actor_of actor_user_id)) action target_type (Id target_id) SUCCESS reason None None
       before after s"

definition org_material :: "uuid \<Rightarrow> uuid \<Rightarrow> db \<Rightarrow> exn + material" where
  "org_material organization_id material_id s =
     (case row ma_id material_id (t_materials s) of
        None \<Rightarrow> Inl (invalid ''material_id'' ''Unknown material.'')
      | Some material \<Rightarrow>
          if ma_organization_id material \<noteq> organization_id
          then Inl (invalid ''material_id'' ''Unknown material.'') else Inr material)"

definition lot_net :: "uuid \<Rightarrow> db \<Rightarrow> decimal" where
  "lot_net lot_id s = tsum (\<lambda>x. mv_lot_id x = Some lot_id) mv_quantity (t_movements s)"

definition lock_lot :: "uuid \<Rightarrow> db \<Rightarrow> exn + (material_lot \<times> db)" where
  "lock_lot lot_id s =
     bind_err (some_or NoResultFound (row lo_id lot_id (t_lots s))) (\<lambda>lot.
     Inr (lot, take_locks [LockLot lot_id] s))"

fun lot_status_value :: "material_lot_status \<Rightarrow> string" where
  "lot_status_value LOT_QUARANTINE = ''QUARANTINE''"
| "lot_status_value LOT_ACCEPTED = ''ACCEPTED''"
| "lot_status_value LOT_REJECTED = ''REJECTED''"

section \<open>Locking balances\<close>

definition ensure_balance :: "uuid \<Rightarrow> uuid \<Rightarrow> uuid \<Rightarrow> db \<Rightarrow> exn + (uuid \<times> db)" where
  "ensure_balance organization_id factory_id material_id s =
     (let (i, s) = draw s
      in case balance_of factory_id material_id s of
           Some b \<Rightarrow> Inr (ba_id b, s)
         | None \<Rightarrow>
           bind_err (ensure (row ma_id material_id (t_materials s) \<noteq> None \<and>
               (case row fa_id factory_id (t_factories s) of
                  None \<Rightarrow> False | Some f \<Rightarrow> fa_organization_id f = organization_id))
             (IntegrityError ''foreign key'')) (\<lambda>_.
           bind_err (insert_row ba_id
             \<lparr>ba_id = i, ba_organization_id = organization_id, ba_factory_id = factory_id,
              ba_material_id = material_id, ba_on_hand_accepted = 0, ba_reserved = 0,
              ba_version = 1\<rparr> (t_balances s)) (\<lambda>rows.
           Inr (i, s\<lparr>t_balances := rows\<rparr>))))"

definition lock_balances :: "uuid list \<Rightarrow> db \<Rightarrow> material_balance list \<times> db" where
  "lock_balances balance_ids s =
     (let rows = rows_by_id ba_id balance_ids (t_balances s)
      in (rows, take_locks (map LockBalance (map ba_id rows)) s))"

definition lock_balance_for ::
  "uuid \<Rightarrow> uuid \<Rightarrow> uuid \<Rightarrow> db \<Rightarrow> exn + (material_balance \<times> db)" where
  "lock_balance_for organization_id factory_id material_id s =
     bind_err (ensure_balance organization_id factory_id material_id s) (\<lambda>(balance_id, s).
     let (rows, s) = lock_balances [balance_id] s
     in bind_err (some_or (KeyError ''balance_id'') (row ba_id balance_id rows)) (\<lambda>balance.
        Inr (balance, s)))"

text \<open>\<open>get_balance\<close> is \<open>balance_of\<close>; \<open>_bump\<close> with a change of the reserved quantity:\<close>

definition charge_balance :: "decimal \<Rightarrow> material_balance \<Rightarrow> material_balance" where
  "charge_balance d b = b\<lparr>ba_reserved := dadd (ba_reserved b) d, ba_version := ba_version b + 1\<rparr>"

text \<open>The end of a storekeeper command: the readiness of the orders locked at its start.\<close>

definition refresh_locked ::
  "uuid \<Rightarrow> uuid \<Rightarrow> uuid list \<Rightarrow> 'a \<Rightarrow> db \<Rightarrow> exn + ('a \<times> db)" where
  "refresh_locked factory_id material_id locked_orders result s =
     bind_err (recompute_material_states factory_id [material_id] (Some locked_orders) s) (\<lambda>(_, s).
     Inr (result, s))"

section \<open>Ledger commands\<close>

text \<open>The lot of a receipt: inserted unless the factory has a lot of that code.\<close>

definition lot_by_code :: "uuid \<Rightarrow> string \<Rightarrow> db \<Rightarrow> material_lot option" where
  "lot_by_code factory_id lot_code s =
     find (\<lambda>l. lo_factory_id l = factory_id \<and> lo_lot_code l = lot_code) (t_lots s)"

definition ensure_lot ::
  "factory \<Rightarrow> material \<Rightarrow> string \<Rightarrow> bool \<Rightarrow> db \<Rightarrow> exn + (uuid \<times> db)" where
  "ensure_lot factory material lot_code accept s =
     (let (i, s) = draw s
      in case lot_by_code (fa_id factory) lot_code s of
           Some l \<Rightarrow> Inr (lo_id l, s)
         | None \<Rightarrow>
           bind_err (insert_row lo_id
             \<lparr>lo_id = i, lo_organization_id = fa_organization_id factory,
              lo_factory_id = fa_id factory, lo_material_id = ma_id material,
              lo_lot_code = lot_code,
              lo_status = (if accept then LOT_ACCEPTED else LOT_QUARANTINE),
              lo_received_at = utcnow s\<rparr> (t_lots s)) (\<lambda>rows.
           Inr (i, s\<lparr>t_lots := rows\<rparr>)))"

definition receipt_movement :: "factory \<Rightarrow> material \<Rightarrow> material_lot \<Rightarrow> decimal \<Rightarrow> principal \<Rightarrow> stock_movement" where
  "receipt_movement factory material lot quantity p =
     \<lparr>mv_id = 0, mv_organization_id = fa_organization_id factory, mv_factory_id = fa_id factory,
      mv_material_id = ma_id material, mv_lot_id = Some (lo_id lot), mv_movement_type = RECEIPT,
      mv_quantity = quantity, mv_corrects_movement_id = None, mv_reason = None,
      mv_order_id = None, mv_created_by = Some (p_user_id p), mv_created_at = 0\<rparr>"

text \<open>What a receipt does to the balance and the status of its lot, after the movement.\<close>

definition receipt_effect ::
  "bool \<Rightarrow> decimal \<Rightarrow> material_balance \<Rightarrow> material_lot \<Rightarrow> db \<Rightarrow> exn + (material_balance \<times> material_lot \<times> db)" where
  "receipt_effect accept quantity balance lot s =
     (if lo_status lot = LOT_ACCEPTED
      then let b = balance\<lparr>ba_on_hand_accepted := dadd (ba_on_hand_accepted balance) quantity,
                           ba_version := ba_version balance + 1\<rparr>
           in bind_err (update_balance b s) (\<lambda>s. Inr (b, lot, s))
      else if accept
      then let b = balance\<lparr>ba_on_hand_accepted := dadd (ba_on_hand_accepted balance) (lot_net (lo_id lot) s),
                           ba_version := ba_version balance + 1\<rparr>;
               l = lot\<lparr>lo_status := LOT_ACCEPTED\<rparr>
           in bind_err (update_balance b s) (\<lambda>s. bind_err (update_lot l s) (\<lambda>s. Inr (b, l, s)))
      else Inr (balance, lot, s))"

definition record_receipt ::
  "principal \<Rightarrow> uuid \<Rightarrow> uuid \<Rightarrow> string \<Rightarrow> decimal \<Rightarrow> bool \<Rightarrow> db \<Rightarrow> exn + (stock_movement \<times> db)" where
  "record_receipt p factory_id material_id lot_code quantity accept s =
     bind_err (load_factory factory_id p ''inventory:write'' s) (\<lambda>factory.
     bind_err (positive_quantity quantity ''quantity'') (\<lambda>quantity.
     bind_err (org_material (p_organization_id p) material_id s) (\<lambda>material.
     let (locked_orders, s) = lock_orders_using_materials (fa_id factory) [ma_id material] [] s
     in bind_err (lock_balance_for (fa_organization_id factory) (fa_id factory) (ma_id material) s)
          (\<lambda>(balance, s).
        bind_err (ensure_lot factory material lot_code accept s) (\<lambda>(lot_id, s).
        bind_err (lock_lot lot_id s) (\<lambda>(lot, s).
        bind_err (ensure (lo_material_id lot = ma_id material)
          (conflict ''This lot code belongs to a different material.'')) (\<lambda>_.
        bind_err (ensure (lo_status lot \<noteq> LOT_REJECTED)
          (conflict ''Cannot receive into a rejected lot.'')) (\<lambda>_.
        bind_err (insert_movement (receipt_movement factory material lot quantity p) s) (\<lambda>(movement, s).
        bind_err (receipt_effect accept quantity balance lot s) (\<lambda>(b, l, s).
        refresh_locked (fa_id factory) (ma_id material) locked_orders movement
          (inventory_audit (fa_organization_id factory) (fa_id factory) (Some (p_user_id p))
             ''inventory.receipt'' ''stock_movement'' (mv_id movement) None
             (Some (JObj (balance_snapshot balance)))
             (Some (JObj (balance_snapshot b @
                [(Lit ''lot_id'', JText (Id (lo_id l))),
                 (Lit ''lot_status'', JStr (lot_status_value (lo_status l))),
                 (Lit ''quantity'', JText (Dec quantity))]))) s)))))))))))"

definition accept_effect ::
  "material_balance \<Rightarrow> material_lot \<Rightarrow> db \<Rightarrow> exn + (material_balance \<times> material_lot \<times> db)" where
  "accept_effect balance lot s =
     (let net = lot_net (lo_id lot) s;
          l = lot\<lparr>lo_status := LOT_ACCEPTED\<rparr>;
          b = (if net \<noteq> 0
               then balance\<lparr>ba_on_hand_accepted := dadd (ba_on_hand_accepted balance) net,
                            ba_version := ba_version balance + 1\<rparr>
               else balance)
      in bind_err (if net \<noteq> 0 then update_balance b s else Inr s) (\<lambda>s.
         bind_err (update_lot l s) (\<lambda>s. Inr (b, l, s))))"

definition accept_lot :: "principal \<Rightarrow> uuid \<Rightarrow> db \<Rightarrow> exn + (material_lot \<times> db)" where
  "accept_lot p lot_id s =
     bind_err (load_lot lot_id p ''inventory:write'' s) (\<lambda>lot.
     let (locked_orders, s) =
       lock_orders_using_materials (lo_factory_id lot) [lo_material_id lot] [] s
     in bind_err (lock_balance_for (lo_organization_id lot) (lo_factory_id lot) (lo_material_id lot) s)
          (\<lambda>(balance, s).
        bind_err (lock_lot (lo_id lot) s) (\<lambda>(lot, s).
        bind_err (ensure (lo_status lot = LOT_QUARANTINE)
          (conflict ''Only quarantined lots can be accepted (lot is ).'')) (\<lambda>_.
        bind_err (accept_effect balance lot s) (\<lambda>(b, l, s').
        refresh_locked (lo_factory_id l) (lo_material_id l) locked_orders l
          (inventory_audit (lo_organization_id l) (lo_factory_id l) (Some (p_user_id p))
             ''inventory.lot_accept'' ''material_lot'' (lo_id l) None
             (Some (JObj (balance_snapshot balance @ [(Lit ''lot_status'', JStr ''QUARANTINE'')])))
             (Some (JObj (balance_snapshot b @
                [(Lit ''lot_status'', JStr ''ACCEPTED''),
                 (Lit ''net_quantity'', JText (Dec (lot_net (lo_id lot) s)))]))) s'))))))"

text \<open>The order's ACTIVE reservations of a material, locked, oldest first.\<close>

definition lock_active_reservations :: "order \<Rightarrow> uuid \<Rightarrow> db \<Rightarrow> reservation list \<times> db" where
  "lock_active_reservations ord material_id s =
     (let rows = sort_key (\<lambda>r. (rv_created_at r, rv_id r))
            (filter (\<lambda>r. rv_order_id r = or_id ord \<and> rv_material_id r = material_id \<and>
               rv_factory_id r = or_factory_id ord \<and> rv_status r = RES_ACTIVE) (t_reservations s))
      in (rows, take_locks (map (LockReservation \<circ> rv_id) rows) s))"

definition consumed_part :: "reservation \<Rightarrow> decimal \<Rightarrow> uuid \<Rightarrow> reservation" where
  "consumed_part r take_q actor_user_id =
     \<lparr>rv_id = 0, rv_organization_id = rv_organization_id r, rv_factory_id = rv_factory_id r,
      rv_material_id = rv_material_id r, rv_order_id = rv_order_id r, rv_quantity = take_q,
      rv_status = RES_CONSUMED, rv_recommendation_id = rv_recommendation_id r,
      rv_created_by = Some actor_user_id, rv_created_at = 0\<rparr>"

fun consume_reservations :: "reservation list \<Rightarrow> decimal \<Rightarrow> uuid \<Rightarrow> db \<Rightarrow> exn + db" where
  "consume_reservations [] remaining actor_user_id s = Inr s"
| "consume_reservations (r # rs) remaining actor_user_id s =
     (if remaining \<le> 0 then Inr s
      else let take_q = min (rv_quantity r) remaining
           in if take_q = rv_quantity r
              then bind_err (update_reservation (r\<lparr>rv_status := RES_CONSUMED\<rparr>) s) (\<lambda>s.
                   consume_reservations rs (dsub remaining take_q) actor_user_id s)
              else bind_err (update_reservation (r\<lparr>rv_quantity := dsub (rv_quantity r) take_q\<rparr>) s) (\<lambda>s.
                   bind_err (insert_reservation (consumed_part r take_q actor_user_id) s) (\<lambda>(_, s).
                   consume_reservations rs (dsub remaining take_q) actor_user_id s)))"

definition insufficient_material :: exn where
  "insufficient_material = AppError 409 CONFLICT ''Insufficient available material'' [''quantity'']"

definition optional_order :: "uuid option \<Rightarrow> factory \<Rightarrow> db \<Rightarrow> exn + order option" where
  "optional_order order_id factory s =
     (case order_id of
        None \<Rightarrow> Inr None
      | Some i \<Rightarrow>
        (case row or_id i (t_orders s) of
           None \<Rightarrow> Inl (invalid ''order_id'' ''Unknown order for this factory.'')
         | Some ord \<Rightarrow>
             if or_factory_id ord \<noteq> fa_id factory
             then Inl (invalid ''order_id'' ''Unknown order for this factory.'')
             else Inr (Some ord)))"

definition issue_movement ::
  "factory \<Rightarrow> material \<Rightarrow> material_lot \<Rightarrow> decimal \<Rightarrow> order option \<Rightarrow> string option \<Rightarrow> principal \<Rightarrow> stock_movement" where
  "issue_movement factory material lot quantity ord reason p =
     \<lparr>mv_id = 0, mv_organization_id = fa_organization_id factory, mv_factory_id = fa_id factory,
      mv_material_id = ma_id material, mv_lot_id = Some (lo_id lot), mv_movement_type = ISSUE,
      mv_quantity = - quantity, mv_corrects_movement_id = None, mv_reason = reason,
      mv_order_id = map_option or_id ord, mv_created_by = Some (p_user_id p), mv_created_at = 0\<rparr>"

definition record_issue ::
  "principal \<Rightarrow> uuid \<Rightarrow> uuid \<Rightarrow> uuid \<Rightarrow> decimal \<Rightarrow> uuid option \<Rightarrow> string option \<Rightarrow> db \<Rightarrow>
   exn + (stock_movement \<times> db)" where
  "record_issue p factory_id material_id lot_id quantity order_id reason s =
     bind_err (load_factory factory_id p ''inventory:write'' s) (\<lambda>factory.
     bind_err (positive_quantity quantity ''quantity'') (\<lambda>quantity.
     bind_err (org_material (p_organization_id p) material_id s) (\<lambda>material.
     bind_err (some_or (invalid ''lot_id'' ''Unknown lot for this material and factory.'')
       (row lo_id lot_id (t_lots s))) (\<lambda>lot.
     bind_err (ensure (lo_factory_id lot = fa_id factory \<and> lo_material_id lot = ma_id material)
       (invalid ''lot_id'' ''Unknown lot for this material and factory.'')) (\<lambda>_.
     bind_err (optional_order order_id factory s) (\<lambda>ord.
     let (locked_orders, s) = lock_orders_using_materials (fa_id factory) [ma_id material]
           (case ord of None \<Rightarrow> [] | Some r \<Rightarrow> [or_id r]) s
     in bind_err (lock_balance_for (fa_organization_id factory) (fa_id factory) (ma_id material) s)
          (\<lambda>(balance, s).
        bind_err (lock_lot (lo_id lot) s) (\<lambda>(lot, s).
        bind_err (ensure (lo_status lot = LOT_ACCEPTED)
          (conflict ''Only accepted lots can be issued.'')) (\<lambda>_.
        bind_err (ensure (\<not> lot_net (lo_id lot) s < quantity)
          (AppError 409 CONFLICT ''Lot holds only .'' [''quantity''])) (\<lambda>_.
        let (own_reservations, s) = (case ord of None \<Rightarrow> ([], s)
              | Some r \<Rightarrow> lock_active_reservations r (ma_id material) s);
            consumed = min quantity (dsum (map rv_quantity own_reservations));
            new_on_hand = dsub (ba_on_hand_accepted balance) quantity;
            new_reserved = dsub (ba_reserved balance) consumed
        in bind_err (ensure (\<not> available_now new_on_hand new_reserved < 0) insufficient_material) (\<lambda>_.
           bind_err (consume_reservations own_reservations consumed (p_user_id p) s) (\<lambda>s.
           bind_err (insert_movement (issue_movement factory material lot quantity ord reason p) s)
             (\<lambda>(movement, s).
           let b = balance\<lparr>ba_on_hand_accepted := new_on_hand, ba_reserved := new_reserved,
                           ba_version := ba_version balance + 1\<rparr>
           in bind_err (update_balance b s) (\<lambda>s.
              refresh_locked (fa_id factory) (ma_id material) locked_orders movement
                (inventory_audit (fa_organization_id factory) (fa_id factory) (Some (p_user_id p))
                   ''inventory.issue'' ''stock_movement'' (mv_id movement) reason
                   (Some (JObj (balance_snapshot balance)))
                   (Some (JObj (balance_snapshot b @
                      [(Lit ''lot_id'', JText (Id (lo_id lot))),
                       (Lit ''quantity'', JText (Dec (- quantity))),
                       (Lit ''order_id'', json_id_opt (map_option or_id ord)),
                       (Lit ''consumed_reservation_quantity'', JText (Dec consumed))]))) s)))))))))))))))"

definition correction_movement ::
  "stock_movement \<Rightarrow> material_lot \<Rightarrow> decimal \<Rightarrow> string \<Rightarrow> principal \<Rightarrow> stock_movement" where
  "correction_movement original lot delta reason p =
     \<lparr>mv_id = 0, mv_organization_id = mv_organization_id original,
      mv_factory_id = mv_factory_id original, mv_material_id = mv_material_id original,
      mv_lot_id = Some (lo_id lot), mv_movement_type = CORRECTION, mv_quantity = delta,
      mv_corrects_movement_id = Some (mv_id original), mv_reason = Some reason,
      mv_order_id = mv_order_id original, mv_created_by = Some (p_user_id p), mv_created_at = 0\<rparr>"

text \<open>On an accepted lot a correction also moves the balance, checked before the flush.\<close>

definition correction_effect ::
  "decimal \<Rightarrow> material_balance \<Rightarrow> material_lot \<Rightarrow> exn + (material_balance \<times> bool)" where
  "correction_effect delta balance lot =
     (if lo_status lot = LOT_ACCEPTED
      then let new_on_hand = dadd (ba_on_hand_accepted balance) delta
           in bind_err (ensure (\<not> new_on_hand < ba_reserved balance)
                (AppError 409 CONFLICT ''The correction would leave less stock on hand than is reserved.''
                   [''quantity_delta''])) (\<lambda>_.
              Inr (balance\<lparr>ba_on_hand_accepted := new_on_hand,
                           ba_version := ba_version balance + 1\<rparr>, True))
      else Inr (balance, False))"

definition record_correction ::
  "principal \<Rightarrow> uuid \<Rightarrow> decimal \<Rightarrow> string \<Rightarrow> db \<Rightarrow> exn + (stock_movement \<times> db)" where
  "record_correction p movement_id quantity_delta reason s =
     bind_err (load_movement movement_id p ''inventory:write'' s) (\<lambda>original.
     bind_err (ensure (strip reason \<noteq> [])
       (invalid ''reason'' ''A reason is required for corrections.'')) (\<lambda>_.
     bind_err (quantize ROUND_HALF_UP 4 quantity_delta) (\<lambda>delta.
     bind_err (ensure (delta \<noteq> 0)
       (invalid ''quantity_delta'' ''The correction must change the quantity.'')) (\<lambda>_.
     bind_err (ensure (mv_movement_type original \<noteq> CORRECTION)
       (invalid ''movement_id'' ''Correct the original receipt or issue, not a correction.'')) (\<lambda>_.
     bind_err (some_or (invalid ''movement_id'' ''The movement has no lot to correct.'')
       (mv_lot_id original)) (\<lambda>lot_id.
     let (locked_orders, s) =
       lock_orders_using_materials (mv_factory_id original) [mv_material_id original] [] s
     in bind_err (lock_balance_for (mv_organization_id original) (mv_factory_id original)
          (mv_material_id original) s) (\<lambda>(balance, s).
        bind_err (lock_lot lot_id s) (\<lambda>(lot, s).
        bind_err (ensure (\<not> dadd (lot_net (lo_id lot) s) delta < 0)
          (conflict ''The correction would make the lot's quantity negative.'')) (\<lambda>_.
        bind_err (correction_effect delta balance lot) (\<lambda>(b, changed).
        bind_err (insert_movement (correction_movement original lot delta reason p) s) (\<lambda>(movement, s).
        bind_err (if changed then update_balance b s else Inr s) (\<lambda>s.
        refresh_locked (mv_factory_id original) (mv_material_id original) locked_orders movement
          (inventory_audit (mv_organization_id original) (mv_factory_id original) (Some (p_user_id p))
             ''inventory.correction'' ''stock_movement'' (mv_id movement) (Some reason)
             (Some (JObj (balance_snapshot balance)))
             (Some (JObj (balance_snapshot b @
                [(Lit ''corrects_movement_id'', JText (Id (mv_id original))),
                 (Lit ''quantity_delta'', JText (Dec delta))]))) s)))))))))))))"

section \<open>Reservations\<close>

definition reserve_material ::
  "uuid \<Rightarrow> uuid \<Rightarrow> uuid \<Rightarrow> uuid \<Rightarrow> decimal \<Rightarrow> uuid option \<Rightarrow> uuid option \<Rightarrow> db \<Rightarrow>
   exn + (reservation \<times> db)" where
  "reserve_material organization_id factory_id material_id order_id quantity actor_user_id
     recommendation_id s =
     bind_err (positive_quantity quantity ''quantity'') (\<lambda>quantity.
     bind_err (lock_balance_for organization_id factory_id material_id s) (\<lambda>(balance, s).
     bind_err (ensure (\<not> available_now (ba_on_hand_accepted balance) (ba_reserved balance) < quantity)
       insufficient_material) (\<lambda>_.
     bind_err (insert_reservation
       \<lparr>rv_id = 0, rv_organization_id = organization_id, rv_factory_id = factory_id,
        rv_material_id = material_id, rv_order_id = order_id, rv_quantity = quantity,
        rv_status = RES_ACTIVE, rv_recommendation_id = recommendation_id,
        rv_created_by = actor_user_id, rv_created_at = 0\<rparr> s) (\<lambda>(reservation, s).
     bind_err (update_balance (charge_balance quantity balance) s) (\<lambda>s.
     Inr (reservation,
       inventory_audit organization_id factory_id actor_user_id ''inventory.reserve'' ''reservation''
         (rv_id reservation) None (Some (JObj (balance_snapshot balance)))
         (Some (JObj (balance_snapshot (charge_balance quantity balance) @
            [(Lit ''order_id'', JText (Id order_id)), (Lit ''quantity'', JText (Dec quantity)),
             (Lit ''recommendation_id'', json_id_opt recommendation_id)]))) s))))))"

definition create_reservation ::
  "principal \<Rightarrow> uuid \<Rightarrow> uuid \<Rightarrow> uuid \<Rightarrow> decimal \<Rightarrow> db \<Rightarrow> exn + (reservation \<times> db)" where
  "create_reservation p factory_id material_id order_id quantity s =
     bind_err (load_factory factory_id p ''inventory:write'' s) (\<lambda>factory.
     bind_err (org_material (p_organization_id p) material_id s) (\<lambda>material.
     bind_err (some_or (invalid ''order_id'' ''Unknown order for this factory.'')
       (row or_id order_id (t_orders s))) (\<lambda>ord.
     bind_err (ensure (or_factory_id ord = fa_id factory)
       (invalid ''order_id'' ''Unknown order for this factory.'')) (\<lambda>_.
     bind_err (ensure (list_ex (\<lambda>l. bl_bom_version_id l = or_bom_version_id ord \<and>
         bl_material_id l = ma_id material) (t_bom_lines s))
       (invalid ''material_id'' ''The material is not on the order's bill of materials.'')) (\<lambda>_.
     let (locked_orders, s) =
       lock_orders_using_materials (fa_id factory) [ma_id material] [or_id ord] s
     in bind_err (ensure (or_production_state ord \<in> set RESERVABLE_ORDER_STATES)
          (conflict ''Cannot reserve material for a  order.'')) (\<lambda>_.
        bind_err (reserve_material (fa_organization_id factory) (fa_id factory) (ma_id material)
          (or_id ord) quantity (Some (p_user_id p)) None s) (\<lambda>(reservation, s).
        refresh_locked (fa_id factory) (ma_id material) locked_orders reservation s)))))))"

definition release_reservation :: "principal \<Rightarrow> uuid \<Rightarrow> db \<Rightarrow> exn + (reservation \<times> db)" where
  "release_reservation p reservation_id s =
     bind_err (load_reservation reservation_id p ''inventory:write'' s) (\<lambda>scoped.
     let (locked_orders, s) = lock_orders_using_materials (rv_factory_id scoped)
           [rv_material_id scoped] [rv_order_id scoped] s
     in bind_err (lock_balance_for (rv_organization_id scoped) (rv_factory_id scoped)
          (rv_material_id scoped) s) (\<lambda>(balance, s).
        bind_err (some_or NoResultFound (row rv_id (rv_id scoped) (t_reservations s))) (\<lambda>reservation.
        let s = take_locks [LockReservation (rv_id reservation)] s
        in bind_err (ensure (rv_status reservation = RES_ACTIVE)
             (conflict ''Only active reservations can be released ().'')) (\<lambda>_.
           let r = reservation\<lparr>rv_status := RES_RELEASED\<rparr>;
               b = charge_balance (- rv_quantity reservation) balance
           in bind_err (update_reservation r s) (\<lambda>s.
              bind_err (update_balance b s) (\<lambda>s.
              refresh_locked (rv_factory_id r) (rv_material_id r) locked_orders r
                (inventory_audit (rv_organization_id r) (rv_factory_id r) (Some (p_user_id p))
                   ''inventory.release'' ''reservation'' (rv_id r) None
                   (Some (JObj (balance_snapshot balance)))
                   (Some (JObj (balance_snapshot b @
                      [(Lit ''quantity'', JText (Dec (rv_quantity r)))]))) s)))))))"

text \<open>
  Releasing everything an order holds. The loop changes the locked rows in memory; the
  flush stores each balance once.
\<close>

definition reserved_materials_of :: "order \<Rightarrow> db \<Rightarrow> uuid list" where
  "reserved_materials_of ord s =
     map bl_material_id (filter (\<lambda>l. bl_bom_version_id l = or_bom_version_id ord) (t_bom_lines s)) @
     map rv_material_id (filter (\<lambda>r. rv_order_id r = or_id ord) (t_reservations s))"

definition active_reservations_of :: "order \<Rightarrow> db \<Rightarrow> reservation list" where
  "active_reservations_of ord s =
     sort_key rv_id (filter (\<lambda>r. rv_order_id r = or_id ord \<and> rv_status r = RES_ACTIVE) (t_reservations s))"

fun release_reservations_loop :: "uuid \<Rightarrow> reservation list \<Rightarrow> db \<Rightarrow> db" where
  "release_reservations_loop factory_id [] s = s"
| "release_reservations_loop factory_id (r # rs) s =
     release_reservations_loop factory_id rs
       (case balance_of factory_id (rv_material_id r) s of
          None \<Rightarrow> s
        | Some b \<Rightarrow>
            s\<lparr>t_balances := upd ba_id (b\<lparr>ba_reserved := dsub (ba_reserved b) (rv_quantity r),
                  ba_version := ba_version b + 1\<rparr>) (t_balances s),
              t_reservations := upd rv_id (r\<lparr>rv_status := RES_RELEASED\<rparr>) (t_reservations s)\<rparr>)"

fun flush_balances :: "uuid list \<Rightarrow> db \<Rightarrow> exn + db" where
  "flush_balances [] s = Inr s"
| "flush_balances (i # is) s =
     (case row ba_id i (t_balances s) of
        None \<Rightarrow> flush_balances is s
      | Some b \<Rightarrow> bind_err (update_balance b s) (flush_balances is))"

definition release_order_reservations :: "order \<Rightarrow> db \<Rightarrow> exn + (reservation list \<times> db)" where
  "release_order_reservations ord s =
     (let material_ids = reserved_materials_of ord s
      in if material_ids = [] then Inr ([], s)
         else let balance_ids = map ba_id (filter (\<lambda>b. ba_factory_id b = or_factory_id ord \<and>
                    ba_material_id b \<in> set material_ids) (t_balances s));
                  (balances, s) = lock_balances balance_ids s;
                  reservations = active_reservations_of ord s;
                  s = take_locks (map (LockReservation \<circ> rv_id) reservations) s
              in if list_ex (\<lambda>r. rv_material_id r \<notin> ba_material_id ` set balances) reservations
                 then Inl (conflict ''The order's reservations changed concurrently; please retry.'')
                 else bind_err (flush_balances (map ba_id balances)
                        (release_reservations_loop (or_factory_id ord) reservations s)) (\<lambda>s.
                      Inr (map (\<lambda>r. r\<lparr>rv_status := RES_RELEASED\<rparr>) reservations, s)))"

end
