(* ===== verification/LS_Stock.thy ===== *)
theory LS_Stock
  imports LS_Inventory
begin

text \<open>
  The stock invariant of the inventory service and its preservation by every command.
  \<open>stock_ok\<close> says what the module's documentation promises: \<open>on_hand_accepted\<close> is the sum of
  the factory's movements on ACCEPTED lots of the material, \<open>reserved\<close> is the sum of the
  ACTIVE reservations, \<open>0 <= reserved <= on_hand_accepted\<close>, and no lot is negative.
\<close>

text \<open>The stock position a row belongs to: its factory and material.\<close>

definition code_of :: "material_balance \<Rightarrow> uuid \<times> uuid" where
  "code_of b = (ba_factory_id b, ba_material_id b)"

definition res_code :: "reservation \<Rightarrow> uuid \<times> uuid" where
  "res_code r = (rv_factory_id r, rv_material_id r)"

definition move_code :: "stock_movement \<Rightarrow> uuid \<times> uuid" where
  "move_code x = (mv_factory_id x, mv_material_id x)"

definition lot_code_of :: "material_lot \<Rightarrow> uuid \<times> uuid" where
  "lot_code_of l = (lo_factory_id l, lo_material_id l)"

lemmas code_defs = code_of_def res_code_def move_code_def lot_code_of_def

definition balance_fits :: "material_balance \<Rightarrow> decimal \<Rightarrow> bool" where
  "balance_fits b d \<longleftrightarrow> dadd (ba_reserved b) d = ba_reserved b + d"

interpretation resv: booking rv_id res_code rv_quantity "\<lambda>r. rv_status r = RES_ACTIVE"
  ba_id code_of ba_reserved charge_balance balance_fits
  by unfold_locales (simp_all add: charge_balance_def balance_fits_def code_of_def)

definition on_accepted :: "material_lot list \<Rightarrow> stock_movement \<Rightarrow> bool" where
  "on_accepted lots x \<longleftrightarrow> (\<exists>l \<in> set lots. mv_lot_id x = Some (lo_id l) \<and> lo_status l = LOT_ACCEPTED)"

definition ledger :: "material_lot list \<Rightarrow> stock_movement list \<Rightarrow> uuid \<times> uuid \<Rightarrow> decimal" where
  "ledger lots moves c =
     tsum (\<lambda>x. move_code x = c \<and> on_accepted lots x) mv_quantity moves"

definition net_of :: "stock_movement list \<Rightarrow> uuid \<Rightarrow> decimal" where
  "net_of moves i = tsum (\<lambda>x. mv_lot_id x = Some i) mv_quantity moves"

lemma lot_net_of: "lot_net i s = net_of (t_movements s) i"
  by (simp add: lot_net_def net_of_def)

definition balance_ok :: "material_balance \<Rightarrow> bool" where
  "balance_ok b \<longleftrightarrow>
     numeric 14 4 (ba_on_hand_accepted b) \<and> numeric 14 4 (ba_reserved b) \<and>
     0 \<le> ba_reserved b \<and> ba_reserved b \<le> ba_on_hand_accepted b"

definition movement_ok :: "material_lot list \<Rightarrow> material_balance list \<Rightarrow> stock_movement \<Rightarrow> bool" where
  "movement_ok lots balances x \<longleftrightarrow>
     numeric 14 4 (mv_quantity x) \<and>
     (\<forall>i. mv_lot_id x = Some i \<longrightarrow>
        (\<exists>l \<in> set lots. lo_id l = i \<and> lot_code_of l = move_code x)) \<and>
     move_code x \<in> code_of ` set balances"

definition reservation_ok :: "material_balance list \<Rightarrow> reservation \<Rightarrow> bool" where
  "reservation_ok balances r \<longleftrightarrow>
     numeric 14 4 (rv_quantity r) \<and> 0 < rv_quantity r \<and>
     res_code r \<in> code_of ` set balances"

definition stock_ok :: "db \<Rightarrow> bool" where
  "stock_ok s \<longleftrightarrow>
     resv.balanced (t_reservations s) (t_balances s) \<and>
     (\<forall>b \<in> set (t_balances s). balance_ok b \<and>
        ba_on_hand_accepted b = ledger (t_lots s) (t_movements s) (code_of b)) \<and>
     (\<forall>x \<in> set (t_movements s). movement_ok (t_lots s) (t_balances s) x) \<and>
     (\<forall>r \<in> set (t_reservations s). reservation_ok (t_balances s) r) \<and>
     distinct (map lo_id (t_lots s)) \<and> distinct (map mv_id (t_movements s)) \<and>
     (\<forall>l \<in> set (t_lots s). 0 \<le> net_of (t_movements s) (lo_id l))"

lemma stock_okD:
  assumes "stock_ok s"
  shows "resv.balanced (t_reservations s) (t_balances s)"
    and "b \<in> set (t_balances s) \<Longrightarrow> balance_ok b"
    and "b \<in> set (t_balances s) \<Longrightarrow>
           ba_on_hand_accepted b = ledger (t_lots s) (t_movements s) (code_of b)"
    and "x \<in> set (t_movements s) \<Longrightarrow> movement_ok (t_lots s) (t_balances s) x"
    and "r \<in> set (t_reservations s) \<Longrightarrow> reservation_ok (t_balances s) r"
    and "distinct (map lo_id (t_lots s))" and "distinct (map mv_id (t_movements s))"
    and "l \<in> set (t_lots s) \<Longrightarrow> 0 \<le> net_of (t_movements s) (lo_id l)"
    and "distinct (map ba_id (t_balances s))" and "distinct (map rv_id (t_reservations s))"
    and "inj_on code_of (set (t_balances s))"
  using assms resv.balancedD [of "t_reservations s" "t_balances s"] by (simp_all add: stock_ok_def)

lemma stock_ok_frame:
  "t_lots s' = t_lots s \<Longrightarrow> t_movements s' = t_movements s \<Longrightarrow> t_balances s' = t_balances s \<Longrightarrow>
   t_reservations s' = t_reservations s \<Longrightarrow> stock_ok s' = stock_ok s"
  by (simp add: stock_ok_def)

section \<open>The ledger\<close>

lemma ledger_append:
  "ledger lots (moves @ [x]) c =
     ledger lots moves c +
     (if move_code x = c \<and> on_accepted lots x then mv_quantity x else 0)"
  by (simp add: ledger_def tsum_append)

lemma net_append: "net_of (moves @ [x]) i = net_of moves i + (if mv_lot_id x = Some i then mv_quantity x else 0)"
  by (simp add: net_of_def tsum_append)

lemma on_accepted_iff:
  assumes "distinct (map lo_id lots)" and "l \<in> set lots" and "mv_lot_id x = Some (lo_id l)"
  shows "on_accepted lots x \<longleftrightarrow> lo_status l = LOT_ACCEPTED"
  using assms by (auto simp: on_accepted_def distinct_map dest: inj_onD)

lemma on_accepted_new_lot:
  assumes "lo_id l \<notin> lo_id ` set lots" and "\<forall>i. mv_lot_id x = Some i \<longrightarrow> i \<in> lo_id ` set lots"
  shows "on_accepted (lots @ [l]) x = on_accepted lots x"
  using assms by (auto simp: on_accepted_def)

text \<open>Accepting a lot brings its net quantity into the ledger of its material.\<close>

lemma on_accepted_upd:
  assumes d: "distinct (map lo_id lots)" and l: "l \<in> set lots"
    and l': "lo_id l' = lo_id l" "lo_status l' = LOT_ACCEPTED"
  shows "on_accepted (upd lo_id l' lots) x \<longleftrightarrow> on_accepted lots x \<or> mv_lot_id x = Some (lo_id l)"
proof (cases "mv_lot_id x = Some (lo_id l)")
  case True
  have "l' \<in> set (upd lo_id l' lots)" using l l'(1) by (force simp: upd_def image_iff)
  then show ?thesis using True l' unfolding on_accepted_def by (metis)
next
  case False
  then show ?thesis using l'(1) unfolding on_accepted_def upd_def by fastforce
qed

lemma ledger_accept:
  assumes "distinct (map lo_id lots)" and "l \<in> set lots" and "lo_status l \<noteq> LOT_ACCEPTED"
    and "lo_id l' = lo_id l" and "lo_status l' = LOT_ACCEPTED"
    and "\<And>x. x \<in> set moves \<Longrightarrow> mv_lot_id x = Some (lo_id l) \<Longrightarrow>
           move_code x = lot_code_of l"
  shows "ledger (upd lo_id l' lots) moves c =
           ledger lots moves c +
           (if c = lot_code_of l then net_of moves (lo_id l) else 0)"
  using assms(6)
proof (induction moves)
  case (Cons x xs)
  have "\<not> on_accepted lots x" if "mv_lot_id x = Some (lo_id l)"
    using on_accepted_iff [OF assms(1,2) that] assms(3) by simp
  moreover have "move_code x = lot_code_of l"
    if "mv_lot_id x = Some (lo_id l)" using Cons.prems that by simp
  ultimately show ?case
    using Cons by (auto simp: ledger_def net_of_def on_accepted_upd [OF assms(1,2,4,5)])
qed (simp add: ledger_def net_of_def)

lemma movement_ok_lots:
  assumes "movement_ok lots balances x"
    and "\<And>l. l \<in> set lots \<Longrightarrow> \<exists>l' \<in> set lots'. lo_id l' = lo_id l \<and> lot_code_of l' = lot_code_of l"
    and "code_of ` set balances \<subseteq> code_of ` set balances'"
  shows "movement_ok lots' balances' x"
  using assms unfolding movement_ok_def by (metis subsetD)

lemma codes_upd:
  assumes "b \<in> set balances" and "ba_id b' = ba_id b" and "code_of b' = code_of b"
    and "distinct (map ba_id balances)"
  shows "code_of ` set (upd ba_id b' balances) = code_of ` set balances"
proof -
  have "code_of (if ba_id x = ba_id b' then b' else x) = code_of x" if "x \<in> set balances" for x
    using assms that by (metis distinct_map inj_onD)
  then have "map code_of (upd ba_id b' balances) = map code_of balances"
    by (simp add: upd_def comp_def)
  then show ?thesis by (metis list.set_map)
qed

section \<open>One balance changes\<close>

text \<open>
  What a command has to show about its change of the tables, when it changes at most one
  balance row.
\<close>

lemma stock_ok_change:
  assumes inv: "stock_ok s" and b: "b \<in> set (t_balances s)"
    and b': "ba_id b' = ba_id b" "code_of b' = code_of b" "balance_ok b'"
    and balances: "t_balances s' = upd ba_id b' (t_balances s)"
    and bal: "resv.balanced (t_reservations s') (t_balances s')"
    and ledg: "ba_on_hand_accepted b' = ledger (t_lots s') (t_movements s') (code_of b)"
      "\<And>c. c \<noteq> code_of b \<Longrightarrow> ledger (t_lots s') (t_movements s') c = ledger (t_lots s) (t_movements s) c"
    and moves: "\<And>x. x \<in> set (t_movements s') \<Longrightarrow> movement_ok (t_lots s') (t_balances s) x"
    and ress: "\<And>r. r \<in> set (t_reservations s') \<Longrightarrow> reservation_ok (t_balances s) r"
    and dist: "distinct (map lo_id (t_lots s'))" "distinct (map mv_id (t_movements s'))"
    and nets: "\<And>l. l \<in> set (t_lots s') \<Longrightarrow> 0 \<le> net_of (t_movements s') (lo_id l)"
  shows "stock_ok s'"
proof -
  note codes = codes_upd [OF b b'(1,2) stock_okD(9) [OF inv]]
  have "balance_ok y \<and> ba_on_hand_accepted y = ledger (t_lots s') (t_movements s') (code_of y)"
    if y: "y \<in> set (upd ba_id b' (t_balances s))" for y
  proof (cases "y = b'")
    case True
    then show ?thesis using b' ledg(1) by simp
  next
    case False
    then have y': "y \<in> set (t_balances s)" "ba_id y \<noteq> ba_id b" using set_upd_subset [OF y] b'(1) by auto
    then have "code_of y \<noteq> code_of b" using stock_okD(11) [OF inv] b by (metis inj_onD)
    then show ?thesis using stock_okD(2,3) [OF inv y'(1)] ledg(2) by simp
  qed
  moreover have "movement_ok (t_lots s') (t_balances s') x" if "x \<in> set (t_movements s')" for x
    using codes balances by (intro movement_ok_lots [OF moves [OF that]]) (blast, simp)
  moreover have "reservation_ok (t_balances s') r" if "r \<in> set (t_reservations s')" for r
    using ress [OF that] codes balances by (simp add: reservation_ok_def)
  ultimately show ?thesis using bal dist nets balances by (simp add: stock_ok_def)
qed

text \<open>Nothing but the reserved quantity and the version of the balance changes.\<close>

lemma stock_ok_reserved:
  assumes inv: "stock_ok s" and b: "b \<in> set (t_balances s)"
    and b': "ba_id b' = ba_id b" "code_of b' = code_of b" "balance_ok b'"
      "ba_on_hand_accepted b' = ba_on_hand_accepted b"
    and tabs: "t_balances s' = upd ba_id b' (t_balances s)" "t_lots s' = t_lots s"
      "t_movements s' = t_movements s"
    and bal: "resv.balanced (t_reservations s') (t_balances s')"
    and ress: "\<And>r. r \<in> set (t_reservations s') \<Longrightarrow> reservation_ok (t_balances s) r"
  shows "stock_ok s'"
  using stock_okD [OF inv] b' tabs
  by (intro stock_ok_change [OF inv b b'(1,2,3) tabs(1) bal _ _ _ ress]) (auto simp: b)

section \<open>The balance row of a command\<close>

lemma balance_ofD:
  "balance_of f m s = Some b \<Longrightarrow> b \<in> set (t_balances s) \<and> code_of b = (f, m)"
  "balance_of f m s = None \<Longrightarrow> (f, m) \<notin> code_of ` set (t_balances s)"
  by (auto simp: balance_of_def find_Some_iff find_None_iff code_of_def)

lemma ledger_untouched:
  "stock_ok s \<Longrightarrow> c \<notin> code_of ` set (t_balances s) \<Longrightarrow> ledger (t_lots s) (t_movements s) c = 0"
  unfolding ledger_def by (rule tsum_none) (auto simp: dest: stock_okD(4) [unfolded movement_ok_def])

lemma booked_untouched:
  "stock_ok s \<Longrightarrow> c \<notin> code_of ` set (t_balances s) \<Longrightarrow> resv.booked (t_reservations s) c = 0"
  unfolding resv.booked_def by (rule tsum_none) (auto dest: stock_okD(5) [unfolded reservation_ok_def])

text \<open>The tables a command's opening leaves alone.\<close>

definition opened :: "db \<Rightarrow> db \<Rightarrow> bool" where
  "opened s s' \<longleftrightarrow>
     t_lots s' = t_lots s \<and> t_movements s' = t_movements s \<and> t_reservations s' = t_reservations s \<and>
     t_orders s' = t_orders s \<and> t_slots s' = t_slots s \<and> t_allocations s' = t_allocations s \<and>
     t_recommendations s' = t_recommendations s \<and> t_bom_lines s' = t_bom_lines s \<and>
     utcnow s' = utcnow s"

lemma opened_refl [simp]: "opened s s"
  by (simp add: opened_def)

lemma opened_trans: "opened s t \<Longrightarrow> opened t u \<Longrightarrow> opened s u"
  by (simp add: opened_def)

lemma opened_locks [simp]: "opened s (take_locks ls s)"
  by (simp add: opened_def take_locks_def)

lemma stock_ok_locks [simp]: "stock_ok (take_locks ls s) = stock_ok s"
  by (rule stock_ok_frame) (simp_all add: take_locks_def)

lemma ensure_balance_ok:
  assumes inv: "stock_ok s" and en: "ensure_balance org f m s = Inr (i, s')"
  shows "stock_ok s'" and "opened s s'" and "\<exists>b \<in> set (t_balances s'). ba_id b = i \<and> code_of b = (f, m)"
    and "set (t_balances s) \<subseteq> set (t_balances s')"
proof -
  define s1 where "s1 = snd (draw s)"
  have s1: "t_balances s1 = t_balances s" "opened s s1" "stock_ok s1"
    "balance_of f m s1 = balance_of f m s"
    using inv stock_ok_frame [of s1 s] by (simp_all add: s1_def draw_def opened_def balance_of_def)
  have "stock_ok s' \<and> opened s s' \<and> (\<exists>b \<in> set (t_balances s'). ba_id b = i \<and> code_of b = (f, m)) \<and>
      set (t_balances s) \<subseteq> set (t_balances s')"
  proof (cases "balance_of f m s")
    case (Some b)
    then have "i = ba_id b" "s' = s1"
      using en s1(4) by (auto simp: ensure_balance_def draw_def s1_def)
    with s1 balance_ofD(1) [OF Some] show ?thesis by auto
  next
    case None
    define b where "b = \<lparr>ba_id = i, ba_organization_id = org, ba_factory_id = f, ba_material_id = m,
      ba_on_hand_accepted = 0, ba_reserved = 0, ba_version = 1\<rparr>"
    have s': "s' = s1\<lparr>t_balances := t_balances s @ [b]\<rparr>" and fresh: "ba_id b \<notin> ba_id ` set (t_balances s)"
      using en None s1(4)
      by (auto simp: ensure_balance_def draw_def s1_def Let_def bind_err_Inr insert_row_Inr b_def)
    have code: "code_of b = (f, m)" and zero: "ba_on_hand_accepted b = 0" "ba_reserved b = 0"
      by (simp_all add: b_def code_of_def)
    have new: "code_of b \<notin> code_of ` set (t_balances s)" using balance_ofD(2) [OF None] code by simp
    have same: "t_lots s' = t_lots s" "t_movements s' = t_movements s" "t_reservations s' = t_reservations s"
      "t_balances s' = t_balances s @ [b]"
      using s1(2) by (simp_all add: s' opened_def)
    have op: "opened s s'" using s1(2) by (simp add: s' opened_def)
    have found: "\<exists>b \<in> set (t_balances s'). ba_id b = i \<and> code_of b = (f, m)"
      using code by (auto simp: same b_def)
    have "resv.balanced (t_reservations s) (t_balances s @ [b])"
      using fresh new booked_untouched [OF inv new] zero
      by (intro resv.balanced_new_resource stock_okD(1) [OF inv]) auto
    moreover have "movement_ok (t_lots s) (t_balances s @ [b]) x" if "x \<in> set (t_movements s)" for x
      by (rule movement_ok_lots [OF stock_okD(4) [OF inv that]]) auto
    moreover have "reservation_ok (t_balances s @ [b]) r" if "r \<in> set (t_reservations s)" for r
      using stock_okD(5) [OF inv that] by (auto simp: reservation_ok_def)
    moreover have "balance_ok b" by (simp add: balance_ok_def zero)
    moreover have "ledger (t_lots s) (t_movements s) (code_of b) = 0"
      using ledger_untouched [OF inv new] .
    ultimately have "stock_ok s'"
      using stock_okD [OF inv] zero unfolding stock_ok_def same by auto
    with op found show ?thesis by (auto simp: same)
  qed
  then show "stock_ok s'" "opened s s'" "\<exists>b \<in> set (t_balances s'). ba_id b = i \<and> code_of b = (f, m)"
    "set (t_balances s) \<subseteq> set (t_balances s')" by blast+
qed

lemma lock_balance_forD:
  assumes inv: "stock_ok s" and lo: "lock_balance_for org f m s = Inr (b, s')"
  shows "stock_ok s'" and "opened s s'" and "b \<in> set (t_balances s')" and "code_of b = (f, m)"
proof -
  from lo obtain i s1 where en: "ensure_balance org f m s = Inr (i, s1)"
    and b: "row ba_id i (fst (lock_balances [i] s1)) = Some b" and s': "s' = snd (lock_balances [i] s1)"
    by (auto simp: lock_balance_for_def bind_err_Inr Let_def case_prod_beta)
  note e = ensure_balance_ok [OF inv en]
  have s'_tabs: "t_balances s' = t_balances s1"
    by (simp add: s' lock_balances_def Let_def take_locks_def)
  show "stock_ok s'" using e(1) by (simp add: s' lock_balances_def Let_def)
  show "opened s s'" using e(2) opened_trans by (auto simp: s' lock_balances_def Let_def)
  have "b \<in> set (t_balances s1)" "ba_id b = i"
    using row_SomeD [OF b] set_rows_by_id [OF stock_okD(9) [OF e(1)]]
    by (auto simp: lock_balances_def Let_def)
  then show "b \<in> set (t_balances s')" "code_of b = (f, m)"
    using e(3) stock_okD(9) [OF e(1)] by (auto simp: s'_tabs distinct_map dest: inj_onD)
qed

text \<open>Flushes that were accepted.\<close>

lemma update_balanceD:
  assumes "update_balance b s = Inr s'" and "scaled 4 (ba_on_hand_accepted b)" and "scaled 4 (ba_reserved b)"
  shows "s' = s\<lparr>t_balances := upd ba_id b (t_balances s)\<rparr>" and "balance_ok b"
  using assms by (auto simp: update_balance_def bind_err_Inr to_column_scaled balance_ok_def)

lemma insert_movementD:
  assumes "insert_movement r s = Inr (x, s')" and "scaled 4 (mv_quantity r)"
  shows "x = r\<lparr>mv_id := uuid4 s (drawn s), mv_created_at := utcnow s\<rparr>"
    and "s' = s\<lparr>drawn := Suc (drawn s), t_movements := t_movements s @ [x]\<rparr>"
    and "mv_id x \<notin> mv_id ` set (t_movements s)" and "numeric 14 4 (mv_quantity x)"
  using assms by (auto simp: insert_movement_def draw_def Let_def bind_err_Inr insert_row_Inr to_column_scaled)

lemma insert_reservationD:
  assumes "insert_reservation r s = Inr (x, s')" and "scaled 4 (rv_quantity r)"
  shows "x = r\<lparr>rv_id := uuid4 s (drawn s), rv_created_at := utcnow s\<rparr>"
    and "s' = s\<lparr>drawn := Suc (drawn s), t_reservations := t_reservations s @ [x]\<rparr>"
    and "rv_id x \<notin> rv_id ` set (t_reservations s)" and "numeric 14 4 (rv_quantity x)" and "0 < rv_quantity x"
  using assms by (auto simp: insert_reservation_def draw_def Let_def bind_err_Inr insert_row_Inr to_column_scaled)

lemma update_reservationD:
  assumes "update_reservation r s = Inr s'" and "scaled 4 (rv_quantity r)"
  shows "s' = s\<lparr>t_reservations := upd rv_id r (t_reservations s)\<rparr>"
    and "numeric 14 4 (rv_quantity r)" and "0 < rv_quantity r"
  using assms by (auto simp: update_reservation_def bind_err_Inr to_column_scaled)

lemma positive_quantityD:
  "positive_quantity x field = Inr q \<Longrightarrow> scaled 4 q \<and> 0 < q"
  using scaled_quantize [where s = 4] by (auto simp: positive_quantity_def bind_err_Inr)

text \<open>A flush of a balance whose stock was changed by an exact sum.\<close>

lemma update_balance_on_hand:
  assumes up: "update_balance (b\<lparr>ba_on_hand_accepted := dadd (ba_on_hand_accepted b) d, ba_version := v\<rparr>) s
                 = Inr s'" and ok: "balance_ok b" and d: "scaled 4 d"
  shows "s' = s\<lparr>t_balances := upd ba_id (b\<lparr>ba_on_hand_accepted := ba_on_hand_accepted b + d, ba_version := v\<rparr>)
                (t_balances s)\<rparr>"
    and "balance_ok (b\<lparr>ba_on_hand_accepted := ba_on_hand_accepted b + d, ba_version := v\<rparr>)"
proof -
  have sc: "scaled 4 (ba_on_hand_accepted b)" "scaled 4 (ba_reserved b)"
    using ok by (simp_all add: balance_ok_def numeric_def)
  from up obtain w where "to_column 14 4 (dadd (ba_on_hand_accepted b) d) = Inr w"
    by (auto simp: update_balance_def bind_err_Inr)
  then have ex: "dadd (ba_on_hand_accepted b) d = ba_on_hand_accepted b + d"
    using to_column_dadd(2) [OF sc(1) d] by force
  have "scaled 4 (ba_on_hand_accepted b + d)" using sc d by auto
  with update_balanceD [OF up [unfolded ex]] sc
  show "s' = s\<lparr>t_balances := upd ba_id (b\<lparr>ba_on_hand_accepted := ba_on_hand_accepted b + d, ba_version := v\<rparr>)
                (t_balances s)\<rparr>"
    and "balance_ok (b\<lparr>ba_on_hand_accepted := ba_on_hand_accepted b + d, ba_version := v\<rparr>)"
    by simp_all
qed

end
