(* ===== verification/LS_StockCommands.thy ===== *)
theory LS_StockCommands
  imports LS_Stock
begin

text \<open>
  Every command of the inventory service keeps the stock books: receipts, lot acceptance,
  issues with their consumption of reservations, corrections, reservations and releases.
\<close>

section \<open>The four tables of the books\<close>

definition stock_same :: "db \<Rightarrow> db \<Rightarrow> bool" where
  "stock_same s s' \<longleftrightarrow>
     t_lots s' = t_lots s \<and> t_movements s' = t_movements s \<and> t_balances s' = t_balances s \<and>
     t_reservations s' = t_reservations s"

lemma stock_same_ok: "stock_same s s' \<Longrightarrow> stock_ok s' = stock_ok s"
  unfolding stock_same_def by (intro stock_ok_frame) simp_all

lemma stock_same_refl [simp]: "stock_same s s"
  by (simp add: stock_same_def)

lemma stock_same_trans: "stock_same s t \<Longrightarrow> stock_same t u \<Longrightarrow> stock_same s u"
  by (simp add: stock_same_def)

lemma stock_same_locks [simp]: "stock_same s (take_locks ls s)"
  by (simp add: stock_same_def take_locks_def)

lemma stock_same_audited: "audited s s' \<Longrightarrow> stock_same s s'"
  by (simp add: stock_same_def audited_frame)

lemma stock_same_order: "update_order r s = Inr s' \<Longrightarrow> stock_same s s'"
  by (auto simp: update_order_def bind_err_Inr stock_same_def)

lemma stock_same_states: "store_states xs s = Inr s' \<Longrightarrow> stock_same s s'"
proof (induction xs s rule: store_states.induct)
  case (2 r x rest s)
  then obtain t where "t = s \<or> update_order (r\<lparr>or_material_state := x, or_version := or_version r + 1\<rparr>) s = Inr t"
    "store_states rest t = Inr s'" and "stock_same t s'"
    by (auto simp: bind_err_Inr split: if_splits)
  then show ?case using stock_same_order stock_same_trans by blast
qed simp

lemma stock_same_lock_orders [simp]:
  "stock_same s (snd (lock_orders ids s))" "stock_same s (snd (lock_orders_using_materials f ms xs s))"
  by (simp_all add: lock_orders_def lock_orders_using_materials_def Let_def case_prod_beta)

lemma stock_same_recompute:
  "recompute_material_states f ms ids s = Inr (res, s') \<Longrightarrow> stock_same s s'"
  by (drule recomputeD) (auto dest!: stock_same_states intro: stock_same_trans [OF stock_same_lock_orders(1)])

lemma refresh_lockedD:
  "refresh_locked f m locked res s = Inr (x, s') \<Longrightarrow> x = res \<and> stock_same s s'"
  by (auto simp: refresh_locked_def bind_err_Inr intro: stock_same_recompute)

text \<open>The end of a command: the audit entry and the readiness leave the books alone.\<close>

lemma refresh_audited:
  "refresh_locked f m locked res (inventory_audit a b c d e g h k l s) = Inr (x, s') \<Longrightarrow>
   x = res \<and> stock_same s s'"
  by (drule refresh_lockedD)
    (auto simp: inventory_audit_def intro: stock_same_trans [OF stock_same_audited [OF audited_record]])

text \<open>The opening of a command: the orders are locked, then the balance.\<close>

lemma command_openD:
  assumes inv: "stock_ok s" and lo: "lock_orders_using_materials f ms xs s = (locked, s1)"
    and lb: "lock_balance_for org f m s1 = Inr (b, s2)"
  shows "stock_ok s2" and "b \<in> set (t_balances s2)" and "code_of b = (f, m)"
    and "t_lots s2 = t_lots s" and "t_movements s2 = t_movements s" and "t_reservations s2 = t_reservations s"
proof -
  have same: "stock_same s s1" using stock_same_lock_orders(2) [of s f ms xs] lo by simp
  have "stock_ok s1" using stock_same_ok [OF same] inv by simp
  note l = lock_balance_forD [OF this lb]
  show "stock_ok s2" "b \<in> set (t_balances s2)" "code_of b = (f, m)" using l by blast+
  show "t_lots s2 = t_lots s" "t_movements s2 = t_movements s" "t_reservations s2 = t_reservations s"
    using l(2) same by (simp_all add: opened_def stock_same_def)
qed

section \<open>Effects on the books\<close>

text \<open>A movement on a lot, with its effect on the balance when the lot is accepted.\<close>

lemma stock_ok_move:
  assumes inv: "stock_ok s" and b: "b \<in> set (t_balances s)" and lot: "lot \<in> set (t_lots s)"
    and code: "lot_code_of lot = code_of b"
    and x: "mv_lot_id x = Some (lo_id lot)" "move_code x = code_of b" "numeric 14 4 (mv_quantity x)"
      "mv_id x \<notin> mv_id ` set (t_movements s)"
    and net: "0 \<le> net_of (t_movements s) (lo_id lot) + mv_quantity x"
    and b': "ba_id b' = ba_id b" "code_of b' = code_of b" "balance_ok b'"
      "ba_on_hand_accepted b' = ba_on_hand_accepted b
         + (if lo_status lot = LOT_ACCEPTED then mv_quantity x else 0)"
    and tabs: "t_balances s' = upd ba_id b' (t_balances s)" "t_lots s' = t_lots s"
      "t_movements s' = t_movements s @ [x]"
    and bal: "resv.balanced (t_reservations s') (t_balances s')"
    and ress: "\<And>r. r \<in> set (t_reservations s') \<Longrightarrow> reservation_ok (t_balances s) r"
  shows "stock_ok s'"
proof (rule stock_ok_change [OF inv b b'(1-3) tabs(1) bal])
  note ok = stock_okD [OF inv]
  note acc = on_accepted_iff [OF ok(6) lot x(1)]
  show "ba_on_hand_accepted b' = ledger (t_lots s') (t_movements s') (code_of b)"
    using ok(3) [OF b] x(2) by (simp add: tabs b'(4) ledger_append acc)
  show "ledger (t_lots s') (t_movements s') c = ledger (t_lots s) (t_movements s) c"
    if "c \<noteq> code_of b" for c
    using that x(2) by (simp add: tabs ledger_append)
  have "movement_ok (t_lots s) (t_balances s) x"
    using x(1-3) code b lot by (auto simp: movement_ok_def)
  then show "movement_ok (t_lots s') (t_balances s) y" if "y \<in> set (t_movements s')" for y
    using that ok(4) by (auto simp: tabs)
  show "reservation_ok (t_balances s) r" if "r \<in> set (t_reservations s')" for r
    using ress [OF that] .
  show "distinct (map lo_id (t_lots s'))" "distinct (map mv_id (t_movements s'))"
    using ok(6,7) x(4) by (simp_all add: tabs)
  show "0 \<le> net_of (t_movements s') (lo_id l)" if "l \<in> set (t_lots s')" for l
  proof (cases "lo_id l = lo_id lot")
    case True
    then show ?thesis using net x(1) by (simp add: tabs net_append)
  next
    case False
    then show ?thesis using ok(8) [of l] that x(1) by (simp add: tabs net_append)
  qed
qed

text \<open>A movement on a lot that is not accepted leaves the balances alone.\<close>

lemma stock_ok_move_outside:
  assumes "stock_ok s" and "b \<in> set (t_balances s)" and "lot \<in> set (t_lots s)"
    and "lot_code_of lot = code_of b" and "lo_status lot \<noteq> LOT_ACCEPTED"
    and "mv_lot_id x = Some (lo_id lot)" and "move_code x = code_of b" and "numeric 14 4 (mv_quantity x)"
    and "mv_id x \<notin> mv_id ` set (t_movements s)"
    and "0 \<le> net_of (t_movements s) (lo_id lot) + mv_quantity x"
    and "t_balances s' = t_balances s" and "t_lots s' = t_lots s" and "t_movements s' = t_movements s @ [x]"
    and "t_reservations s' = t_reservations s"
  shows "stock_ok s'"
  using assms stock_okD [OF assms(1)]
  by (intro stock_ok_move [OF assms(1-4,6-10), of b]) (simp_all add: upd_same)

text \<open>Accepting a lot.\<close>

lemma stock_ok_accept:
  assumes inv: "stock_ok s" and b: "b \<in> set (t_balances s)" and lot: "lot \<in> set (t_lots s)"
    and code: "lot_code_of lot = code_of b" and st: "lo_status lot \<noteq> LOT_ACCEPTED"
    and b': "ba_id b' = ba_id b" "code_of b' = code_of b" "balance_ok b'" "ba_reserved b' = ba_reserved b"
      "ba_on_hand_accepted b' = ba_on_hand_accepted b + net_of (t_movements s) (lo_id lot)"
    and tabs: "t_balances s' = upd ba_id b' (t_balances s)"
      "t_lots s' = upd lo_id (lot\<lparr>lo_status := LOT_ACCEPTED\<rparr>) (t_lots s)"
      "t_movements s' = t_movements s" "t_reservations s' = t_reservations s"
  shows "stock_ok s'"
proof (rule stock_ok_change [OF inv b b'(1-3) tabs(1)])
  note ok = stock_okD [OF inv]
  let ?lot = "lot\<lparr>lo_status := LOT_ACCEPTED\<rparr>"
  have code_x: "move_code x = lot_code_of lot" if x: "x \<in> set (t_movements s)" "mv_lot_id x = Some (lo_id lot)" for x
  proof -
    obtain l where "l \<in> set (t_lots s)" "lo_id l = lo_id lot" "lot_code_of l = move_code x"
      using ok(4) [OF x(1)] x(2) by (auto simp: movement_ok_def)
    then show "move_code x = lot_code_of lot" using ok(6) lot by (metis distinct_map inj_onD)
  qed
  have ledg: "ledger (t_lots s') (t_movements s') c =
      ledger (t_lots s) (t_movements s) c + (if c = lot_code_of lot then net_of (t_movements s) (lo_id lot) else 0)" for c
    unfolding tabs by (rule ledger_accept [OF ok(6) lot st _ _ code_x]) simp_all
  show "ba_on_hand_accepted b' = ledger (t_lots s') (t_movements s') (code_of b)"
    using ok(3) [OF b] by (simp add: ledg b'(5) code)
  show "ledger (t_lots s') (t_movements s') c = ledger (t_lots s) (t_movements s) c"
    if "c \<noteq> code_of b" for c
    using that by (simp add: ledg code)
  show "resv.balanced (t_reservations s') (t_balances s')"
    unfolding tabs using b' by (intro resv.balanced_change [OF ok(1) b ok(10), where d = 0]) simp_all
  have member: "l = ?lot \<or> l \<in> set (t_lots s)" if "l \<in> set (t_lots s')" for l
    using set_upd_subset [of l lo_id ?lot "t_lots s"] that by (auto simp: tabs)
  show "movement_ok (t_lots s') (t_balances s) x" if x: "x \<in> set (t_movements s')" for x
  proof (rule movement_ok_lots [OF ok(4)])
    show "x \<in> set (t_movements s)" using x by (simp add: tabs)
    fix l
    assume l: "l \<in> set (t_lots s)"
    show "\<exists>l' \<in> set (t_lots s'). lo_id l' = lo_id l \<and> lot_code_of l' = lot_code_of l"
    proof (cases "l = lot")
      case True
      then have "?lot \<in> set (t_lots s')" using lot by (force simp: tabs upd_def image_iff)
      then show ?thesis using True by (intro bexI [of _ ?lot]) (simp_all add: lot_code_of_def)
    next
      case False
      then have "lo_id l \<noteq> lo_id lot" using l lot ok(6) by (metis distinct_map inj_onD)
      then have "l \<in> set (t_lots s')" using l by (force simp: tabs upd_def image_iff)
      then show ?thesis by blast
    qed
  qed simp
  show "reservation_ok (t_balances s) r" if "r \<in> set (t_reservations s')" for r
    using that ok(5) by (simp add: tabs)
  show "distinct (map lo_id (t_lots s'))" "distinct (map mv_id (t_movements s'))"
    using ok(6,7) by (simp_all add: tabs)
  show "0 \<le> net_of (t_movements s') (lo_id l)" if "l \<in> set (t_lots s')" for l
    using member [OF that] ok(8) lot by (auto simp: tabs)
qed

section \<open>Receipts and lot acceptance\<close>

lemma ensure_lotD:
  assumes inv: "stock_ok s" and b: "b \<in> set (t_balances s)"
    and en: "ensure_lot factory material lot_code accept s = Inr (i, s')"
  shows "stock_ok s'" and "t_balances s' = t_balances s" and "t_movements s' = t_movements s"
    and "t_reservations s' = t_reservations s"
    and "row lo_id i (t_lots s') = Some lot \<Longrightarrow> lot \<in> set (t_lots s') \<and> lo_factory_id lot = fa_id factory"
proof -
  note ok = stock_okD [OF inv]
  define s1 where "s1 = snd (draw s)"
  have s1: "t_lots s1 = t_lots s" "t_movements s1 = t_movements s" "t_balances s1 = t_balances s"
    "t_reservations s1 = t_reservations s"
    "lot_by_code (fa_id factory) lot_code s1 = lot_by_code (fa_id factory) lot_code s"
    by (simp_all add: s1_def draw_def lot_by_code_def)
  have "stock_ok s' \<and> t_balances s' = t_balances s \<and> t_movements s' = t_movements s \<and>
      t_reservations s' = t_reservations s \<and>
      (\<exists>l \<in> set (t_lots s'). lo_id l = i \<and> lo_factory_id l = fa_id factory)"
  proof (cases "lot_by_code (fa_id factory) lot_code s")
    case (Some l)
    then have "i = lo_id l" "s' = s1"
      using en s1(5) by (auto simp: ensure_lot_def draw_def s1_def)
    moreover have "l \<in> set (t_lots s)" "lo_factory_id l = fa_id factory"
      using Some by (auto simp: lot_by_code_def find_Some_iff)
    ultimately show ?thesis using inv stock_ok_frame [of s1 s] s1 by auto
  next
    case None
    define l where "l = \<lparr>lo_id = i, lo_organization_id = fa_organization_id factory,
       lo_factory_id = fa_id factory, lo_material_id = ma_id material, lo_lot_code = lot_code,
       lo_status = (if accept then LOT_ACCEPTED else LOT_QUARANTINE), lo_received_at = utcnow s\<rparr>"
    have s': "s' = s1\<lparr>t_lots := t_lots s @ [l]\<rparr>" and fresh: "lo_id l \<notin> lo_id ` set (t_lots s)"
      using en None s1(5)
      by (auto simp: ensure_lot_def draw_def s1_def Let_def bind_err_Inr insert_row_Inr l_def)
    have lots: "j \<in> lo_id ` set (t_lots s)" if "x \<in> set (t_movements s)" "mv_lot_id x = Some j" for x j
      using ok(4) [OF that(1)] that(2) by (auto simp: movement_ok_def)
    have tabs: "t_lots s' = t_lots s @ [l]" "t_movements s' = t_movements s" "t_balances s' = t_balances s"
      "t_reservations s' = t_reservations s" using s1 by (simp_all add: s')
    have ledg: "ledger (t_lots s @ [l]) (t_movements s) c = ledger (t_lots s) (t_movements s) c" for c
      unfolding ledger_def using lots by (intro tsum_cong) (auto simp: on_accepted_new_lot [OF fresh])
    have "net_of (t_movements s) (lo_id l) = 0"
      unfolding net_of_def using lots fresh by (intro tsum_none) auto
    moreover have "movement_ok (t_lots s @ [l]) (t_balances s) x" if "x \<in> set (t_movements s)" for x
      by (rule movement_ok_lots [OF ok(4) [OF that]]) auto
    ultimately have "stock_ok s'"
      using ok fresh unfolding stock_ok_def tabs by (auto simp: ledg)
    then show ?thesis by (auto simp: tabs l_def)
  qed
  then show "stock_ok s'" "t_balances s' = t_balances s" "t_movements s' = t_movements s"
    "t_reservations s' = t_reservations s"
    "row lo_id i (t_lots s') = Some lot \<Longrightarrow> lot \<in> set (t_lots s') \<and> lo_factory_id lot = fa_id factory"
    using row_distinct [OF stock_okD(6)] by (auto dest: row_SomeD)
qed

lemma scaled_net:
  "stock_ok s \<Longrightarrow> scaled 4 (net_of (t_movements s) i)"
  unfolding net_of_def by (rule scaled_tsum) (auto simp: numeric_def movement_ok_def dest: stock_okD(4))

text \<open>The two effects of an acceptance: of a lot with stock and of an empty one.\<close>

lemma accept_ok:
  assumes inv: "stock_ok s" and b: "b \<in> set (t_balances s)" and lot: "lot \<in> set (t_lots s)"
    and code: "lot_code_of lot = code_of b" and st: "lo_status lot \<noteq> LOT_ACCEPTED"
    and up: "update_balance (b\<lparr>ba_on_hand_accepted := dadd (ba_on_hand_accepted b) (lot_net (lo_id lot) s),
               ba_version := v\<rparr>) s = Inr s1"
    and up2: "update_lot (lot\<lparr>lo_status := LOT_ACCEPTED\<rparr>) s1 = Inr s'"
  shows "stock_ok s'"
proof -
  note u = update_balance_on_hand [OF up stock_okD(2) [OF inv b], unfolded lot_net_of, OF scaled_net [OF inv]]
  show ?thesis
    using up2 u
    by (intro stock_ok_accept [OF inv b lot code st, of "b\<lparr>ba_on_hand_accepted :=
        ba_on_hand_accepted b + net_of (t_movements s) (lo_id lot), ba_version := v\<rparr>"])
      (auto simp: update_lot_def code_of_def)
qed

lemma accept_empty_ok:
  assumes inv: "stock_ok s" and b: "b \<in> set (t_balances s)" and lot: "lot \<in> set (t_lots s)"
    and code: "lot_code_of lot = code_of b" and st: "lo_status lot \<noteq> LOT_ACCEPTED"
    and net: "lot_net (lo_id lot) s = 0" and up: "update_lot (lot\<lparr>lo_status := LOT_ACCEPTED\<rparr>) s = Inr s'"
  shows "stock_ok s'"
  using net up stock_okD [OF inv] b
  by (intro stock_ok_accept [OF inv b lot code st, of b]) (auto simp: update_lot_def lot_net_of upd_same)

lemma receipt_effectD:
  assumes inv: "stock_ok s" and b: "b \<in> set (t_balances s)" and lot: "lot \<in> set (t_lots s)"
    and code: "lot_code_of lot = code_of b"
    and ins: "insert_movement (receipt_movement factory material lot q p) s = Inr (x, s1)"
    and q: "scaled 4 q" "0 < q" and fm: "code_of b = (fa_id factory, ma_id material)"
    and eff: "receipt_effect accept q b lot s1 = Inr (b', l', s')"
  shows "stock_ok s'"
proof -
  note i = insert_movementD [OF ins]
  have x: "mv_lot_id x = Some (lo_id lot)" "move_code x = code_of b" "mv_quantity x = q"
    "numeric 14 4 (mv_quantity x)" "mv_id x \<notin> mv_id ` set (t_movements s)"
    and s1: "t_movements s1 = t_movements s @ [x]" "t_lots s1 = t_lots s" "t_balances s1 = t_balances s"
    "t_reservations s1 = t_reservations s"
    using i q(1) fm by (auto simp: receipt_movement_def move_code_def)
  note ok = stock_okD [OF inv]
  have net: "0 \<le> net_of (t_movements s) (lo_id lot) + mv_quantity x" using ok(8) [OF lot] q(2) x(3) by simp
  show ?thesis
  proof (cases "lo_status lot = LOT_ACCEPTED")
    case True
    with eff have up: "update_balance (b\<lparr>ba_on_hand_accepted := dadd (ba_on_hand_accepted b) q,
        ba_version := ba_version b + 1\<rparr>) s1 = Inr s'"
      by (auto simp: receipt_effect_def bind_err_Inr Let_def)
    note u = update_balance_on_hand [OF up ok(2) [OF b] q(1)]
    let ?b = "b\<lparr>ba_on_hand_accepted := ba_on_hand_accepted b + q, ba_version := ba_version b + 1\<rparr>"
    have bal: "resv.balanced (t_reservations s) (upd ba_id ?b (t_balances s))"
      by (intro resv.balanced_change [OF ok(1) b ok(10), where d = 0]) (simp_all add: code_of_def)
    have t': "t_balances s' = upd ba_id ?b (t_balances s)" "t_lots s' = t_lots s"
      "t_movements s' = t_movements s @ [x]" "t_reservations s' = t_reservations s"
      using u(1) s1 by simp_all
    show ?thesis
      by (rule stock_ok_move [OF inv b lot code x(1,2,4,5) net, of ?b])
        (use u(2) True bal ok(5) in \<open>simp_all add: t' x(3) code_of_def\<close>)
  next
    case False
    have ok1: "stock_ok s1"
      using stock_ok_move_outside [OF inv b lot code False x(1,2,4,5) net s1(3,2,1,4)] .
    show ?thesis
    proof (cases accept)
      case True
      with False eff obtain t where
        "update_balance (b\<lparr>ba_on_hand_accepted := dadd (ba_on_hand_accepted b) (lot_net (lo_id lot) s1),
           ba_version := ba_version b + 1\<rparr>) s1 = Inr t" "update_lot (lot\<lparr>lo_status := LOT_ACCEPTED\<rparr>) t = Inr s'"
        by (auto simp: receipt_effect_def Let_def bind_err_Inr)
      from accept_ok [OF ok1 _ _ code False this] show ?thesis using b lot s1 by simp
    next
      case False
      with \<open>lo_status lot \<noteq> LOT_ACCEPTED\<close> eff ok1 show ?thesis by (simp add: receipt_effect_def)
    qed
  qed
qed

lemma record_receipt_ok:
  assumes inv: "stock_ok s"
    and run: "record_receipt p f m lot_code quantity accept s = Inr (x, s')"
  shows "stock_ok s'"
proof -
  from run obtain factory q material locked s1 b s2 i s3 lot s4 s5 b' l' s6 where
      q: "positive_quantity quantity ''quantity'' = Inr q"
    and lo: "lock_orders_using_materials (fa_id factory) [ma_id material] [] s = (locked, s1)"
    and lb: "lock_balance_for (fa_organization_id factory) (fa_id factory) (ma_id material) s1 = Inr (b, s2)"
    and en: "ensure_lot factory material lot_code accept s2 = Inr (i, s3)"
    and ll: "lock_lot i s3 = Inr (lot, s4)" and mat: "lo_material_id lot = ma_id material"
    and ins: "insert_movement (receipt_movement factory material lot q p) s4 = Inr (x, s5)"
    and eff: "receipt_effect accept q b lot s5 = Inr (b', l', s6)" and fin: "stock_same s6 s'"
    by (auto simp: record_receipt_def run_simps dest!: refresh_audited)
  note o = command_openD [OF inv lo lb]
  note e = ensure_lotD [OF o(1,2) en]
  have lot: "lot \<in> set (t_lots s3)" "lo_factory_id lot = fa_id factory" and s4: "stock_same s3 s4"
    using e(5) ll by (auto simp: lock_lot_def bind_err_Inr)
  have "stock_ok s6"
    using e o s4 lot mat stock_same_ok [OF s4] positive_quantityD [OF q]
    by (intro receipt_effectD [OF _ _ _ _ ins _ _ _ eff]) (auto simp: stock_same_def lot_code_of_def)
  then show ?thesis using stock_same_ok [OF fin] by simp
qed

lemma accept_lot_ok:
  assumes inv: "stock_ok s" and run: "accept_lot p i s = Inr (l, s')"
  shows "stock_ok s'"
proof -
  from run obtain lot0 locked s1 b s2 lot s3 b' l' s4 where
      lo: "lock_orders_using_materials (lo_factory_id lot0) [lo_material_id lot0] [] s = (locked, s1)"
    and ld: "load_lot i p ''inventory:write'' s = Inr lot0"
    and lb: "lock_balance_for (lo_organization_id lot0) (lo_factory_id lot0) (lo_material_id lot0) s1 = Inr (b, s2)"
    and ll: "lock_lot (lo_id lot0) s2 = Inr (lot, s3)" and st: "lo_status lot = LOT_QUARANTINE"
    and eff: "accept_effect b lot s3 = Inr (b', l', s4)" and fin: "stock_same s4 s'"
    by (auto simp: accept_lot_def run_simps dest!: refresh_audited)
  note o = command_openD [OF inv lo lb]
  have "lot0 \<in> set (t_lots s)"
    using ld by (auto simp: load_defs dest: load_scoped_cases(1) [THEN row_in_set])
  moreover have lot: "lot \<in> set (t_lots s2)" "lo_id lot = lo_id lot0" and same: "stock_same s2 s3"
    using ll by (auto simp: lock_lot_def bind_err_Inr dest: row_SomeD)
  ultimately have "lot = lot0" using o(4) stock_okD(6) [OF inv] by (metis distinct_map inj_onD)
  then have code: "lot_code_of lot = code_of b" using o(3) by (simp add: lot_code_of_def)
  have s3: "stock_ok s3" "b \<in> set (t_balances s3)" "lot \<in> set (t_lots s3)"
    using stock_same_ok [OF same] o same lot by (simp_all add: stock_same_def)
  have "stock_ok s4"
    using eff accept_ok [OF s3 code] accept_empty_ok [OF s3 code] st
    by (auto simp: accept_effect_def run_simps split: if_splits)
  then show ?thesis using stock_same_ok [OF fin] by simp
qed

section \<open>Corrections\<close>

lemma dadd_nonneg_iff: "dadd x y < 0 \<longleftrightarrow> x + y < 0"
proof -
  have "ctx_round z < 0" if "z < 0" for z
  proof -
    have "\<bar>z\<bar> * (5 / 10 ^ 28) < - z" using that by simp
    then show ?thesis using ctx_round_error [of z] by linarith
  qed
  then show ?thesis using ctx_round_nonneg [of "x + y"] by (force simp: dadd_def not_less)
qed

lemma correction_ok:
  assumes inv: "stock_ok s" and b: "b \<in> set (t_balances s)" and lot: "lot \<in> set (t_lots s)"
    and code: "lot_code_of lot = code_of b"
    and ins: "insert_movement (correction_movement original lot delta reason p) s = Inr (x, s1)"
    and orig: "move_code original = code_of b" and d: "scaled 4 delta"
    and net: "\<not> dadd (lot_net (lo_id lot) s) delta < 0"
    and eff: "correction_effect delta b lot = Inr (b', changed)"
    and up: "(if changed then update_balance b' s1 else Inr s1) = Inr s'"
  shows "stock_ok s'"
proof -
  note i = insert_movementD [OF ins]
  have x: "mv_lot_id x = Some (lo_id lot)" "move_code x = code_of b" "mv_quantity x = delta"
    "numeric 14 4 (mv_quantity x)" "mv_id x \<notin> mv_id ` set (t_movements s)"
    and s1: "t_movements s1 = t_movements s @ [x]" "t_lots s1 = t_lots s" "t_balances s1 = t_balances s"
    "t_reservations s1 = t_reservations s"
    using i d orig by (auto simp: correction_movement_def move_code_def)
  note ok = stock_okD [OF inv]
  have net': "0 \<le> net_of (t_movements s) (lo_id lot) + mv_quantity x"
    using net by (simp add: dadd_nonneg_iff lot_net_of x(3))
  show ?thesis
  proof (cases "lo_status lot = LOT_ACCEPTED")
    case True
    let ?b = "b\<lparr>ba_on_hand_accepted := ba_on_hand_accepted b + delta, ba_version := ba_version b + 1\<rparr>"
    from True eff up have up: "update_balance (b\<lparr>ba_on_hand_accepted := dadd (ba_on_hand_accepted b) delta,
        ba_version := ba_version b + 1\<rparr>) s1 = Inr s'"
      by (auto simp: correction_effect_def run_simps)
    note u = update_balance_on_hand [OF up ok(2) [OF b] d]
    have bal: "resv.balanced (t_reservations s) (upd ba_id ?b (t_balances s))"
      by (intro resv.balanced_change [OF ok(1) b ok(10), where d = 0]) (simp_all add: code_of_def)
    have t': "t_balances s' = upd ba_id ?b (t_balances s)" "t_lots s' = t_lots s"
      "t_movements s' = t_movements s @ [x]" "t_reservations s' = t_reservations s"
      using u(1) s1 by simp_all
    show ?thesis
      by (rule stock_ok_move [OF inv b lot code x(1,2,4,5) net', of ?b])
        (use u(2) True bal ok(5) in \<open>simp_all add: t' x(3) code_of_def\<close>)
  next
    case False
    then have "s' = s1" using eff up by (auto simp: correction_effect_def)
    then show ?thesis
      using stock_ok_move_outside [OF inv b lot code False x(1,2,4,5) net' s1(3,2,1,4)] by simp
  qed
qed

lemma record_correction_ok:
  assumes inv: "stock_ok s" and run: "record_correction p m d reason s = Inr (x, s')"
  shows "stock_ok s'"
proof -
  from run obtain original delta i locked s1 b s2 lot s3 b' changed s4 s5 where
      ld: "load_movement m p ''inventory:write'' s = Inr original"
    and d: "quantize ROUND_HALF_UP 4 d = Inr delta" and i: "mv_lot_id original = Some i"
    and lo: "lock_orders_using_materials (mv_factory_id original) [mv_material_id original] [] s = (locked, s1)"
    and lb: "lock_balance_for (mv_organization_id original) (mv_factory_id original)
               (mv_material_id original) s1 = Inr (b, s2)"
    and ll: "lock_lot i s2 = Inr (lot, s3)" and net: "\<not> dadd (lot_net (lo_id lot) s3) delta < 0"
    and eff: "correction_effect delta b lot = Inr (b', changed)"
    and ins: "insert_movement (correction_movement original lot delta reason p) s3 = Inr (x, s4)"
    and up: "(if changed then update_balance b' s4 else Inr s4) = Inr s5" and fin: "stock_same s5 s'"
    by (auto simp: record_correction_def run_simps dest!: refresh_audited)
  note o = command_openD [OF inv lo lb]
  have "original \<in> set (t_movements s)"
    using ld by (auto simp: load_defs dest: load_scoped_cases(1) [THEN row_in_set])
  then obtain l where l: "l \<in> set (t_lots s)" "lo_id l = i" "lot_code_of l = move_code original"
    using stock_okD(4) [OF inv] i by (fastforce simp: movement_ok_def)
  have lot: "lot \<in> set (t_lots s2)" "lo_id lot = i" and same: "stock_same s2 s3"
    using ll by (auto simp: lock_lot_def bind_err_Inr dest: row_SomeD)
  have "lot = l" using lot l o(4) stock_okD(6) [OF inv] by (metis distinct_map inj_onD)
  then have code: "lot_code_of lot = code_of b" and orig: "move_code original = code_of b"
    using o(3) l(3) by (simp_all add: move_code_def)
  have s3: "stock_ok s3" "b \<in> set (t_balances s3)" "lot \<in> set (t_lots s3)"
    using stock_same_ok [OF same] o same lot by (simp_all add: stock_same_def)
  show ?thesis
    using correction_ok [OF s3 code ins orig quantize_4 [OF d] net eff up] stock_same_ok [OF fin] by simp
qed

end
