(* ===== verification/LS_Reservations.thy ===== *)
theory LS_Reservations
  imports LS_StockCommands LS_Capacity "HOL-Library.Multiset"
begin

text \<open>
  Reservations and the stock books: what an issue consumes, reserving, releasing one
  reservation and releasing everything an order holds; then every sequence of inventory
  commands, as a step relation on the database.
\<close>

section \<open>Consuming reservations\<close>

definition active_sum :: "(reservation \<Rightarrow> 'k) \<Rightarrow> reservation list \<Rightarrow> 'k \<Rightarrow> decimal" where
  "active_sum k rs c = tsum (\<lambda>r. rv_status r = RES_ACTIVE \<and> k r = c) rv_quantity rs"

lemma booked_active_sum: "resv.booked rs c = active_sum res_code rs c"
  by (simp add: resv.booked_def active_sum_def)

text \<open>A key that neither a consumption nor a split changes.\<close>

definition stable_key :: "(reservation \<Rightarrow> 'k) \<Rightarrow> bool" where
  "stable_key k \<longleftrightarrow>
     (\<forall>r st. k (r\<lparr>rv_status := st\<rparr>) = k r) \<and> (\<forall>r q. k (r\<lparr>rv_quantity := q\<rparr>) = k r)"

lemma stable_res_code: "stable_key res_code"
  by (simp add: stable_key_def res_code_def)

text \<open>\<open>d\<close> of the key's active reservations is consumed, and nothing else happens.\<close>

definition consumed_from ::
  "(reservation \<Rightarrow> 'k) \<Rightarrow> 'k \<Rightarrow> decimal \<Rightarrow> uuid set \<Rightarrow> material_balance list \<Rightarrow> db \<Rightarrow> db \<Rightarrow> bool" where
  "consumed_from k c d ids bs s s' \<longleftrightarrow>
     distinct (map rv_id (t_reservations s')) \<and>
     (\<forall>c'. active_sum k (t_reservations s') c' = active_sum k (t_reservations s) c' - (if c' = c then d else 0)) \<and>
     (\<forall>r \<in> set (t_reservations s'). reservation_ok bs r) \<and>
     (\<forall>r \<in> set (t_reservations s). rv_id r \<notin> ids \<longrightarrow> r \<in> set (t_reservations s')) \<and>
     t_lots s' = t_lots s \<and> t_movements s' = t_movements s \<and> t_balances s' = t_balances s"

lemma consumed_from_trans:
  assumes "consumed_from k c d ids bs s t" and "consumed_from k c e ids' bs t u"
  shows "consumed_from k c (d + e) (ids \<union> ids') bs s u"
  using assms by (auto simp: consumed_from_def)

lemma consumed_from_refl:
  "distinct (map rv_id (t_reservations s)) \<Longrightarrow> (\<And>r. r \<in> set (t_reservations s) \<Longrightarrow> reservation_ok bs r) \<Longrightarrow>
   consumed_from k c 0 ids bs s s"
  by (simp add: consumed_from_def)

lemma update_reservation_consumed:
  assumes up: "update_reservation r' s = Inr t" and r: "r \<in> set (t_reservations s)" "rv_status r = RES_ACTIVE"
    and d: "distinct (map rv_id (t_reservations s))"
    and ok: "\<And>x. x \<in> set (t_reservations s) \<Longrightarrow> reservation_ok bs x"
    and r': "rv_id r' = rv_id r" "k r' = k r" "res_code r' = res_code r" "scaled 4 (rv_quantity r')"
    and e: "e = rv_quantity r - (if rv_status r' = RES_ACTIVE then rv_quantity r' else 0)"
  shows "consumed_from k (k r) e {rv_id r} bs s t"
    and "t_reservations t = upd rv_id r' (t_reservations s)" and "utcnow t = utcnow s"
proof -
  note u = update_reservationD [OF up r'(4)]
  show "t_reservations t = upd rv_id r' (t_reservations s)" "utcnow t = utcnow s" using u(1) by simp_all
  have row: "row rv_id (rv_id r') (t_reservations s) = Some r" using row_distinct [OF d r(1)] r'(1) by simp
  have "reservation_ok bs x" if "x \<in> set (upd rv_id r' (t_reservations s))" for x
    using set_upd_subset [OF that] ok [OF r(1)] ok u(2,3) r'(3) by (auto simp: reservation_ok_def)
  moreover have "x \<in> set (upd rv_id r' (t_reservations s))"
    if "x \<in> set (t_reservations s)" "rv_id x \<noteq> rv_id r" for x
    using that r'(1) by (force simp: upd_def image_iff)
  moreover have "active_sum k (upd rv_id r' (t_reservations s)) c =
      active_sum k (t_reservations s) c - (if c = k r then e else 0)" for c
    unfolding active_sum_def tsum_upd [OF d row] using r(2) r'(2) e by auto
  ultimately show "consumed_from k (k r) e {rv_id r} bs s t"
    using d by (auto simp: consumed_from_def u(1))
qed

lemma insert_reservation_consumed:
  assumes ins: "insert_reservation r s = Inr (x, t)" and sc: "scaled 4 (rv_quantity r)"
    and r: "rv_status r \<noteq> RES_ACTIVE" "res_code r \<in> code_of ` set bs"
    and d: "distinct (map rv_id (t_reservations s))"
    and ok: "\<And>x. x \<in> set (t_reservations s) \<Longrightarrow> reservation_ok bs x"
  shows "consumed_from k c 0 ids bs s t"
proof -
  note i = insert_reservationD [OF ins sc]
  have "res_code x = res_code r" "rv_status x = rv_status r" by (simp_all add: i(1) res_code_def)
  then show ?thesis
    using i(3,4,5) r d ok by (auto simp: i(2) consumed_from_def active_sum_def tsum_append reservation_ok_def)
qed

text \<open>The loop of an issue: the oldest reservations first, the last one split.\<close>

lemma consume_ok:
  assumes run: "consume_reservations rs rem u s = Inr s'" and dr: "distinct (map rv_id rs)"
    and rs: "\<And>r. r \<in> set rs \<Longrightarrow> r \<in> set (t_reservations s) \<and> rv_status r = RES_ACTIVE \<and> k r = c"
    and rem: "0 \<le> rem" "rem \<le> sum_list (map rv_quantity rs)" "numeric 14 4 rem"
    and d: "distinct (map rv_id (t_reservations s))"
    and ok: "\<And>r. r \<in> set (t_reservations s) \<Longrightarrow> reservation_ok bs r"
    and k: "stable_key k"
  shows "consumed_from k c rem (rv_id ` set rs) bs s s'"
  using run dr rs rem d ok
proof (induction rs arbitrary: rem s)
  case Nil
  then show ?case using consumed_from_refl [OF Nil.prems(7,8)] by auto
next
  case (Cons r rs)
  have r: "r \<in> set (t_reservations s)" "rv_status r = RES_ACTIVE" "k r = c" using Cons.prems(3) by auto
  have q: "numeric 14 4 (rv_quantity r)" "0 < rv_quantity r" "res_code r \<in> code_of ` set bs"
    using Cons.prems(8) [OF r(1)] by (simp_all add: reservation_ok_def)
  show ?case
  proof (cases "rem \<le> 0")
    case True
    then have "rem = 0" "s' = s" using Cons.prems(1,4) by auto
    then show ?thesis using consumed_from_refl [OF Cons.prems(7,8)] by simp
  next
    case False
    show ?thesis
    proof (cases "rv_quantity r \<le> rem")
      case True
      with False Cons.prems(1) obtain t where up: "update_reservation (r\<lparr>rv_status := RES_CONSUMED\<rparr>) s = Inr t"
        and rest: "consume_reservations rs (dsub rem (rv_quantity r)) u t = Inr s'"
        by (auto simp: Let_def bind_err_Inr min_def)
      have sc: "scaled 4 (rv_quantity (r\<lparr>rv_status := RES_CONSUMED\<rparr>))" using q(1) by (simp add: numeric_def)
      have first: "consumed_from k c (rv_quantity r) {rv_id r} bs s t"
        and t: "t_reservations t = upd rv_id (r\<lparr>rv_status := RES_CONSUMED\<rparr>) (t_reservations s)"
        using update_reservation_consumed(1) [OF up r(1,2) Cons.prems(7,8), where k = k]
          update_reservationD(1) [OF up] sc k r(3)
        by (auto simp: stable_key_def res_code_def)
      have diff: "dsub rem (rv_quantity r) = rem - rv_quantity r"
        using numeric_dsub [OF Cons.prems(6) q(1)] by simp
      have "scaled 4 (rem - rv_quantity r)" using Cons.prems(6) q(1) by (auto simp: numeric_def)
      then have num: "numeric 14 4 (rem - rv_quantity r)"
        using True q(2) by (intro numeric_le [OF Cons.prems(6)]) auto
      have "x \<in> set (t_reservations t) \<and> rv_status x = RES_ACTIVE \<and> k x = c" if "x \<in> set rs" for x
      proof -
        have "rv_id x \<noteq> rv_id r" using Cons.prems(2) that by simp (metis imageI)
        then show ?thesis using Cons.prems(3) [of x] that by (force simp: t upd_def image_iff)
      qed
      then have "consumed_from k c (rem - rv_quantity r) (rv_id ` set rs) bs t s'"
        using rest Cons.prems(2,5) True num first unfolding diff
        by (intro Cons.IH) (auto simp: consumed_from_def)
      from consumed_from_trans [OF first this] show ?thesis by simp
    next
      case False
      with \<open>\<not> rem \<le> 0\<close> Cons.prems(1) obtain t t2 y where
        up: "update_reservation (r\<lparr>rv_quantity := dsub (rv_quantity r) rem\<rparr>) s = Inr t"
        and ins: "insert_reservation (consumed_part r rem u) t = Inr (y, t2)"
        and rest: "consume_reservations rs (dsub rem rem) u t2 = Inr s'"
        by (auto simp: run_simps min_def split: if_splits)
      have diff: "dsub (rv_quantity r) rem = rv_quantity r - rem"
        using numeric_dsub [OF q(1) Cons.prems(6)] by simp
      have "s' = t2" using rest by (cases rs) (simp_all add: dsub_def)
      have sc: "scaled 4 (rv_quantity r - rem)" using Cons.prems(6) q(1) by (auto simp: numeric_def)
      have first: "consumed_from k c rem {rv_id r} bs s t"
        using update_reservation_consumed(1) [OF up r(1,2) Cons.prems(7,8), where k = k] sc k r(2,3)
        by (auto simp: stable_key_def res_code_def diff)
      have "consumed_from k c 0 (rv_id ` set rs) bs t t2"
        using insert_reservation_consumed [OF ins, where bs = bs and k = k and c = c and ids = "rv_id ` set rs"]
          first q(3) Cons.prems(6)
        by (auto simp: consumed_part_def numeric_def consumed_from_def res_code_def)
      from consumed_from_trans [OF first this] show ?thesis using \<open>s' = t2\<close> by simp
    qed
  qed
qed

section \<open>Issues\<close>

lemma update_balance_issue:
  assumes up: "update_balance (b\<lparr>ba_on_hand_accepted := dsub (ba_on_hand_accepted b) q,
                 ba_reserved := dsub (ba_reserved b) d, ba_version := v\<rparr>) s = Inr s'"
    and ok: "balance_ok b" and sc: "scaled 4 q" "scaled 4 d"
  shows "s' = s\<lparr>t_balances := upd ba_id (b\<lparr>ba_on_hand_accepted := ba_on_hand_accepted b - q,
                 ba_reserved := ba_reserved b - d, ba_version := v\<rparr>) (t_balances s)\<rparr>"
    and "balance_ok (b\<lparr>ba_on_hand_accepted := ba_on_hand_accepted b - q,
           ba_reserved := ba_reserved b - d, ba_version := v\<rparr>)"
proof -
  have b: "scaled 4 (ba_on_hand_accepted b)" "scaled 4 (ba_reserved b)"
    using ok by (simp_all add: balance_ok_def numeric_def)
  from up obtain w1 w2 where "to_column 14 4 (dsub (ba_on_hand_accepted b) q) = Inr w1"
    "to_column 14 4 (dsub (ba_reserved b) d) = Inr w2"
    by (auto simp: update_balance_def bind_err_Inr)
  then have ex: "dsub (ba_on_hand_accepted b) q = ba_on_hand_accepted b - q"
    "dsub (ba_reserved b) d = ba_reserved b - d"
    using to_column_dsub(2) [OF b(1) sc(1)] to_column_dsub(2) [OF b(2) sc(2)] by force+
  have "scaled 4 (ba_on_hand_accepted b - q)" "scaled 4 (ba_reserved b - d)" using b sc by auto
  with update_balanceD [OF up [unfolded ex]]
  show "s' = s\<lparr>t_balances := upd ba_id (b\<lparr>ba_on_hand_accepted := ba_on_hand_accepted b - q,
                 ba_reserved := ba_reserved b - d, ba_version := v\<rparr>) (t_balances s)\<rparr>"
    and "balance_ok (b\<lparr>ba_on_hand_accepted := ba_on_hand_accepted b - q,
           ba_reserved := ba_reserved b - d, ba_version := v\<rparr>)"
    by simp_all
qed

text \<open>A selection of a balance's active reservations is worth at most what is reserved.\<close>

lemma sum_list_sort_key: "sum_list (map f (sort_key k xs)) = sum_list (map f xs :: rat list)"
  by (metis mset_map mset_sort sum_mset_sum_list)

lemma own_sum:
  assumes inv: "stock_ok s" and b: "b \<in> set (t_balances s)"
    and own: "own = sort_key key (filter P (t_reservations s))"
    and P: "\<And>r. P r \<Longrightarrow> rv_status r = RES_ACTIVE \<and> res_code r = code_of b"
  shows "dsum (map rv_quantity own) = sum_list (map rv_quantity own)"
    and "sum_list (map rv_quantity own) = tsum P rv_quantity (t_reservations s)"
    and "0 \<le> sum_list (map rv_quantity own)" and "sum_list (map rv_quantity own) \<le> ba_reserved b"
    and "scaled 4 (sum_list (map rv_quantity own))"
proof -
  note ok = stock_okD [OF inv]
  have res: "numeric 14 4 (rv_quantity r) \<and> 0 < rv_quantity r" if "r \<in> set (t_reservations s)" for r
    using ok(5) [OF that] by (simp add: reservation_ok_def)
  show sum: "sum_list (map rv_quantity own) = tsum P rv_quantity (t_reservations s)"
    by (simp add: own sum_list_sort_key tsum_def)
  show "0 \<le> sum_list (map rv_quantity own)"
    unfolding sum using res by (intro tsum_nonneg) (auto simp: less_imp_le)
  have "tsum P rv_quantity (t_reservations s) \<le> resv.booked (t_reservations s) (code_of b)"
    unfolding resv.booked_def using P res by (intro tsum_mono_pred) (auto simp: less_imp_le)
  then show le: "sum_list (map rv_quantity own) \<le> ba_reserved b"
    using resv.balancedD(4) [OF ok(1) b] sum by simp
  show "scaled 4 (sum_list (map rv_quantity own))"
    unfolding sum using res by (intro scaled_tsum) (auto simp: numeric_def)
  have "numeric 14 4 (ba_reserved b)" using ok(2) [OF b] by (simp add: balance_ok_def)
  then have "\<bar>ba_reserved b\<bar> * 10 ^ 4 < 10 ^ 14" by (rule numeric_abs)
  moreover have "0 \<le> ba_reserved b" using ok(2) [OF b] by (simp add: balance_ok_def)
  ultimately have "sum_list (map rv_quantity own) * 10 ^ 4 < 10 ^ 28" using le by simp
  then show "dsum (map rv_quantity own) = sum_list (map rv_quantity own)"
    using res by (intro dsum_exact [where s = 4]) (auto simp: own numeric_def less_imp_le)
qed

definition own_reservations :: "order option \<Rightarrow> uuid \<Rightarrow> db \<Rightarrow> reservation list" where
  "own_reservations ord m s =
     (case ord of None \<Rightarrow> [] | Some r \<Rightarrow> fst (lock_active_reservations r m s))"

lemma own_reservations_same: "stock_same s s' \<Longrightarrow> own_reservations ord m s' = own_reservations ord m s"
  by (simp add: own_reservations_def lock_active_reservations_def Let_def stock_same_def split: option.splits)

lemma own_reservations_sum:
  assumes inv: "stock_ok s" and b: "b \<in> set (t_balances s)"
    and code: "code_of b = (f, m)" and ord: "\<And>r. ord = Some r \<Longrightarrow> or_factory_id r = f"
  shows "dsum (map rv_quantity (own_reservations ord m s)) = sum_list (map rv_quantity (own_reservations ord m s))"
    and "0 \<le> sum_list (map rv_quantity (own_reservations ord m s))"
    and "sum_list (map rv_quantity (own_reservations ord m s)) \<le> ba_reserved b"
    and "scaled 4 (sum_list (map rv_quantity (own_reservations ord m s)))"
proof -
  have *: "ba_reserved b \<ge> 0" using stock_okD(2) [OF inv b] by (simp add: balance_ok_def)
  have "dsum (map rv_quantity (own_reservations ord m s)) = sum_list (map rv_quantity (own_reservations ord m s)) \<and>
    0 \<le> sum_list (map rv_quantity (own_reservations ord m s)) \<and>
    sum_list (map rv_quantity (own_reservations ord m s)) \<le> ba_reserved b \<and>
    scaled 4 (sum_list (map rv_quantity (own_reservations ord m s)))"
  proof (cases ord)
    case None
    then show ?thesis using * by (simp add: own_reservations_def)
  next
    case (Some r)
    have own: "own_reservations ord m s = sort_key (\<lambda>r. (rv_created_at r, rv_id r))
        (filter (\<lambda>x. rv_order_id x = or_id r \<and> rv_material_id x = m \<and>
           rv_factory_id x = or_factory_id r \<and> rv_status x = RES_ACTIVE) (t_reservations s))"
      by (simp add: Some own_reservations_def lock_active_reservations_def Let_def)
    note o = own_sum [OF inv b own]
    show ?thesis using o ord [OF Some] code by (simp add: res_code_def)
  qed
  then show "dsum (map rv_quantity (own_reservations ord m s)) = sum_list (map rv_quantity (own_reservations ord m s))"
    "0 \<le> sum_list (map rv_quantity (own_reservations ord m s))"
    "sum_list (map rv_quantity (own_reservations ord m s)) \<le> ba_reserved b"
    "scaled 4 (sum_list (map rv_quantity (own_reservations ord m s)))" by blast+
qed

lemma record_issueD:
  assumes inv: "stock_ok s" and run: "record_issue p f m i quantity oid reason s = Inr (x, s')"
  obtains factory material ord q b lot s3 s4 s5 s6 d where
    "positive_quantity quantity ''quantity'' = Inr q" "optional_order oid factory s = Inr ord"
    "org_material (p_organization_id p) m s = Inr material" "load_factory f p ''inventory:write'' s = Inr factory"
    "stock_ok s3" "b \<in> set (t_balances s3)" "code_of b = (fa_id factory, ma_id material)"
    "lot \<in> set (t_lots s3)" "lot_code_of lot = code_of b" "lo_status lot = LOT_ACCEPTED"
    "\<not> lot_net (lo_id lot) s3 < q" "t_reservations s3 = t_reservations s"
    "d = min q (dsum (map rv_quantity (own_reservations ord (ma_id material) s3)))"
    "consume_reservations (own_reservations ord (ma_id material) s3) d (p_user_id p) s4 = Inr s5"
    "stock_same s3 s4"
    "insert_movement (issue_movement factory material lot q ord reason p) s5 = Inr (x, s6)"
    "\<exists>s7. update_balance (b\<lparr>ba_on_hand_accepted := dsub (ba_on_hand_accepted b) q,
       ba_reserved := dsub (ba_reserved b) d, ba_version := ba_version b + 1\<rparr>) s6 = Inr s7 \<and> stock_same s7 s'"
proof -
  from run obtain factory q material lot0 ord locked s1 b s2 lot s3 own s4 s5 s6 s7 where
      r: "load_factory f p ''inventory:write'' s = Inr factory" "positive_quantity quantity ''quantity'' = Inr q"
      "org_material (p_organization_id p) m s = Inr material" "optional_order oid factory s = Inr ord"
    and l0: "row lo_id i (t_lots s) = Some lot0" "lo_factory_id lot0 = fa_id factory" "lo_material_id lot0 = ma_id material"
    and lo: "lock_orders_using_materials (fa_id factory) [ma_id material]
               (case ord of None \<Rightarrow> [] | Some r \<Rightarrow> [or_id r]) s = (locked, s1)"
    and lb: "lock_balance_for (fa_organization_id factory) (fa_id factory) (ma_id material) s1 = Inr (b, s2)"
    and ll: "lock_lot (lo_id lot0) s2 = Inr (lot, s3)"
    and st: "lo_status lot = LOT_ACCEPTED" "\<not> lot_net (lo_id lot) s3 < q"
    and own: "(case ord of None \<Rightarrow> ([], s3) | Some r \<Rightarrow> lock_active_reservations r (ma_id material) s3) = (own, s4)"
    and con: "consume_reservations own (min q (dsum (map rv_quantity own))) (p_user_id p) s4 = Inr s5"
    and ins: "insert_movement (issue_movement factory material lot q ord reason p) s5 = Inr (x, s6)"
    and up: "update_balance (b\<lparr>ba_on_hand_accepted := dsub (ba_on_hand_accepted b) q,
       ba_reserved := dsub (ba_reserved b) (min q (dsum (map rv_quantity own))),
       ba_version := ba_version b + 1\<rparr>) s6 = Inr s7"
    and fin: "stock_same s7 s'"
    by (auto simp: record_issue_def run_simps dest!: refresh_audited)
  note o = command_openD [OF inv lo lb]
  have lot: "lot \<in> set (t_lots s2)" "lo_id lot = lo_id lot0" and same: "stock_same s2 s3"
    using ll by (auto simp: lock_lot_def bind_err_Inr dest: row_SomeD)
  have "lot = lot0" using lot row_in_set [OF l0(1)] o(4) stock_okD(6) [OF inv] by (metis distinct_map inj_onD)
  then have code: "lot_code_of lot = code_of b" using o(3) l0(2,3) by (simp add: lot_code_of_def)
  have s3: "stock_ok s3" "b \<in> set (t_balances s3)" "lot \<in> set (t_lots s3)" "t_reservations s3 = t_reservations s"
    using stock_same_ok [OF same] o same lot by (simp_all add: stock_same_def)
  have own': "own = own_reservations ord (ma_id material) s3" and s4: "stock_same s3 s4"
    using own by (auto simp: own_reservations_def lock_active_reservations_def Let_def stock_same_def
        take_locks_def split: option.splits)
  show thesis
    by (rule that [OF r(2,4,3,1) s3(1,2) o(3) s3(3) code st s3(4) refl _ s4 ins])
      (use con up fin in \<open>auto simp: own'\<close>)
qed

lemma own_reservations_member:
  assumes "stock_ok s"
  shows "r \<in> set (own_reservations ord m s) \<longleftrightarrow>
           r \<in> set (t_reservations s) \<and> rv_status r = RES_ACTIVE \<and> rv_material_id r = m \<and>
           (\<exists>x. ord = Some x \<and> rv_order_id r = or_id x \<and> rv_factory_id r = or_factory_id x)"
    and "distinct (map rv_id (own_reservations ord m s))"
  using stock_okD(10) [OF assms]
  by (auto simp: own_reservations_def lock_active_reservations_def Let_def distinct_map
      intro: inj_on_subset split: option.splits)

lemma optional_order_factory: "optional_order oid factory s = Inr (Some r) \<Longrightarrow> or_factory_id r = fa_id factory"
  by (auto simp: optional_order_def split: option.splits if_splits)

text \<open>The consumption of an issue, counted by any key that its own reservations share.\<close>

lemma issue_consumes:
  assumes inv: "stock_ok s" and b: "b \<in> set (t_balances s)" and code: "code_of b = (f, m)"
    and ord: "\<And>r. ord = Some r \<Longrightarrow> or_factory_id r = f"
    and d: "d = min q (dsum (map rv_quantity (own_reservations ord m s)))" and q: "scaled 4 q" "0 < q"
    and con: "consume_reservations (own_reservations ord m s) d u s = Inr s'"
    and k: "stable_key k" "\<And>r. r \<in> set (own_reservations ord m s) \<Longrightarrow> k r = c"
  shows "consumed_from k c d (rv_id ` set (own_reservations ord m s)) (t_balances s) s s'"
    and "0 \<le> d" and "d \<le> ba_reserved b" and "scaled 4 d"
proof -
  let ?own = "own_reservations ord m s"
  note own = own_reservations_sum [where ord = ord, OF inv b code ord]
  show dn: "0 \<le> d" and sc: "scaled 4 d" and le: "d \<le> ba_reserved b"
    using own q by (auto simp: d min_def)
  have "numeric 14 4 (ba_reserved b)" using stock_okD(2) [OF inv b] by (simp add: balance_ok_def)
  from numeric_le [OF this sc] have "numeric 14 4 d" using dn le by simp
  moreover have "d \<le> sum_list (map rv_quantity ?own)" by (simp add: d own(1))
  ultimately show "consumed_from k c d (rv_id ` set ?own) (t_balances s) s s'"
    using own_reservations_member [OF inv] stock_okD [OF inv] dn k
    by (intro consume_ok [OF con]) auto
qed

lemma record_issue_ok:
  assumes inv: "stock_ok s" and run: "record_issue p f m i quantity oid reason s = Inr (x, s')"
  shows "stock_ok s'"
proof -
  from inv run obtain factory material ord q b lot s3 s4 s5 s6 s7 d where
      q: "positive_quantity quantity ''quantity'' = Inr q" and oo: "optional_order oid factory s = Inr ord"
    and s3: "stock_ok s3" "b \<in> set (t_balances s3)" and code: "code_of b = (fa_id factory, ma_id material)"
    and lot: "lot \<in> set (t_lots s3)" "lot_code_of lot = code_of b" "lo_status lot = LOT_ACCEPTED"
    and net: "\<not> lot_net (lo_id lot) s3 < q"
    and d: "d = min q (dsum (map rv_quantity (own_reservations ord (ma_id material) s3)))"
    and con: "consume_reservations (own_reservations ord (ma_id material) s3) d (p_user_id p) s4 = Inr s5"
    and s4: "stock_same s3 s4"
    and ins: "insert_movement (issue_movement factory material lot q ord reason p) s5 = Inr (x, s6)"
    and up: "update_balance (b\<lparr>ba_on_hand_accepted := dsub (ba_on_hand_accepted b) q,
       ba_reserved := dsub (ba_reserved b) d, ba_version := ba_version b + 1\<rparr>) s6 = Inr s7"
    and fin: "stock_same s7 s'"
    by (rule record_issueD) blast
  have q': "scaled 4 q" "0 < q" using positive_quantityD [OF q] by auto
  have own_same: "own_reservations ord (ma_id material) s4 = own_reservations ord (ma_id material) s3"
    using own_reservations_same [OF s4] .
  have s4': "stock_ok s4" "b \<in> set (t_balances s4)" "lot \<in> set (t_lots s4)" "lot_net (lo_id lot) s4 = lot_net (lo_id lot) s3"
    using s3 lot stock_same_ok [OF s4] s4 by (simp_all add: stock_same_def lot_net_def)
  have fac: "or_factory_id r = fa_id factory" if "ord = Some r" for r
    using oo that by (auto dest: optional_order_factory)
  have code_own: "res_code r = code_of b" if "r \<in> set (own_reservations ord (ma_id material) s4)" for r
    using that own_reservations_member(1) [OF s4'(1)] fac code by (auto simp: res_code_def)
  note c = issue_consumes [OF s4'(1,2) code fac d [folded own_same] q' con [folded own_same] stable_res_code code_own]
  note ok = stock_okD [OF s4'(1)]
  have "scaled 4 (mv_quantity (issue_movement factory material lot q ord reason p))"
    using q'(1) by (simp add: issue_movement_def scaled_minus)
  note i = insert_movementD [OF ins this]
  let ?b = "b\<lparr>ba_on_hand_accepted := ba_on_hand_accepted b - q, ba_reserved := ba_reserved b - d,
    ba_version := ba_version b + 1\<rparr>"
  have s5: "t_movements s5 = t_movements s4" "t_lots s5 = t_lots s4" "t_balances s5 = t_balances s4"
    using c(1) by (simp_all add: consumed_from_def)
  have x: "mv_lot_id x = Some (lo_id lot)" "move_code x = code_of b" "mv_quantity x = - q"
    "numeric 14 4 (mv_quantity x)" "mv_id x \<notin> mv_id ` set (t_movements s4)"
    and s6: "t_movements s6 = t_movements s4 @ [x]" "t_lots s6 = t_lots s4" "t_balances s6 = t_balances s4"
    "t_reservations s6 = t_reservations s5"
    using i q' code by (auto simp: issue_movement_def move_code_def s5)
  note u = update_balance_issue [OF up ok(2) [OF s4'(2)] q'(1) c(4)]
  have t: "t_balances s7 = upd ba_id ?b (t_balances s4)" "t_lots s7 = t_lots s4"
    "t_movements s7 = t_movements s4 @ [x]" "t_reservations s7 = t_reservations s5"
    using u(1) s6 by simp_all
  have sums: "active_sum res_code (t_reservations s5) c' =
      active_sum res_code (t_reservations s4) c' - (if c' = code_of b then d else 0)" for c'
    using c(1) unfolding consumed_from_def by blast
  have dist: "distinct (map rv_id (t_reservations s5))" using c(1) by (simp add: consumed_from_def)
  have bal: "resv.balanced (t_reservations s5) (upd ba_id ?b (t_balances s4))"
    using sums dist by (intro resv.balanced_change [OF ok(1) s4'(2), where d = "- d"])
      (simp_all add: booked_active_sum code_of_def)
  have ress: "reservation_ok (t_balances s4) r" if "r \<in> set (t_reservations s5)" for r
    using c(1) that by (simp add: consumed_from_def)
  have net': "0 \<le> net_of (t_movements s4) (lo_id lot) + mv_quantity x"
    using net s4'(4) by (simp add: x(3) lot_net_of)
  have "stock_ok s7"
    by (rule stock_ok_move [OF s4'(1,2,3) lot(2) x(1,2,4,5) net', of ?b])
      (use u(2) lot(3) bal ress in \<open>simp_all add: t x(3) code_of_def\<close>)
  then show ?thesis using stock_same_ok [OF fin] by simp
qed

section \<open>Reserving and releasing\<close>

lemma update_balance_charge:
  assumes up: "update_balance (charge_balance d b) s = Inr s'" and ok: "balance_ok b" and sc: "scaled 4 d"
  shows "balance_fits b d" and "s' = s\<lparr>t_balances := upd ba_id (charge_balance d b) (t_balances s)\<rparr>"
    and "balance_ok (charge_balance d b)"
proof -
  have b: "scaled 4 (ba_on_hand_accepted b)" "scaled 4 (ba_reserved b)"
    using ok by (simp_all add: balance_ok_def numeric_def)
  from up obtain w where "to_column 14 4 (dadd (ba_reserved b) d) = Inr w"
    by (auto simp: update_balance_def bind_err_Inr charge_balance_def)
  then have ex: "dadd (ba_reserved b) d = ba_reserved b + d"
    using to_column_dadd(2) [OF b(2) sc] by force
  then show "balance_fits b d" by (simp add: balance_fits_def)
  have "scaled 4 (ba_on_hand_accepted (charge_balance d b))" "scaled 4 (ba_reserved (charge_balance d b))"
    using b sc by (auto simp: charge_balance_def ex)
  with update_balanceD [OF up]
  show "s' = s\<lparr>t_balances := upd ba_id (charge_balance d b) (t_balances s)\<rparr>"
    and "balance_ok (charge_balance d b)" by simp_all
qed

lemma charge_balance_keys [simp]:
  "ba_id (charge_balance d b) = ba_id b" "code_of (charge_balance d b) = code_of b"
  "ba_on_hand_accepted (charge_balance d b) = ba_on_hand_accepted b"
  by (simp_all add: charge_balance_def code_of_def)

lemma reserve_material_ok:
  assumes inv: "stock_ok s" and run: "reserve_material org f m oid quantity actor rec s = Inr (r, s')"
  shows "stock_ok s'"
proof -
  from run obtain q b s1 s2 s3 where q: "positive_quantity quantity ''quantity'' = Inr q"
    and lb: "lock_balance_for org f m s = Inr (b, s1)"
    and ins: "insert_reservation
       \<lparr>rv_id = 0, rv_organization_id = org, rv_factory_id = f,
        rv_material_id = m, rv_order_id = oid, rv_quantity = q,
        rv_status = RES_ACTIVE, rv_recommendation_id = rec,
        rv_created_by = actor, rv_created_at = 0\<rparr> s1 = Inr (r, s2)"
    and up: "update_balance (charge_balance q b) s2 = Inr s3" and fin: "audited s3 s'"
    by (auto simp: reserve_material_def run_simps inventory_audit_def)
  note o = lock_balance_forD [OF inv lb]
  note ok = stock_okD [OF o(1)]
  have q': "scaled 4 q" using positive_quantityD [OF q] by simp
  note i = insert_reservationD [OF ins]
  have mem: "(f, m) \<in> code_of ` set (t_balances s1)" using o(3,4) by (metis imageI)
  have r: "rv_quantity r = q" "res_code r = code_of b" "rv_status r = RES_ACTIVE"
    "rv_id r \<notin> rv_id ` set (t_reservations s1)" "reservation_ok (t_balances s1) r"
    and s2: "t_reservations s2 = t_reservations s1 @ [r]" "t_balances s2 = t_balances s1"
      "t_lots s2 = t_lots s1" "t_movements s2 = t_movements s1"
    using i q' o(4) mem by (auto simp: res_code_def reservation_ok_def)
  note u = update_balance_charge [OF up ok(2) [OF o(3)] q']
  have s3: "t_reservations s3 = t_reservations s1 @ [r]" "t_balances s3 = upd ba_id (charge_balance q b) (t_balances s1)"
      "t_lots s3 = t_lots s1" "t_movements s3 = t_movements s1"
    using u(2) s2 by simp_all
  have "resv.balanced (t_reservations s1 @ [r]) (upd ba_id (charge_balance (rv_quantity r) b) (t_balances s1))"
    using resv.balanced_book [OF ok(1) o(3) r(4,3,2)] u(1) r(1) by simp
  then have "stock_ok s3"
    using u(3) ok(5) r(5)
    by (intro stock_ok_reserved [OF o(1,3), of "charge_balance q b"]) (auto simp: s3 r(1))
  then show ?thesis using stock_same_ok [OF stock_same_audited [OF fin]] by simp
qed

lemma create_reservation_ok:
  assumes inv: "stock_ok s" and run: "create_reservation p f m oid quantity s = Inr (r, s')"
  shows "stock_ok s'"
proof -
  from run obtain factory material ord locked s1 s2 where
      ld: "load_factory f p ''inventory:write'' s = Inr factory"
      "org_material (p_organization_id p) m s = Inr material" "row or_id oid (t_orders s) = Some ord"
    and lo: "lock_orders_using_materials (fa_id factory) [ma_id material] [or_id ord] s = (locked, s1)"
    and re: "reserve_material (fa_organization_id factory) (fa_id factory) (ma_id material)
          (or_id ord) quantity (Some (p_user_id p)) None s1 = Inr (r, s2)" and fin: "stock_same s2 s'"
    by (auto simp: create_reservation_def run_simps dest!: refresh_lockedD)
  have "stock_ok s1"
    using stock_same_ok [OF stock_same_lock_orders(2)] lo inv by (metis snd_conv)
  from reserve_material_ok [OF this re] show ?thesis using stock_same_ok [OF fin] by simp
qed

lemma release_one_reservation_ok:
  assumes inv: "stock_ok s" and b: "b \<in> set (t_balances s)"
    and r: "r \<in> set (t_reservations s)" "rv_status r = RES_ACTIVE" "res_code r = code_of b"
    and s': "t_reservations s' = upd rv_id (r\<lparr>rv_status := RES_RELEASED\<rparr>) (t_reservations s)"
      "t_balances s' = upd ba_id (charge_balance (- rv_quantity r) b) (t_balances s)"
      "t_lots s' = t_lots s" "t_movements s' = t_movements s"
  shows "stock_ok s'" and "balance_fits b (- rv_quantity r)"
proof -
  note ok = stock_okD [OF inv]
  have q: "numeric 14 4 (rv_quantity r)" "0 < rv_quantity r"
    using ok(5) [OF r(1)] by (simp_all add: reservation_ok_def)
  have bok: "balance_ok b" using ok(2) [OF b] .
  then have nb: "numeric 14 4 (ba_reserved b)" by (simp add: balance_ok_def)
  show fits: "balance_fits b (- rv_quantity r)"
    using numeric_dadd [OF nb numeric_minus [OF q(1)]] by (simp add: balance_fits_def)
  have "0 \<le> rv_quantity x" if "x \<in> set (t_reservations s)" for x
    using ok(5) [OF that] by (simp add: reservation_ok_def)
  then have "rv_quantity r \<le> resv.booked (t_reservations s) (res_code r)"
    using r by (intro resv.booked_member) auto
  then have le: "rv_quantity r \<le> ba_reserved b" using resv.balancedD(4) [OF ok(1) b] r(3) by simp
  have "scaled 4 (ba_reserved b - rv_quantity r)" using nb q(1) by (auto simp: numeric_def)
  then have "numeric 14 4 (ba_reserved b - rv_quantity r)" using q(2) le by (intro numeric_le [OF nb]) auto
  then have ok': "balance_ok (charge_balance (- rv_quantity r) b)"
    using bok fits le q(2) by (simp add: balance_ok_def charge_balance_def balance_fits_def)
  have "resv.balanced (t_reservations s') (t_balances s')"
    unfolding s' using resv.balanced_release [OF ok(1) b, of "r\<lparr>rv_status := RES_RELEASED\<rparr>" r]
      row_distinct [OF ok(10) r(1)] r fits by (simp add: res_code_def)
  moreover have "reservation_ok (t_balances s) x" if "x \<in> set (t_reservations s')" for x
    using set_upd_subset [of x rv_id] that ok(5) r(1) s'(1) by (fastforce simp: reservation_ok_def res_code_def)
  ultimately show "stock_ok s'"
    by (intro stock_ok_reserved [OF inv b _ _ ok' _ s'(2-4)]) simp_all
qed

lemma release_reservation_ok:
  assumes inv: "stock_ok s" and run: "release_reservation p i s = Inr (r', s')"
  shows "stock_ok s'"
proof -
  from run obtain scoped locked s1 b s2 r s3 s4 where
      ld: "load_reservation i p ''inventory:write'' s = Inr scoped"
    and lo: "lock_orders_using_materials (rv_factory_id scoped) [rv_material_id scoped]
               [rv_order_id scoped] s = (locked, s1)"
    and lb: "lock_balance_for (rv_organization_id scoped) (rv_factory_id scoped)
               (rv_material_id scoped) s1 = Inr (b, s2)"
    and r: "row rv_id (rv_id scoped) (t_reservations s2) = Some r" "rv_status r = RES_ACTIVE"
    and up: "update_reservation (r\<lparr>rv_status := RES_RELEASED\<rparr>) (take_locks [LockReservation (rv_id r)] s2) = Inr s3"
      "update_balance (charge_balance (- rv_quantity r) b) s3 = Inr s4" and fin: "stock_same s4 s'"
    by (auto simp: release_reservation_def run_simps dest!: refresh_audited)
  note o = command_openD [OF inv lo lb]
  note ok = stock_okD [OF o(1)]
  have scoped: "scoped \<in> set (t_reservations s)"
    using ld by (auto simp: load_defs dest: load_scoped_cases(1) [THEN row_in_set])
  have rin: "r \<in> set (t_reservations s2)" "rv_id r = rv_id scoped" using r(1) by (auto dest: row_SomeD)
  then have "r = scoped" using scoped o(6) ok(10) by (metis distinct_map inj_onD)
  then have code: "res_code r = code_of b" using o(3) by (simp add: res_code_def)
  have sc: "scaled 4 (rv_quantity r)" using ok(5) [OF rin(1)] by (simp add: reservation_ok_def numeric_def)
  have s3: "t_reservations s3 = upd rv_id (r\<lparr>rv_status := RES_RELEASED\<rparr>) (t_reservations s2)"
    "t_balances s3 = t_balances s2" "t_lots s3 = t_lots s2" "t_movements s3 = t_movements s2"
    using update_reservationD(1) [OF up(1)] sc by (simp_all add: take_locks_def)
  note u = update_balance_charge [OF up(2) ok(2) [OF o(2)] scaled_minus [OF sc]]
  have "stock_ok s4"
    using u(2) sc s3 by (intro release_one_reservation_ok(1) [OF o(1,2) rin(1) r(2) code]) auto
  then show ?thesis using stock_same_ok [OF fin] by simp
qed

section \<open>Releasing what an order holds\<close>

definition release_all_res :: "reservation list \<Rightarrow> reservation list \<Rightarrow> reservation list" where
  "release_all_res rs rows = mark rv_id (\<lambda>r. r\<lparr>rv_status := RES_RELEASED\<rparr>) (rv_id ` set rs) rows"

lemma active_balance:
  assumes "stock_ok s" and "r \<in> set (t_reservations s)" and "rv_factory_id r = f"
  obtains b where "balance_of f (rv_material_id r) s = Some b" "b \<in> set (t_balances s)" "code_of b = res_code r"
proof -
  have "res_code r \<in> code_of ` set (t_balances s)"
    using stock_okD(5) [OF assms(1,2)] by (simp add: reservation_ok_def)
  then obtain b where b: "balance_of f (rv_material_id r) s = Some b"
    using balance_ofD(2) [of f "rv_material_id r" s] assms(3)
    by (cases "balance_of f (rv_material_id r) s") (auto simp: res_code_def)
  with balance_ofD(1) [OF b] that assms(3) show thesis by (simp add: res_code_def)
qed

lemma release_res_loop_ok:
  assumes "stock_ok s" and "distinct (map rv_id rs)"
    and "\<And>r. r \<in> set rs \<Longrightarrow> r \<in> set (t_reservations s) \<and> rv_status r = RES_ACTIVE \<and> rv_factory_id r = f"
  shows "stock_ok (release_reservations_loop f rs s) \<and>
         (\<exists>bs. release_reservations_loop f rs s =
            s\<lparr>t_balances := bs, t_reservations := release_all_res rs (t_reservations s)\<rparr>)"
  using assms
proof (induction rs arbitrary: s)
  case Nil
  then show ?case by (auto simp: release_all_res_def intro!: exI [of _ "t_balances s"])
next
  case (Cons r rs)
  have r: "r \<in> set (t_reservations s)" "rv_status r = RES_ACTIVE" "rv_factory_id r = f"
    using Cons.prems(3) [of r] by simp_all
  obtain b where b: "balance_of f (rv_material_id r) s = Some b" "b \<in> set (t_balances s)"
    "code_of b = res_code r" using active_balance [OF Cons.prems(1) r(1,3)] .
  define s1 where "s1 = s\<lparr>t_balances := upd ba_id (charge_balance (- rv_quantity r) b) (t_balances s),
    t_reservations := upd rv_id (r\<lparr>rv_status := RES_RELEASED\<rparr>) (t_reservations s)\<rparr>"
  have "dsub (ba_reserved b) (rv_quantity r) = dadd (ba_reserved b) (- rv_quantity r)"
    by (simp add: dsub_def dadd_def)
  then have step: "release_reservations_loop f (r # rs) s = release_reservations_loop f rs s1"
    by (simp add: b(1) s1_def charge_balance_def)
  have ok1: "stock_ok s1"
    by (rule release_one_reservation_ok(1) [OF Cons.prems(1) b(2) r(1,2) b(3) [symmetric]])
      (simp_all add: s1_def)
  have rest: "x \<in> set (t_reservations s1) \<and> rv_status x = RES_ACTIVE \<and> rv_factory_id x = f"
    if "x \<in> set rs" for x
    using Cons.prems(2) Cons.prems(3) [of x] that by (force simp: s1_def upd_def image_iff)
  have "release_all_res rs (t_reservations s1) = release_all_res (r # rs) (t_reservations s)"
    using mark_upd [OF stock_okD(10) [OF Cons.prems(1)] r(1), of "\<lambda>r. r\<lparr>rv_status := RES_RELEASED\<rparr>"
      "rv_id ` set rs"] Cons.prems(2) by (simp add: release_all_res_def s1_def)
  with Cons.IH [OF ok1 _ rest] Cons.prems(2) show ?case
    unfolding step by (auto simp: s1_def)
qed

lemma flush_balances_clean:
  assumes "stock_ok s"
  shows "flush_balances is s = Inr s"
proof (induction "is")
  case (Cons i "is")
  show ?case
  proof (cases "row ba_id i (t_balances s)")
    case (Some b)
    then have b: "b \<in> set (t_balances s)" by (rule row_in_set)
    have "balance_ok b" using stock_okD(2) [OF assms b] .
    then have "update_balance b s = Inr s"
      using upd_same [OF stock_okD(9) [OF assms] b]
      by (auto simp: update_balance_def balance_ok_def bind_err_Inr to_column_scaled numeric_scaled)
    with Some Cons show ?thesis by simp
  qed (simp add: Cons)
qed simp

definition reservations_released :: "uuid \<Rightarrow> db \<Rightarrow> reservation list" where
  "reservations_released oid s =
     map (\<lambda>r. if rv_order_id r = oid \<and> rv_status r = RES_ACTIVE
              then r\<lparr>rv_status := RES_RELEASED\<rparr> else r) (t_reservations s)"

lemma release_reservations_run:
  assumes inv: "stock_ok s"
    and fac: "\<And>r. r \<in> set (t_reservations s) \<Longrightarrow> rv_order_id r = or_id ord \<Longrightarrow> rv_factory_id r = or_factory_id ord"
  shows "\<exists>released s' bs lks. release_order_reservations ord s = Inr (released, s') \<and> stock_ok s' \<and>
           s' = s\<lparr>t_balances := bs, t_reservations := reservations_released (or_id ord) s, locks := lks\<rparr>"
proof (cases "reserved_materials_of ord s = []")
  case True
  then have "\<not> (rv_order_id r = or_id ord \<and> rv_status r = RES_ACTIVE)" if "r \<in> set (t_reservations s)" for r
    using that by (auto simp: reserved_materials_of_def filter_empty_conv)
  then have "map (\<lambda>r. if rv_order_id r = or_id ord \<and> rv_status r = RES_ACTIVE
                      then r\<lparr>rv_status := RES_RELEASED\<rparr> else r) (t_reservations s) = t_reservations s"
    by (intro map_idI) auto
  then have "reservations_released (or_id ord) s = t_reservations s" by (simp only: reservations_released_def)
  then show ?thesis using True inv
    by (intro exI [of _ "[]"] exI [of _ s] exI [of _ "t_balances s"] exI [of _ "locks s"])
      (simp add: release_order_reservations_def)
next
  case False
  note ok = stock_okD [OF inv]
  let ?ms = "reserved_materials_of ord s"
  define ids where "ids = map ba_id (filter (\<lambda>b. ba_factory_id b = or_factory_id ord \<and>
    ba_material_id b \<in> set ?ms) (t_balances s))"
  define bs where "bs = fst (lock_balances ids s)"
  define s1 where "s1 = snd (lock_balances ids s)"
  define rs where "rs = active_reservations_of ord s1"
  define s2 where "s2 = take_locks (map (LockReservation \<circ> rv_id) rs) s1"
  have same: "stock_same s s2" "t_reservations s1 = t_reservations s"
    by (simp_all add: s2_def s1_def lock_balances_def take_locks_def Let_def stock_same_def)
  have inv2: "stock_ok s2" using stock_same_ok [OF same(1)] inv by simp
  have mem: "r \<in> set rs \<longleftrightarrow> r \<in> set (t_reservations s) \<and> rv_order_id r = or_id ord \<and> rv_status r = RES_ACTIVE" for r
    using same(2) by (auto simp: rs_def active_reservations_of_def)
  have dist: "distinct (map rv_id rs)"
    using ok(10) same(2) by (simp add: rs_def active_reservations_of_def distinct_map inj_on_def)
  let ?loop = "release_reservations_loop (or_factory_id ord) rs s2"
  define lks where "lks = locks s2"
  have s2: "s2 = s\<lparr>locks := lks\<rparr>"
    by (simp add: lks_def s2_def s1_def lock_balances_def take_locks_def Let_def)
  have rs_in: "r \<in> set (t_reservations s2) \<and> rv_status r = RES_ACTIVE \<and> rv_factory_id r = or_factory_id ord"
    if "r \<in> set rs" for r
    using mem same fac that by (simp add: stock_same_def)
  obtain bs' where loop: "stock_ok ?loop"
    "?loop = s2\<lparr>t_balances := bs', t_reservations := release_all_res rs (t_reservations s)\<rparr>"
    using release_res_loop_ok [OF inv2 dist rs_in] same by (auto simp: stock_same_def)
  have locked: "rv_material_id r \<in> ba_material_id ` set bs" if r: "r \<in> set rs" for r
  proof -
    have rin: "r \<in> set (t_reservations s)" "rv_factory_id r = or_factory_id ord" using r mem fac by auto
    obtain b where b: "b \<in> set (t_balances s)" "code_of b = res_code r"
      using active_balance [OF inv rin] by blast
    have "rv_material_id r \<in> set ?ms" using r mem by (auto simp: reserved_materials_of_def)
    then have "b \<in> set bs" using b rin(2) set_rows_by_id [OF ok(9), of ids]
      by (auto simp: bs_def lock_balances_def Let_def ids_def code_of_def res_code_def)
    then show ?thesis using b(2) by (force simp: code_of_def res_code_def)
  qed
  have run: "release_order_reservations ord s = Inr (map (\<lambda>r. r\<lparr>rv_status := RES_RELEASED\<rparr>) rs, ?loop)"
    using False locked flush_balances_clean [OF loop(1)]
    by (auto simp: release_order_reservations_def Let_def list_ex_iff case_prod_beta
        simp flip: ids_def bs_def s1_def rs_def s2_def)
  have "rv_id x \<in> rv_id ` set rs \<longleftrightarrow> rv_order_id x = or_id ord \<and> rv_status x = RES_ACTIVE"
    if "x \<in> set (t_reservations s)" for x
    using that ok(10) mem by (auto simp: distinct_map dest: inj_onD)
  then have "release_all_res rs (t_reservations s) = reservations_released (or_id ord) s"
    by (simp add: release_all_res_def mark_def reservations_released_def)
  then have "?loop =
      s\<lparr>t_balances := bs', t_reservations := reservations_released (or_id ord) s, locks := lks\<rparr>"
    unfolding loop(2) by (simp add: s2)
  with run loop(1) show ?thesis by blast
qed

text \<open>
  C14. Releasing everything an order holds always succeeds on sound books, whose bookings are
  all in the order's factory: exactly its active reservations become released, nothing else
  in the table changes, and the books stay sound.
\<close>

theorem release_reservations_total:
  assumes inv: "stock_ok s"
    and fac: "\<And>r. r \<in> set (t_reservations s) \<Longrightarrow> rv_order_id r = or_id ord \<Longrightarrow> rv_factory_id r = or_factory_id ord"
  shows "\<exists>released s'. release_order_reservations ord s = Inr (released, s') \<and> stock_ok s' \<and>
           t_reservations s' =
             map (\<lambda>r. if rv_order_id r = or_id ord \<and> rv_status r = RES_ACTIVE
                      then r\<lparr>rv_status := RES_RELEASED\<rparr> else r) (t_reservations s)"
  using release_reservations_run [OF inv fac] by (force simp: reservations_released_def)

section \<open>Sequences of commands\<close>

text \<open>One committed inventory command; a failed one is rolled back and changes nothing.\<close>

inductive stock_step :: "db \<Rightarrow> db \<Rightarrow> bool" where
  receipt: "record_receipt p f m lot quantity accept s = Inr (x, s') \<Longrightarrow> stock_step s s'"
| acceptance: "accept_lot p i s = Inr (l, s') \<Longrightarrow> stock_step s s'"
| issue: "record_issue p f m i quantity oid reason s = Inr (x, s') \<Longrightarrow> stock_step s s'"
| correction: "record_correction p i delta reason s = Inr (x, s') \<Longrightarrow> stock_step s s'"
| reservation: "create_reservation p f m oid quantity s = Inr (r, s') \<Longrightarrow> stock_step s s'"
| proposal_reservation:
    "reserve_material org f m oid quantity actor rec s = Inr (r, s') \<Longrightarrow> stock_step s s'"
| release: "release_reservation p i s = Inr (r, s') \<Longrightarrow> stock_step s s'"
| order_release:
    "release_order_reservations ord s = Inr (rs, s') \<Longrightarrow>
     (\<And>r. r \<in> set (t_reservations s) \<Longrightarrow> rv_order_id r = or_id ord \<Longrightarrow> rv_factory_id r = or_factory_id ord) \<Longrightarrow>
     stock_step s s'"
| elsewhere: "stock_same s s' \<Longrightarrow> stock_step s s'"

lemma release_order_reservations_ok:
  assumes "stock_ok s" and "release_order_reservations ord s = Inr (rs, s')"
    and "\<And>r. r \<in> set (t_reservations s) \<Longrightarrow> rv_order_id r = or_id ord \<Longrightarrow> rv_factory_id r = or_factory_id ord"
  shows "stock_ok s'"
proof -
  obtain released s2 where "release_order_reservations ord s = Inr (released, s2)" "stock_ok s2"
    using release_reservations_run [of s ord] assms(1,3) by blast
  with assms(2) show ?thesis by simp
qed

lemma stock_step_ok: "stock_step s s' \<Longrightarrow> stock_ok s \<Longrightarrow> stock_ok s'"
proof (induction rule: stock_step.induct)
  case (order_release ord s rs s')
  show ?case by (rule release_order_reservations_ok [OF order_release.prems order_release.hyps])
next
  case receipt
  then show ?case by (rule record_receipt_ok [rotated])
next
  case acceptance
  then show ?case by (rule accept_lot_ok [rotated])
next
  case issue
  then show ?case by (rule record_issue_ok [rotated])
next
  case correction
  then show ?case by (rule record_correction_ok [rotated])
next
  case reservation
  then show ?case by (rule create_reservation_ok [rotated])
next
  case proposal_reservation
  then show ?case by (rule reserve_material_ok [rotated])
next
  case release
  then show ?case by (rule release_reservation_ok [rotated])
next
  case elsewhere
  then show ?case by (simp add: stock_same_ok)
qed

text \<open>
  C15. The stock books are always right: after any sequence of committed inventory commands
  on sound books, every balance's accepted stock is the sum of the movements on the accepted
  lots of its material, its reserved quantity is the sum of the active reservations, nothing
  is reserved that is not there, and no lot is negative.
\<close>

theorem stock_books_always:
  assumes "stock_step\<^sup>*\<^sup>* s s'" and "stock_ok s"
  shows "(\<forall>b \<in> set (t_balances s').
             ba_on_hand_accepted b = ledger (t_lots s') (t_movements s') (code_of b) \<and>
             ba_reserved b = active_sum res_code (t_reservations s') (code_of b) \<and>
             0 \<le> ba_reserved b \<and> ba_reserved b \<le> ba_on_hand_accepted b) \<and>
         (\<forall>l \<in> set (t_lots s'). 0 \<le> lot_net (lo_id l) s')"
proof -
  have inv: "stock_ok s'" using assms by (induction rule: rtranclp_induct) (blast intro: stock_step_ok)+
  note ok = stock_okD [OF inv]
  have "ba_reserved b = active_sum res_code (t_reservations s') (code_of b)" if "b \<in> set (t_balances s')" for b
    using resv.balancedD(4) [OF ok(1) that] by (simp add: booked_active_sum)
  moreover have "0 \<le> ba_reserved b \<and> ba_reserved b \<le> ba_on_hand_accepted b" if "b \<in> set (t_balances s')" for b
    using ok(2) [OF that] by (simp add: balance_ok_def)
  moreover have "0 \<le> lot_net (lo_id l) s'" if "l \<in> set (t_lots s')" for l
    using ok(8) [OF that] by (simp add: lot_net_of)
  ultimately show ?thesis using ok(3) by blast
qed

section \<open>What an issue consumes\<close>

definition order_key :: "reservation \<Rightarrow> uuid \<times> uuid \<times> uuid" where
  "order_key r = (rv_order_id r, res_code r)"

lemma consumed_others:
  assumes "consumed_from k c d (rv_id ` set own) bs s s'" and "stock_ok s"
    and "r \<in> set (t_reservations s)" and "r \<notin> set own" and "set own \<subseteq> set (t_reservations s)"
  shows "r \<in> set (t_reservations s')"
proof -
  have "rv_id r \<notin> rv_id ` set own"
    using assms(3-5) stock_okD(10) [OF assms(2)] by (auto simp: distinct_map dest: inj_onD)
  then show ?thesis using assms(1,3) by (simp add: consumed_from_def)
qed

lemma stable_order_key: "stable_key order_key"
  by (simp add: stable_key_def order_key_def res_code_def)

lemma own_reservations_key:
  assumes "ord = Some r"
  shows "sum_list (map rv_quantity (own_reservations ord m s)) =
           active_sum order_key (t_reservations s) (or_id r, or_factory_id r, m)"
  unfolding assms own_reservations_def lock_active_reservations_def active_sum_def
  by (simp add: Let_def sum_list_sort_key tsum_def order_key_def res_code_def conj_ac cong: conj_cong)

text \<open>
  C16. An issue for an order takes its quantity from the stock and consumes that order's own
  reservations of the material, up to the issued quantity and no more; the reservations of
  every other order stay as they are.
\<close>

theorem issue_consumes_own_reservations:
  assumes inv: "stock_ok s" and run: "record_issue p f m i quantity (Some oid) reason s = Inr (x, s')"
  shows "\<exists>q. quantize ROUND_HALF_UP 4 quantity = Inr q \<and> 0 < q \<and> mv_quantity x = - q \<and>
           active_sum order_key (t_reservations s') (oid, f, m) =
             active_sum order_key (t_reservations s) (oid, f, m)
               - min q (active_sum order_key (t_reservations s) (oid, f, m)) \<and>
           (\<forall>r \<in> set (t_reservations s). rv_order_id r \<noteq> oid \<longrightarrow> r \<in> set (t_reservations s'))"
proof -
  from inv run obtain factory material ord q b lot s3 s4 s5 s6 s7 d where
      q: "positive_quantity quantity ''quantity'' = Inr q" and oo: "optional_order (Some oid) factory s = Inr ord"
    and ids: "org_material (p_organization_id p) m s = Inr material" "load_factory f p ''inventory:write'' s = Inr factory"
    and s3: "stock_ok s3" "b \<in> set (t_balances s3)" and code: "code_of b = (fa_id factory, ma_id material)"
    and res: "t_reservations s3 = t_reservations s"
    and d: "d = min q (dsum (map rv_quantity (own_reservations ord (ma_id material) s3)))"
    and con: "consume_reservations (own_reservations ord (ma_id material) s3) d (p_user_id p) s4 = Inr s5"
    and s4: "stock_same s3 s4"
    and ins: "insert_movement (issue_movement factory material lot q ord reason p) s5 = Inr (x, s6)"
    and up: "update_balance (b\<lparr>ba_on_hand_accepted := dsub (ba_on_hand_accepted b) q,
       ba_reserved := dsub (ba_reserved b) d, ba_version := ba_version b + 1\<rparr>) s6 = Inr s7"
    and fin: "stock_same s7 s'"
    by (rule record_issueD) blast
  have q': "scaled 4 q" "0 < q" "quantize ROUND_HALF_UP 4 quantity = Inr q"
    using positive_quantityD [OF q] q by (auto simp: positive_quantity_def bind_err_Inr)
  have fm: "fa_id factory = f" "ma_id material = m"
    using ids by (auto simp: load_defs org_material_def dest: load_scoped_cases(1) [THEN row_key] row_key
        split: option.splits if_splits)
  from oo obtain r where ord: "ord = Some r" "or_id r = oid" "or_factory_id r = f"
    using fm row_key [of or_id oid "t_orders s"] by (force simp: optional_order_def split: option.splits if_splits)
  let ?own = "own_reservations ord m s4"
  have own_same: "own_reservations ord m s4 = own_reservations ord m s3" using own_reservations_same [OF s4] .
  have s4': "stock_ok s4" "b \<in> set (t_balances s4)" "t_reservations s4 = t_reservations s"
    using s3 stock_same_ok [OF s4] s4 res by (simp_all add: stock_same_def)
  have fac: "or_factory_id y = f" if "ord = Some y" for y using ord that by auto
  have key: "order_key y = (oid, f, m)" if "y \<in> set ?own" for y
    using that own_reservations_member(1) [OF s4'(1)] ord by (auto simp: order_key_def res_code_def)
  have code'': "code_of b = (f, m)" using code fm by simp
  have d': "d = min q (dsum (map rv_quantity ?own))" using d fm own_same by simp
  have con': "consume_reservations ?own d (p_user_id p) s4 = Inr s5" using con fm own_same by simp
  note c = issue_consumes(1) [OF s4'(1,2) code'' fac d' q'(1,2) con' stable_order_key key]
  have "dsum (map rv_quantity ?own) = active_sum order_key (t_reservations s) (oid, f, m)"
    using own_reservations_sum(1) [where ord = ord, OF s4'(1,2) code'' fac] own_reservations_key [OF ord(1), of m s4] ord s4'(3)
    by simp
  then have dd: "d = min q (active_sum order_key (t_reservations s) (oid, f, m))" using d' by simp
  have "scaled 4 (mv_quantity (issue_movement factory material lot q ord reason p))"
    using q'(1) by (simp add: issue_movement_def scaled_minus)
  note i = insert_movementD [OF ins this]
  have "t_reservations s6 = t_reservations s5" "mv_quantity x = - q"
    using i by (simp_all add: issue_movement_def)
  moreover have "t_reservations s7 = t_reservations s6" using up by (auto simp: update_balance_def bind_err_Inr)
  ultimately have fin': "t_reservations s' = t_reservations s5" "mv_quantity x = - q"
    using fin by (simp_all add: stock_same_def)
  have "y \<in> set (t_reservations s5)" if "y \<in> set (t_reservations s)" "rv_order_id y \<noteq> oid" for y
  proof (rule consumed_others [OF c s4'(1)])
    show "y \<in> set (t_reservations s4)" using that s4'(3) by simp
    show "y \<notin> set ?own" using key [of y] that(2) by (auto simp: order_key_def)
    show "set ?own \<subseteq> set (t_reservations s4)" using own_reservations_member(1) [OF s4'(1)] by blast
  qed
  moreover have "active_sum order_key (t_reservations s5) (oid, f, m) =
      active_sum order_key (t_reservations s4) (oid, f, m) - d"
    using c by (simp add: consumed_from_def)
  ultimately show ?thesis using q' fin' s4'(3) dd by (intro exI [of _ q]) simp
qed

section \<open>One material with one accepted lot\<close>

text \<open>100 units received on lot 4, of which order 9, in production, has 30 reserved.\<close>

definition stock_demo :: db where
  "stock_demo =
     empty_db\<lparr>t_factories := [demo_factory],
       t_orders := [demo_order\<lparr>or_production_state := IN_PRODUCTION\<rparr>],
       t_materials := [\<lparr>ma_id = 3, ma_organization_id = 1, ma_code = ''FAB'', ma_name = ''Fabric'', ma_unit = ''m'',
         ma_safety_stock = 0, ma_lead_time_days = 7, ma_pack_size = None\<rparr>],
       t_lots := [\<lparr>lo_id = 4, lo_organization_id = 1, lo_factory_id = 7, lo_material_id = 3,
         lo_lot_code = ''L1'', lo_status = LOT_ACCEPTED, lo_received_at = 0\<rparr>],
       t_movements := [\<lparr>mv_id = 2, mv_organization_id = 1, mv_factory_id = 7, mv_material_id = 3,
         mv_lot_id = Some 4, mv_movement_type = RECEIPT, mv_quantity = 100,
         mv_corrects_movement_id = None, mv_reason = None, mv_order_id = None,
         mv_created_by = None, mv_created_at = 0\<rparr>],
       t_balances := [\<lparr>ba_id = 6, ba_organization_id = 1, ba_factory_id = 7, ba_material_id = 3,
         ba_on_hand_accepted = 100, ba_reserved = 30, ba_version = 2\<rparr>],
       t_reservations := [\<lparr>rv_id = 5, rv_organization_id = 1, rv_factory_id = 7, rv_material_id = 3,
         rv_order_id = 9, rv_quantity = 30, rv_status = RES_ACTIVE, rv_recommendation_id = None,
         rv_created_by = None, rv_created_at = 0\<rparr>]\<rparr>"

lemma stock_demo_ok: "stock_ok stock_demo"
  by (simp add: stock_ok_def stock_demo_def empty_db_def resv.balanced_def resv.booked_def
      balance_ok_def movement_ok_def reservation_ok_def ledger_def on_accepted_def net_of_def
      code_defs numeric_def scaled_def)

lemma stock_demo_issue:
  "case record_issue (demo_user 2 [STOREKEEPER]) 7 3 4 50 (Some 9) None stock_demo of
     Inl _ \<Rightarrow> False | Inr (x, s') \<Rightarrow> length (t_movements s') = 2"
  by code_simp

lemma stock_demo_run:
  obtains x s' where "record_issue (demo_user 2 [STOREKEEPER]) 7 3 4 50 (Some 9) None stock_demo = Inr (x, s')"
    and "length (t_movements s') = 2"
  using stock_demo_issue by (auto split: sum.splits prod.splits)

theorem release_reservations_total_witness:
  "\<exists>released s'. release_order_reservations demo_order stock_demo = Inr (released, s') \<and>
     stock_ok s' \<and> map rv_status (t_reservations s') = [RES_RELEASED]"
proof -
  have "rv_factory_id r = or_factory_id demo_order" if "r \<in> set (t_reservations stock_demo)" for r
    using that by (simp add: stock_demo_def empty_db_def demo_order_def)
  then obtain released s' where r: "release_order_reservations demo_order stock_demo = Inr (released, s')"
    and ok: "stock_ok s'"
    and t: "t_reservations s' =
             map (\<lambda>r. if rv_order_id r = or_id demo_order \<and> rv_status r = RES_ACTIVE
                      then r\<lparr>rv_status := RES_RELEASED\<rparr> else r) (t_reservations stock_demo)"
    using release_reservations_total [OF stock_demo_ok, of demo_order] by blast
  have "map rv_status (t_reservations s') = [RES_RELEASED]"
    unfolding t by (simp add: stock_demo_def empty_db_def demo_order_def)
  with r ok show ?thesis by (intro exI conjI)
qed

theorem stock_books_always_witness:
  "\<exists>s'. stock_step\<^sup>*\<^sup>* stock_demo s' \<and> stock_demo \<noteq> s' \<and>
     (\<forall>b \<in> set (t_balances s'). ba_on_hand_accepted b = ledger (t_lots s') (t_movements s') (code_of b))"
proof -
  obtain x s' where run: "record_issue (demo_user 2 [STOREKEEPER]) 7 3 4 50 (Some 9) None stock_demo = Inr (x, s')"
    and len: "length (t_movements s') = 2"
    by (rule stock_demo_run)
  from run have step: "stock_step\<^sup>*\<^sup>* stock_demo s'" by (intro r_into_rtranclp stock_step.issue)
  have "s' \<noteq> stock_demo" using len by (auto simp: stock_demo_def)
  with step stock_books_always [OF step stock_demo_ok] show ?thesis by blast
qed

theorem issue_consumes_own_reservations_witness:
  "\<exists>x s'. record_issue (demo_user 2 [STOREKEEPER]) 7 3 4 50 (Some 9) None stock_demo = Inr (x, s') \<and>
     mv_quantity x = - 50 \<and> active_sum order_key (t_reservations s') (9, 7, 3) = 0"
proof -
  obtain x s' where run: "record_issue (demo_user 2 [STOREKEEPER]) 7 3 4 50 (Some 9) None stock_demo = Inr (x, s')"
    by (rule stock_demo_run)
  have q: "quantize ROUND_HALF_UP 4 50 = Inr 50" by code_simp
  have "active_sum order_key (t_reservations stock_demo) (9, 7, 3) = 30"
    by (simp add: active_sum_def stock_demo_def empty_db_def order_key_def res_code_def)
  with issue_consumes_own_reservations [OF stock_demo_ok run] q run show ?thesis by auto
qed

end
