(* ===== verification/LS_Quality.thy ===== *)
theory LS_Quality
  imports LS_Audit LS_QualityCalc "HOL-Library.Product_Lexorder"
begin

text \<open>
  The quality service (\<open>app/domain/quality/service.py\<close>): the active policy, the latest
  inspections of an order, recording inspections with their automatic hold, manual holds,
  separated releases, the facts of a shipment and the defect trends. The lemmas show who
  can release what, that a failed inspection always leaves a hold, and what a dispatch
  gate that is open guarantees.
\<close>

definition DEMO_POLICY_CODE :: string where
  "DEMO_POLICY_CODE = ''QP-DEMO''"

record defect_input =
  di_defect_code :: string
  di_severity :: defect_severity
  di_count :: int
  di_operation_id :: "uuid option"

record new_inspection_input =
  ni_inspection_type :: inspection_type
  ni_inspected_units :: int
  ni_defective_units :: int
  ni_defects :: "defect_input list"
  ni_line_id :: "uuid option"

record defect_code_trend =
  dt_defect_code :: string
  dt_severity :: defect_severity
  dt_count :: int

record defect_trend =
  tn_factory_id :: uuid
  tn_window_days :: int
  tn_inspected_units :: int
  tn_defective_units :: int
  tn_defective_rate :: "decimal option"
  tn_defects_per_hundred_units :: "decimal option"
  tn_by_defect_code :: "defect_code_trend list"

definition lock_order :: "uuid \<Rightarrow> db \<Rightarrow> exn + (order \<times> db)" where
  "lock_order order_id s =
     bind_err (some_or NoResultFound (row or_id order_id (t_orders s))) (\<lambda>ord.
     Inr (ord, take_locks [LockOrder order_id] s))"

section \<open>Rows of the quality tables\<close>

definition insert_inspection :: "inspection \<Rightarrow> db \<Rightarrow> exn + (inspection \<times> db)" where
  "insert_inspection r s =
     (let (i, s) = draw s; r = r\<lparr>in_id := i\<rparr>
      in bind_err (ensure (0 \<le> in_inspected_units r) (IntegrityError ''inspected_units_non_negative'')) (\<lambda>_.
         bind_err (ensure (0 \<le> in_defective_units r) (IntegrityError ''defective_units_non_negative'')) (\<lambda>_.
         bind_err (ensure (in_defective_units r \<le> in_inspected_units r)
           (IntegrityError ''defective_units_within_inspected'')) (\<lambda>_.
         bind_err (insert_row in_id r (t_inspections s)) (\<lambda>rs.
         Inr (r, s\<lparr>t_inspections := rs\<rparr>))))))"

definition insert_defect :: "defect_observation \<Rightarrow> db \<Rightarrow> exn + db" where
  "insert_defect r s =
     (let (i, s) = draw s; r = r\<lparr>df_id := i\<rparr>
      in bind_err (ensure (0 < df_count r) (IntegrityError ''count_positive'')) (\<lambda>_.
         bind_err (insert_row df_id r (t_defects s)) (\<lambda>rs.
         Inr (s\<lparr>t_defects := rs\<rparr>))))"

definition insert_hold :: "quality_hold \<Rightarrow> db \<Rightarrow> exn + (quality_hold \<times> db)" where
  "insert_hold r s =
     (let (i, s) = draw s; r = r\<lparr>ho_id := i, ho_created_at := utcnow s\<rparr>
      in bind_err (insert_row ho_id r (t_holds s)) (\<lambda>rs. Inr (r, s\<lparr>t_holds := rs\<rparr>)))"

definition insert_release :: "quality_release \<Rightarrow> db \<Rightarrow> exn + (quality_release \<times> db)" where
  "insert_release r s =
     (let (i, s) = draw s; r = r\<lparr>re_id := i\<rparr>
      in bind_err (insert_row re_id r (t_releases s)) (\<lambda>rs. Inr (r, s\<lparr>t_releases := rs\<rparr>)))"

section \<open>Policies and the latest inspections\<close>

definition active_policy :: "uuid \<Rightarrow> string \<Rightarrow> db \<Rightarrow> quality_policy_version option" where
  "active_policy organization_id policy_code s =
     (case sort_key (\<lambda>p. - qp_version_no p)
        (filter (\<lambda>p. qp_organization_id p = organization_id \<and> qp_code p = policy_code \<and>
           qp_status p = POLICY_ACTIVE) (t_policies s)) of
        [] \<Rightarrow> None
      | p # _ \<Rightarrow> Some p)"

definition list_policies :: "uuid \<Rightarrow> nat \<Rightarrow> nat \<Rightarrow> db \<Rightarrow> quality_policy_version list \<times> nat" where
  "list_policies organization_id limit offset s =
     (let base = filter (\<lambda>p. qp_organization_id p = organization_id) (t_policies s)
      in (take limit (drop offset (sort_key (\<lambda>p. (qp_code p, - qp_version_no p)) base)), length base))"

text \<open>\<open>ORDER BY inspected_at DESC, id DESC\<close>, and \<open>dict.setdefault\<close> on a dict kept in
  insertion order.\<close>

definition newest :: "inspection \<Rightarrow> int \<times> int" where
  "newest i = (- in_inspected_at i, - int (in_id i))"

definition setdefault :: "'k \<Rightarrow> 'v \<Rightarrow> ('k \<times> 'v) list \<Rightarrow> ('k \<times> 'v) list" where
  "setdefault k v m = (case map_of m k of None \<Rightarrow> m @ [(k, v)] | Some _ \<Rightarrow> m)"

definition latest_inspections_by_type :: "uuid \<Rightarrow> db \<Rightarrow> (inspection_type \<times> inspection) list" where
  "latest_inspections_by_type order_id s =
     foldl (\<lambda>latest i. setdefault (in_inspection_type i) i latest) []
       (sort_key newest (filter (\<lambda>i. in_order_id i = order_id) (t_inspections s)))"

definition latest_final_inspection :: "uuid \<Rightarrow> db \<Rightarrow> inspection option" where
  "latest_final_inspection order_id s =
     (case sort_key newest (filter (\<lambda>i. in_order_id i = order_id \<and> in_inspection_type i = FINAL)
             (t_inspections s)) of
        [] \<Rightarrow> None
      | i # _ \<Rightarrow> Some i)"

definition has_active_hold :: "uuid \<Rightarrow> db \<Rightarrow> bool" where
  "has_active_hold order_id s =
     list_ex (\<lambda>h. ho_order_id h = order_id \<and> ho_status h = HOLD_ACTIVE) (t_holds s)"

definition has_valid_release :: "uuid \<Rightarrow> inspection option \<Rightarrow> db \<Rightarrow> bool" where
  "has_valid_release order_id latest_final s =
     (case latest_final of
        None \<Rightarrow> False
      | Some i \<Rightarrow> list_ex (\<lambda>r. re_order_id r = order_id \<and> re_inspection_id r = in_id i) (t_releases s))"

definition recompute_quality_state :: "order \<Rightarrow> db \<Rightarrow> order" where
  "recompute_quality_state ord s =
     (let latest_by_type = latest_inspections_by_type (or_id ord) s;
          latest_final = map_of latest_by_type FINAL
      in ord\<lparr>or_quality_state :=
           quality_state_of (latest_by_type \<noteq> []) (has_active_hold (or_id ord) s)
             (has_valid_release (or_id ord) latest_final s)\<rparr>)"

definition required_types_of :: "quality_policy_version option \<Rightarrow> exn + string list" where
  "required_types_of policy =
     (case policy of
        None \<Rightarrow> Inr []
      | Some p \<Rightarrow>
          bind_err (some_or (KeyError ''required_inspection_types'')
            (json_get (qp_rules p) ''required_inspection_types'')) strings_of_json)"

definition shipment_facts_of :: "order \<Rightarrow> db \<Rightarrow> exn + shipment_facts" where
  "shipment_facts_of ord s =
     (let policy = active_policy (or_organization_id ord) DEMO_POLICY_CODE s
      in bind_err (required_types_of policy) (\<lambda>required_types.
         let latest_by_type = latest_inspections_by_type (or_id ord) s;
             passed_types = map (inspection_type_value \<circ> fst)
               (filter (\<lambda>(_, i). in_result i = PASS) latest_by_type)
         in Inr \<lparr>sf_production_state = or_production_state ord, sf_quantity = or_quantity ord,
              sf_packed_units = or_packed_units ord,
              sf_passed_inspection_types = passed_types,
              sf_required_inspection_types = required_types,
              sf_has_active_hold = has_active_hold (or_id ord) s,
              sf_has_valid_release =
                has_valid_release (or_id ord) (map_of latest_by_type FINAL) s,
              sf_policy_known = (policy \<noteq> None)\<rparr>))"
section \<open>Inspections\<close>

definition invalid_field :: "string \<Rightarrow> string \<Rightarrow> exn" where
  "invalid_field field msg = AppError 422 VALIDATION_ERROR msg [field]"

definition conflict_409 :: "string \<Rightarrow> exn" where
  "conflict_409 msg = AppError 409 CONFLICT msg []"

text \<open>The critical defects of a report.\<close>

definition critical_defects_of :: "defect_input list \<Rightarrow> int" where
  "critical_defects_of defects = sum_list (map di_count (filter (\<lambda>d. di_severity d = CRITICAL) defects))"

definition inspection_line :: "uuid option \<Rightarrow> order \<Rightarrow> db \<Rightarrow> exn + uuid option" where
  "inspection_line line_id ord s =
     (case line_id of
        None \<Rightarrow> Inr None
      | Some i \<Rightarrow>
        (case row li_id i (t_lines s) of
           None \<Rightarrow> Inl (invalid_field ''line_id'' ''Unknown line for this order's factory.'')
         | Some l \<Rightarrow>
             if li_factory_id l \<noteq> or_factory_id ord
             then Inl (invalid_field ''line_id'' ''Unknown line for this order's factory.'')
             else Inr (Some (li_id l))))"

fun insert_defects :: "uuid \<Rightarrow> defect_input list \<Rightarrow> db \<Rightarrow> exn + db" where
  "insert_defects inspection_id [] s = Inr s"
| "insert_defects inspection_id (d # ds) s =
     bind_err (insert_defect \<lparr>df_id = 0, df_inspection_id = inspection_id,
         df_defect_code = di_defect_code d, df_severity = di_severity d, df_count = di_count d,
         df_operation_id = di_operation_id d\<rparr> s) (insert_defects inspection_id ds)"

text \<open>\<open>f"Automatic hold: {', '.join(reasons)}"\<close>.\<close>

fun join_comma :: "string list \<Rightarrow> string" where
  "join_comma [] = []"
| "join_comma [x] = x"
| "join_comma (x # xs) = x @ '', '' @ join_comma xs"

definition auto_hold_of :: "order \<Rightarrow> inspection \<Rightarrow> string list \<Rightarrow> quality_hold" where
  "auto_hold_of ord i reasons =
     \<lparr>ho_id = 0, ho_organization_id = or_organization_id ord, ho_factory_id = or_factory_id ord,
      ho_order_id = or_id ord, ho_inspection_id = Some (in_id i),
      ho_reason = ''Automatic hold: '' @ join_comma reasons, ho_status = HOLD_ACTIVE,
      ho_created_by = None, ho_created_at = 0, ho_released_by = None, ho_released_at = None,
      ho_release_id = None\<rparr>"

text \<open>A new version of the order, then its recomputed quality state.\<close>

definition touch_order :: "order \<Rightarrow> db \<Rightarrow> exn + (order \<times> db)" where
  "touch_order ord s =
     (let ord = ord\<lparr>or_version := or_version ord + 1\<rparr>
      in bind_err (update_order ord s) (\<lambda>s.
         let ord = recompute_quality_state ord s
         in bind_err (update_order ord s) (\<lambda>s. Inr (ord, s))))"

definition quality_audit ::
  "order \<Rightarrow> actor_type \<times> jtext \<Rightarrow> string \<Rightarrow> string \<Rightarrow> uuid \<Rightarrow> string option \<Rightarrow> (jtext \<times> json) list \<Rightarrow>
   db \<Rightarrow> db" where
  "quality_audit ord actor action target_type target_id reason after s =
     record_audit (or_organization_id ord) (Some (or_factory_id ord)) (fst actor) (snd actor) action
       target_type (Id target_id) SUCCESS reason None None None (Some (JObj after)) s"

definition new_inspection ::
  "order \<Rightarrow> new_inspection_input \<Rightarrow> uuid option \<Rightarrow> uuid \<Rightarrow> inspection_result \<Rightarrow> principal \<Rightarrow> db \<Rightarrow> inspection" where
  "new_inspection ord data line policy_id result p s =
     \<lparr>in_id = 0, in_organization_id = or_organization_id ord, in_factory_id = or_factory_id ord,
      in_order_id = or_id ord, in_line_id = line, in_inspection_type = ni_inspection_type data,
      in_inspected_units = ni_inspected_units data, in_defective_units = ni_defective_units data,
      in_policy_version_id = policy_id, in_result = result, in_inspected_by = Some (p_user_id p),
      in_inspected_at = utcnow s\<rparr>"

text \<open>The rows of a report: the inspection, its defects and the hold of a failure.\<close>

definition store_inspection ::
  "order \<Rightarrow> inspection \<Rightarrow> inspection_evaluation \<Rightarrow> defect_input list \<Rightarrow> db \<Rightarrow>
   exn + (inspection \<times> quality_hold option \<times> db)" where
  "store_inspection ord i evaluation defects s =
     bind_err (insert_inspection i s) (\<lambda>(i, s).
     bind_err (insert_defects (in_id i) defects s) (\<lambda>s.
     if ie_result evaluation = FAIL
     then bind_err (insert_hold (auto_hold_of ord i (ie_reasons evaluation)) s) (\<lambda>(h, s).
          Inr (i, Some h, s))
     else Inr (i, None, s)))"

definition record_inspection ::
  "principal \<Rightarrow> uuid \<Rightarrow> new_inspection_input \<Rightarrow> db \<Rightarrow> exn + (inspection \<times> db)" where
  "record_inspection p order_id data s =
     bind_err (load_order order_id p ''quality:inspect'' s) (\<lambda>scoped.
     bind_err (lock_order (or_id scoped) s) (\<lambda>(ord, s).
     bind_err (ensure (\<not> ni_inspected_units data < ni_defective_units data)
       (invalid_field ''defective_units'' ''Defective units cannot exceed inspected units.'')) (\<lambda>_.
     bind_err (inspection_line (ni_line_id data) ord s) (\<lambda>line.
     bind_err (some_or (conflict_409 ''No approved quality policy'')
       (active_policy (or_organization_id ord) DEMO_POLICY_CODE s)) (\<lambda>policy.
     bind_err (rules_from_json (qp_rules policy)) (\<lambda>rules.
     let evaluation = evaluate_inspection rules (ni_inspected_units data) (ni_defective_units data)
           (critical_defects_of (ni_defects data))
     in bind_err (store_inspection ord
            (new_inspection ord data line (qp_id policy) (ie_result evaluation) p s)
            evaluation (ni_defects data) s) (\<lambda>(i, hold, s).
        bind_err (touch_order ord s) (\<lambda>(ord, s).
        let s = quality_audit ord (USER, Id (p_user_id p)) ''quality.inspection.record'' ''inspection''
              (in_id i) None
              [(Lit ''order_id'', JText (Id (or_id ord))),
               (Lit ''inspection_type'', JStr (inspection_type_value (in_inspection_type i))),
               (Lit ''result'', JStr (inspection_result_value (in_result i))),
               (Lit ''quality_state'', JStr (quality_state_value (or_quality_state ord)))] s
        in Inr (i,
          (case hold of
             None \<Rightarrow> s
           | Some h \<Rightarrow> quality_audit ord (SYSTEM, Lit ''system'') ''quality.hold.auto_create''
               ''quality_hold'' (ho_id h) (Some (ho_reason h))
               [(Lit ''order_id'', JText (Id (or_id ord))),
                (Lit ''inspection_id'', JText (Id (in_id i))),
                (Lit ''quality_state'', JStr (quality_state_value (or_quality_state ord)))] s))))))))))"

section \<open>Holds and releases\<close>

definition place_hold :: "principal \<Rightarrow> uuid \<Rightarrow> string \<Rightarrow> db \<Rightarrow> exn + (quality_hold \<times> db)" where
  "place_hold p order_id reason s =
     bind_err (load_order order_id p ''quality:hold'' s) (\<lambda>scoped.
     bind_err (lock_order (or_id scoped) s) (\<lambda>(ord, s).
     bind_err (ensure (strip reason \<noteq> []) (invalid_field ''reason'' ''A reason is required.'')) (\<lambda>_.
     bind_err (insert_hold
       \<lparr>ho_id = 0, ho_organization_id = or_organization_id ord, ho_factory_id = or_factory_id ord,
        ho_order_id = or_id ord, ho_inspection_id = None, ho_reason = reason,
        ho_status = HOLD_ACTIVE, ho_created_by = Some (p_user_id p), ho_created_at = 0,
        ho_released_by = None, ho_released_at = None, ho_release_id = None\<rparr> s) (\<lambda>(hold, s).
     bind_err (touch_order ord s) (\<lambda>(ord, s).
     Inr (hold, quality_audit ord (USER, Id (p_user_id p)) ''quality.hold.place'' ''quality_hold''
       (ho_id hold) (Some reason)
       [(Lit ''order_id'', JText (Id (or_id ord))),
        (Lit ''quality_state'', JStr (quality_state_value (or_quality_state ord)))] s))))))"

definition list_holds ::
  "uuid \<Rightarrow> quality_hold_status option \<Rightarrow> nat \<Rightarrow> nat \<Rightarrow> db \<Rightarrow> quality_hold list \<times> nat" where
  "list_holds factory_id status limit offset s =
     (let base = filter (\<lambda>h. ho_factory_id h = factory_id \<and>
            (case status of None \<Rightarrow> True | Some st \<Rightarrow> ho_status h = st)) (t_holds s)
      in (take limit (drop offset (sort_key (\<lambda>h. - ho_created_at h) base)), length base))"

definition release_hold :: "quality_release \<Rightarrow> principal \<Rightarrow> quality_hold \<Rightarrow> quality_hold" where
  "release_hold release p h =
     h\<lparr>ho_status := HOLD_RELEASED, ho_released_by := Some (p_user_id p),
       ho_released_at := Some (re_released_at release), ho_release_id := Some (re_id release)\<rparr>"

text \<open>Releasing every ACTIVE hold of the order, locked.\<close>

definition release_holds :: "uuid \<Rightarrow> quality_release \<Rightarrow> principal \<Rightarrow> db \<Rightarrow> db" where
  "release_holds order_id release p s =
     (let active = map ho_id (filter (\<lambda>h. ho_order_id h = order_id \<and> ho_status h = HOLD_ACTIVE) (t_holds s));
          s = take_locks (map LockHold active) s
      in s\<lparr>t_holds := mark ho_id (release_hold release p) (set active) (t_holds s)\<rparr>)"

definition release_order ::
  "principal \<Rightarrow> uuid \<Rightarrow> uuid \<Rightarrow> int \<Rightarrow> string option \<Rightarrow> db \<Rightarrow> exn + (quality_release \<times> db)" where
  "release_order p order_id inspection_id expected_order_version notes s =
     bind_err (load_order order_id p ''quality:release'' s) (\<lambda>scoped.
     bind_err (lock_order (or_id scoped) s) (\<lambda>(ord, s).
     bind_err (ensure (expected_order_version = or_version ord)
       (AppError 409 STALE_INPUT ''The order has changed since it was loaded.'' [])) (\<lambda>_.
     bind_err (some_or (invalid_field ''inspection_id'' ''Unknown inspection for this order.'')
       (row in_id inspection_id (t_inspections s))) (\<lambda>i.
     bind_err (ensure (in_order_id i = or_id ord)
       (invalid_field ''inspection_id'' ''Unknown inspection for this order.'')) (\<lambda>_.
     bind_err (ensure (in_inspection_type i = FINAL \<and> in_result i = PASS)
       (conflict_409 ''Only a passing FINAL inspection can be released.'')) (\<lambda>_.
     bind_err (some_or (conflict_409 ''This is not the order's latest FINAL inspection.'')
       (latest_final_inspection (or_id ord) s)) (\<lambda>latest_final.
     bind_err (ensure (in_id latest_final = in_id i)
       (conflict_409 ''This is not the order's latest FINAL inspection.'')) (\<lambda>_.
     bind_err (some_or (conflict_409 ''The inspection did not use the currently active quality policy.'')
       (active_policy (or_organization_id ord) DEMO_POLICY_CODE s)) (\<lambda>policy.
     bind_err (ensure (in_policy_version_id i = qp_id policy)
       (conflict_409 ''The inspection did not use the currently active quality policy.'')) (\<lambda>_.
     bind_err (ensure (in_inspected_by i \<noteq> Some (p_user_id p))
       (AppError 403 SELF_APPROVAL_DENIED ''The releaser must differ from the inspector.'' [])) (\<lambda>_.
     bind_err (insert_release
       \<lparr>re_id = 0, re_organization_id = or_organization_id ord, re_factory_id = or_factory_id ord,
        re_order_id = or_id ord, re_inspection_id = in_id i, re_policy_version_id = qp_id policy,
        re_released_by = p_user_id p, re_released_at = utcnow s, re_notes = notes\<rparr> s)
       (\<lambda>(release, s).
     bind_err (touch_order ord (release_holds (or_id ord) release p s)) (\<lambda>(ord, s).
     Inr (release, quality_audit ord (USER, Id (p_user_id p)) ''quality.release'' ''quality_release''
       (re_id release) notes
       [(Lit ''order_id'', JText (Id (or_id ord))),
        (Lit ''inspection_id'', JText (Id (in_id i))),
        (Lit ''quality_state'', JStr (quality_state_value (or_quality_state ord)))] s))))))))))))))"

section \<open>Lists and trends\<close>

definition list_inspections :: "uuid \<Rightarrow> db \<Rightarrow> inspection list" where
  "list_inspections order_id s =
     sort_key (\<lambda>i. - in_inspected_at i) (filter (\<lambda>i. in_order_id i = order_id) (t_inspections s))"

definition list_releases :: "uuid \<Rightarrow> db \<Rightarrow> quality_release list" where
  "list_releases order_id s =
     sort_key (\<lambda>r. - re_released_at r) (filter (\<lambda>r. re_order_id r = order_id) (t_releases s))"

definition order_holds :: "uuid \<Rightarrow> db \<Rightarrow> quality_hold list" where
  "order_holds order_id s =
     sort_key (\<lambda>h. - ho_created_at h) (filter (\<lambda>h. ho_order_id h = order_id) (t_holds s))"

definition defects_by_inspection :: "uuid list \<Rightarrow> db \<Rightarrow> (uuid \<times> defect_observation list) list" where
  "defects_by_inspection inspection_ids s =
     (let rows = sort_key df_defect_code
            (filter (\<lambda>d. df_inspection_id d \<in> set inspection_ids) (t_defects s))
      in map (\<lambda>i. (i, filter (\<lambda>d. df_inspection_id d = i) rows)) (remdups inspection_ids))"

definition MICROSECONDS_PER_DAY :: int where
  "MICROSECONDS_PER_DAY = 86400000000"

fun severity_rank :: "defect_severity \<Rightarrow> nat" where
  "severity_rank CRITICAL = 0"
| "severity_rank MAJOR = 1"
| "severity_rank MINOR = 2"

text \<open>
  \<open>GROUP BY defect_code, severity ORDER BY defect_code\<close>; the query leaves the order of the
  severities of one code open, here they come in the order of their texts.
\<close>

definition by_defect_code_of :: "defect_observation list \<Rightarrow> defect_code_trend list" where
  "by_defect_code_of rows =
     map (\<lambda>(c, v). \<lparr>dt_defect_code = c, dt_severity = v,
         dt_count = tsum (\<lambda>d. df_defect_code d = c \<and> df_severity d = v) df_count rows\<rparr>)
       (sort_key (\<lambda>(c, v). (c, severity_rank v))
         (remdups (map (\<lambda>d. (df_defect_code d, df_severity d)) rows)))"

definition defect_trends :: "uuid \<Rightarrow> int \<Rightarrow> db \<Rightarrow> defect_trend" where
  "defect_trends factory_id days s =
     (let window_start = utcnow s - days * MICROSECONDS_PER_DAY;
          rows = filter (\<lambda>i. in_factory_id i = factory_id \<and> window_start \<le> in_inspected_at i) (t_inspections s);
          inspected_units = sum_list (map in_inspected_units rows);
          defective_units = sum_list (map in_defective_units rows);
          by_code = by_defect_code_of
            (filter (\<lambda>d. df_inspection_id d \<in> in_id ` set rows) (t_defects s));
          total_defects = sum_list (map dt_count by_code)
      in \<lparr>tn_factory_id = factory_id, tn_window_days = days, tn_inspected_units = inspected_units,
          tn_defective_units = defective_units,
          tn_defective_rate = defective_rate defective_units inspected_units,
          tn_defects_per_hundred_units = defects_per_hundred_units total_defects inspected_units,
          tn_by_defect_code = by_code\<rparr>)"

section \<open>Lookups\<close>

lemma foldl_setdefault:
  "map_of (foldl (\<lambda>m x. setdefault (k x) x m) m0 xs) t =
     (case map_of m0 t of Some v \<Rightarrow> Some v | None \<Rightarrow> find (\<lambda>x. k x = t) xs)"
proof (induction xs arbitrary: m0)
  case (Cons x xs)
  have "map_of (setdefault (k x) x m0) t =
      (case map_of m0 t of Some v \<Rightarrow> Some v | None \<Rightarrow> if k x = t then Some x else None)"
    by (auto simp: setdefault_def map_add_def split: option.splits)
  then show ?case using Cons by (auto split: option.splits)
qed (simp split: option.splits)

lemma find_filter: "find P xs = (case filter P xs of [] \<Rightarrow> None | x # _ \<Rightarrow> Some x)"
  by (induction xs) auto

lemma latest_lookup:
  "map_of (latest_inspections_by_type oid s) t =
     find (\<lambda>i. in_inspection_type i = t) (sort_key newest (filter (\<lambda>i. in_order_id i = oid) (t_inspections s)))"
  by (simp add: latest_inspections_by_type_def foldl_setdefault)

lemma latest_final_lookup: "map_of (latest_inspections_by_type oid s) FINAL = latest_final_inspection oid s"
  by (simp add: latest_lookup latest_final_inspection_def find_filter filter_sort conj_commute)

lemma setdefault_Nil [simp]: "setdefault k v m \<noteq> []"
  by (auto simp: setdefault_def split: option.splits)

lemma latest_Nil: "latest_inspections_by_type oid s = [] \<longleftrightarrow> (\<forall>i \<in> set (t_inspections s). in_order_id i \<noteq> oid)"
proof -
  have "foldl (\<lambda>m x. setdefault (in_inspection_type x) x m) m xs = [] \<longleftrightarrow> m = [] \<and> xs = []"
    for m and xs :: "inspection list"
    by (induction xs arbitrary: m) auto
  moreover have "sort_key newest xs = [] \<longleftrightarrow> xs = []" for xs by (metis length_0_conv length_sort)
  ultimately show ?thesis by (simp add: latest_inspections_by_type_def filter_empty_conv)
qed

section \<open>The quality state is the one the records give\<close>

definition derived_quality :: "uuid \<Rightarrow> db \<Rightarrow> quality_state" where
  "derived_quality oid s =
     quality_state_of (\<exists>i \<in> set (t_inspections s). in_order_id i = oid) (has_active_hold oid s)
       (has_valid_release oid (latest_final_inspection oid s) s)"

definition quality_ok :: "db \<Rightarrow> bool" where
  "quality_ok s \<longleftrightarrow>
     distinct (map or_id (t_orders s)) \<and>
     (\<forall>ord \<in> set (t_orders s). or_quality_state ord = derived_quality (or_id ord) s)"

lemma recompute_derived:
  "recompute_quality_state ord s = ord\<lparr>or_quality_state := derived_quality (or_id ord) s\<rparr>"
  by (simp add: recompute_quality_state_def derived_quality_def Let_def latest_final_lookup latest_Nil)

lemma derived_quality_cong:
  assumes "filter (\<lambda>i. in_order_id i = oid) (t_inspections s') = filter (\<lambda>i. in_order_id i = oid) (t_inspections s)"
    and "has_active_hold oid s' = has_active_hold oid s"
    and "\<And>i. list_ex (\<lambda>r. re_order_id r = oid \<and> re_inspection_id r = i) (t_releases s')
              = list_ex (\<lambda>r. re_order_id r = oid \<and> re_inspection_id r = i) (t_releases s)"
  shows "derived_quality oid s' = derived_quality oid s"
proof -
  have some: "(\<exists>i \<in> set rows. in_order_id i = oid) \<longleftrightarrow> filter (\<lambda>i. in_order_id i = oid) rows \<noteq> []" for rows
    by (auto simp: filter_empty_conv)
  have split: "filter (\<lambda>i. in_order_id i = oid \<and> in_inspection_type i = FINAL) rows =
      filter (\<lambda>i. in_inspection_type i = FINAL) (filter (\<lambda>i. in_order_id i = oid) rows)" for rows
    by (simp add: conj_commute)
  have "latest_final_inspection oid s' = latest_final_inspection oid s"
    unfolding latest_final_inspection_def split assms(1) ..
  then show ?thesis
    unfolding derived_quality_def some assms(1,2) has_valid_release_def assms(3) by simp
qed

lemma derived_quality_orders [simp]: "derived_quality oid (s\<lparr>t_orders := rows\<rparr>) = derived_quality oid s"
  by (rule derived_quality_cong) (simp_all add: has_active_hold_def)

lemma upd_upd: "key r = key r' \<Longrightarrow> upd key r (upd key r' rs) = upd key r rs"
  by (auto simp: upd_def)

lemma touch_orderD:
  assumes "touch_order ord s = Inr (ord', s')"
  shows "ord' = ord\<lparr>or_version := or_version ord + 1, or_quality_state := derived_quality (or_id ord) s\<rparr>"
    and "s' = s\<lparr>t_orders := upd or_id (ord'\<lparr>or_updated_at := utcnow s\<rparr>) (t_orders s)\<rparr>"
  using assms
  by (auto simp: touch_order_def run_simps update_order_def recompute_derived upd_upd)

text \<open>A quality command changes the records of one order, and that order's row.\<close>

lemma touch_order_ok:
  assumes inv: "quality_ok s" and same: "t_orders s1 = t_orders s"
    and others: "\<And>oid. oid \<noteq> or_id ord \<Longrightarrow> derived_quality oid s1 = derived_quality oid s"
    and run: "touch_order ord s1 = Inr (ord', s')"
  shows "quality_ok s'"
proof -
  note t = touch_orderD [OF run]
  have "or_quality_state y = derived_quality (or_id y) s1"
    if "y \<in> set (upd or_id (ord'\<lparr>or_updated_at := utcnow s1\<rparr>) (t_orders s))" for y
    using set_upd_subset [OF that] inv others by (auto simp: t(1) quality_ok_def)
  then show ?thesis using inv same by (simp add: quality_ok_def t(2))
qed

lemma lock_orderD:
  "lock_order oid s = Inr (ord, s') \<Longrightarrow>
   row or_id oid (t_orders s) = Some ord \<and> s' = take_locks [LockOrder oid] s"
  by (simp add: lock_order_def run_simps)

lemma quality_audit_frame [simp]:
  "t_orders (quality_audit ord a ac tt ti re af s) = t_orders s"
  "t_inspections (quality_audit ord a ac tt ti re af s) = t_inspections s"
  "t_holds (quality_audit ord a ac tt ti re af s) = t_holds s"
  "t_releases (quality_audit ord a ac tt ti re af s) = t_releases s"
  "t_policies (quality_audit ord a ac tt ti re af s) = t_policies s"
  "derived_quality oid (quality_audit ord a ac tt ti re af s) = derived_quality oid s"
  "quality_ok (quality_audit ord a ac tt ti re af s) = quality_ok s"
  "has_active_hold oid (quality_audit ord a ac tt ti re af s) = has_active_hold oid s"
proof -
  show "t_orders (quality_audit ord a ac tt ti re af s) = t_orders s"
    "t_inspections (quality_audit ord a ac tt ti re af s) = t_inspections s"
    "t_holds (quality_audit ord a ac tt ti re af s) = t_holds s"
    "t_releases (quality_audit ord a ac tt ti re af s) = t_releases s"
    "t_policies (quality_audit ord a ac tt ti re af s) = t_policies s"
    by (simp_all add: quality_audit_def)
  then show "has_active_hold oid (quality_audit ord a ac tt ti re af s) = has_active_hold oid s" for oid
    by (simp add: has_active_hold_def)
  show d: "derived_quality oid (quality_audit ord a ac tt ti re af s) = derived_quality oid s" for oid
    by (rule derived_quality_cong) (simp_all add: has_active_hold_def quality_audit_def)
  then show "quality_ok (quality_audit ord a ac tt ti re af s) = quality_ok s"
    by (simp add: quality_ok_def quality_audit_def)
qed

section \<open>What the commands do\<close>

lemma insert_defects_frame:
  "insert_defects i ds s = Inr s' \<Longrightarrow>
   t_orders s' = t_orders s \<and> t_inspections s' = t_inspections s \<and> t_holds s' = t_holds s \<and>
   t_releases s' = t_releases s \<and> t_policies s' = t_policies s \<and> utcnow s' = utcnow s"
proof (induction ds arbitrary: s)
  case (Cons d ds)
  then show ?case by (fastforce simp: insert_defect_def run_simps draw_def)
qed simp

lemma store_inspectionD:
  assumes "store_inspection ord i ev ds s = Inr (i', h, s')"
  shows "\<exists>x. i' = i\<lparr>in_id := x\<rparr>" and "t_inspections s' = t_inspections s @ [i']"
    and "t_orders s' = t_orders s" and "t_releases s' = t_releases s" and "t_policies s' = t_policies s"
    and "utcnow s' = utcnow s"
    and "ie_result ev = FAIL \<Longrightarrow> \<exists>y. h = Some y \<and> ho_order_id y = or_id ord \<and> ho_status y = HOLD_ACTIVE \<and>
           ho_inspection_id y = Some (in_id i') \<and> t_holds s' = t_holds s @ [y]"
    and "ie_result ev \<noteq> FAIL \<Longrightarrow> h = None \<and> t_holds s' = t_holds s"
    and "distinct (map in_id (t_inspections s)) \<Longrightarrow> distinct (map in_id (t_inspections s'))"
    and "distinct (map ho_id (t_holds s)) \<Longrightarrow> distinct (map ho_id (t_holds s'))"
  using assms
  by (auto simp: store_inspection_def run_simps insert_inspection_def draw_def insert_row_Inr insert_hold_def
      auto_hold_of_def dest!: insert_defects_frame split: if_splits)

text \<open>The state after the audit entries.\<close>

definition quality_logged :: "db \<Rightarrow> db \<Rightarrow> bool" where
  "quality_logged s s' \<longleftrightarrow>
     t_orders s' = t_orders s \<and> t_inspections s' = t_inspections s \<and> t_holds s' = t_holds s \<and>
     t_releases s' = t_releases s \<and> t_policies s' = t_policies s"

lemma quality_logged_audit [simp]:
  "quality_logged s s" "quality_logged s (quality_audit ord a ac tt ti re af t) = quality_logged s t"
  by (simp_all add: quality_logged_def)

lemma quality_loggedD:
  assumes "quality_logged s s'"
  shows "derived_quality oid s' = derived_quality oid s" and "quality_ok s' = quality_ok s"
    and "has_active_hold oid s' = has_active_hold oid s" and "t_orders s' = t_orders s"
    and "latest_final_inspection oid s' = latest_final_inspection oid s"
    and "has_valid_release oid x s' = has_valid_release oid x s"
proof -
  show d: "derived_quality oid s' = derived_quality oid s" for oid
    using assms by (intro derived_quality_cong) (simp_all add: quality_logged_def has_active_hold_def)
  show "quality_ok s' = quality_ok s" "has_active_hold oid s' = has_active_hold oid s" "t_orders s' = t_orders s"
    "latest_final_inspection oid s' = latest_final_inspection oid s"
    "has_valid_release oid x s' = has_valid_release oid x s"
    using assms d by (simp_all add: quality_logged_def quality_ok_def has_active_hold_def
        latest_final_inspection_def has_valid_release_def split: option.split)
qed

lemma quality_locks [simp]:
  "t_orders (take_locks ls s) = t_orders s" "t_inspections (take_locks ls s) = t_inspections s"
  "t_holds (take_locks ls s) = t_holds s" "t_releases (take_locks ls s) = t_releases s"
  "t_policies (take_locks ls s) = t_policies s" "active_policy g c (take_locks ls s) = active_policy g c s"
  by (simp_all add: take_locks_def active_policy_def)

text \<open>The run of a recorded inspection.\<close>

lemma record_inspectionD:
  assumes "record_inspection p oid data s = Inr (i, s')"
  obtains ord sl line policy rules ev h s1 ord' s2 where
    "row or_id oid (t_orders s) = Some ord" "or_id ord = oid" "sl = take_locks [LockOrder oid] s"
    "active_policy (or_organization_id ord) DEMO_POLICY_CODE s = Some policy"
    "rules_from_json (qp_rules policy) = Inr rules"
    "ev = evaluate_inspection rules (ni_inspected_units data) (ni_defective_units data)
       (critical_defects_of (ni_defects data))"
    "store_inspection ord (new_inspection ord data line (qp_id policy) (ie_result ev) p sl) ev
       (ni_defects data) sl = Inr (i, h, s1)"
    "touch_order ord s1 = Inr (ord', s2)" "quality_logged s2 s'"
proof -
  from assms obtain scoped ord sl line policy rules h s1 ord' s2 where
      ld: "load_order oid p ''quality:inspect'' s = Inr scoped"
    and lo: "lock_order (or_id scoped) s = Inr (ord, sl)"
    and r: "active_policy (or_organization_id ord) DEMO_POLICY_CODE sl = Some policy"
      "rules_from_json (qp_rules policy) = Inr rules"
    and st: "store_inspection ord (new_inspection ord data line (qp_id policy)
         (ie_result (evaluate_inspection rules (ni_inspected_units data) (ni_defective_units data)
            (critical_defects_of (ni_defects data)))) p sl)
       (evaluate_inspection rules (ni_inspected_units data) (ni_defective_units data)
          (critical_defects_of (ni_defects data))) (ni_defects data) sl = Inr (i, h, s1)"
    and t: "touch_order ord s1 = Inr (ord', s2)" and fin: "quality_logged s2 s'"
    by (auto simp: record_inspection_def run_simps split: option.splits)
  have oid: "or_id scoped = oid"
    using ld by (auto simp: load_defs dest: load_scoped_cases(1) [THEN row_key])
  have l: "row or_id oid (t_orders s) = Some ord" "sl = take_locks [LockOrder oid] s"
    using lock_orderD [OF lo] oid by simp_all
  show thesis
    using that [OF l(1) row_key [OF l(1)] l(2) _ r(2) refl st t fin] r(1) l(2) by simp
qed

section \<open>A failed inspection blocks the order\<close>

lemma holds_make_active [simp]: "has_active_hold oid s \<longleftrightarrow> (\<exists>h \<in> set (t_holds s). ho_order_id h = oid \<and> ho_status h = HOLD_ACTIVE)"
  by (simp add: has_active_hold_def list_ex_iff)

lemma failed_inspection_state:
  assumes run: "record_inspection p oid data s = Inr (i, s')" and fail: "in_result i = FAIL"
  shows "\<exists>h \<in> set (t_holds s'). ho_order_id h = oid \<and> ho_status h = HOLD_ACTIVE \<and> ho_inspection_id h = Some (in_id i)"
    and "\<exists>ord. row or_id oid (t_orders s') = Some ord \<and> or_quality_state ord = QS_HOLD"
proof -
  from run obtain ord sl line policy rules ev h s1 ord' s2 where
      o: "row or_id oid (t_orders s) = Some ord" "or_id ord = oid" "sl = take_locks [LockOrder oid] s"
    and "active_policy (or_organization_id ord) DEMO_POLICY_CODE s = Some policy"
    and "rules_from_json (qp_rules policy) = Inr rules"
    and "ev = evaluate_inspection rules (ni_inspected_units data) (ni_defective_units data)
       (critical_defects_of (ni_defects data))"
    and st: "store_inspection ord (new_inspection ord data line (qp_id policy) (ie_result ev) p sl) ev
       (ni_defects data) sl = Inr (i, h, s1)"
    and t: "touch_order ord s1 = Inr (ord', s2)" and fin: "quality_logged s2 s'"
    by (rule record_inspectionD)
  note st' = store_inspectionD [OF st]
  have i: "in_order_id i = oid" "in_result i = ie_result ev"
    using st'(1) o(2) by (auto simp: new_inspection_def)
  with fail have "ie_result ev = FAIL" by simp
  with st'(7) o(2) obtain y where y: "ho_order_id y = oid" "ho_status y = HOLD_ACTIVE"
      "ho_inspection_id y = Some (in_id i)" "t_holds s1 = t_holds sl @ [y]"
    by blast
  note t' = touch_orderD [OF t]
  have "t_holds s' = t_holds s1" using fin by (simp add: quality_logged_def t'(2))
  with y show "\<exists>h \<in> set (t_holds s'). ho_order_id h = oid \<and> ho_status h = HOLD_ACTIVE \<and> ho_inspection_id h = Some (in_id i)"
    by auto
  have "derived_quality oid s1 = QS_HOLD"
    using st'(2) i(1) y by (auto simp: derived_quality_def quality_state_of_def)
  then show "\<exists>ord. row or_id oid (t_orders s') = Some ord \<and> or_quality_state ord = QS_HOLD"
    using fin o st'(3) by (simp add: quality_logged_def t' row_upd)
qed

lemma active_hold_not_eligible:
  assumes "has_active_hold (or_id ord) s" and "shipment_facts_of ord s = Inr facts"
  shows "\<not> se_eligible (shipment_eligibility_of facts)"
  using assms by (auto simp: shipment_facts_of_def run_simps eligible_iff)

lemma failed_inspection_blocks_order:
  assumes run: "record_inspection p oid data s = Inr (i, s')" and fail: "in_result i = FAIL"
  shows "\<exists>ord. row or_id oid (t_orders s') = Some ord \<and> or_quality_state ord = QS_HOLD \<and>
     (\<exists>h \<in> set (t_holds s'). ho_order_id h = oid \<and> ho_status h = HOLD_ACTIVE \<and>
        ho_inspection_id h = Some (in_id i)) \<and>
     \<not> (\<exists>facts. shipment_facts_of ord s' = Inr facts \<and> se_eligible (shipment_eligibility_of facts))"
proof -
  note f = failed_inspection_state [OF run fail]
  from f(2) obtain ord where o: "row or_id oid (t_orders s') = Some ord" "or_quality_state ord = QS_HOLD" by blast
  have "has_active_hold (or_id ord) s'" using f(1) row_key [OF o(1)] by auto
  from active_hold_not_eligible [OF this] f(1) o show ?thesis by blast
qed

section \<open>Releases\<close>

lemma release_orderD:
  assumes "release_order p oid iid v notes s = Inr (release, s')"
  obtains ord sl i policy s1 ord' s2 where
    "row or_id oid (t_orders s) = Some ord" "or_id ord = oid" "sl = take_locks [LockOrder oid] s"
    "v = or_version ord" "row in_id iid (t_inspections s) = Some i" "in_order_id i = oid"
    "in_inspection_type i = FINAL" "in_result i = PASS"
    "\<exists>latest. latest_final_inspection oid s = Some latest \<and> in_id latest = in_id i"
    "active_policy (or_organization_id ord) DEMO_POLICY_CODE s = Some policy"
    "in_policy_version_id i = qp_id policy" "in_inspected_by i \<noteq> Some (p_user_id p)"
    "re_order_id release = oid" "re_inspection_id release = in_id i" "re_released_by release = p_user_id p"
    "t_inspections s1 = t_inspections s" "t_orders s1 = t_orders s" "t_holds s1 = t_holds s"
    "t_releases s1 = t_releases s @ [release]"
    "touch_order ord (release_holds oid release p s1) = Inr (ord', s2)" "quality_logged s2 s'"
proof -
  from assms obtain scoped ord sl i latest policy s1 ord' s2 where
      ld: "load_order oid p ''quality:release'' s = Inr scoped"
    and lo: "lock_order (or_id scoped) s = Inr (ord, sl)"
    and c: "v = or_version ord" "row in_id iid (t_inspections sl) = Some i" "in_order_id i = or_id ord"
      "in_inspection_type i = FINAL" "in_result i = PASS" "latest_final_inspection (or_id ord) sl = Some latest"
      "in_id latest = in_id i" "active_policy (or_organization_id ord) DEMO_POLICY_CODE sl = Some policy"
      "in_policy_version_id i = qp_id policy" "in_inspected_by i \<noteq> Some (p_user_id p)"
    and ins: "insert_release
       \<lparr>re_id = 0, re_organization_id = or_organization_id ord, re_factory_id = or_factory_id ord,
        re_order_id = or_id ord, re_inspection_id = in_id i, re_policy_version_id = qp_id policy,
        re_released_by = p_user_id p, re_released_at = utcnow sl, re_notes = notes\<rparr> sl = Inr (release, s1)"
    and t: "touch_order ord (release_holds (or_id ord) release p s1) = Inr (ord', s2)"
    and fin: "quality_logged s2 s'"
    by (auto simp: release_order_def run_simps)
  have oid: "or_id scoped = oid"
    using ld by (auto simp: load_defs dest: load_scoped_cases(1) [THEN row_key])
  have l: "row or_id oid (t_orders s) = Some ord" "sl = take_locks [LockOrder oid] s"
    using lock_orderD [OF lo] oid by simp_all
  note o = row_key [OF l(1)]
  have lat: "latest_final_inspection oid s = Some latest"
    using c(6) o by (simp add: l(2) latest_final_inspection_def)
  have r: "re_order_id release = oid" "re_inspection_id release = in_id i" "re_released_by release = p_user_id p"
    "t_inspections s1 = t_inspections s" "t_orders s1 = t_orders s" "t_holds s1 = t_holds s"
    "t_releases s1 = t_releases s @ [release]"
    using ins o by (auto simp: insert_release_def run_simps draw_def insert_row_Inr l(2))
  show thesis
    using that [OF l(1) o l(2) c(1) _ _ c(4,5) _ _ c(9,10) r _ fin] c(2,3,7,8) o lat l(2) t by auto
qed

lemma release_holds_frame [simp]:
  "t_orders (release_holds oid r p s) = t_orders s" "t_inspections (release_holds oid r p s) = t_inspections s"
  "t_releases (release_holds oid r p s) = t_releases s" "utcnow (release_holds oid r p s) = utcnow s"
  by (simp_all add: release_holds_def Let_def take_locks_def)

text \<open>After the release no hold of the order is active; those of other orders are as they were.\<close>

lemma release_holds_active:
  assumes "distinct (map ho_id (t_holds s))"
  shows "has_active_hold x (release_holds oid r p s) \<longleftrightarrow> x \<noteq> oid \<and> has_active_hold x s"
proof -
  let ?act = "\<lambda>h. ho_order_id h = oid \<and> ho_status h = HOLD_ACTIVE"
  have key: "h' = h" if "h \<in> set (t_holds s)" "h' \<in> set (t_holds s)" "ho_id h' = ho_id h" for h h'
    using assms that by (auto simp: distinct_map dest: inj_onD)
  then have "ho_id h \<in> ho_id ` set (filter ?act (t_holds s)) \<longleftrightarrow> ?act h" if "h \<in> set (t_holds s)" for h
    using that by force
  then have "t_holds (release_holds oid r p s) = map (\<lambda>h. if ?act h then release_hold r p h else h) (t_holds s)"
    by (auto simp: release_holds_def mark_def Let_def take_locks_def)
  then show ?thesis by (auto simp: release_hold_def)
qed

lemma release_state:
  assumes run: "release_order p oid iid v notes s = Inr (release, s')"
    and ids: "distinct (map ho_id (t_holds s))"
  shows "\<not> has_active_hold oid s'" and "has_valid_release oid (latest_final_inspection oid s') s'"
    and "\<exists>old ord. row or_id oid (t_orders s) = Some old \<and> v = or_version old \<and>
           row or_id oid (t_orders s') = Some ord \<and> or_quality_state ord = QS_RELEASED \<and>
           or_version ord = or_version old + 1"
proof -
  from run obtain ord sl i policy s1 ord' s2 where
    o: "row or_id oid (t_orders s) = Some ord" "or_id ord = oid" "sl = take_locks [LockOrder oid] s"
    "v = or_version ord" "row in_id iid (t_inspections s) = Some i" "in_order_id i = oid"
    "in_inspection_type i = FINAL" "in_result i = PASS"
    and lat: "\<exists>latest. latest_final_inspection oid s = Some latest \<and> in_id latest = in_id i"
    and "active_policy (or_organization_id ord) DEMO_POLICY_CODE s = Some policy"
    "in_policy_version_id i = qp_id policy" "in_inspected_by i \<noteq> Some (p_user_id p)"
    and r: "re_order_id release = oid" "re_inspection_id release = in_id i" "re_released_by release = p_user_id p"
    "t_inspections s1 = t_inspections s" "t_orders s1 = t_orders s" "t_holds s1 = t_holds s"
    "t_releases s1 = t_releases s @ [release]"
    and t: "touch_order ord (release_holds oid release p s1) = Inr (ord', s2)" and fin: "quality_logged s2 s'"
    by (rule release_orderD)
  let ?s = "release_holds oid release p s1"
  note t' = touch_orderD [OF t]
  have logged: "quality_logged ?s s' \<or> t_inspections s' = t_inspections s1 \<and> t_releases s' = t_releases s1 \<and>
      t_holds s' = t_holds ?s"
    using fin by (simp add: quality_logged_def t'(2))
  then have same: "t_inspections s' = t_inspections s" "t_releases s' = t_releases s @ [release]"
    "t_holds s' = t_holds ?s" using r by (auto simp: quality_logged_def)
  have act: "\<not> has_active_hold oid ?s" using release_holds_active [of s1 oid oid release p] ids r by simp
  with same show "\<not> has_active_hold oid s'" by simp
  have "latest_final_inspection oid s' = latest_final_inspection oid s"
    by (simp add: latest_final_inspection_def same)
  with lat same r show vr: "has_valid_release oid (latest_final_inspection oid s') s'"
    by (auto simp: has_valid_release_def)
  have "latest_final_inspection oid ?s = latest_final_inspection oid s"
    by (simp add: latest_final_inspection_def r)
  with lat r have "has_valid_release oid (latest_final_inspection oid ?s) ?s"
    by (auto simp: has_valid_release_def)
  moreover have "\<exists>i \<in> set (t_inspections ?s). in_order_id i = oid"
    using o(5,6) row_in_set r(4) by fastforce
  ultimately have "derived_quality oid ?s = QS_RELEASED"
    using act by (auto simp: derived_quality_def quality_state_of_def)
  then show "\<exists>old ord. row or_id oid (t_orders s) = Some old \<and> v = or_version old \<and>
       row or_id oid (t_orders s') = Some ord \<and> or_quality_state ord = QS_RELEASED \<and>
       or_version ord = or_version old + 1"
    using fin o r by (simp add: quality_logged_def t' row_upd)
qed

section \<open>The quality books\<close>

text \<open>
  Every release stands on a passing final inspection of its order by somebody else, and every
  order's quality state is the one its records give.
\<close>

definition release_ok :: "inspection list \<Rightarrow> quality_release \<Rightarrow> bool" where
  "release_ok is r \<longleftrightarrow>
     (\<exists>i \<in> set is. in_id i = re_inspection_id r \<and> in_order_id i = re_order_id r \<and>
        in_inspection_type i = FINAL \<and> in_result i = PASS \<and> in_inspected_by i \<noteq> Some (re_released_by r))"

definition quality_books :: "db \<Rightarrow> bool" where
  "quality_books s \<longleftrightarrow>
     quality_ok s \<and> distinct (map ho_id (t_holds s)) \<and> distinct (map in_id (t_inspections s)) \<and>
     (\<forall>r \<in> set (t_releases s). release_ok (t_inspections s) r)"

text \<open>The commands of the service that change a record.\<close>

inductive quality_step :: "db \<Rightarrow> db \<Rightarrow> bool" where
  inspect: "record_inspection p oid data s = Inr (i, s') \<Longrightarrow> quality_step s s'"
| hold: "place_hold p oid reason s = Inr (h, s') \<Longrightarrow> quality_step s s'"
| release: "release_order p oid iid v notes s = Inr (r, s') \<Longrightarrow> quality_step s s'"

text \<open>
  A step of the world: a command, or any other transaction. The others leave the records of
  quality alone and change an order in anything but its quality state; an order they create
  has no records and is not inspected. The clock may have moved.
\<close>

inductive quality_world :: "db \<Rightarrow> db \<Rightarrow> bool" where
  command: "quality_step s s' \<Longrightarrow> quality_world s s'"
| elsewhere: "t_inspections s' = t_inspections s \<Longrightarrow> t_holds s' = t_holds s \<Longrightarrow> t_releases s' = t_releases s \<Longrightarrow>
     distinct (map or_id (t_orders s')) \<Longrightarrow>
     \<forall>x \<in> set (t_orders s').
       (\<exists>y \<in> set (t_orders s). or_id x = or_id y \<and> or_quality_state x = or_quality_state y) \<or>
       (or_quality_state x = QS_NOT_INSPECTED \<and> or_id x \<notin> in_order_id ` set (t_inspections s) \<and>
        or_id x \<notin> ho_order_id ` set (t_holds s)) \<Longrightarrow>
     quality_world s s'"

lemma inspect_books:
  assumes inv: "quality_books s" and run: "record_inspection p oid data s = Inr (i, s')"
  shows "quality_books s'"
proof -
  from run obtain ord sl line policy rules ev h s1 ord' s2 where
      o: "row or_id oid (t_orders s) = Some ord" "or_id ord = oid" "sl = take_locks [LockOrder oid] s"
    and "active_policy (or_organization_id ord) DEMO_POLICY_CODE s = Some policy"
    and "rules_from_json (qp_rules policy) = Inr rules"
    and "ev = evaluate_inspection rules (ni_inspected_units data) (ni_defective_units data)
       (critical_defects_of (ni_defects data))"
    and st: "store_inspection ord (new_inspection ord data line (qp_id policy) (ie_result ev) p sl) ev
       (ni_defects data) sl = Inr (i, h, s1)"
    and t: "touch_order ord s1 = Inr (ord', s2)" and fin: "quality_logged s2 s'"
    by (rule record_inspectionD)
  note st' = store_inspectionD [OF st]
  have i: "in_order_id i = oid" using st'(1) o(2) by (auto simp: new_inspection_def)
  have h: "has_active_hold x s1 = has_active_hold x s" if "x \<noteq> oid" for x
    using st'(7,8) that o(2,3) by (cases "ie_result ev = FAIL") auto
  have "quality_ok s2"
  proof (rule touch_order_ok [OF _ _ _ t])
    show "quality_ok s" using inv by (simp add: quality_books_def)
    show "t_orders s1 = t_orders s" using st'(3) o(3) by simp
    show "derived_quality x s1 = derived_quality x s" if "x \<noteq> or_id ord" for x
      using st'(2,4) o(2,3) i that h [of x] by (intro derived_quality_cong) simp_all
  qed
  moreover have "distinct (map ho_id (t_holds s1))" "distinct (map in_id (t_inspections s1))"
    using inv st'(9,10) o(3) by (simp_all add: quality_books_def)
  moreover have "release_ok (t_inspections s1) r" if "r \<in> set (t_releases s1)" for r
    using inv that st'(2,4) o(3) by (fastforce simp: quality_books_def release_ok_def)
  ultimately show ?thesis
    using fin quality_loggedD(2) [OF fin] by (auto simp: quality_books_def quality_logged_def touch_orderD(2) [OF t])
qed

lemma hold_books:
  assumes inv: "quality_books s" and run: "place_hold p oid reason s = Inr (h, s')"
  shows "quality_books s'"
proof -
  from run obtain scoped ord sl s1 ord' s2 where
      "load_order oid p ''quality:hold'' s = Inr scoped"
    and lo: "lock_order (or_id scoped) s = Inr (ord, sl)"
    and ins: "insert_hold
       \<lparr>ho_id = 0, ho_organization_id = or_organization_id ord, ho_factory_id = or_factory_id ord,
        ho_order_id = or_id ord, ho_inspection_id = None, ho_reason = reason,
        ho_status = HOLD_ACTIVE, ho_created_by = Some (p_user_id p), ho_created_at = 0,
        ho_released_by = None, ho_released_at = None, ho_release_id = None\<rparr> sl = Inr (h, s1)"
    and t: "touch_order ord s1 = Inr (ord', s2)"
    and fin: "quality_logged s2 s'"
    by (auto simp: place_hold_def run_simps)
  have sl: "sl = take_locks [LockOrder (or_id scoped)] s" using lock_orderD [OF lo] by simp
  have s1: "t_orders s1 = t_orders s" "t_inspections s1 = t_inspections s" "t_releases s1 = t_releases s"
    "\<exists>x. t_holds s1 = t_holds s @ [x] \<and> ho_order_id x = or_id ord \<and> ho_id x \<notin> ho_id ` set (t_holds s)"
    using ins by (auto simp: insert_hold_def run_simps draw_def insert_row_Inr sl)
  have "quality_ok s2"
  proof (rule touch_order_ok [OF _ _ _ t])
    show "quality_ok s" using inv by (simp add: quality_books_def)
    show "t_orders s1 = t_orders s" by (rule s1(1))
    show "derived_quality x s1 = derived_quality x s" if "x \<noteq> or_id ord" for x
      using s1 that by (intro derived_quality_cong) auto
  qed
  then show ?thesis
    using inv fin quality_loggedD(2) [OF fin] s1
    by (auto simp: quality_books_def quality_logged_def touch_orderD(2) [OF t])
qed

lemma release_books:
  assumes inv: "quality_books s" and run: "release_order p oid iid v notes s = Inr (r, s')"
  shows "quality_books s'"
proof -
  from run obtain ord sl i policy s1 ord' s2 where
    o: "row or_id oid (t_orders s) = Some ord" "or_id ord = oid" "sl = take_locks [LockOrder oid] s"
    "v = or_version ord" "row in_id iid (t_inspections s) = Some i" "in_order_id i = oid"
    "in_inspection_type i = FINAL" "in_result i = PASS"
    and "\<exists>latest. latest_final_inspection oid s = Some latest \<and> in_id latest = in_id i"
    and "active_policy (or_organization_id ord) DEMO_POLICY_CODE s = Some policy"
    and "in_policy_version_id i = qp_id policy" and diff: "in_inspected_by i \<noteq> Some (p_user_id p)"
    and r: "re_order_id r = oid" "re_inspection_id r = in_id i" "re_released_by r = p_user_id p"
    "t_inspections s1 = t_inspections s" "t_orders s1 = t_orders s" "t_holds s1 = t_holds s"
    "t_releases s1 = t_releases s @ [r]"
    and t: "touch_order ord (release_holds oid r p s1) = Inr (ord', s2)" and fin: "quality_logged s2 s'"
    by (rule release_orderD)
  let ?s = "release_holds oid r p s1"
  have ids: "distinct (map ho_id (t_holds s1))" using inv r(6) by (simp add: quality_books_def)
  have "quality_ok s2"
  proof (rule touch_order_ok [OF _ _ _ t])
    show "quality_ok s" using inv by (simp add: quality_books_def)
    show "t_orders ?s = t_orders s" using r(5) by simp
    show "derived_quality x ?s = derived_quality x s" if "x \<noteq> or_id ord" for x
      using release_holds_active [OF ids, of x oid r p] that o(2) r
      by (intro derived_quality_cong) simp_all
  qed
  moreover have "map ho_id (t_holds ?s) = map ho_id (t_holds s1)"
    by (simp add: release_holds_def Let_def mark_def take_locks_def release_hold_def comp_def)
  moreover have "release_ok (t_inspections s) r"
    using row_in_set [OF o(5)] o(6-8) diff r by (auto simp: release_ok_def)
  ultimately show ?thesis
    using inv fin quality_loggedD(2) [OF fin] r
    by (auto simp: quality_books_def quality_logged_def touch_orderD(2) [OF t])
qed

lemma quality_step_books: "quality_step s s' \<Longrightarrow> quality_books s \<Longrightarrow> quality_books s'"
  by (induction rule: quality_step.induct) (auto dest: inspect_books hold_books release_books)

lemma derived_unrecorded:
  assumes "oid \<notin> in_order_id ` set (t_inspections s)" and "oid \<notin> ho_order_id ` set (t_holds s)"
  shows "derived_quality oid s = QS_NOT_INSPECTED"
proof -
  have "\<not> (\<exists>i \<in> set (t_inspections s). in_order_id i = oid)" "\<not> has_active_hold oid s"
    using assms by (auto simp: has_active_hold_def list_ex_iff)
  moreover from this(1) have "filter (\<lambda>i. in_order_id i = oid \<and> in_inspection_type i = FINAL) (t_inspections s) = []"
    by (auto simp: filter_empty_conv)
  then have "latest_final_inspection oid s = None" by (simp add: latest_final_inspection_def)
  ultimately show ?thesis by (simp add: derived_quality_def quality_state_of_def has_valid_release_def)
qed

lemma quality_world_books: "quality_world s s' \<Longrightarrow> quality_books s \<Longrightarrow> quality_books s'"
proof (induction rule: quality_world.induct)
  case (command s s')
  then show ?case by (rule quality_step_books)
next
  case (elsewhere s' s)
  have same: "derived_quality oid s' = derived_quality oid s" for oid
    by (rule derived_quality_cong) (simp_all add: elsewhere.hyps has_active_hold_def)
  have "or_quality_state x = derived_quality (or_id x) s'" if "x \<in> set (t_orders s')" for x
    using elsewhere.hyps(5) elsewhere.prems that
    by (auto simp: same derived_unrecorded quality_books_def quality_ok_def)
  then show ?case using elsewhere.hyps elsewhere.prems by (simp add: quality_books_def quality_ok_def)
qed

lemma quality_worlds_books: "quality_world\<^sup>*\<^sup>* s s' \<Longrightarrow> quality_books s \<Longrightarrow> quality_books s'"
  by (induction rule: rtranclp_induct) (auto dest: quality_world_books)

lemma latest_final_in: "latest_final_inspection oid s = Some i \<Longrightarrow> i \<in> set (t_inspections s)"
proof -
  assume a: "latest_final_inspection oid s = Some i"
  then have "i \<in> set (sort_key newest (filter (\<lambda>i. in_order_id i = oid \<and> in_inspection_type i = FINAL) (t_inspections s)))"
    by (auto simp: latest_final_inspection_def simp del: set_sort split: list.splits)
  then show ?thesis by simp
qed

lemma released_in_books:
  assumes inv: "quality_books s" and ord: "ord \<in> set (t_orders s)"
    and st: "or_quality_state ord = QS_RELEASED"
  shows "\<not> has_active_hold (or_id ord) s"
    and "\<exists>i r. latest_final_inspection (or_id ord) s = Some i \<and> in_result i = PASS \<and>
           r \<in> set (t_releases s) \<and> re_order_id r = or_id ord \<and> re_inspection_id r = in_id i \<and>
           in_inspected_by i \<noteq> Some (re_released_by r)"
proof -
  have d: "derived_quality (or_id ord) s = QS_RELEASED"
    using inv ord st by (simp add: quality_books_def quality_ok_def)
  then show "\<not> has_active_hold (or_id ord) s"
    by (auto simp: derived_quality_def quality_state_of_def split: if_splits)
  from d obtain i where i: "latest_final_inspection (or_id ord) s = Some i"
      "has_valid_release (or_id ord) (Some i) s"
    by (auto simp: derived_quality_def quality_state_of_def has_valid_release_def split: if_splits option.splits)
  then obtain r where r: "r \<in> set (t_releases s)" "re_order_id r = or_id ord" "re_inspection_id r = in_id i"
    by (auto simp: has_valid_release_def list_ex_iff)
  with inv obtain j where j: "j \<in> set (t_inspections s)" "in_id j = in_id i" "in_result j = PASS"
      "in_inspected_by j \<noteq> Some (re_released_by r)"
    by (fastforce simp: quality_books_def release_ok_def)
  moreover have "j = i"
    using inv j(1,2) latest_final_in [OF i(1)] by (auto simp: quality_books_def distinct_map dest: inj_onD)
  ultimately show "\<exists>i r. latest_final_inspection (or_id ord) s = Some i \<and> in_result i = PASS \<and>
         r \<in> set (t_releases s) \<and> re_order_id r = or_id ord \<and> re_inspection_id r = in_id i \<and>
         in_inspected_by i \<noteq> Some (re_released_by r)"
    using i(1) r by auto
qed

section \<open>Properties\<close>

definition demo_policy :: quality_policy_version where
  "demo_policy =
     \<lparr>qp_id = 50, qp_organization_id = 1, qp_code = ''QP-DEMO'', qp_version_no = 1,
      qp_status = POLICY_ACTIVE,
      qp_rules = [(Lit ''sample_size'', JInt 10), (Lit ''max_defective_units'', JInt 1),
        (Lit ''max_critical_defects'', JInt 0),
        (Lit ''required_inspection_types'', JArr [JStr ''FINAL''])],
      qp_is_demo = True, qp_approved_by = None, qp_approved_at = None\<rparr>"

definition quality_demo :: db where
  "quality_demo =
     empty_db\<lparr>t_factories := [demo_factory], t_policies := [demo_policy],
       t_orders := [demo_order\<lparr>or_production_state := PRODUCTION_COMPLETE, or_packed_units := 100\<rparr>]\<rparr>"

definition demo_report :: "int \<Rightarrow> new_inspection_input" where
  "demo_report defective =
     \<lparr>ni_inspection_type = FINAL, ni_inspected_units = 20, ni_defective_units = defective,
      ni_defects = [], ni_line_id = None\<rparr>"

lemma quality_demo_books: "quality_books quality_demo"
  by (simp add: quality_books_def quality_ok_def quality_demo_def empty_db_def derived_quality_def
      quality_state_of_def demo_order_def)

text \<open>
  C17. A failed inspection blocks the order: after \<open>record_inspection\<close> returned an inspection
  with the result FAIL, the order has an active hold that names this inspection, its quality
  state is HOLD, and no facts the dispatch gate can load for it are eligible for shipment.
\<close>

theorem failed_inspection_blocks:
  assumes "record_inspection p oid data s = Inr (i, s')" and "in_result i = FAIL"
  shows "\<exists>ord. row or_id oid (t_orders s') = Some ord \<and> or_quality_state ord = QS_HOLD \<and>
     (\<exists>h \<in> set (t_holds s'). ho_order_id h = oid \<and> ho_status h = HOLD_ACTIVE \<and>
        ho_inspection_id h = Some (in_id i)) \<and>
     \<not> (\<exists>facts. shipment_facts_of ord s' = Inr facts \<and> se_eligible (shipment_eligibility_of facts))"
  using assms by (rule failed_inspection_blocks_order)

definition failed_run :: "exn + (inspection \<times> db)" where
  "failed_run = record_inspection (demo_user 5 [QUALITY_MANAGER]) 9 (demo_report 2) quality_demo"

lemma failed_run_value:
  "case failed_run of Inl _ \<Rightarrow> False | Inr (i, s') \<Rightarrow> in_result i = FAIL \<and> length (t_holds s') = 1"
  by code_simp

theorem failed_inspection_blocks_witness:
  "\<exists>i s' ord. failed_run = Inr (i, s') \<and> row or_id 9 (t_orders s') = Some ord \<and>
     or_quality_state ord = QS_HOLD"
proof -
  from failed_run_value obtain i s' where r: "failed_run = Inr (i, s')" "in_result i = FAIL"
    by (auto split: sum.splits)
  from failed_inspection_blocks [OF r [unfolded failed_run_def]] r(1) show ?thesis by blast
qed

text \<open>
  C18. Separation of duties: when \<open>release_order\<close> succeeds, the released inspection is the
  order's latest FINAL inspection, it passed under the policy that is active now, and the
  releaser is not the person who inspected; afterwards no hold of the order is active, the
  release is the valid one, and the order is RELEASED in the version after the one presented.
\<close>

theorem release_separates_duties:
  assumes "release_order p oid iid v notes s = Inr (release, s')"
    and "distinct (map ho_id (t_holds s))"
  shows "(\<exists>old i latest policy. row or_id oid (t_orders s) = Some old \<and> v = or_version old \<and>
      row in_id iid (t_inspections s) = Some i \<and> in_order_id i = oid \<and>
      in_inspection_type i = FINAL \<and> in_result i = PASS \<and>
      latest_final_inspection oid s = Some latest \<and> in_id latest = in_id i \<and>
      active_policy (or_organization_id old) DEMO_POLICY_CODE s = Some policy \<and>
      in_policy_version_id i = qp_id policy \<and> in_inspected_by i \<noteq> Some (p_user_id p)) \<and>
    \<not> has_active_hold oid s' \<and> has_valid_release oid (latest_final_inspection oid s') s' \<and>
    (\<exists>ord. row or_id oid (t_orders s') = Some ord \<and> or_quality_state ord = QS_RELEASED \<and>
       or_version ord = v + 1)"
proof -
  have "\<exists>old i latest policy. row or_id oid (t_orders s) = Some old \<and> v = or_version old \<and>
      row in_id iid (t_inspections s) = Some i \<and> in_order_id i = oid \<and>
      in_inspection_type i = FINAL \<and> in_result i = PASS \<and>
      latest_final_inspection oid s = Some latest \<and> in_id latest = in_id i \<and>
      active_policy (or_organization_id old) DEMO_POLICY_CODE s = Some policy \<and>
      in_policy_version_id i = qp_id policy \<and> in_inspected_by i \<noteq> Some (p_user_id p)"
  proof (rule release_orderD [OF assms(1)], goal_cases)
    case 1
    then show ?case by blast
  qed
  moreover have "\<exists>ord. row or_id oid (t_orders s') = Some ord \<and> or_quality_state ord = QS_RELEASED \<and>
       or_version ord = v + 1"
    using release_state(3) [OF assms] by blast
  ultimately show ?thesis using release_state(1,2) [OF assms] by simp
qed

definition inspected_run :: "exn + (inspection \<times> db)" where
  "inspected_run = record_inspection (demo_user 5 [QUALITY_MANAGER]) 9 (demo_report 1) quality_demo"

definition release_run :: "uuid \<Rightarrow> exn + (quality_release \<times> db)" where
  "release_run releaser =
     bind_err inspected_run (\<lambda>(i, s).
     release_order (demo_user releaser [QUALITY_MANAGER]) 9 (in_id i) 2 None s)"

lemma release_run_value:
  "case inspected_run of Inl _ \<Rightarrow> False | Inr (i, s) \<Rightarrow> distinct (map ho_id (t_holds s))"
  "case release_run 6 of Inl _ \<Rightarrow> False | Inr _ \<Rightarrow> True"
  "case release_run 5 of Inl e \<Rightarrow> http_status e = 403 | Inr _ \<Rightarrow> False"
  by code_simp+

theorem release_separates_duties_witness:
  "\<exists>r s' ord. release_run 6 = Inr (r, s') \<and> row or_id 9 (t_orders s') = Some ord \<and>
     or_quality_state ord = QS_RELEASED \<and> or_version ord = 3"
proof -
  from release_run_value(1,2) obtain i s r s' where
      i: "inspected_run = Inr (i, s)" and ids: "distinct (map ho_id (t_holds s))" and run: "release_run 6 = Inr (r, s')"
    by (auto split: sum.splits)
  from run have "release_order (demo_user 6 [QUALITY_MANAGER]) 9 (in_id i) 2 None s = Inr (r, s')"
    by (simp only: release_run_def i bind_err_simps prod.case)
  from release_separates_duties [OF this ids] run show ?thesis by auto
qed

text \<open>
  C19. A released order was inspected and released by two people: start from records in order
  (\<open>quality_books\<close>: unique ids, states as derived, every release on a passing final inspection
  of its order by somebody else) and run any sequence of inspections, manual holds and
  releases, with any other transactions in between that leave the records and the quality
  states alone; then an order whose quality state is RELEASED has no active hold, its latest
  FINAL inspection passed, and a release of exactly that inspection was signed by a user
  other than its inspector.
\<close>

theorem released_order_was_inspected:
  assumes "quality_world\<^sup>*\<^sup>* s s'" and "quality_books s"
    and "ord \<in> set (t_orders s')" and "or_quality_state ord = QS_RELEASED"
  shows "\<not> has_active_hold (or_id ord) s' \<and>
    (\<exists>i r. latest_final_inspection (or_id ord) s' = Some i \<and> in_result i = PASS \<and>
       r \<in> set (t_releases s') \<and> re_order_id r = or_id ord \<and> re_inspection_id r = in_id i \<and>
       in_inspected_by i \<noteq> Some (re_released_by r))"
  using released_in_books [OF quality_worlds_books [OF assms(1,2)] assms(3,4)] by simp

theorem released_order_was_inspected_witness:
  "\<exists>r s' i. release_run 6 = Inr (r, s') \<and> latest_final_inspection 9 s' = Some i \<and> in_result i = PASS"
proof -
  from release_run_value(1,2) obtain i s r s' where
      i: "inspected_run = Inr (i, s)" and ids: "distinct (map ho_id (t_holds s))" and run: "release_run 6 = Inr (r, s')"
    by (auto split: sum.splits)
  from run have r: "release_order (demo_user 6 [QUALITY_MANAGER]) 9 (in_id i) 2 None s = Inr (r, s')"
    by (simp only: release_run_def i bind_err_simps prod.case)
  have "quality_world\<^sup>*\<^sup>* quality_demo s'"
    using quality_world.command [OF quality_step.inspect [OF i [unfolded inspected_run_def]]]
      quality_world.command [OF quality_step.release [OF r]]
    by (meson converse_rtranclp_into_rtranclp r_into_rtranclp)
  moreover obtain ord where ord: "row or_id 9 (t_orders s') = Some ord" "or_quality_state ord = QS_RELEASED"
    using release_state [OF r ids] by blast
  ultimately show ?thesis
    using released_order_was_inspected [OF _ quality_demo_books row_in_set [OF ord(1)] ord(2)] row_key [OF ord(1)] run
    by auto
qed

end
