(* ===== verification/LS_Queue.thy ===== *)
theory LS_Queue
  imports LS_Models "HOL-Library.Product_Lexorder"
begin

text \<open>
  The durable job queue (\<open>app/jobs/queue.py\<close>). A claim, a heartbeat and a failure run in
  transactions of their own, an enqueue and a completion in the caller's; \<open>now()\<close> is the
  clock reading \<open>utcnow\<close> of the state the transaction starts from. The rows other
  transactions hold a lock on, which \<open>SKIP LOCKED\<close> passes over, are the argument \<open>busy\<close>;
  the random jitter of the backoff and what an \<open>on_exhausted\<close> hook leaves behind are
  arguments too. Log lines are not modelled. The lemmas show that a stale lease changes
  nothing, that no job is handed out more often than its attempts allow, and that the loop
  of a claim ends whatever other transactions do meanwhile, unless they use up jobs without
  end.
\<close>

definition QUEUES :: "string list" where
  "QUEUES = [''orchestrator'', ''agent'', ''document'', ''maintenance'']"

definition MAX_ERROR_CHARS :: nat where
  "MAX_ERROR_CHARS = 2000"

definition MAX_BACKOFF_SECONDS :: int where
  "MAX_BACKOFF_SECONDS = 60"

definition EXHAUSTED_AFTER_LEASE_EXPIRY :: string where
  "EXHAUSTED_AFTER_LEASE_EXPIRY = ''attempts exhausted after lease expiry''"

record claimed_job =
  cj_id :: uuid
  cj_queue :: string
  cj_job_type :: string
  cj_payload :: json
  cj_attempt :: int
  cj_max_attempts :: int
  cj_lease_token :: uuid

type_synonym exhausted_callback = "claimed_job \<Rightarrow> string \<Rightarrow> db \<Rightarrow> db"

text \<open>\<open>jitter\<close> is the draw of \<open>random.random()\<close>; the sum is exact here, a float there.\<close>

definition backoff_seconds :: "rat \<Rightarrow> int \<Rightarrow> rat" where
  "backoff_seconds jitter attempt =
     (let exponent = max 0 (min attempt 10);
          base = min (2 ^ nat exponent * 2) MAX_BACKOFF_SECONDS
      in of_int base + jitter)"

text \<open>\<open>timedelta(seconds=...)\<close>: whole microseconds, ties to even.\<close>

definition interval :: "rat \<Rightarrow> datetime" where
  "interval seconds = to_integral ROUND_HALF_EVEN (seconds * 1000000)"

section \<open>Enqueue\<close>

definition new_job ::
  "uuid \<Rightarrow> string \<Rightarrow> string \<Rightarrow> json \<Rightarrow> jtext list option \<Rightarrow> datetime \<Rightarrow> int \<Rightarrow> datetime \<Rightarrow> job" where
  "new_job i queue job_type payload dedupe_key available_at max_attempts now =
     \<lparr>jb_id = i, jb_queue = queue, jb_job_type = job_type, jb_payload = payload,
      jb_dedupe_key = dedupe_key, jb_status = JOB_READY, jb_attempt = 0,
      jb_max_attempts = max_attempts, jb_available_at = available_at, jb_leased_until = None,
      jb_lease_token = None, jb_worker_id = None, jb_heartbeat_at = None, jb_last_error = None,
      jb_created_at = now, jb_completed_at = None\<rparr>"

definition enqueue ::
  "string \<Rightarrow> string \<Rightarrow> json \<Rightarrow> jtext list option \<Rightarrow> datetime option \<Rightarrow> int \<Rightarrow> db \<Rightarrow>
   exn + (uuid option \<times> db)" where
  "enqueue queue job_type payload dedupe_key available_at max_attempts s =
     bind_err (ensure (queue \<in> set QUEUES) (ValueError ''unknown queue'')) (\<lambda>_.
     bind_err (ensure (1 \<le> max_attempts) (ValueError ''max_attempts must be at least 1'')) (\<lambda>_.
     let (i, s) = draw s;
         available = (case available_at of None \<Rightarrow> utcnow s | Some t \<Rightarrow> t);
         j = new_job i queue job_type payload dedupe_key available max_attempts (utcnow s)
     in if dedupe_key \<noteq> None \<and> dedupe_key \<in> jb_dedupe_key ` set (t_jobs s) then Inr (None, s)
        else bind_err (insert_row jb_id j (t_jobs s)) (\<lambda>rows. Inr (Some i, s\<lparr>t_jobs := rows\<rparr>))))"

section \<open>Claim\<close>

definition runnable :: "string list \<Rightarrow> datetime \<Rightarrow> job \<Rightarrow> bool" where
  "runnable queues now j \<longleftrightarrow>
     jb_queue j \<in> set queues \<and>
     ((jb_status j = JOB_READY \<and> jb_available_at j \<le> now) \<or>
      (jb_status j = JOB_LEASED \<and> (case jb_leased_until j of None \<Rightarrow> False | Some t \<Rightarrow> t < now)))"

definition claim_candidate :: "string list \<Rightarrow> uuid list \<Rightarrow> db \<Rightarrow> job option" where
  "claim_candidate queues busy s =
     (case sort_key (\<lambda>j. (jb_available_at j, jb_created_at j))
        (filter (\<lambda>j. runnable queues (utcnow s) j \<and> jb_id j \<notin> set busy) (t_jobs s)) of
        [] \<Rightarrow> None
      | j # _ \<Rightarrow> Some j)"

definition lease_job :: "string \<Rightarrow> int \<Rightarrow> uuid \<Rightarrow> datetime \<Rightarrow> job \<Rightarrow> job" where
  "lease_job worker_id lease_seconds token now j =
     j\<lparr>jb_status := JOB_LEASED, jb_lease_token := Some token, jb_worker_id := Some worker_id,
       jb_attempt := jb_attempt j + 1,
       jb_leased_until := Some (now + interval (of_int lease_seconds)),
       jb_heartbeat_at := Some now\<rparr>"

definition claimed_of :: "job \<Rightarrow> uuid \<Rightarrow> claimed_job" where
  "claimed_of j token =
     \<lparr>cj_id = jb_id j, cj_queue = jb_queue j, cj_job_type = jb_job_type j,
      cj_payload = jb_payload j, cj_attempt = jb_attempt j, cj_max_attempts = jb_max_attempts j,
      cj_lease_token = token\<rparr>"

definition claim_statement ::
  "string list \<Rightarrow> string \<Rightarrow> int \<Rightarrow> uuid list \<Rightarrow> db \<Rightarrow> claimed_job option \<times> db" where
  "claim_statement queues worker_id lease_seconds busy s =
     (let (token, s) = draw s
      in case claim_candidate queues busy s of
           None \<Rightarrow> (None, s)
         | Some j \<Rightarrow>
             let j = lease_job worker_id lease_seconds token (utcnow s) j
             in (Some (claimed_of j token), s\<lparr>t_jobs := upd jb_id j (t_jobs s)\<rparr>))"

text \<open>A reclaimed job without attempts left.\<close>

definition exhaust_job :: "datetime \<Rightarrow> job \<Rightarrow> job" where
  "exhaust_job now j =
     j\<lparr>jb_status := JOB_FAILED, jb_attempt := jb_max_attempts j, jb_lease_token := None,
       jb_leased_until := None, jb_last_error := Some EXHAUSTED_AFTER_LEASE_EXPIRY,
       jb_completed_at := Some now\<rparr>"

definition fail_exhausted :: "claimed_job \<Rightarrow> db \<Rightarrow> db" where
  "fail_exhausted job s =
     s\<lparr>t_jobs := map (\<lambda>j. if jb_id j = cj_id job \<and> jb_lease_token j = Some (cj_lease_token job)
                         then exhaust_job (utcnow s) j else j) (t_jobs s)\<rparr>"

definition exhausted_of :: "claimed_job \<Rightarrow> claimed_job" where
  "exhausted_of job = job\<lparr>cj_attempt := cj_max_attempts job\<rparr>"

definition run_exhausted ::
  "exhausted_callback option \<Rightarrow> claimed_job \<Rightarrow> string \<Rightarrow> db \<Rightarrow> db" where
  "run_exhausted on_exhausted job err s =
     (case on_exhausted of None \<Rightarrow> s | Some hook \<Rightarrow> hook job err s)"

partial_function (option) claim_loop ::
  "exhausted_callback option \<Rightarrow> string list \<Rightarrow> string \<Rightarrow> int \<Rightarrow> (nat \<Rightarrow> uuid list) \<Rightarrow> nat \<Rightarrow> db \<Rightarrow>
   (claimed_job option \<times> db) option" where
  "claim_loop on_exhausted queues worker_id lease_seconds busy n s =
     (case claim_statement queues worker_id lease_seconds (busy n) s of (leased, s) \<Rightarrow>
       (case leased of
          None \<Rightarrow> Some (None, s)
        | Some job \<Rightarrow>
            if cj_attempt job \<le> cj_max_attempts job then Some (Some job, s)
            else claim_loop on_exhausted queues worker_id lease_seconds busy (Suc n)
                   (run_exhausted on_exhausted (exhausted_of job) EXHAUSTED_AFTER_LEASE_EXPIRY
                     (fail_exhausted job s))))"

declare claim_loop.simps [code]

definition claim ::
  "exhausted_callback option \<Rightarrow> string list \<Rightarrow> string \<Rightarrow> int \<Rightarrow> (nat \<Rightarrow> uuid list) \<Rightarrow> db \<Rightarrow>
   (exn + (claimed_job option \<times> db)) option" where
  "claim on_exhausted queues worker_id lease_seconds busy s =
     (if queues = [] then Some (Inl (ValueError ''at least one queue is required''))
      else map_option Inr (claim_loop on_exhausted queues worker_id lease_seconds busy 0 s))"

section \<open>Fenced updates\<close>

definition fence :: "uuid \<Rightarrow> uuid \<Rightarrow> job \<Rightarrow> bool" where
  "fence job_id lease_token j \<longleftrightarrow>
     jb_id j = job_id \<and> jb_lease_token j = Some lease_token \<and> jb_status j = JOB_LEASED"

text \<open>An UPDATE under the fence, and whether it hit a row.\<close>

definition fenced :: "uuid \<Rightarrow> uuid \<Rightarrow> (job \<Rightarrow> job) \<Rightarrow> db \<Rightarrow> bool \<times> db" where
  "fenced job_id lease_token f s =
     (list_ex (fence job_id lease_token) (t_jobs s),
      s\<lparr>t_jobs := map (\<lambda>j. if fence job_id lease_token j then f j else j) (t_jobs s)\<rparr>)"

definition heartbeat :: "uuid \<Rightarrow> uuid \<Rightarrow> int \<Rightarrow> db \<Rightarrow> bool \<times> db" where
  "heartbeat job_id lease_token lease_seconds s =
     fenced job_id lease_token
       (\<lambda>j. j\<lparr>jb_leased_until := Some (utcnow s + interval (of_int lease_seconds)),
              jb_heartbeat_at := Some (utcnow s)\<rparr>) s"

definition complete :: "uuid \<Rightarrow> uuid \<Rightarrow> db \<Rightarrow> bool \<times> db" where
  "complete job_id lease_token s =
     fenced job_id lease_token
       (\<lambda>j. j\<lparr>jb_status := JOB_DONE, jb_leased_until := None, jb_completed_at := Some (utcnow s)\<rparr>) s"

definition failed_job :: "bool \<Rightarrow> string \<Rightarrow> rat \<Rightarrow> datetime \<Rightarrow> job \<Rightarrow> job" where
  "failed_job will_retry err jitter now j =
     (let j' = j\<lparr>jb_lease_token := None, jb_leased_until := None, jb_last_error := Some err\<rparr>
      in if will_retry
         then j'\<lparr>jb_status := JOB_READY,
                 jb_available_at := now + interval (backoff_seconds jitter (jb_attempt j))\<rparr>
         else j'\<lparr>jb_status := JOB_FAILED, jb_completed_at := Some now\<rparr>)"

definition fail_job ::
  "exhausted_callback option \<Rightarrow> rat \<Rightarrow> uuid \<Rightarrow> uuid \<Rightarrow> string \<Rightarrow> bool \<Rightarrow> db \<Rightarrow> bool \<times> db" where
  "fail_job on_exhausted jitter job_id lease_token err retryable s =
     (let err = take MAX_ERROR_CHARS err
      in case find (fence job_id lease_token) (t_jobs s) of
           None \<Rightarrow> (False, s)
         | Some j \<Rightarrow>
             let will_retry = (retryable \<and> jb_attempt j < jb_max_attempts j);
                 s = s\<lparr>t_jobs := upd jb_id (failed_job will_retry err jitter (utcnow s) j) (t_jobs s)\<rparr>
             in (True, if will_retry then s
                       else run_exhausted on_exhausted (claimed_of j lease_token) err s))"

section \<open>The invariant of the queue\<close>

definition job_ok :: "job \<Rightarrow> bool" where
  "job_ok j \<longleftrightarrow>
     0 \<le> jb_attempt j \<and> jb_attempt j \<le> jb_max_attempts j \<and> 1 \<le> jb_max_attempts j \<and>
     (jb_status j = JOB_READY \<longrightarrow> jb_lease_token j = None \<and> jb_attempt j < jb_max_attempts j) \<and>
     (jb_status j = JOB_LEASED \<longrightarrow> jb_lease_token j \<noteq> None \<and> jb_leased_until j \<noteq> None \<and> 1 \<le> jb_attempt j) \<and>
     (jb_status j = JOB_FAILED \<longrightarrow> jb_lease_token j = None \<and> jb_last_error j \<noteq> None)"

definition queue_ok :: "db \<Rightarrow> bool" where
  "queue_ok s \<longleftrightarrow>
     distinct (map jb_id (t_jobs s)) \<and>
     distinct (filter (\<lambda>k. k \<noteq> None) (map jb_dedupe_key (t_jobs s))) \<and>
     (\<forall>j \<in> set (t_jobs s). job_ok j)"

lemma queue_ok_rows:
  assumes "queue_ok s" and "t_jobs s' = map f (t_jobs s)"
    and same: "\<And>j. j \<in> set (t_jobs s) \<Longrightarrow> jb_id (f j) = jb_id j \<and> jb_dedupe_key (f j) = jb_dedupe_key j"
    and "\<And>j. j \<in> set (t_jobs s) \<Longrightarrow> job_ok (f j)"
  shows "queue_ok s'"
proof -
  have "map jb_id (t_jobs s') = map jb_id (t_jobs s)" "map jb_dedupe_key (t_jobs s') = map jb_dedupe_key (t_jobs s)"
    using same by (simp_all add: assms(2))
  moreover have "\<forall>j \<in> set (t_jobs s'). job_ok j" using assms(2,4) by simp
  ultimately show ?thesis using assms(1) by (simp only: queue_ok_def simp_thms)
qed

lemma queue_ok_same: "queue_ok s \<Longrightarrow> t_jobs s' = t_jobs s \<Longrightarrow> queue_ok s'"
  by (simp add: queue_ok_def)

lemma draw_frame [simp]: "t_jobs (snd (draw s)) = t_jobs s" "utcnow (snd (draw s)) = utcnow s"
  by (simp_all add: draw_def)

lemma enqueueD:
  assumes "enqueue q ty pl key av m s = Inr (i, s')"
  shows "(i = None \<and> t_jobs s' = t_jobs s) \<or>
    (\<exists>j. i = Some (jb_id j) \<and> t_jobs s' = t_jobs s @ [j] \<and> jb_id j \<notin> jb_id ` set (t_jobs s) \<and>
       (key = None \<or> key \<notin> jb_dedupe_key ` set (t_jobs s)) \<and> jb_dedupe_key j = key \<and> jb_queue j = q \<and>
       jb_status j = JOB_READY \<and> jb_attempt j = 0 \<and> jb_max_attempts j = m \<and> job_ok j)"
  using assms
  by (auto simp: enqueue_def run_simps draw_def insert_row_Inr new_job_def job_ok_def split: if_splits)

lemma enqueue_ok:
  assumes "queue_ok s" and "enqueue q ty pl key av m s = Inr (i, s')"
  shows "queue_ok s'"
  using enqueueD [OF assms(2)] assms(1) by (auto simp: queue_ok_def)

lemma same_id: "queue_ok s \<Longrightarrow> j \<in> set (t_jobs s) \<Longrightarrow> x \<in> set (t_jobs s) \<Longrightarrow> jb_id x = jb_id j \<Longrightarrow> x = j"
  by (auto simp: queue_ok_def distinct_map dest: inj_onD)

text \<open>The claim's UPDATE.\<close>

lemma candidateD:
  assumes "claim_candidate qs busy s = Some j"
  shows "j \<in> set (t_jobs s)" and "runnable qs (utcnow s) j" and "jb_id j \<notin> set busy"
proof -
  have "j \<in> set (sort_key (\<lambda>j. (jb_available_at j, jb_created_at j))
      (filter (\<lambda>j. runnable qs (utcnow s) j \<and> jb_id j \<notin> set busy) (t_jobs s)))"
    using assms by (auto simp: claim_candidate_def simp del: set_sort split: list.splits)
  then show "j \<in> set (t_jobs s)" "runnable qs (utcnow s) j" "jb_id j \<notin> set busy" by simp_all
qed

lemma candidate_some:
  assumes "j \<in> set (t_jobs s)" and "runnable qs (utcnow s) j" and "jb_id j \<notin> set busy"
  shows "claim_candidate qs busy s \<noteq> None"
proof -
  let ?rows = "filter (\<lambda>j. runnable qs (utcnow s) j \<and> jb_id j \<notin> set busy) (t_jobs s)"
  have "j \<in> set (sort_key (\<lambda>j. (jb_available_at j, jb_created_at j)) ?rows)" using assms by simp
  then obtain x xs where "sort_key (\<lambda>j. (jb_available_at j, jb_created_at j)) ?rows = x # xs"
    by (cases "sort_key (\<lambda>j. (jb_available_at j, jb_created_at j)) ?rows") simp_all
  then show ?thesis by (simp only: claim_candidate_def list.case option.distinct not_False_eq_True)
qed

lemma candidate_draw [simp]: "claim_candidate qs busy (s\<lparr>drawn := n\<rparr>) = claim_candidate qs busy s"
  by (simp add: claim_candidate_def)

lemma claim_statementD:
  assumes "claim_statement qs w ls busy s = (r, s')"
  shows "r = None \<Longrightarrow> t_jobs s' = t_jobs s \<and> utcnow s' = utcnow s"
    and "r = Some job \<Longrightarrow> \<exists>j token. claim_candidate qs busy s = Some j \<and>
      job = claimed_of (lease_job w ls token (utcnow s) j) token \<and>
      t_jobs s' = upd jb_id (lease_job w ls token (utcnow s) j) (t_jobs s) \<and> utcnow s' = utcnow s"
  using assms by (auto simp: claim_statement_def draw_def Let_def split: option.splits)

lemma lease_job_simps [simp]:
  "jb_id (lease_job w ls t n j) = jb_id j" "jb_dedupe_key (lease_job w ls t n j) = jb_dedupe_key j"
  "jb_attempt (lease_job w ls t n j) = jb_attempt j + 1" "jb_status (lease_job w ls t n j) = JOB_LEASED"
  "jb_max_attempts (lease_job w ls t n j) = jb_max_attempts j"
  "jb_lease_token (lease_job w ls t n j) = Some t"
  by (simp_all add: lease_job_def)

lemma claimed_of_simps [simp]:
  "cj_id (claimed_of j t) = jb_id j" "cj_attempt (claimed_of j t) = jb_attempt j"
  "cj_max_attempts (claimed_of j t) = jb_max_attempts j" "cj_lease_token (claimed_of j t) = t"
  by (simp_all add: claimed_of_def)

lemma lease_job_ok:
  "job_ok j \<Longrightarrow> jb_attempt j + 1 \<le> jb_max_attempts j \<Longrightarrow> job_ok (lease_job w ls t n j)"
  by (simp add: job_ok_def lease_job_def)

lemma exhaust_job_ok: "job_ok j \<Longrightarrow> job_ok (exhaust_job n j)"
  by (simp add: job_ok_def exhaust_job_def)

lemma exhaust_lease_ok: "job_ok j \<Longrightarrow> job_ok (exhaust_job n (lease_job w ls t m j))"
  by (simp add: job_ok_def exhaust_job_def lease_job_def)

text \<open>A delivery, and the failure of a job without attempts left, as changes of one row.\<close>

lemma delivered:
  assumes inv: "queue_ok s" and cl: "claim_statement qs w ls busy s = (Some job, s')"
    and "cj_attempt job \<le> cj_max_attempts job"
  obtains j token where "claim_candidate qs busy s = Some j"
    "job = claimed_of (lease_job w ls token (utcnow s) j) token"
    "t_jobs s' = upd jb_id (lease_job w ls token (utcnow s) j) (t_jobs s)" "queue_ok s'"
proof -
  from claim_statementD(2) [OF cl refl] obtain j token where c: "claim_candidate qs busy s = Some j"
      "job = claimed_of (lease_job w ls token (utcnow s) j) token"
      "t_jobs s' = upd jb_id (lease_job w ls token (utcnow s) j) (t_jobs s)" by blast
  note j = candidateD [OF c(1)]
  have "queue_ok s'"
  proof (rule queue_ok_rows [OF inv, where f = "\<lambda>x. if jb_id x = jb_id j then lease_job w ls token (utcnow s) j else x"])
    show "t_jobs s' = map (\<lambda>x. if jb_id x = jb_id j then lease_job w ls token (utcnow s) j else x) (t_jobs s)"
      by (simp add: c(3) upd_def)
    show "job_ok (if jb_id x = jb_id j then lease_job w ls token (utcnow s) j else x)"
      if "x \<in> set (t_jobs s)" for x
      using inv j(1) assms(3) c(2) that by (auto simp: queue_ok_def lease_job_ok)
    show "jb_id (if jb_id x = jb_id j then lease_job w ls token (utcnow s) j else x) = jb_id x \<and>
        jb_dedupe_key (if jb_id x = jb_id j then lease_job w ls token (utcnow s) j else x) = jb_dedupe_key x"
      if "x \<in> set (t_jobs s)" for x
      using same_id [OF inv j(1) that] by (cases "jb_id x = jb_id j") simp_all
  qed
  then show thesis using c that by blast
qed

text \<open>
  The jobs that have been handed out for the last time, so that the next claim of one of them
  fails it, and the jobs that have ended, which no transaction makes runnable again.
\<close>

definition used_up_jobs :: "db \<Rightarrow> uuid set" where
  "used_up_jobs s =
     jb_id ` {j \<in> set (t_jobs s). jb_status j = JOB_LEASED \<and> jb_max_attempts j \<le> jb_attempt j}"

definition ended_jobs :: "db \<Rightarrow> uuid set" where
  "ended_jobs s = jb_id ` {j \<in> set (t_jobs s). jb_status j \<in> {JOB_DONE, JOB_FAILED, JOB_CANCELLED}}"

lemma ended_not_used_up: "queue_ok s \<Longrightarrow> used_up_jobs s \<inter> ended_jobs s = {}"
  by (fastforce simp: used_up_jobs_def ended_jobs_def dest: same_id)

lemma ended_rows:
  assumes "\<And>j. j \<in> set (t_jobs s) \<Longrightarrow> \<exists>j' \<in> set (t_jobs s'). jb_id j' = jb_id j \<and>
      (jb_status j \<in> {JOB_DONE, JOB_FAILED, JOB_CANCELLED} \<longrightarrow> jb_status j' = jb_status j)"
  shows "ended_jobs s \<subseteq> ended_jobs s'"
proof
  fix i assume "i \<in> ended_jobs s"
  then obtain j where j: "j \<in> set (t_jobs s)" "i = jb_id j" "jb_status j \<in> {JOB_DONE, JOB_FAILED, JOB_CANCELLED}"
    by (auto simp: ended_jobs_def)
  with assms [OF j(1)] obtain j' where "j' \<in> set (t_jobs s')" "jb_id j' = i" "jb_status j' = jb_status j" by auto
  then show "i \<in> ended_jobs s'" using j(3) by (auto simp: ended_jobs_def)
qed

lemma ended_map:
  assumes "t_jobs s' = map f (t_jobs s)" and "\<And>j. jb_id (f j) = jb_id j"
    and "\<And>j. jb_status j \<in> {JOB_DONE, JOB_FAILED, JOB_CANCELLED} \<Longrightarrow> jb_status (f j) = jb_status j"
  shows "ended_jobs s \<subseteq> ended_jobs s'"
proof (rule ended_rows)
  fix j assume "j \<in> set (t_jobs s)"
  then show "\<exists>y \<in> set (t_jobs s'). jb_id y = jb_id j \<and>
      (jb_status j \<in> {JOB_DONE, JOB_FAILED, JOB_CANCELLED} \<longrightarrow> jb_status y = jb_status j)"
    using assms by (intro bexI [of _ "f j"]) simp_all
qed

lemma ended_one:
  assumes "queue_ok s" and "j \<in> set (t_jobs s)" and "jb_id j' = jb_id j"
    and "t_jobs s' = map (\<lambda>x. if jb_id x = jb_id j then j' else x) (t_jobs s)"
    and "jb_status j \<notin> {JOB_DONE, JOB_FAILED, JOB_CANCELLED}"
  shows "ended_jobs s \<subseteq> ended_jobs s'"
proof (rule ended_rows)
  fix x assume x: "x \<in> set (t_jobs s)"
  show "\<exists>y \<in> set (t_jobs s'). jb_id y = jb_id x \<and>
      (jb_status x \<in> {JOB_DONE, JOB_FAILED, JOB_CANCELLED} \<longrightarrow> jb_status y = jb_status x)"
  proof (cases "jb_id x = jb_id j")
    case True
    then have "x = j" by (rule same_id [OF assms(1,2) x])
    then show ?thesis using assms(3-5) x by (intro bexI [of _ j']) auto
  next
    case False
    then show ?thesis using assms(4) x by (intro bexI [of _ x]) auto
  qed
qed

lemma exhausted:
  assumes inv: "queue_ok s" and cl: "claim_statement qs w ls busy s = (Some job, s')"
    and "\<not> cj_attempt job \<le> cj_max_attempts job"
  obtains j token where "j \<in> set (t_jobs s)" "jb_status j = JOB_LEASED" "jb_id j \<notin> set busy"
    "jb_max_attempts j \<le> jb_attempt j"
    "t_jobs (fail_exhausted job s') =
       map (\<lambda>x. if jb_id x = jb_id j then exhaust_job (utcnow s) (lease_job w ls token (utcnow s) j) else x)
         (t_jobs s)"
    "queue_ok (fail_exhausted job s')" "utcnow (fail_exhausted job s') = utcnow s"
proof -
  from claim_statementD(2) [OF cl refl] obtain j token where c: "claim_candidate qs busy s = Some j"
      "job = claimed_of (lease_job w ls token (utcnow s) j) token"
      "t_jobs s' = upd jb_id (lease_job w ls token (utcnow s) j) (t_jobs s)" "utcnow s' = utcnow s" by blast
  note j = candidateD [OF c(1)]
  let ?j' = "exhaust_job (utcnow s) (lease_job w ls token (utcnow s) j)"
  let ?f = "\<lambda>x. if jb_id x = jb_id j then ?j' else x"
  have rows: "t_jobs (fail_exhausted job s') = map ?f (t_jobs s)"
    by (auto simp: fail_exhausted_def c upd_def)
  have ok: "job_ok j" and at: "jb_max_attempts j < jb_attempt j + 1"
    using inv j(1) assms(3) c(2) by (simp_all add: queue_ok_def)
  then have st: "jb_status j = JOB_LEASED" using j(2) by (auto simp: job_ok_def runnable_def)
  have keep: "jb_id (?f x) = jb_id x \<and> jb_dedupe_key (?f x) = jb_dedupe_key x \<and> job_ok (?f x)"
    if "x \<in> set (t_jobs s)" for x
  proof (cases "jb_id x = jb_id j")
    case True
    then have "x = j" by (rule same_id [OF inv j(1) that])
    then show ?thesis using exhaust_lease_ok [OF ok] by (simp add: exhaust_job_def)
  next
    case False
    then show ?thesis using inv that by (simp add: queue_ok_def)
  qed
  have "queue_ok (fail_exhausted job s')"
    by (rule queue_ok_rows [OF inv rows]) (use keep in simp_all)
  then show thesis using that [OF j(1) st j(3) _ rows] at c(4) by (simp add: fail_exhausted_def)
qed

text \<open>The fenced updates.\<close>

lemma fenced_ok:
  assumes inv: "queue_ok s" and ok: "\<And>j. job_ok j \<Longrightarrow> jb_status j = JOB_LEASED \<Longrightarrow> job_ok (f j)"
    and same: "\<And>j. jb_id (f j) = jb_id j" "\<And>j. jb_dedupe_key (f j) = jb_dedupe_key j"
  shows "queue_ok (snd (fenced i t f s))"
proof (rule queue_ok_rows [OF inv, where f = "\<lambda>j. if fence i t j then f j else j"])
  show "job_ok (if fence i t j then f j else j)" if "j \<in> set (t_jobs s)" for j
    using inv ok [of j] that by (simp add: queue_ok_def fence_def)
qed (simp_all add: fenced_def same)

lemma heartbeat_ok: "queue_ok s \<Longrightarrow> queue_ok (snd (heartbeat i t ls s))"
  unfolding heartbeat_def by (rule fenced_ok) (auto simp: job_ok_def)

lemma complete_ok: "queue_ok s \<Longrightarrow> queue_ok (snd (complete i t s))"
  unfolding complete_def by (rule fenced_ok) (auto simp: job_ok_def)

lemma failed_job_simps [simp]:
  "jb_id (failed_job b e r n j) = jb_id j" "jb_dedupe_key (failed_job b e r n j) = jb_dedupe_key j"
  "jb_attempt (failed_job b e r n j) = jb_attempt j"
  by (simp_all add: failed_job_def Let_def)

lemma find_fence:
  assumes "queue_ok s" and "find (fence i t) (t_jobs s) = Some j"
  shows "j \<in> set (t_jobs s)" and "jb_id j = i" and "jb_status j = JOB_LEASED" and "job_ok j"
    and "jb_lease_token j = Some t"
  using assms by (auto simp: find_Some_iff fence_def queue_ok_def)

text \<open>The failure without its hook; the hook runs after the commit.\<close>

lemma fail_job_rows:
  assumes inv: "queue_ok s" and "fail_job h jit i t e b s = (r, s')"
  obtains "r = False" "s' = s"
  | j s1 where "r = True" "j \<in> set (t_jobs s)" "jb_id j = i" "jb_lease_token j = Some t" "jb_status j = JOB_LEASED"
      "s1 = s\<lparr>t_jobs := upd jb_id (failed_job (b \<and> jb_attempt j < jb_max_attempts j)
                 (take MAX_ERROR_CHARS e) jit (utcnow s) j) (t_jobs s)\<rparr>"
      "queue_ok s1"
      "s' = s1 \<or> s' = run_exhausted h (claimed_of j t) (take MAX_ERROR_CHARS e) s1"
proof (cases "find (fence i t) (t_jobs s)")
  case None
  then show ?thesis using assms(2) that(1) by (simp add: fail_job_def)
next
  case (Some j)
  note j = find_fence [OF inv Some]
  let ?b = "b \<and> jb_attempt j < jb_max_attempts j"
  let ?j' = "failed_job ?b (take MAX_ERROR_CHARS e) jit (utcnow s) j"
  have "job_ok ?j'" using j(3,4) by (auto simp: failed_job_def job_ok_def Let_def)
  have "queue_ok (s\<lparr>t_jobs := upd jb_id ?j' (t_jobs s)\<rparr>)"
  proof (rule queue_ok_rows [OF inv, where f = "\<lambda>x. if jb_id x = jb_id j then ?j' else x"])
    show "job_ok (if jb_id x = jb_id j then ?j' else x)" if "x \<in> set (t_jobs s)" for x
      using inv that \<open>job_ok ?j'\<close> by (simp add: queue_ok_def)
    show "jb_id (if jb_id x = jb_id j then ?j' else x) = jb_id x \<and>
        jb_dedupe_key (if jb_id x = jb_id j then ?j' else x) = jb_dedupe_key x" if "x \<in> set (t_jobs s)" for x
      using same_id [OF inv j(1) that] by (cases "jb_id x = jb_id j") simp_all
  qed (simp add: upd_def)
  then show ?thesis using assms(2) j Some
    by (intro that(2) [of j "s\<lparr>t_jobs := upd jb_id ?j' (t_jobs s)\<rparr>"])
      (auto simp: fail_job_def Let_def split: if_splits)
qed

section \<open>Interleavings\<close>

text \<open>
  One transaction on the queue, by any worker or service, with the jobs it hands out: an
  enqueue, a claim that hands a job out, one that fails a job without attempts left, the
  fenced updates, the cancellation of a READY job (\<open>app/api/runs.py\<close>), and any transaction
  that leaves the jobs alone (the clock may have moved on).
\<close>

definition cancel_ready :: "(job \<Rightarrow> bool) \<Rightarrow> db \<Rightarrow> db" where
  "cancel_ready P s =
     s\<lparr>t_jobs := map (\<lambda>j. if P j \<and> jb_status j = JOB_READY
                         then j\<lparr>jb_status := JOB_CANCELLED, jb_completed_at := Some (utcnow s)\<rparr> else j) (t_jobs s)\<rparr>"

inductive queue_step :: "db \<Rightarrow> uuid list \<Rightarrow> db \<Rightarrow> bool" where
  enqueued: "enqueue q ty pl key av m s = Inr (i, s') \<Longrightarrow> queue_step s [] s'"
| idle: "claim_statement qs w ls busy s = (None, s') \<Longrightarrow> queue_step s [] s'"
| handed_out: "claim_statement qs w ls busy s = (Some job, s') \<Longrightarrow>
     cj_attempt job \<le> cj_max_attempts job \<Longrightarrow> queue_step s [cj_id job] s'"
| used_up: "claim_statement qs w ls busy s = (Some job, s') \<Longrightarrow>
     \<not> cj_attempt job \<le> cj_max_attempts job \<Longrightarrow> queue_step s [] (fail_exhausted job s')"
| beat: "queue_step s [] (snd (heartbeat i t ls s))"
| completed: "queue_step s [] (snd (complete i t s))"
| failed: "fail_job None jitter i t err b s = (r, s') \<Longrightarrow> queue_step s [] s'"
| cancelled: "queue_step s [] (cancel_ready P s)"
| elsewhere: "t_jobs s' = t_jobs s \<Longrightarrow> queue_step s [] s'"

inductive queue_run :: "db \<Rightarrow> uuid list \<Rightarrow> db \<Rightarrow> bool" where
  run_start: "queue_run s [] s"
| run_step: "queue_run s ids s1 \<Longrightarrow> queue_step s1 new s2 \<Longrightarrow> queue_run s (ids @ new) s2"

text \<open>What a transaction does to the attempts: rows stay, the count of a job goes up by at
  least the times it is handed out.\<close>

definition attempts_grow :: "db \<Rightarrow> uuid list \<Rightarrow> db \<Rightarrow> bool" where
  "attempts_grow s ids s' \<longleftrightarrow>
     set ids \<subseteq> jb_id ` set (t_jobs s) \<and>
     (\<forall>j \<in> set (t_jobs s). \<exists>j' \<in> set (t_jobs s'). jb_id j' = jb_id j \<and>
        jb_dedupe_key j' = jb_dedupe_key j \<and> jb_attempt j + int (count_list ids (jb_id j)) \<le> jb_attempt j')"

lemma grow_rows:
  assumes "t_jobs s' = map f (t_jobs s)" and "set ids \<subseteq> jb_id ` set (t_jobs s)"
    and "\<And>j. j \<in> set (t_jobs s) \<Longrightarrow>
      jb_id (f j) = jb_id j \<and> jb_dedupe_key (f j) = jb_dedupe_key j \<and>
      jb_attempt j + int (count_list ids (jb_id j)) \<le> jb_attempt (f j)"
  shows "attempts_grow s ids s'"
  using assms by (auto simp: attempts_grow_def)

lemma grow_one:
  assumes inv: "queue_ok s" and j: "j \<in> set (t_jobs s)"
    and rows: "t_jobs s' = map (\<lambda>x. if jb_id x = jb_id j then j' else x) (t_jobs s)"
    and j': "jb_id j' = jb_id j" "jb_dedupe_key j' = jb_dedupe_key j" "jb_attempt j + int (length ids) \<le> jb_attempt j'" and ids: "set ids \<subseteq> {jb_id j}"
  shows "attempts_grow s ids s'"
proof (rule grow_rows [OF rows])
  show "set ids \<subseteq> jb_id ` set (t_jobs s)" using ids j by auto
  fix x
  assume x: "x \<in> set (t_jobs s)"
  show "jb_id (if jb_id x = jb_id j then j' else x) = jb_id x \<and>
      jb_dedupe_key (if jb_id x = jb_id j then j' else x) = jb_dedupe_key x \<and>
      jb_attempt x + int (count_list ids (jb_id x)) \<le> jb_attempt (if jb_id x = jb_id j then j' else x)"
  proof (cases "jb_id x = jb_id j")
    case True
    then have "x = j" by (rule same_id [OF inv j x])
    then show ?thesis using j' count_le_length [of ids "jb_id j"] by simp
  next
    case False
    then have "count_list ids (jb_id x) = 0" using ids by (auto simp: count_list_0_iff)
    then show ?thesis using False by simp
  qed
qed

lemma map_grow:
  "(\<And>j. jb_id (f j) = jb_id j \<and> jb_dedupe_key (f j) = jb_dedupe_key j \<and> jb_attempt (f j) = jb_attempt j) \<Longrightarrow>
   attempts_grow s [] (s\<lparr>t_jobs := map (\<lambda>j. if P j then f j else j) (t_jobs s)\<rparr>)"
  by (rule grow_rows [where f = "\<lambda>j. if P j then f j else j"]) auto

lemma queue_step_sound:
  assumes "queue_step s ids s'" and inv: "queue_ok s"
  shows "queue_ok s' \<and> attempts_grow s ids s'"
  using assms(1)
proof cases
  case (enqueued q ty pl key av m i)
  then show ?thesis using enqueue_ok [OF inv] enqueueD [OF enqueued(2)] by (fastforce simp: attempts_grow_def)
next
  case (idle qs w ls busy)
  then have "t_jobs s' = t_jobs s" using claim_statementD(1) by blast
  then show ?thesis using idle(1) queue_ok_same [OF inv] by (auto simp: attempts_grow_def)
next
  case (handed_out qs w ls busy job)
  from delivered [OF inv handed_out(2,3)] obtain j token where
      c: "claim_candidate qs busy s = Some j" "job = claimed_of (lease_job w ls token (utcnow s) j) token"
    and rows: "t_jobs s' = upd jb_id (lease_job w ls token (utcnow s) j) (t_jobs s)" and ok: "queue_ok s'" .
  note j = candidateD [OF c(1)]
  have "attempts_grow s [jb_id j] s'"
    by (rule grow_one [OF inv j(1) rows [unfolded upd_def lease_job_simps]]) simp_all
  then show ?thesis using ok c(2) handed_out(1) by simp
next
  case (used_up qs w ls busy job s1)
  from exhausted [OF inv used_up(3,4)] obtain j token where
      j: "j \<in> set (t_jobs s)" "jb_status j = JOB_LEASED" "jb_id j \<notin> set busy"
      "jb_max_attempts j \<le> jb_attempt j"
    and rows: "t_jobs (fail_exhausted job s1) =
       map (\<lambda>x. if jb_id x = jb_id j then exhaust_job (utcnow s) (lease_job w ls token (utcnow s) j) else x)
         (t_jobs s)" and ok: "queue_ok (fail_exhausted job s1)"
    and "utcnow (fail_exhausted job s1) = utcnow s" .
  have "jb_attempt j \<le> jb_max_attempts j" using inv j(1) by (simp add: queue_ok_def job_ok_def)
  then have "attempts_grow s [] (fail_exhausted job s1)"
    by (intro grow_one [OF inv j(1) rows]) (simp_all add: exhaust_job_def)
  then show ?thesis using ok used_up(1,2) by simp
next
  case (beat i t ls)
  then show ?thesis using heartbeat_ok [OF inv, of i t ls] by (simp add: heartbeat_def fenced_def map_grow)
next
  case (completed i t)
  then show ?thesis using complete_ok [OF inv, of i t] by (simp add: complete_def fenced_def map_grow)
next
  case (failed jitter i t err b r)
  from inv failed(2) show ?thesis
  proof (rule fail_job_rows)
    assume "s' = s"
    then show ?thesis using inv failed(1) by (auto simp: attempts_grow_def)
  next
    fix j s1
    assume j: "j \<in> set (t_jobs s)" and ok: "queue_ok s1"
      and s1: "s1 = s\<lparr>t_jobs := upd jb_id (failed_job (b \<and> jb_attempt j < jb_max_attempts j)
                 (take MAX_ERROR_CHARS err) jitter (utcnow s) j) (t_jobs s)\<rparr>"
      and "s' = s1 \<or> s' = run_exhausted None (claimed_of j t) (take MAX_ERROR_CHARS err) s1"
    then have "s' = s1" by (auto simp: run_exhausted_def)
    moreover have "attempts_grow s [] s1"
      unfolding s1
      by (rule grow_one [OF inv j, where j' = "failed_job (b \<and> jb_attempt j < jb_max_attempts j)
                 (take MAX_ERROR_CHARS err) jitter (utcnow s) j"]) (simp_all add: upd_def)
    ultimately show ?thesis using ok failed(1) by simp
  qed
next
  case (cancelled P)
  have "queue_ok s'"
    using inv
    by (rule queue_ok_rows [where f = "\<lambda>j. if P j \<and> jb_status j = JOB_READY
        then j\<lparr>jb_status := JOB_CANCELLED, jb_completed_at := Some (utcnow s)\<rparr> else j"])
      (use cancelled inv in \<open>auto simp: cancel_ready_def queue_ok_def job_ok_def\<close>)
  then show ?thesis using cancelled by (simp add: cancel_ready_def map_grow)
next
  case elsewhere
  then show ?thesis using queue_ok_same [OF inv] by (auto simp: attempts_grow_def)
qed

lemma queue_run_sound:
  assumes "queue_run s ids s'" and "queue_ok s"
  shows "queue_ok s' \<and> set ids \<subseteq> jb_id ` set (t_jobs s') \<and>
    (\<forall>j \<in> set (t_jobs s'). int (count_list ids (jb_id j)) \<le> jb_attempt j)"
  using assms
proof (induction rule: queue_run.induct)
  case (run_start s)
  then show ?case by (auto simp: queue_ok_def job_ok_def)
next
  case (run_step s ids s1 new s2)
  then have IH: "queue_ok s1" "set ids \<subseteq> jb_id ` set (t_jobs s1)"
      "\<And>j. j \<in> set (t_jobs s1) \<Longrightarrow> int (count_list ids (jb_id j)) \<le> jb_attempt j" by auto
  note st = queue_step_sound [OF run_step.hyps(2) IH(1)]
  have ids: "set ids \<union> set new \<subseteq> jb_id ` set (t_jobs s1)" using IH(2) st by (auto simp: attempts_grow_def)
  have keep: "\<exists>j' \<in> set (t_jobs s2). jb_id j' = jb_id j \<and>
      jb_dedupe_key j' = jb_dedupe_key j \<and> jb_attempt j + int (count_list new (jb_id j)) \<le> jb_attempt j'"
    if "j \<in> set (t_jobs s1)" for j using st that by (simp add: attempts_grow_def)
  have "int (count_list (ids @ new) (jb_id j)) \<le> jb_attempt j" if j: "j \<in> set (t_jobs s2)" for j
  proof (cases "jb_id j \<in> jb_id ` set (t_jobs s1)")
    case True
    then obtain x where x: "x \<in> set (t_jobs s1)" "jb_id x = jb_id j" by auto
    from keep [OF x(1)] obtain j' where j': "j' \<in> set (t_jobs s2)" "jb_id j' = jb_id j"
        "jb_attempt x + int (count_list new (jb_id j)) \<le> jb_attempt j'" using x(2) by auto
    have "j' = j" using st same_id j j'(1,2) by blast
    then show ?thesis using j'(3) IH(3) [OF x(1)] x(2) by simp
  next
    case False
    with ids have "jb_id j \<notin> set ids" "jb_id j \<notin> set new" by auto
    then have "count_list (ids @ new) (jb_id j) = 0" by simp
    then show ?thesis using st j by (simp add: queue_ok_def job_ok_def)
  qed
  moreover have "set (ids @ new) \<subseteq> jb_id ` set (t_jobs s2)"
  proof
    fix i
    assume "i \<in> set (ids @ new)"
    with ids obtain x where "x \<in> set (t_jobs s1)" "i = jb_id x" by auto
    with keep [of x] show "i \<in> jb_id ` set (t_jobs s2)" by (metis image_eqI)
  qed
  ultimately show ?case using st by blast
qed

section \<open>A claim\<close>

text \<open>Every iteration of the loop is one transaction on the queue.\<close>

lemma run_trans:
  assumes "queue_run s1 ids' s2"
  shows "queue_run s ids s1 \<Longrightarrow> queue_run s (ids @ ids') s2"
  using assms
proof (induction rule: queue_run.induct)
  case (run_step s1 ids1 t new t')
  then have "queue_run s ((ids @ ids1) @ new) t'" using queue_run.run_step by blast
  then show ?case by simp
qed simp

lemma claim_loop_runs:
  assumes "claim_loop h qs w ls busy n s = Some y"
    and "\<And>job err s. queue_run s [] (run_exhausted h job err s)"
  shows "queue_run s (case fst y of None \<Rightarrow> [] | Some job \<Rightarrow> [cj_id job]) (snd y)"
proof (rule claim_loop.raw_induct [where P = "\<lambda>h qs w ls busy n s y.
      (\<forall>job err s. queue_run s [] (run_exhausted h job err s)) \<longrightarrow>
      queue_run s (case fst y of None \<Rightarrow> [] | Some job \<Rightarrow> [cj_id job]) (snd y)", OF _ assms(1), rule_format],
    goal_cases)
  case (1 loop h qs w ls busy n s y)
  obtain c s1 where c: "claim_statement qs w ls (busy n) s = (c, s1)" by (cases "claim_statement qs w ls (busy n) s")
  show ?case
  proof (cases c)
    case None
    then show ?thesis using 1(2) c queue_run.run_step [OF run_start idle] by fastforce
  next
    case (Some job)
    show ?thesis
    proof (cases "cj_attempt job \<le> cj_max_attempts job")
      case True
      then show ?thesis
        using 1(2) c Some queue_run.run_step [OF run_start handed_out [of qs w ls "busy n" s job s1]] by auto
    next
      case False
      let ?t = "run_exhausted h (exhausted_of job) EXHAUSTED_AFTER_LEASE_EXPIRY (fail_exhausted job s1)"
      have "queue_run s [] (fail_exhausted job s1)"
        using queue_run.run_step [OF run_start used_up] c Some False by fastforce
      then have "queue_run s [] ?t" using run_trans [OF 1(3)] by fastforce
      moreover have "loop h qs w ls busy (Suc n) ?t = Some y" using 1(2) c Some False by simp
      from 1(1) [OF this 1(3)] have "queue_run ?t (case fst y of None \<Rightarrow> [] | Some job \<Rightarrow> [cj_id job]) (snd y)" .
      ultimately show ?thesis using run_trans by fastforce
    qed
  qed
next
  case (2 job err s)
  show ?case by (rule assms(2))
qed

text \<open>Jobs that have ended stay so.\<close>

lemma ended_fenced:
  assumes "\<And>j. jb_id (f j) = jb_id j"
  shows "ended_jobs s \<subseteq> ended_jobs (snd (fenced i t f s))"
  by (rule ended_map [where f = "\<lambda>j. if fence i t j then f j else j"])
    (auto simp: fenced_def fence_def assms)

lemma ended_jobs_step:
  assumes "queue_step s ids s'" and inv: "queue_ok s"
  shows "ended_jobs s \<subseteq> ended_jobs s'"
  using assms(1)
proof cases
  case (enqueued q ty pl key av m i)
  then show ?thesis using enqueueD [OF enqueued(2)] by (auto simp: ended_jobs_def)
next
  case (idle qs w ls busy)
  then show ?thesis using claim_statementD(1) by (simp add: ended_jobs_def)
next
  case (handed_out qs w ls busy job)
  from delivered [OF inv handed_out(2,3)] obtain j token where
      c: "claim_candidate qs busy s = Some j"
    and rows: "t_jobs s' = upd jb_id (lease_job w ls token (utcnow s) j) (t_jobs s)" .
  note j = candidateD [OF c]
  show ?thesis
    by (rule ended_one [OF inv j(1) _ rows [unfolded upd_def lease_job_simps]]) (use j(2) in \<open>auto simp: runnable_def\<close>)
next
  case (used_up qs w ls busy job s1)
  from exhausted [OF inv used_up(3,4)] obtain j token where
      j: "j \<in> set (t_jobs s)" "jb_status j = JOB_LEASED"
    and rows: "t_jobs (fail_exhausted job s1) =
       map (\<lambda>x. if jb_id x = jb_id j then exhaust_job (utcnow s) (lease_job w ls token (utcnow s) j) else x)
         (t_jobs s)" .
  show ?thesis unfolding used_up(2)
    by (rule ended_one [OF inv j(1) _ rows]) (simp_all add: exhaust_job_def j(2))
next
  case (beat i t ls)
  show ?thesis unfolding beat heartbeat_def by (rule ended_fenced) simp
next
  case (completed i t)
  show ?thesis unfolding completed complete_def by (rule ended_fenced) simp
next
  case (failed jitter i t err b r)
  from inv failed(2) show ?thesis
  proof (rule fail_job_rows)
    fix j s1
    assume j: "j \<in> set (t_jobs s)" "jb_status j = JOB_LEASED"
      and s1: "s1 = s\<lparr>t_jobs := upd jb_id (failed_job (b \<and> jb_attempt j < jb_max_attempts j)
                 (take MAX_ERROR_CHARS err) jitter (utcnow s) j) (t_jobs s)\<rparr>"
      and "s' = s1 \<or> s' = run_exhausted None (claimed_of j t) (take MAX_ERROR_CHARS err) s1"
    then have s': "s' = s1" by (auto simp: run_exhausted_def)
    show ?thesis unfolding s' s1
      by (rule ended_one [OF inv j(1), where j' = "failed_job (b \<and> jb_attempt j < jb_max_attempts j)
                 (take MAX_ERROR_CHARS err) jitter (utcnow s) j"]) (simp_all add: upd_def j(2))
  qed simp
next
  case (cancelled P)
  show ?thesis unfolding cancelled
    by (rule ended_map [where f = "\<lambda>j. if P j \<and> jb_status j = JOB_READY
        then j\<lparr>jb_status := JOB_CANCELLED, jb_completed_at := Some (utcnow s)\<rparr> else j"])
      (auto simp: cancel_ready_def)
next
  case elsewhere
  then show ?thesis by (simp add: ended_jobs_def)
qed

lemma ended_jobs_run: "queue_run s ids s' \<Longrightarrow> queue_ok s \<Longrightarrow> ended_jobs s \<subseteq> ended_jobs s'"
proof (induction rule: queue_run.induct)
  case (run_step s ids s1 new s2)
  then show ?case using ended_jobs_step [OF run_step.hyps(2)] queue_run_sound [OF run_step.hyps(1)] by blast
qed simp

text \<open>
  What runs in between, by a hook or by other workers: any transactions on the queue, in which
  no job outside \<open>K\<close> is handed out for the last time.
\<close>

definition queue_work :: "uuid set \<Rightarrow> (db \<Rightarrow> db) \<Rightarrow> bool" where
  "queue_work K f \<longleftrightarrow>
     (\<forall>s. queue_ok s \<longrightarrow> (\<exists>ids. queue_run s ids (f s)) \<and>
        (used_up_jobs s \<subseteq> K \<longrightarrow> used_up_jobs (f s) \<subseteq> K))"

lemma queue_workD:
  assumes "queue_work K f" and "queue_ok s"
  shows "queue_ok (f s)" and "ended_jobs s \<subseteq> ended_jobs (f s)"
    and "used_up_jobs s \<subseteq> K \<Longrightarrow> used_up_jobs (f s) \<subseteq> K"
  using assms queue_run_sound ended_jobs_run unfolding queue_work_def by blast+

lemma queue_work_id [simp]: "queue_work K (\<lambda>s. s)"
  unfolding queue_work_def using run_start by blast

lemma queue_work_comp:
  assumes "queue_work K f" and "queue_work K g"
  shows "queue_work K (\<lambda>s. g (f s))"
  unfolding queue_work_def
proof (intro allI impI)
  fix s assume s: "queue_ok s"
  note fs = queue_workD [OF assms(1) s]
  obtain ids ids' where "queue_run s ids (f s)" "queue_run (f s) ids' (g (f s))"
    using assms s fs(1) unfolding queue_work_def by blast
  then have "\<exists>ids. queue_run s ids (g (f s))" using run_trans by blast
  then show "(\<exists>ids. queue_run s ids (g (f s))) \<and> (used_up_jobs s \<subseteq> K \<longrightarrow> used_up_jobs (g (f s)) \<subseteq> K)"
    using fs(3) queue_workD(3) [OF assms(2) fs(1)] by blast
qed

text \<open>A job that is failed for having no attempts left was used up and has ended.\<close>

lemma exhausted_ends:
  assumes inv: "queue_ok s" and cl: "claim_statement qs w ls busy s = (Some job, s')"
    and ex: "\<not> cj_attempt job \<le> cj_max_attempts job" and K: "used_up_jobs s \<subseteq> K" "finite K"
  shows "used_up_jobs (fail_exhausted job s') \<subseteq> K"
    and "card (K - ended_jobs (fail_exhausted job s')) < card (K - ended_jobs s)"
proof -
  from exhausted [OF inv cl ex] obtain j token where
      j: "j \<in> set (t_jobs s)" "jb_status j = JOB_LEASED" "jb_max_attempts j \<le> jb_attempt j"
    and rows: "t_jobs (fail_exhausted job s') =
       map (\<lambda>x. if jb_id x = jb_id j then exhaust_job (utcnow s) (lease_job w ls token (utcnow s) j) else x)
         (t_jobs s)" .
  show "used_up_jobs (fail_exhausted job s') \<subseteq> K"
    using K(1) by (auto simp: used_up_jobs_def rows exhaust_job_def split: if_splits)
  have "ended_jobs s \<subseteq> ended_jobs (fail_exhausted job s')"
    by (rule ended_one [OF inv j(1) _ rows]) (simp_all add: exhaust_job_def j(2))
  moreover have "jb_id j \<in> ended_jobs (fail_exhausted job s')"
    using j(1) unfolding ended_jobs_def rows
    by (intro image_eqI [of _ _ "exhaust_job (utcnow s) (lease_job w ls token (utcnow s) j)"])
      (auto simp: exhaust_job_def intro!: image_eqI [of _ _ j])
  moreover have "jb_id j \<in> used_up_jobs s" using j by (auto simp: used_up_jobs_def)
  then have "jb_id j \<in> K" "jb_id j \<notin> ended_jobs s" using K(1) ended_not_used_up [OF inv] by auto
  ultimately have "K - ended_jobs (fail_exhausted job s') \<subset> K - ended_jobs s" by blast
  then show "card (K - ended_jobs (fail_exhausted job s')) < card (K - ended_jobs s)"
    by (rule psubset_card_mono [rotated]) (simp add: K(2))
qed

text \<open>The loop ends: an iteration that does not return ends one job for good.\<close>

lemma claim_loop_returns:
  assumes "queue_ok s" and "used_up_jobs s \<subseteq> K" and fin: "finite K"
    and hook: "\<And>job err. queue_work K (run_exhausted h job err)"
  shows "\<exists>y. claim_loop h qs w ls busy n s = Some y"
  using assms(1,2)
proof (induction "card (K - ended_jobs s)" arbitrary: n s rule: less_induct)
  case less
  obtain c s1 where c: "claim_statement qs w ls (busy n) s = (c, s1)" by (cases "claim_statement qs w ls (busy n) s")
  show ?case
  proof (cases c)
    case None
    then show ?thesis using c by (simp add: claim_loop.simps)
  next
    case (Some job)
    show ?thesis
    proof (cases "cj_attempt job \<le> cj_max_attempts job")
      case True
      then show ?thesis using c Some by (simp add: claim_loop.simps)
    next
      case False
      let ?f = "fail_exhausted job s1"
      let ?t = "run_exhausted h (exhausted_of job) EXHAUSTED_AFTER_LEASE_EXPIRY ?f"
      have f: "queue_ok ?f" by (rule exhausted [OF less.prems(1) c [unfolded Some] False])
      note e = exhausted_ends [OF less.prems(1) c [unfolded Some] False less.prems(2) fin]
      note t = queue_workD [OF hook f, of "exhausted_of job" EXHAUSTED_AFTER_LEASE_EXPIRY]
      have "card (K - ended_jobs ?t) \<le> card (K - ended_jobs ?f)"
        by (rule card_mono) (use fin t(2) in auto)
      with e(2) have "card (K - ended_jobs ?t) < card (K - ended_jobs s)" by simp
      from less.hyps [OF this t(1) t(3) [OF e(1)]] show ?thesis using c Some False by (simp add: claim_loop.simps)
    qed
  qed
qed

text \<open>A claim that comes back empty found no candidate in the state it leaves.\<close>

lemma claim_loop_empty:
  assumes "claim_loop h qs w ls busy n s = Some y" and "fst y = None"
    and "\<And>job err s. utcnow s \<le> utcnow (run_exhausted h job err s)"
  shows "utcnow s \<le> utcnow (snd y) \<and> (\<exists>m. claim_candidate qs (busy m) (snd y) = None)"
proof (rule claim_loop.raw_induct [where P = "\<lambda>h qs w ls busy n s y.
      fst y = None \<longrightarrow> (\<forall>job err s. utcnow s \<le> utcnow (run_exhausted h job err s)) \<longrightarrow>
      utcnow s \<le> utcnow (snd y) \<and> (\<exists>m. claim_candidate qs (busy m) (snd y) = None)",
      OF _ assms(1), rule_format], goal_cases)
  case (1 loop h qs w ls busy n s y)
  obtain c s1 where c: "claim_statement qs w ls (busy n) s = (c, s1)" by (cases "claim_statement qs w ls (busy n) s")
  show ?case
  proof (cases c)
    case None
    then have "y = (None, s1)" "claim_candidate qs (busy n) s1 = None" "utcnow s1 = utcnow s"
      using 1(2) c by (auto simp: claim_statement_def draw_def Let_def split: option.splits)
    then show ?thesis by auto
  next
    case (Some job)
    then have False: "\<not> cj_attempt job \<le> cj_max_attempts job" using 1(2,3) c by auto
    let ?t = "run_exhausted h (exhausted_of job) EXHAUSTED_AFTER_LEASE_EXPIRY (fail_exhausted job s1)"
    have "utcnow s1 = utcnow s" using claim_statementD(2) [OF c Some] by auto
    then have "utcnow s \<le> utcnow ?t"
      using 1(4) [of "fail_exhausted job s1" "exhausted_of job" EXHAUSTED_AFTER_LEASE_EXPIRY]
      by (simp add: fail_exhausted_def)
    moreover have "loop h qs w ls busy (Suc n) ?t = Some y" using 1(2) c Some False by simp
    from 1(1) [OF this 1(3,4)]
    have "utcnow ?t \<le> utcnow (snd y) \<and> (\<exists>m. claim_candidate qs (busy m) (snd y) = None)" .
    ultimately show ?thesis by (meson order_trans)
  qed
next
  case 2
  show ?case by (rule assms(2))
next
  case (3 job err s)
  show ?case by (rule assms(3))
qed

text \<open>A waiting job stays where it is as long as the loop hands nothing out.\<close>

definition keeps :: "job \<Rightarrow> (db \<Rightarrow> db) \<Rightarrow> bool" where
  "keeps j f \<longleftrightarrow> (\<forall>s. j \<in> set (t_jobs s) \<longrightarrow> j \<in> set (t_jobs (f s)))"

lemma claim_loop_keeps:
  assumes "claim_loop h qs w ls busy n s = Some y" and "fst y = None" and "queue_ok s"
    and "\<And>job err. queue_work K (run_exhausted h job err)" and "\<And>job err. keeps j (run_exhausted h job err)"
    and "j \<in> set (t_jobs s)" and "jb_status j = JOB_READY"
  shows "j \<in> set (t_jobs (snd y))"
proof (rule claim_loop.raw_induct [where P = "\<lambda>h qs w ls busy n s y.
      fst y = None \<longrightarrow> queue_ok s \<longrightarrow> (\<forall>job err. queue_work K (run_exhausted h job err)) \<longrightarrow>
      (\<forall>job err. keeps j (run_exhausted h job err)) \<longrightarrow> j \<in> set (t_jobs s) \<longrightarrow> j \<in> set (t_jobs (snd y))",
      OF _ assms(1), rule_format], goal_cases)
  case (1 loop h qs w ls busy n s y)
  obtain c s1 where c: "claim_statement qs w ls (busy n) s = (c, s1)" by (cases "claim_statement qs w ls (busy n) s")
  show ?case
  proof (cases c)
    case None
    then have "y = (None, s1)" "t_jobs s1 = t_jobs s" using 1(2) c claim_statementD(1) [OF c] by auto
    then show ?thesis using 1(7) by simp
  next
    case (Some job)
    then have False: "\<not> cj_attempt job \<le> cj_max_attempts job" using 1(2,3) c by auto
    let ?f = "fail_exhausted job s1"
    let ?t = "run_exhausted h (exhausted_of job) EXHAUSTED_AFTER_LEASE_EXPIRY ?f"
    from exhausted [OF 1(4) c [unfolded Some] False] obtain x token where
        x: "x \<in> set (t_jobs s)" "jb_status x = JOB_LEASED" and ok: "queue_ok ?f"
      and rows: "t_jobs ?f =
         map (\<lambda>y. if jb_id y = jb_id x then exhaust_job (utcnow s) (lease_job w ls token (utcnow s) x) else y) (t_jobs s)" .
    have "jb_id j \<noteq> jb_id x" using same_id [OF 1(4) x(1) 1(7)] x(2) assms(7) by auto
    then have "j \<in> set (t_jobs ?f)" using 1(7) unfolding rows by force
    then have "j \<in> set (t_jobs ?t)" using 1(6) unfolding keeps_def by blast
    moreover have "loop h qs w ls busy (Suc n) ?t = Some y" using 1(2) c Some False by simp
    ultimately show ?thesis using 1(1) [of h qs w ls busy "Suc n" ?t y] 1(3,5,6) queue_workD(1) [OF 1(5) ok] by blast
  qed
qed (use assms in simp_all)

text \<open>Dedupe keys stay on record.\<close>

lemma queue_run_keys:
  assumes "queue_run s ids s'" and "queue_ok s"
  shows "jb_dedupe_key ` set (t_jobs s) \<subseteq> jb_dedupe_key ` set (t_jobs s')"
  using assms
proof (induction rule: queue_run.induct)
  case (run_step s ids s1 new s2)
  have "attempts_grow s1 new s2"
    using queue_step_sound [OF run_step.hyps(2)] queue_run_sound [OF run_step.hyps(1) run_step.prems] by simp
  then have "jb_dedupe_key ` set (t_jobs s1) \<subseteq> jb_dedupe_key ` set (t_jobs s2)"
    unfolding attempts_grow_def by (metis image_eqI image_subsetI)
  then show ?case using run_step.IH [OF run_step.prems] by simp
qed simp

text \<open>The row of the job a claim returned.\<close>

lemma claim_loop_leases:
  assumes "claim_loop h qs w ls busy n s = Some y"
    and "\<And>job err s. queue_run s [] (run_exhausted h job err s)"
    and "queue_ok s" and "fst y = Some job"
  shows "\<exists>j \<in> set (t_jobs (snd y)). fence (cj_id job) (cj_lease_token job) j \<and> jb_attempt j = cj_attempt job"
proof (rule claim_loop.raw_induct [where P = "\<lambda>h qs w ls busy n s y.
      (\<forall>job err s. queue_run s [] (run_exhausted h job err s)) \<longrightarrow> queue_ok s \<longrightarrow> fst y = Some job \<longrightarrow>
      (\<exists>j \<in> set (t_jobs (snd y)). fence (cj_id job) (cj_lease_token job) j \<and> jb_attempt j = cj_attempt job)",
      OF _ assms(1), rule_format], goal_cases)
  case (1 loop h qs w ls busy n s y)
  obtain c s1 where c: "claim_statement qs w ls (busy n) s = (c, s1)" by (cases "claim_statement qs w ls (busy n) s")
  show ?case
  proof (cases c)
    case None
    then show ?thesis using 1(2,5) c by auto
  next
    case (Some x)
    show ?thesis
    proof (cases "cj_attempt x \<le> cj_max_attempts x")
      case True
      then have y: "y = (Some x, s1)" using 1(2) c Some by simp
      from delivered [OF 1(4) c [unfolded Some] True] obtain j token where
          "claim_candidate qs (busy n) s = Some j" "x = claimed_of (lease_job w ls token (utcnow s) j) token"
          "t_jobs s1 = upd jb_id (lease_job w ls token (utcnow s) j) (t_jobs s)" "queue_ok s1" .
      moreover from this(1) have "j \<in> set (t_jobs s)" by (rule candidateD)
      ultimately show ?thesis using y 1(5)
        by (intro bexI [of _ "lease_job w ls token (utcnow s) j"]) (auto simp: fence_def upd_def)
    next
      case False
      let ?t = "run_exhausted h (exhausted_of x) EXHAUSTED_AFTER_LEASE_EXPIRY (fail_exhausted x s1)"
      have "queue_ok (fail_exhausted x s1)"
        by (rule exhausted [OF 1(4) c [unfolded Some] False])
      then have "queue_ok ?t" using queue_run_sound [OF 1(3)] by blast
      moreover have "loop h qs w ls busy (Suc n) ?t = Some y" using 1(2) c Some False by simp
      ultimately show ?thesis using 1(1) [of h qs w ls busy "Suc n" ?t y] 1(3,5) by simp
    qed
  qed
next
  case (2 job err s)
  show ?case by (rule assms(2))
qed (use assms in simp_all)

lemma fence_unique:
  assumes "queue_ok s" and "j \<in> set (t_jobs s)" and "fence i t j" and "t' \<noteq> t"
  shows "\<not> list_ex (fence i t') (t_jobs s)" and "find (fence i t') (t_jobs s) = None"
proof -
  have "\<not> fence i t' x" if "x \<in> set (t_jobs s)" for x
    using same_id [OF assms(1,2) that] assms(3,4) by (auto simp: fence_def)
  then show "\<not> list_ex (fence i t') (t_jobs s)" "find (fence i t') (t_jobs s) = None"
    by (auto simp: list_ex_iff find_None_iff)
qed

lemma fenced_none: "\<not> list_ex (fence i t) (t_jobs s) \<Longrightarrow> fenced i t f s = (False, s)"
proof -
  assume "\<not> list_ex (fence i t) (t_jobs s)"
  then have "map (\<lambda>j. if fence i t j then f j else j) (t_jobs s) = t_jobs s"
    and n: "list_ex (fence i t) (t_jobs s) = False"
    by (auto simp: list_ex_iff intro!: map_idI)
  then show ?thesis by (simp add: fenced_def)
qed

section \<open>Properties\<close>

definition demo_job :: "uuid \<Rightarrow> job_status \<Rightarrow> int \<Rightarrow> job" where
  "demo_job i st n =
     (new_job i ''agent'' ''agent.execute'' (JObj []) (Some [Lit ''task'', Id i]) 0 3 0)
       \<lparr>jb_status := st, jb_attempt := n,
        jb_lease_token := (if st = JOB_LEASED then Some 90 else None),
        jb_leased_until := (if st = JOB_LEASED then Some 5 else None)\<rparr>"

text \<open>A worker died on its last attempt at job 1; job 2 waits.\<close>

definition queue_demo :: db where
  "queue_demo = empty_db\<lparr>t_jobs := [demo_job 1 JOB_LEASED 3, demo_job 2 JOB_READY 0], utcnow := 10\<rparr>"

lemma queue_demo_ok: "queue_ok queue_demo"
  by (simp add: queue_ok_def queue_demo_def demo_job_def new_job_def job_ok_def)

definition demo_claim :: "(exn + (claimed_job option \<times> db)) option" where
  "demo_claim = claim None [''agent''] ''w'' 30 (\<lambda>_. []) queue_demo"

lemma demo_claim_value:
  "case demo_claim of
     Some (Inr (Some job, s')) \<Rightarrow> cj_id job = 2 \<and> cj_lease_token job = 1001 \<and>
       map jb_status (t_jobs s') = [JOB_FAILED, JOB_LEASED] \<and> map jb_attempt (t_jobs s') = [3, 1]
   | _ \<Rightarrow> False"
  by code_simp

text \<open>
  C20. A job is handed out at most \<open>max_attempts\<close> times: along every interleaving of queue
  transactions of any workers and services (enqueues, claims, reclaims of expired leases,
  heartbeats, completions, failures, cancellations) the number of times a job is handed out
  is at most its attempt count, which never exceeds its \<open>max_attempts\<close>.
\<close>

theorem attempts_bound_deliveries:
  assumes "queue_run s ids s'" and "queue_ok s" and "j \<in> set (t_jobs s')"
  shows "int (count_list ids (jb_id j)) \<le> jb_attempt j \<and> jb_attempt j \<le> jb_max_attempts j"
  using queue_run_sound [OF assms(1,2)] assms(3) by (simp add: queue_ok_def job_ok_def)

lemma run_exhausted_None [simp]: "queue_run s [] (run_exhausted None job err s)"
  by (simp add: run_exhausted_def run_start)

theorem attempts_bound_deliveries_witness:
  "\<exists>job s'. demo_claim = Some (Inr (Some job, s')) \<and>
     (\<forall>j \<in> set (t_jobs s'). int (count_list [cj_id job] (jb_id j)) \<le> jb_attempt j)"
proof -
  from demo_claim_value obtain job s' where c: "demo_claim = Some (Inr (Some job, s'))"
    by (auto split: option.splits sum.splits prod.splits)
  then have "claim_loop None [''agent''] ''w'' 30 (\<lambda>_. []) 0 queue_demo = Some (Some job, s')"
    by (simp add: demo_claim_def claim_def)
  from claim_loop_runs [OF this] have "queue_run queue_demo [cj_id job] s'" by simp
  from attempts_bound_deliveries [OF this queue_demo_ok]
  have "\<forall>j \<in> set (t_jobs s'). int (count_list [cj_id job] (jb_id j)) \<le> jb_attempt j" by blast
  with c show ?thesis by blast
qed

text \<open>
  C23. A stale lease changes nothing: after a claim handed a job out, a heartbeat, a completion
  or a failure for that job under any other lease token reports that it was fenced out and
  leaves the whole database as it was, while the new lease holder's heartbeat is accepted.
\<close>

theorem stale_lease_is_fenced:
  assumes "claim h qs w ls busy s = Some (Inr (Some job, s'))" and "queue_ok s"
    and "\<And>job err s. queue_run s [] (run_exhausted h job err s)" and "token \<noteq> cj_lease_token job"
  shows "heartbeat (cj_id job) token ls' s' = (False, s') \<and> complete (cj_id job) token s' = (False, s') \<and>
    fail_job h' jitter (cj_id job) token err b s' = (False, s') \<and>
    fst (heartbeat (cj_id job) (cj_lease_token job) ls' s')"
proof -
  have loop: "claim_loop h qs w ls busy 0 s = Some (Some job, s')"
    using assms(1) by (auto simp: claim_def split: if_splits)
  have "queue_ok s'"
    using queue_run_sound [OF claim_loop_runs [OF loop assms(3)] assms(2)] by simp
  moreover obtain j where j: "j \<in> set (t_jobs s')" "fence (cj_id job) (cj_lease_token job) j"
    using claim_loop_leases [OF loop assms(3,2)] by auto
  ultimately have f: "\<not> list_ex (fence (cj_id job) token) (t_jobs s')"
      "find (fence (cj_id job) token) (t_jobs s') = None"
    using fence_unique assms(4) by blast+
  have "fst (heartbeat (cj_id job) (cj_lease_token job) ls' s')"
    using j by (auto simp: heartbeat_def fenced_def list_ex_iff)
  then show ?thesis
    using f by (simp add: heartbeat_def complete_def fenced_none fail_job_def)
qed

theorem stale_lease_is_fenced_witness:
  "\<exists>job s'. demo_claim = Some (Inr (Some job, s')) \<and> complete 2 90 s' = (False, s')"
proof -
  from demo_claim_value obtain job s' where c: "demo_claim = Some (Inr (Some job, s'))"
      "cj_id job = 2" "cj_lease_token job = 1001"
    by (auto split: option.splits sum.splits prod.splits)
  from stale_lease_is_fenced [OF c(1) [unfolded demo_claim_def] queue_demo_ok, of 90] c(2,3)
  have "complete 2 90 s' = (False, s')" by simp
  with c(1) show ?thesis by blast
qed

text \<open>
  C24. An enqueue with a dedupe key happens once: after it succeeded, every later enqueue with
  the same key, of whatever job and after whatever queue transactions in between, returns
  no id and adds no row.
\<close>

theorem enqueue_is_idempotent:
  assumes "enqueue q ty pl (Some key) av m s = Inr (i, s1)" and "queue_ok s"
    and "queue_run s1 ids s2"
    and "enqueue q' ty' pl' (Some key) av' m' s2 = Inr (i', s3)"
  shows "i' = None \<and> t_jobs s3 = t_jobs s2"
proof -
  have "Some key \<in> jb_dedupe_key ` set (t_jobs s1)"
    using assms(1) by (auto simp: enqueue_def run_simps draw_def insert_row_Inr new_job_def split: if_splits)
  then have "Some key \<in> jb_dedupe_key ` set (t_jobs s2)"
    using queue_run_keys [OF assms(3) enqueue_ok [OF assms(2,1)]] by blast
  with enqueueD [OF assms(4)] show ?thesis by auto
qed

theorem enqueue_is_idempotent_witness:
  "\<exists>i s1 i' s3. enqueue ''agent'' ''t'' JNull (Some [Lit ''k'']) None 3 queue_demo = Inr (i, s1) \<and>
     enqueue ''maintenance'' ''u'' JNull (Some [Lit ''k'']) None 1 s1 = Inr (i', s3) \<and> i' = None"
proof -
  have "case enqueue ''agent'' ''t'' JNull (Some [Lit ''k'']) None 3 queue_demo of Inl _ \<Rightarrow> False
     | Inr (i, s1) \<Rightarrow> (case enqueue ''maintenance'' ''u'' JNull (Some [Lit ''k'']) None 1 s1 of
         Inl _ \<Rightarrow> False | Inr _ \<Rightarrow> True)"
    by code_simp
  then obtain i s1 where e1: "enqueue ''agent'' ''t'' JNull (Some [Lit ''k'']) None 3 queue_demo = Inr (i, s1)"
    and "case enqueue ''maintenance'' ''u'' JNull (Some [Lit ''k'']) None 1 s1 of Inl _ \<Rightarrow> False | Inr _ \<Rightarrow> True"
    by (auto split: sum.splits)
  then obtain i' s3 where e2: "enqueue ''maintenance'' ''u'' JNull (Some [Lit ''k'']) None 1 s1 = Inr (i', s3)"
    by (auto split: sum.splits)
  from enqueue_is_idempotent [OF e1 queue_demo_ok run_start e2] e1 e2 show ?thesis by blast
qed

text \<open>
  The backoff is \<open>min(2 ** attempt * 2, 60)\<close> seconds plus the jitter for every attempt, the
  clamped exponent notwithstanding, and lies between 2 and 61 seconds.
\<close>

theorem backoff_is_capped:
  assumes "0 \<le> attempt" and "0 \<le> jitter" and "jitter < 1"
  shows "backoff_seconds jitter attempt = of_int (min (2 ^ nat attempt * 2) 60) + jitter \<and>
    2 \<le> backoff_seconds jitter attempt \<and> backoff_seconds jitter attempt < 61"
proof -
  have pow: "min ((2::int) ^ nat (max 0 (min attempt 10)) * 2) 60 = min (2 ^ nat attempt * 2) 60"
  proof (cases "attempt \<le> 10")
    case False
    then have "(2::int) ^ 10 \<le> 2 ^ nat attempt" by (intro power_increasing) auto
    with False show ?thesis by simp
  qed (use assms(1) in simp)
  have "(2::int) \<le> min (2 ^ nat attempt * 2) 60" by simp
  then have "(2::rat) \<le> of_int (min (2 ^ nat attempt * 2) 60)" by (metis of_int_le_iff of_int_numeral)
  moreover have "of_int (min (2 ^ nat attempt * 2) 60) \<le> (60::rat)"
    by (metis min.cobounded2 of_int_le_iff of_int_numeral)
  ultimately show ?thesis
    using assms by (simp only: backoff_seconds_def Let_def MAX_BACKOFF_SECONDS_def pow) linarith
qed

theorem backoff_is_capped_witness: "backoff_seconds (1/2) 4 = 65/2 \<and> backoff_seconds (1/2) 9 = 121/2"
  using backoff_is_capped [of 4 "1/2"] backoff_is_capped [of 9 "1/2"] by simp_all

end
