(* ===== verification/LS_Orders.thy ===== *)
theory LS_Orders
  imports LS_Lifecycle LS_Quality LS_Queue LS_Capacity LS_Reservations
begin

text \<open>
  The order service (\<open>app/domain/orders/service.py\<close>): shipment eligibility of one order and of
  a page of orders, creation, lifecycle transitions with their preconditions, cancellation
  with its releases, and production progress. \<open>_lock_order\<close> is the \<open>lock_order\<close> of the
  quality service, whose text it shares. The collation of \<open>ORDER BY\<close> and \<open>ILIKE\<close> on texts is
  the one of ASCII. Detail pages (which read the tables of agent runs) are not modelled. The
  lemmas show that the batched facts of a page agree with those of a single order, and what
  the commands guarantee.
\<close>

definition REFRESH_MATERIAL_STATES_JOB :: string where
  "REFRESH_MATERIAL_STATES_JOB = ''maintenance.refresh_material_states''"

definition PROGRESS_ALLOWED_STATES :: "production_state list" where
  "PROGRESS_ALLOWED_STATES = [IN_PRODUCTION, PRODUCTION_COMPLETE]"

definition BLOCKED_TRANSITIONS :: "((production_state \<times> production_state) \<times> string) list" where
  "BLOCKED_TRANSITIONS =
     [((VALIDATED, PLANNED), ''Planning is applied through an approved recommendation.'')]"

record new_order_input =
  nw_external_ref :: string
  nw_customer_id :: uuid
  nw_style_id :: uuid
  nw_quantity :: int
  nw_due_date :: date
  nw_priority :: int

record order_list_row =
  lr_order :: order
  lr_customer :: customer
  lr_style :: style
  lr_shipment :: shipment_eligibility

definition order_snapshot :: "order \<Rightarrow> json" where
  "order_snapshot ord =
     JObj [(Lit ''production_state'', JStr (production_state_value (or_production_state ord))),
       (Lit ''material_state'', JStr (material_state_value (or_material_state ord))),
       (Lit ''quality_state'', JStr (quality_state_value (or_quality_state ord))),
       (Lit ''produced_units'', JInt (or_produced_units ord)),
       (Lit ''packed_units'', JInt (or_packed_units ord)),
       (Lit ''version'', JInt (or_version ord))]"

section \<open>Shipment eligibility\<close>

text \<open>A dict keyed by order is a list of pairs, a frozenset a list.\<close>

record shipment_inputs =
  si_policy_known :: bool
  si_required_types :: "string list"
  si_passed_types_by_order :: "(uuid \<times> string list) list"
  si_hold_order_ids :: "uuid list"
  si_valid_release_order_ids :: "uuid list"

type_synonym latest_inspections = "((uuid \<times> inspection_type) \<times> inspection) list"

definition latest_by_key_of :: "uuid list \<Rightarrow> db \<Rightarrow> latest_inspections" where
  "latest_by_key_of order_ids s =
     foldl (\<lambda>latest i. setdefault (in_order_id i, in_inspection_type i) i latest) []
       (sort_key (\<lambda>i. (in_order_id i, newest i))
         (filter (\<lambda>i. in_order_id i \<in> set order_ids) (t_inspections s)))"

definition passed_types_of :: "latest_inspections \<Rightarrow> uuid \<Rightarrow> string list" where
  "passed_types_of latest order_id =
     map (\<lambda>((_, t), _). inspection_type_value t)
       (filter (\<lambda>((x, _), i). x = order_id \<and> in_result i = PASS) latest)"

definition latest_final_by_order :: "latest_inspections \<Rightarrow> (uuid \<times> inspection) list" where
  "latest_final_by_order latest =
     map (\<lambda>((x, _), i). (x, i)) (filter (\<lambda>((_, t), _). t = FINAL) latest)"

definition load_shipment_inputs :: "order list \<Rightarrow> db \<Rightarrow> exn + shipment_inputs" where
  "load_shipment_inputs orders s =
     (case orders of
        [] \<Rightarrow> Inr \<lparr>si_policy_known = False, si_required_types = [], si_passed_types_by_order = [],
                si_hold_order_ids = [], si_valid_release_order_ids = []\<rparr>
      | first # _ \<Rightarrow>
          let order_ids = map or_id orders;
              policy = active_policy (or_organization_id first) DEMO_POLICY_CODE s
          in bind_err (required_types_of policy) (\<lambda>required_types.
             let latest = latest_by_key_of order_ids s;
                 release_pairs = map (\<lambda>r. (re_order_id r, re_inspection_id r))
                   (filter (\<lambda>r. re_order_id r \<in> set order_ids) (t_releases s))
             in Inr \<lparr>si_policy_known = (policy \<noteq> None), si_required_types = required_types,
                  si_passed_types_by_order = map (\<lambda>x. (x, passed_types_of latest x)) order_ids,
                  si_hold_order_ids = map ho_order_id (filter (\<lambda>h. ho_order_id h \<in> set order_ids \<and>
                    ho_status h = HOLD_ACTIVE) (t_holds s)),
                  si_valid_release_order_ids = map fst (filter (\<lambda>(x, i). (x, in_id i) \<in> set release_pairs)
                    (latest_final_by_order latest))\<rparr>))"

definition evaluate_shipment :: "order \<Rightarrow> shipment_inputs \<Rightarrow> shipment_eligibility" where
  "evaluate_shipment ord inputs =
     shipment_eligibility_of
       \<lparr>sf_production_state = or_production_state ord, sf_quantity = or_quantity ord,
        sf_packed_units = or_packed_units ord,
        sf_passed_inspection_types =
          (case map_of (si_passed_types_by_order inputs) (or_id ord) of None \<Rightarrow> [] | Some ts \<Rightarrow> ts),
        sf_required_inspection_types = si_required_types inputs,
        sf_has_active_hold = (or_id ord \<in> set (si_hold_order_ids inputs)),
        sf_has_valid_release = (or_id ord \<in> set (si_valid_release_order_ids inputs)),
        sf_policy_known = si_policy_known inputs\<rparr>"

definition compute_shipment :: "order \<Rightarrow> db \<Rightarrow> exn + shipment_eligibility" where
  "compute_shipment ord s =
     bind_err (shipment_facts_of ord s) (\<lambda>facts. Inr (shipment_eligibility_of facts))"

section \<open>The list of orders\<close>

text \<open>\<open>text ILIKE pattern\<close>: \<open>%\<close> any text, \<open>_\<close> any character, a backslash quotes.\<close>

function (sequential) like :: "string \<Rightarrow> string \<Rightarrow> bool" where
  "like [] s = (s = [])"
| "like (p # ps) s =
     (if p = CHR ''%'' then like ps s \<or> (case s of [] \<Rightarrow> False | _ # cs \<Rightarrow> like (p # ps) cs)
      else if p = CHR ''_'' then (case s of [] \<Rightarrow> False | _ # cs \<Rightarrow> like ps cs)
      else if p = CHR 0x5C then
        (case ps of [] \<Rightarrow> False | q # qs \<Rightarrow> (case s of [] \<Rightarrow> False | c # cs \<Rightarrow> c = q \<and> like qs cs))
      else (case s of [] \<Rightarrow> False | c # cs \<Rightarrow> c = p \<and> like ps cs))"
  by pat_completeness auto
termination by (relation "measure (\<lambda>(ps, s). length ps + length s)") auto

definition ilike :: "string \<Rightarrow> string \<Rightarrow> bool" where
  "ilike text pattern = like (map to_lower pattern) (map to_lower text)"

record order_filter =
  of_q :: "string option"
  of_production_state :: "production_state option"
  of_material_state :: "material_state option"
  of_quality_state :: "quality_state option"
  of_due_before :: "date option"

definition order_matches :: "uuid \<Rightarrow> order_filter \<Rightarrow> order \<times> customer \<times> style \<Rightarrow> bool" where
  "order_matches factory_id f r =
     (case r of (ord, customer, _) \<Rightarrow>
        or_factory_id ord = factory_id \<and>
        (case of_production_state f of None \<Rightarrow> True | Some st \<Rightarrow> or_production_state ord = st) \<and>
        (case of_material_state f of None \<Rightarrow> True | Some st \<Rightarrow> or_material_state ord = st) \<and>
        (case of_quality_state f of None \<Rightarrow> True | Some st \<Rightarrow> or_quality_state ord = st) \<and>
        (case of_due_before f of None \<Rightarrow> True | Some d \<Rightarrow> or_due_date ord < d) \<and>
        (case of_q f of None \<Rightarrow> True | Some q \<Rightarrow>
           q = [] \<or>
           (let pattern = ''%'' @ q @ ''%''
            in ilike (or_external_ref ord) pattern \<or> ilike (cu_code customer) pattern \<or>
               ilike (cu_name customer) pattern)))"

definition joined_orders :: "db \<Rightarrow> (order \<times> customer \<times> style) list" where
  "joined_orders s =
     List.map_filter (\<lambda>ord.
       case (row cu_id (or_customer_id ord) (t_customers s), row st_id (or_style_id ord) (t_styles s)) of
         (Some c, Some st) \<Rightarrow> Some (ord, c, st)
       | _ \<Rightarrow> None) (t_orders s)"

definition list_orders ::
  "principal \<Rightarrow> uuid \<Rightarrow> order_filter \<Rightarrow> nat \<Rightarrow> nat \<Rightarrow> db \<Rightarrow> exn + (order_list_row list \<times> nat)" where
  "list_orders p factory_id f limit offset s =
     bind_err (load_factory factory_id p ''order:read'' s) (\<lambda>_.
     let base = filter (order_matches factory_id f) (joined_orders s);
         rows = take limit (drop offset
           (sort_key (\<lambda>(ord, _, _). (or_due_date ord, or_external_ref ord)) base))
     in bind_err (load_shipment_inputs (map fst rows) s) (\<lambda>inputs.
        Inr (map (\<lambda>(ord, c, st). \<lparr>lr_order = ord, lr_customer = c, lr_style = st,
                    lr_shipment = evaluate_shipment ord inputs\<rparr>) rows, length base)))"

section \<open>One order and a page of orders\<close>

lemma insort_key_cong:
  "k x = k' x \<Longrightarrow> (\<And>y. y \<in> set ys \<Longrightarrow> (k x \<le> k y) = (k' x \<le> k' y)) \<Longrightarrow> insort_key k x ys = insort_key k' x ys"
  by (induction ys) auto

lemma sort_key_const_fst:
  assumes "\<And>x. x \<in> set xs \<Longrightarrow> k x = (c, f x)"
  shows "sort_key k xs = sort_key f xs"
  using assms
proof (induction xs)
  case (Cons x xs)
  have "insort_key k x ys = insort_key f x ys" if "set ys \<subseteq> set xs" for ys
    using that Cons.prems by (induction ys) (auto simp: less_eq_prod_def)
  then show ?case using Cons by simp
qed simp

lemma latest_by_key_lookup:
  assumes "oid \<in> set ids"
  shows "map_of (latest_by_key_of ids s) (oid, t) = map_of (latest_inspections_by_type oid s) t"
proof -
  let ?rows = "filter (\<lambda>i. in_order_id i \<in> set ids) (t_inspections s)"
  let ?P = "\<lambda>i. in_order_id i = oid \<and> in_inspection_type i = t"
  have "filter ?P (sort_key (\<lambda>i. (in_order_id i, newest i)) ?rows) =
      sort_key (\<lambda>i. (in_order_id i, newest i)) (filter ?P ?rows)"
    by (rule filter_sort)
  also have "filter ?P ?rows = filter ?P (t_inspections s)"
    using assms by (auto intro!: filter_cong)
  also have "sort_key (\<lambda>i. (in_order_id i, newest i)) (filter ?P (t_inspections s)) =
      sort_key newest (filter ?P (t_inspections s))"
    by (rule sort_key_const_fst [of _ _ oid]) simp
  finally have eq: "filter ?P (sort_key (\<lambda>i. (in_order_id i, newest i)) ?rows) =
      sort_key newest (filter ?P (t_inspections s))" .
  have "filter (\<lambda>i. in_inspection_type i = t)
      (sort_key newest (filter (\<lambda>i. in_order_id i = oid) (t_inspections s))) =
      sort_key newest (filter ?P (t_inspections s))"
    by (simp add: filter_sort conj_commute)
  then show ?thesis
    by (simp add: latest_by_key_of_def foldl_setdefault latest_lookup find_filter eq)
qed

lemma distinct_setdefault:
  "distinct (map fst m) \<Longrightarrow> distinct (map fst (foldl (\<lambda>m x. setdefault (k x) x m) m xs))"
proof (induction xs arbitrary: m)
  case (Cons x xs)
  have "distinct (map fst (setdefault (k x) x m))"
    using Cons.prems by (auto simp: setdefault_def map_of_eq_None_iff split: option.splits)
  then show ?case using Cons.IH by simp
qed simp

lemma in_latest_by_key:
  "((oid, t), i) \<in> set (latest_by_key_of ids s) \<longleftrightarrow> map_of (latest_by_key_of ids s) (oid, t) = Some i"
proof -
  have "distinct (map fst (latest_by_key_of ids s))"
    unfolding latest_by_key_of_def by (rule distinct_setdefault) simp
  then show ?thesis by (simp add: map_of_eq_Some_iff)
qed

lemma in_latest_by_type:
  "(t, i) \<in> set (latest_inspections_by_type oid s) \<longleftrightarrow> map_of (latest_inspections_by_type oid s) t = Some i"
proof -
  have "distinct (map fst (latest_inspections_by_type oid s))"
    unfolding latest_inspections_by_type_def by (rule distinct_setdefault) simp
  then show ?thesis by (simp add: map_of_eq_Some_iff)
qed

text \<open>The facts only count as sets of types.\<close>

lemma eligibility_cong:
  assumes "set types = set (sf_passed_inspection_types facts)"
  shows "shipment_eligibility_of (facts\<lparr>sf_passed_inspection_types := types\<rparr>) = shipment_eligibility_of facts"
  by (simp add: shipment_eligibility_of_def missing_types_def assms)

lemma passed_types_agree:
  assumes "oid \<in> set ids"
  shows "set (passed_types_of (latest_by_key_of ids s) oid) =
    set (map (inspection_type_value \<circ> fst)
      (filter (\<lambda>(_, i). in_result i = PASS) (latest_inspections_by_type oid s)))"
proof -
  have "((oid, t), i) \<in> set (latest_by_key_of ids s) \<longleftrightarrow> (t, i) \<in> set (latest_inspections_by_type oid s)" for t i
    by (simp add: in_latest_by_key in_latest_by_type latest_by_key_lookup [OF assms])
  then show ?thesis by (force simp: passed_types_of_def)
qed

lemma valid_release_agrees:
  assumes "oid \<in> set ids"
  shows "oid \<in> fst ` set (filter (\<lambda>(x, i). (x, in_id i) \<in> set (map (\<lambda>r. (re_order_id r, re_inspection_id r))
             (filter (\<lambda>r. re_order_id r \<in> set ids) (t_releases s))))
           (latest_final_by_order (latest_by_key_of ids s))) \<longleftrightarrow>
         has_valid_release oid (map_of (latest_inspections_by_type oid s) FINAL) s"
proof -
  have "(oid, i) \<in> set (latest_final_by_order (latest_by_key_of ids s)) \<longleftrightarrow>
      map_of (latest_inspections_by_type oid s) FINAL = Some i" for i
    using in_latest_by_key [of oid FINAL i ids s] latest_by_key_lookup [OF assms, of s FINAL]
    by (force simp: latest_final_by_order_def)
  moreover have "(oid, x) \<in> set (map (\<lambda>r. (re_order_id r, re_inspection_id r))
       (filter (\<lambda>r. re_order_id r \<in> set ids) (t_releases s))) \<longleftrightarrow>
     list_ex (\<lambda>r. re_order_id r = oid \<and> re_inspection_id r = x) (t_releases s)" for x
    using assms by (auto simp: list_ex_iff image_iff)
  moreover have "oid \<in> fst ` set (filter (\<lambda>(x, i). (x, in_id i) \<in> P) rows) \<longleftrightarrow>
     (\<exists>i. (oid, i) \<in> set rows \<and> (oid, in_id i) \<in> P)" for P and rows :: "(uuid \<times> inspection) list"
    by force
  ultimately show ?thesis by (auto simp: has_valid_release_def split: option.splits)
qed

lemma map_of_graph: "k \<in> set ks \<Longrightarrow> map_of (map (\<lambda>x. (x, f x)) ks) k = Some (f k)"
  by (induction ks) auto

lemma page_agrees:
  assumes ord: "ord \<in> set orders" and org: "or_organization_id (hd orders) = or_organization_id ord"
    and load: "load_shipment_inputs orders s = Inr inputs"
  shows "compute_shipment ord s = Inr (evaluate_shipment ord inputs)"
proof -
  let ?ids = "map or_id orders"
  obtain first rest where orders: "orders = first # rest" using ord by (cases orders) auto
  have oid: "or_id ord \<in> set ?ids" using ord by simp
  let ?policy = "active_policy (or_organization_id ord) DEMO_POLICY_CODE s"
  let ?latest = "latest_by_key_of ?ids s"
  from load obtain required where req: "required_types_of ?policy = Inr required"
    and inputs: "inputs = \<lparr>si_policy_known = (?policy \<noteq> None), si_required_types = required,
        si_passed_types_by_order = map (\<lambda>x. (x, passed_types_of ?latest x)) ?ids,
        si_hold_order_ids = map ho_order_id (filter (\<lambda>h. ho_order_id h \<in> set ?ids \<and>
          ho_status h = HOLD_ACTIVE) (t_holds s)),
        si_valid_release_order_ids = map fst (filter (\<lambda>(x, i). (x, in_id i) \<in>
          set (map (\<lambda>r. (re_order_id r, re_inspection_id r)) (filter (\<lambda>r. re_order_id r \<in> set ?ids) (t_releases s))))
          (latest_final_by_order ?latest))\<rparr>"
    using org unfolding load_shipment_inputs_def orders by (auto simp: bind_err_Inr Let_def)
  have passed: "map_of (si_passed_types_by_order inputs) (or_id ord) = Some (passed_types_of ?latest (or_id ord))"
    using map_of_graph [OF oid] unfolding inputs by simp
  have hold: "or_id ord \<in> set (si_hold_order_ids inputs) \<longleftrightarrow> has_active_hold (or_id ord) s"
    using oid unfolding inputs by (auto simp: image_iff) (metis (no_types, lifting))?
  have rel: "or_id ord \<in> set (si_valid_release_order_ids inputs) \<longleftrightarrow>
      has_valid_release (or_id ord) (map_of (latest_inspections_by_type (or_id ord) s) FINAL) s"
    using valid_release_agrees [OF oid] unfolding inputs by simp
  obtain facts where facts: "shipment_facts_of ord s = Inr facts"
    using req by (simp add: shipment_facts_of_def Let_def)
  then have f: "facts = \<lparr>sf_production_state = or_production_state ord, sf_quantity = or_quantity ord,
      sf_packed_units = or_packed_units ord,
      sf_passed_inspection_types = map (inspection_type_value \<circ> fst)
        (filter (\<lambda>(_, i). in_result i = PASS) (latest_inspections_by_type (or_id ord) s)),
      sf_required_inspection_types = required, sf_has_active_hold = has_active_hold (or_id ord) s,
      sf_has_valid_release = has_valid_release (or_id ord) (map_of (latest_inspections_by_type (or_id ord) s) FINAL) s,
      sf_policy_known = (?policy \<noteq> None)\<rparr>"
    using req by (simp add: shipment_facts_of_def Let_def)
  have "shipment_eligibility_of (facts\<lparr>sf_passed_inspection_types := passed_types_of ?latest (or_id ord)\<rparr>) =
      shipment_eligibility_of facts"
    by (rule eligibility_cong) (use passed_types_agree [OF oid] in \<open>simp add: f\<close>)
  then have "evaluate_shipment ord inputs = shipment_eligibility_of facts"
    unfolding evaluate_shipment_def passed hold rel by (simp add: f) (simp add: inputs)
  then show ?thesis using facts by (simp add: compute_shipment_def)
qed

lemma list_orders_rows:
  assumes run: "list_orders p fid f limit offset s = Inr (rows, n)" and r: "r \<in> set rows"
    and org: "\<And>x y. x \<in> set (t_orders s) \<Longrightarrow> y \<in> set (t_orders s) \<Longrightarrow> or_factory_id x = fid \<Longrightarrow>
       or_factory_id y = fid \<Longrightarrow> or_organization_id x = or_organization_id y"
  shows "lr_order r \<in> set (t_orders s)" and "or_factory_id (lr_order r) = fid"
    and "compute_shipment (lr_order r) s = Inr (lr_shipment r)"
proof -
  define base where "base = filter (order_matches fid f) (joined_orders s)"
  define page where "page = take limit (drop offset
      (sort_key (\<lambda>(ord, _, _). (or_due_date ord, or_external_ref ord)) base))"
  from run obtain inputs where load: "load_shipment_inputs (map fst page) s = Inr inputs"
    and rows: "rows = map (\<lambda>(ord, c, st). \<lparr>lr_order = ord, lr_customer = c, lr_style = st,
        lr_shipment = evaluate_shipment ord inputs\<rparr>) page"
    by (auto simp: list_orders_def bind_err_Inr Let_def page_def base_def)
  have page: "fst x \<in> set (t_orders s) \<and> or_factory_id (fst x) = fid" if "x \<in> set page" for x
  proof -
    have "x \<in> set base" using that by (auto simp: page_def dest!: in_set_takeD in_set_dropD)
    then have "order_matches fid f x" "x \<in> set (joined_orders s)" by (simp_all add: base_def)
    then show ?thesis
      by (auto simp: order_matches_def joined_orders_def set_map_filter split: option.splits)
  qed
  from r rows obtain x where x: "x \<in> set page" "lr_order r = fst x" "lr_shipment r = evaluate_shipment (fst x) inputs"
    by auto
  then show "lr_order r \<in> set (t_orders s)" "or_factory_id (lr_order r) = fid" using page by simp_all
  have "hd (map fst page) \<in> fst ` set page" using x(1) by (cases page) auto
  then obtain y where "y \<in> set page" "hd (map fst page) = fst y" by auto
  with page x(1) org have "or_organization_id (hd (map fst page)) = or_organization_id (fst x)" by metis
  from page_agrees [OF _ this load] x show "compute_shipment (lr_order r) s = Inr (lr_shipment r)" by simp
qed

section \<open>Commands\<close>

definition active_bom :: "uuid \<Rightarrow> db \<Rightarrow> bom_version option" where
  "active_bom style_id s = find (\<lambda>b. bv_style_id b = style_id \<and> bv_is_active b) (t_bom_versions s)"

definition duplicate_ref :: exn where
  "duplicate_ref =
     AppError 409 CONFLICT ''An order with this external reference already exists.'' [''external_ref'']"

text \<open>The row a flush refuses, whatever constraint it breaks, is answered as a duplicate.\<close>

definition or_duplicate :: "exn + 'a \<Rightarrow> exn + 'a" where
  "or_duplicate r = (case r of Inl (IntegrityError _) \<Rightarrow> Inl duplicate_ref | _ \<Rightarrow> r)"

definition create_order ::
  "principal \<Rightarrow> uuid \<Rightarrow> new_order_input \<Rightarrow> string option \<Rightarrow> db \<Rightarrow> exn + (order \<times> db)" where
  "create_order p factory_id data trace s =
     bind_err (load_factory factory_id p ''order:create'' s) (\<lambda>factory.
     bind_err (some_or (invalid_field ''customer_id'' ''Unknown customer.'')
       (row cu_id (nw_customer_id data) (t_customers s))) (\<lambda>customer.
     bind_err (ensure (cu_organization_id customer = p_organization_id p)
       (invalid_field ''customer_id'' ''Unknown customer.'')) (\<lambda>_.
     bind_err (some_or (invalid_field ''style_id'' ''Unknown style.'')
       (row st_id (nw_style_id data) (t_styles s))) (\<lambda>style.
     bind_err (ensure (st_organization_id style = p_organization_id p)
       (invalid_field ''style_id'' ''Unknown style.'')) (\<lambda>_.
     bind_err (some_or (invalid_field ''style_id'' ''Style has no active bill of materials.'')
       (active_bom (st_id style) s)) (\<lambda>bom.
     bind_err (ensure (\<not> list_ex (\<lambda>x. or_organization_id x = p_organization_id p \<and>
         or_external_ref x = nw_external_ref data) (t_orders s)) duplicate_ref) (\<lambda>_.
     bind_err (or_duplicate (insert_order
       \<lparr>or_id = 0, or_organization_id = p_organization_id p, or_factory_id = fa_id factory,
        or_customer_id = cu_id customer, or_style_id = st_id style, or_bom_version_id = bv_id bom,
        or_external_ref = nw_external_ref data, or_quantity = nw_quantity data,
        or_produced_units = 0, or_packed_units = 0, or_due_date = nw_due_date data,
        or_priority = nw_priority data, or_production_state = DRAFT, or_material_state = MS_UNKNOWN,
        or_quality_state = QS_NOT_INSPECTED, or_source = ''MANUAL'',
        or_created_by = Some (p_user_id p), or_version = 1, or_updated_at = 0\<rparr> s)) (\<lambda>(ord, s).
     Inr (ord, record_audit (or_organization_id ord) (Some (or_factory_id ord)) USER (Id (p_user_id p))
       ''order.create'' ''order'' (Id (or_id ord)) SUCCESS None trace None None
       (Some (order_snapshot ord)) s)))))))))"

definition order_data_incomplete_reason :: "order \<Rightarrow> db \<Rightarrow> string option" where
  "order_data_incomplete_reason ord s =
     (if \<not> (case row bv_id (or_bom_version_id ord) (t_bom_versions s) of None \<Rightarrow> False | Some b \<Rightarrow> bv_is_active b)
      then Some ''Order has no active bill of materials.''
      else if or_quantity ord \<le> 0 then Some ''Order quantity must be greater than zero.''
      else case row fa_id (or_factory_id ord) (t_factories s) of
             None \<Rightarrow> Some ''Order's factory could not be found.''
           | Some factory \<Rightarrow>
               if or_due_date ord < today_in s (fa_timezone factory)
               then Some ''Due date must not be in the past.'' else None)"

definition enforce_order_data_complete :: "order \<Rightarrow> db \<Rightarrow> exn + unit" where
  "enforce_order_data_complete ord s =
     (case order_data_incomplete_reason ord s of None \<Rightarrow> Inr () | Some reason \<Rightarrow> Inl (conflict_409 reason))"

definition enforce_has_active_allocation :: "order \<Rightarrow> db \<Rightarrow> exn + unit" where
  "enforce_has_active_allocation ord s =
     Inl (AppError 409 INVALID_TRANSITION ''Planning is applied through an approved recommendation.'' [])"

definition enforce_produced_units_complete :: "order \<Rightarrow> db \<Rightarrow> exn + unit" where
  "enforce_produced_units_complete ord s =
     ensure (\<not> or_produced_units ord < or_quantity ord)
       (conflict_409 ''Produced units must reach the order quantity before completing production.'')"

definition enforce_shipment_eligible :: "order \<Rightarrow> db \<Rightarrow> exn + unit" where
  "enforce_shipment_eligible ord s =
     bind_err (compute_shipment ord s) (\<lambda>eligibility.
     ensure (se_eligible eligibility)
       (AppError 409 CONFLICT ''Order is not eligible for shipment.''
         (map (\<lambda>_. ''shipment'') (se_reasons eligibility))))"

definition ENFORCERS :: "(string \<times> (order \<Rightarrow> db \<Rightarrow> exn + unit)) list" where
  "ENFORCERS =
     [(''order_data_complete'', enforce_order_data_complete),
      (''has_active_allocation'', enforce_has_active_allocation),
      (''produced_units_complete'', enforce_produced_units_complete),
      (''shipment_eligible'', enforce_shipment_eligible)]"

fun enforce_all :: "string list \<Rightarrow> order \<Rightarrow> db \<Rightarrow> exn + unit" where
  "enforce_all [] ord s = Inr ()"
| "enforce_all (x # xs) ord s =
     bind_err (some_or (KeyError x) (map_of ENFORCERS x)) (\<lambda>check.
     bind_err (check ord s) (\<lambda>_. enforce_all xs ord s))"

definition notify_supervisors :: "order \<Rightarrow> string \<Rightarrow> string \<Rightarrow> string \<Rightarrow> db \<Rightarrow> exn + db" where
  "notify_supervisors ord kind title body s =
     insert_notification
       \<lparr>no_id = 0, no_organization_id = or_organization_id ord, no_factory_id = or_factory_id ord,
        no_user_id = None, no_role = Some SUPERVISOR, no_kind = kind, no_title = title,
        no_body = body, no_link = Some (''/orders/'', or_id ord), no_read_at = None\<rparr> s"

definition release_and_enqueue_refresh :: "order \<Rightarrow> db \<Rightarrow> exn + db" where
  "release_and_enqueue_refresh ord s =
     bind_err (release_order_allocations ord s) (\<lambda>(_, s).
     bind_err (release_order_reservations ord s) (\<lambda>(released, s).
     let material_ids = sorted_set (map rv_material_id released)
     in if material_ids = [] then Inr s
        else bind_err (enqueue ''maintenance'' REFRESH_MATERIAL_STATES_JOB
               (JObj [(Lit ''factory_id'', JText (Id (or_factory_id ord))),
                 (Lit ''material_ids'', JArr (map (\<lambda>m. JText (Id m)) material_ids))])
               (Some [Lit ''refresh:'', Id (or_id ord), Lit '':'', Dec (of_int (or_version ord))])
               None 3 s) (\<lambda>(_, s). Inr s)))"

definition blocked :: "production_state \<Rightarrow> production_state \<Rightarrow> exn + unit" where
  "blocked source target =
     (case map_of BLOCKED_TRANSITIONS (source, target) of
        None \<Rightarrow> Inr ()
      | Some msg \<Rightarrow> Inl (AppError 409 INVALID_TRANSITION msg []))"

definition transition_rule_of :: "production_state \<Rightarrow> production_state \<Rightarrow> exn + transition_rule" where
  "transition_rule_of source target =
     (case get_transition source target of
        Inr rule \<Rightarrow> Inr rule
      | Inl _ \<Rightarrow> Inl (AppError 409 INVALID_TRANSITION ''not an allowed transition'' []))"

definition transition_order ::
  "principal \<Rightarrow> uuid \<Rightarrow> string \<Rightarrow> int \<Rightarrow> string option \<Rightarrow> string option \<Rightarrow> db \<Rightarrow> exn + (order \<times> db)" where
  "transition_order p order_id target expected_version reason trace s =
     bind_err (load_order order_id p ''order:read'' s) (\<lambda>scoped.
     bind_err (lock_order (or_id scoped) s) (\<lambda>(ord, s).
     bind_err (some_or (AppError 422 VALIDATION_ERROR ''Unknown production state'' [])
       (production_state_of target)) (\<lambda>target_state.
     bind_err (blocked (or_production_state ord) target_state) (\<lambda>_.
     bind_err (transition_rule_of (or_production_state ord) target_state) (\<lambda>rule.
     bind_err (require p (tr_permission rule) (or_factory_id ord)) (\<lambda>_.
     bind_err (ensure (expected_version = or_version ord)
       (AppError 409 STALE_INPUT ''The order has changed since it was loaded.'' [])) (\<lambda>_.
     bind_err (enforce_all (tr_preconditions rule) ord s) (\<lambda>_.
     let before = order_snapshot ord;
         ord = ord\<lparr>or_production_state := target_state, or_version := or_version ord + 1\<rparr>
     in bind_err (update_order ord s) (\<lambda>s.
        bind_err (if target_state = CANCELLED then release_and_enqueue_refresh ord s else Inr s) (\<lambda>s.
        let s = record_audit (or_organization_id ord) (Some (or_factory_id ord)) USER (Id (p_user_id p))
              ''order.transition'' ''order'' (Id (or_id ord)) SUCCESS reason trace None (Some before)
              (Some (order_snapshot ord)) s
        in bind_err (notify_supervisors ord ''order_transition''
             (''Order '' @ or_external_ref ord @ '' moved to '' @ production_state_value target_state)
             (case reason of
                Some (c # cs) \<Rightarrow> c # cs
              | _ \<Rightarrow> p_display_name p @ '' moved order '' @ or_external_ref ord @ '' to '' @
                      production_state_value target_state @ ''.'') s) (\<lambda>s.
           Inr (ord, s))))))))))))"

definition progress_field_errors :: "order \<Rightarrow> int \<Rightarrow> int \<Rightarrow> string list" where
  "progress_field_errors ord produced_units packed_units =
     (if produced_units < or_produced_units ord then [''produced_units''] else []) @
     (if packed_units < or_packed_units ord then [''packed_units''] else []) @
     (if or_quantity ord < produced_units then [''produced_units''] else []) @
     (if or_quantity ord < packed_units then [''packed_units''] else [])"

definition progress_order ::
  "principal \<Rightarrow> uuid \<Rightarrow> int \<Rightarrow> int \<Rightarrow> int \<Rightarrow> string option \<Rightarrow> db \<Rightarrow> exn + (order \<times> db)" where
  "progress_order p order_id produced_units packed_units expected_version trace s =
     bind_err (load_order order_id p ''order:transition'' s) (\<lambda>scoped.
     bind_err (lock_order (or_id scoped) s) (\<lambda>(ord, s).
     bind_err (ensure (or_production_state ord \<in> set PROGRESS_ALLOWED_STATES)
       (AppError 409 INVALID_TRANSITION ''Production progress cannot be recorded while the order is .'' [])) (\<lambda>_.
     bind_err (ensure (expected_version = or_version ord)
       (AppError 409 STALE_INPUT ''The order has changed since it was loaded.'' [])) (\<lambda>_.
     bind_err (ensure (progress_field_errors ord produced_units packed_units = [])
       (AppError 409 CONFLICT ''Invalid production progress.''
         (progress_field_errors ord produced_units packed_units))) (\<lambda>_.
     let before = order_snapshot ord;
         ord = ord\<lparr>or_produced_units := produced_units, or_packed_units := packed_units,
                   or_version := or_version ord + 1\<rparr>
     in bind_err (update_order ord s) (\<lambda>s.
        Inr (ord, record_audit (or_organization_id ord) (Some (or_factory_id ord)) USER
          (Id (p_user_id p)) ''order.progress'' ''order'' (Id (or_id ord)) SUCCESS None trace None
          (Some before) (Some (order_snapshot ord)) s)))))))"

text \<open>The transitions a page offers, in the order of their texts.\<close>

definition allowed_transitions :: "principal \<Rightarrow> order \<Rightarrow> exn + string list" where
  "allowed_transitions p ord =
     bind_err (filter_err (\<lambda>((source, target), rule).
         if source \<noteq> or_production_state ord then Inr False
         else if map_of BLOCKED_TRANSITIONS (source, target) \<noteq> None then Inr False
         else has p (tr_permission rule) (or_factory_id ord)) TRANSITIONS) (\<lambda>rules.
     Inr (sort (map (\<lambda>((_, target), _). production_state_value target) rules)))"

section \<open>What the commands leave alone\<close>

text \<open>The tables of orders and of quality are the same.\<close>

definition orders_same :: "db \<Rightarrow> db \<Rightarrow> bool" where
  "orders_same s s' \<longleftrightarrow>
     t_orders s' = t_orders s \<and> t_inspections s' = t_inspections s \<and> t_holds s' = t_holds s \<and>
     t_releases s' = t_releases s \<and> t_policies s' = t_policies s"

lemma orders_same_refl [simp]: "orders_same s s"
  by (simp add: orders_same_def)

lemma orders_same_trans: "orders_same s t \<Longrightarrow> orders_same t u \<Longrightarrow> orders_same s u"
  by (simp add: orders_same_def)

lemma flush_slots_orders: "flush_slots is s = Inr s' \<Longrightarrow> orders_same s s'"
proof (induction "is" arbitrary: s)
  case (Cons i "is")
  then show ?case
    by (auto simp: run_simps update_slot_def orders_same_def split: option.splits dest!: Cons.IH)
qed simp

lemma flush_balances_orders: "flush_balances is s = Inr s' \<Longrightarrow> orders_same s s'"
proof (induction "is" arbitrary: s)
  case (Cons i "is")
  then show ?case
    by (auto simp: run_simps update_balance_def orders_same_def split: option.splits dest!: Cons.IH)
qed simp

lemma release_loops_orders:
  "orders_same s (release_allocations_loop as s)" "orders_same s (release_reservations_loop f rs s)"
proof -
  show "orders_same s (release_allocations_loop as s)"
  proof (induction as s rule: release_allocations_loop.induct)
    case (2 a as s)
    then show ?case by (auto simp: orders_same_def split: option.splits)
  qed simp
  show "orders_same s (release_reservations_loop f rs s)"
  proof (induction rs arbitrary: s)
    case (Cons r rs)
    show ?case
      by (auto simp: split: option.split) (rule orders_same_trans [OF _ Cons.IH], simp add: orders_same_def)+
  qed simp
qed

lemmas release_loops_frame [simp] = release_loops_orders [unfolded orders_same_def, THEN conjunct1]
  release_loops_orders [unfolded orders_same_def, THEN conjunct2, THEN conjunct1]
  release_loops_orders [unfolded orders_same_def, THEN conjunct2, THEN conjunct2, THEN conjunct1]
  release_loops_orders [unfolded orders_same_def, THEN conjunct2, THEN conjunct2, THEN conjunct2, THEN conjunct1]
  release_loops_orders [unfolded orders_same_def, THEN conjunct2, THEN conjunct2, THEN conjunct2, THEN conjunct2]

lemma release_allocations_orders:
  assumes "release_order_allocations ord s = Inr (x, s')"
  shows "orders_same s s'"
proof (cases "allocation_slot_ids (or_id ord) s = []")
  case True
  then show ?thesis using assms by (simp add: release_order_allocations_def)
next
  case False
  then obtain ids as ls ls' where
      "flush_slots ids (release_allocations_loop as (take_locks ls' (take_locks ls s))) = Inr s'"
    using assms by (auto simp: release_order_allocations_def lock_slots_def run_simps split: if_splits)
  from flush_slots_orders [OF this] show ?thesis by (simp add: orders_same_def)
qed

lemma release_reservations_orders:
  assumes "release_order_reservations ord s = Inr (x, s')"
  shows "orders_same s s'"
proof (cases "reserved_materials_of ord s = []")
  case True
  then show ?thesis using assms by (simp add: release_order_reservations_def)
next
  case False
  then obtain ids rs f ls ls' where
      "flush_balances ids (release_reservations_loop f rs (take_locks ls' (take_locks ls s))) = Inr s'"
    using assms by (auto simp: release_order_reservations_def lock_balances_def run_simps split: if_splits)
  from flush_balances_orders [OF this] show ?thesis by (simp add: orders_same_def)
qed

lemma enqueue_orders: "enqueue q ty pl k av m s = Inr (i, s') \<Longrightarrow> orders_same s s'"
  by (auto simp: enqueue_def run_simps draw_def orders_same_def split: if_splits)

lemma release_and_enqueue_orders: "release_and_enqueue_refresh ord s = Inr s' \<Longrightarrow> orders_same s s'"
  by (auto simp: release_and_enqueue_refresh_def run_simps split: if_splits
      dest!: release_allocations_orders release_reservations_orders enqueue_orders
      intro: orders_same_trans)

lemma notify_orders: "notify_supervisors ord k t b s = Inr s' \<Longrightarrow> orders_same s s'"
  by (auto simp: notify_supervisors_def insert_notification_def run_simps draw_def orders_same_def)

text \<open>The run of a transition.\<close>

lemma transition_orderD:
  assumes "transition_order p oid target v reason trace s = Inr (ord', s')"
  obtains ord tgt rule s1 s2 where
    "row or_id oid (t_orders s) = Some ord" "or_id ord = oid" "v = or_version ord"
    "production_state_of target = Some tgt" "map_of BLOCKED_TRANSITIONS (or_production_state ord, tgt) = None"
    "get_transition (or_production_state ord) tgt = Inr rule"
    "require p (tr_permission rule) (or_factory_id ord) = Inr ()"
    "enforce_all (tr_preconditions rule) ord (take_locks [LockOrder oid] s) = Inr ()"
    "ord' = ord\<lparr>or_production_state := tgt, or_version := v + 1\<rparr>"
    "s1 = (take_locks [LockOrder oid] s)\<lparr>t_orders := upd or_id (ord'\<lparr>or_updated_at := utcnow s\<rparr>) (t_orders s)\<rparr>"
    "if tgt = CANCELLED then release_and_enqueue_refresh ord' s1 = Inr s2 else s2 = s1"
    "orders_same s1 s'" "t_balances s' = t_balances s2" "t_reservations s' = t_reservations s2"
    "t_lots s' = t_lots s2" "t_movements s' = t_movements s2" "t_slots s' = t_slots s2"
    "t_allocations s' = t_allocations s2"
proof -
  from assms obtain scoped ord sl tgt rule s1 s2 kind title body s3 where
      ld: "load_order oid p ''order:read'' s = Inr scoped"
    and lo: "lock_order (or_id scoped) s = Inr (ord, sl)"
    and c: "production_state_of target = Some tgt" "blocked (or_production_state ord) tgt = Inr ()"
      "transition_rule_of (or_production_state ord) tgt = Inr rule"
      "require p (tr_permission rule) (or_factory_id ord) = Inr ()" "v = or_version ord"
      "enforce_all (tr_preconditions rule) ord sl = Inr ()"
    and up: "update_order (ord\<lparr>or_production_state := tgt, or_version := or_version ord + 1\<rparr>) sl = Inr s1"
    and rel: "(if tgt = CANCELLED then release_and_enqueue_refresh
        (ord\<lparr>or_production_state := tgt, or_version := or_version ord + 1\<rparr>) s1 else Inr s1) = Inr s2"
    and au: "audited s2 s3" and no: "notify_supervisors ord' kind title body s3 = Inr s'"
    and o: "ord' = ord\<lparr>or_production_state := tgt, or_version := or_version ord + 1\<rparr>"
    by (auto simp: transition_order_def run_simps) (blast intro: audited_record)
  have oid: "or_id scoped = oid"
    using ld by (auto simp: load_defs dest: load_scoped_cases(1) [THEN row_key])
  have l: "row or_id oid (t_orders s) = Some ord" "sl = take_locks [LockOrder oid] s"
    using lock_orderD [OF lo] oid by simp_all
  have b: "map_of BLOCKED_TRANSITIONS (or_production_state ord, tgt) = None"
    using c(2) by (simp add: blocked_def split: option.splits)
  have g: "get_transition (or_production_state ord) tgt = Inr rule"
    using c(3) by (simp add: transition_rule_of_def split: sum.splits)
  have s1: "s1 = sl\<lparr>t_orders := upd or_id (ord'\<lparr>or_updated_at := utcnow s\<rparr>) (t_orders s)\<rparr>"
    using up by (auto simp: update_order_def run_simps l(2) o take_locks_def)
  have r: "if tgt = CANCELLED then release_and_enqueue_refresh ord' s1 = Inr s2 else s2 = s1"
    using rel o by (auto split: if_splits)
  have "orders_same s1 s2" using r release_and_enqueue_orders by (auto split: if_splits)
  moreover have "orders_same s2 s3" using audited_frame [OF au] by (simp add: orders_same_def)
  ultimately have same: "orders_same s1 s'" using notify_orders [OF no] orders_same_trans by blast
  have "t_balances s' = t_balances s2" "t_reservations s' = t_reservations s2"
    "t_lots s' = t_lots s2" "t_movements s' = t_movements s2" "t_slots s' = t_slots s2"
    "t_allocations s' = t_allocations s2"
    using no audited_frame [OF au]
    by (auto simp: notify_supervisors_def insert_notification_def run_simps draw_def)
  with that [OF l(1) row_key [OF l(1)] c(5,1) b g c(4) _ _ _ r same] c(5,6) o s1 l(2) show thesis by simp
qed

section \<open>Dispatch\<close>

lemma shipment_locks [simp]: "shipment_facts_of ord (take_locks ls s) = shipment_facts_of ord s"
proof -
  have "latest_inspections_by_type oid (take_locks ls s) = latest_inspections_by_type oid s"
    "has_valid_release oid i (take_locks ls s) = has_valid_release oid i s"
    "has_active_hold oid (take_locks ls s) = has_active_hold oid s" for oid i
    by (simp_all only: latest_inspections_by_type_def has_valid_release_def quality_locks has_active_hold_def)
  then show ?thesis by (simp only: shipment_facts_of_def quality_locks)
qed

lemma dispatch_gates:
  assumes "transition_order p oid ''DISPATCHED'' v reason trace s = Inr (ord', s')"
  obtains ord facts where "row or_id oid (t_orders s) = Some ord" "or_id ord = oid" "v = or_version ord"
    "or_production_state ord = PRODUCTION_COMPLETE" "require p ''order:dispatch'' (or_factory_id ord) = Inr ()"
    "shipment_facts_of ord s = Inr facts" "se_eligible (shipment_eligibility_of facts)"
    "ord' = ord\<lparr>or_production_state := DISPATCHED, or_version := v + 1\<rparr>"
proof -
  from transition_orderD [OF assms] obtain ord tgt rule where
      o: "row or_id oid (t_orders s) = Some ord" "or_id ord = oid" "v = or_version ord"
    and tgt: "production_state_of ''DISPATCHED'' = Some tgt"
    and g: "get_transition (or_production_state ord) tgt = Inr rule"
    and r: "require p (tr_permission rule) (or_factory_id ord) = Inr ()"
      "enforce_all (tr_preconditions rule) ord (take_locks [LockOrder oid] s) = Inr ()"
    and ord': "ord' = ord\<lparr>or_production_state := tgt, or_version := v + 1\<rparr>" .
  have t: "tgt = DISPATCHED" using tgt production_state_of_value [of DISPATCHED] by simp
  then have st: "or_production_state ord = PRODUCTION_COMPLETE"
    using g step_into_dispatched step_allowed.intros by blast
  have "rule = snd (mk_rule PRODUCTION_COMPLETE DISPATCHED ''order:dispatch'' [''shipment_eligible''])"
    using g unfolding t st by (simp add: get_transition_def transition_table)
  then have "tr_permission rule = ''order:dispatch''" "tr_preconditions rule = [''shipment_eligible'']"
    by (simp_all add: mk_rule_def)
  with r that [OF o st _ _ _ ord' [unfolded t]] show thesis
    by (auto simp: run_simps ENFORCERS_def enforce_shipment_eligible_def compute_shipment_def)
qed

lemma eligible_in_books:
  assumes inv: "quality_books s" and ord: "ord \<in> set (t_orders s)"
    and facts: "shipment_facts_of ord s = Inr facts" and el: "se_eligible (shipment_eligibility_of facts)"
  shows "or_quantity ord \<le> or_packed_units ord"
    and "\<exists>policy required. active_policy (or_organization_id ord) DEMO_POLICY_CODE s = Some policy \<and>
      required_types_of (Some policy) = Inr required \<and>
      (\<forall>t \<in> set required. \<exists>k i. map_of (latest_inspections_by_type (or_id ord) s) k = Some i \<and>
         in_result i = PASS \<and> inspection_type_value k = t)"
    and "or_quality_state ord = QS_RELEASED"
proof -
  let ?policy = "active_policy (or_organization_id ord) DEMO_POLICY_CODE s"
  from facts obtain required where req: "required_types_of ?policy = Inr required"
    and f: "facts = \<lparr>sf_production_state = or_production_state ord, sf_quantity = or_quantity ord,
      sf_packed_units = or_packed_units ord,
      sf_passed_inspection_types = map (inspection_type_value \<circ> fst)
        (filter (\<lambda>(_, i). in_result i = PASS) (latest_inspections_by_type (or_id ord) s)),
      sf_required_inspection_types = required, sf_has_active_hold = has_active_hold (or_id ord) s,
      sf_has_valid_release = has_valid_release (or_id ord) (map_of (latest_inspections_by_type (or_id ord) s) FINAL) s,
      sf_policy_known = (?policy \<noteq> None)\<rparr>"
    by (auto simp: shipment_facts_of_def run_simps)
  note e = el [unfolded eligible_iff f, simplified]
  show "or_quantity ord \<le> or_packed_units ord" using e by blast
  obtain policy where policy: "?policy = Some policy" using e by auto
  have "\<exists>k i. map_of (latest_inspections_by_type (or_id ord) s) k = Some i \<and> in_result i = PASS \<and>
      inspection_type_value k = t" if "t \<in> set required" for t
  proof -
    have "t \<in> inspection_type_value ` fst ` {x \<in> set (latest_inspections_by_type (or_id ord) s). in_result (snd x) = PASS}"
      using e that by (auto simp: case_prod_beta image_image)
    then obtain k i where "(k, i) \<in> set (latest_inspections_by_type (or_id ord) s)" "in_result i = PASS"
        "inspection_type_value k = t" by auto
    then show ?thesis by (auto simp: in_latest_by_type)
  qed
  then show "\<exists>policy required. ?policy = Some policy \<and> required_types_of (Some policy) = Inr required \<and>
      (\<forall>t \<in> set required. \<exists>k i. map_of (latest_inspections_by_type (or_id ord) s) k = Some i \<and>
         in_result i = PASS \<and> inspection_type_value k = t)"
    using policy req by auto
  have lf: "map_of (latest_inspections_by_type (or_id ord) s) FINAL = latest_final_inspection (or_id ord) s"
    by (rule latest_final_lookup)
  have vr: "has_valid_release (or_id ord) (latest_final_inspection (or_id ord) s) s"
    and nh: "\<not> has_active_hold (or_id ord) s" using e lf by auto
  then obtain i where i: "latest_final_inspection (or_id ord) s = Some i"
    by (cases "latest_final_inspection (or_id ord) s") (auto simp: has_valid_release_def)
  have "i \<in> set (t_inspections s)" using latest_final_in [OF i] .
  moreover have "in_order_id i = or_id ord"
  proof -
    have "i \<in> set (sort_key newest (filter (\<lambda>i. in_order_id i = or_id ord \<and> in_inspection_type i = FINAL) (t_inspections s)))"
      using i by (auto simp: latest_final_inspection_def simp del: set_sort split: list.splits)
    then show ?thesis by simp
  qed
  ultimately have "derived_quality (or_id ord) s = QS_RELEASED"
    using vr nh by (auto simp: derived_quality_def quality_state_of_def)
  then show "or_quality_state ord = QS_RELEASED" using inv ord by (simp add: quality_books_def quality_ok_def)
qed

section \<open>Cancellation\<close>

lemma stock_ok_jobs: "stock_ok (s\<lparr>t_orders := os\<rparr>) = stock_ok s" "stock_ok (s\<lparr>locks := ls\<rparr>) = stock_ok s"
  by (rule stock_ok_frame; simp)+

lemma books_locks [simp]:
  "stock_ok (take_locks ls s) = stock_ok s" "capacity_ok (take_locks ls s) = capacity_ok s"
  by (rule stock_ok_frame capacity_ok_frame; simp add: take_locks_def)+

lemma enqueue_stock:
  "enqueue q ty pl k av m s = Inr (i, s') \<Longrightarrow>
   t_balances s' = t_balances s \<and> t_reservations s' = t_reservations s \<and> t_lots s' = t_lots s \<and>
   t_movements s' = t_movements s \<and> t_slots s' = t_slots s \<and> t_allocations s' = t_allocations s"
  by (auto simp: enqueue_def run_simps draw_def split: if_splits)

lemma cancel_releases:
  assumes run: "transition_order p oid ''CANCELLED'' v reason trace s = Inr (ord', s')"
    and books: "capacity_ok s" "stock_ok s"
    and fac: "\<And>r ord. r \<in> set (t_reservations s) \<Longrightarrow> ord \<in> set (t_orders s) \<Longrightarrow> rv_order_id r = or_id ord \<Longrightarrow>
       rv_factory_id r = or_factory_id ord"
  shows "t_allocations s' = allocations_released oid s \<and> t_reservations s' = reservations_released oid s \<and>
    capacity_ok s' \<and> stock_ok s'"
proof -
  from transition_orderD [OF run] obtain ord tgt rule s1 s2 where
      o: "row or_id oid (t_orders s) = Some ord" "or_id ord = oid" "v = or_version ord"
    and tgt: "production_state_of ''CANCELLED'' = Some tgt"
    and ord': "ord' = ord\<lparr>or_production_state := tgt, or_version := v + 1\<rparr>"
    and s1: "s1 = (take_locks [LockOrder oid] s)\<lparr>t_orders := upd or_id (ord'\<lparr>or_updated_at := utcnow s\<rparr>) (t_orders s)\<rparr>"
    and rel: "if tgt = CANCELLED then release_and_enqueue_refresh ord' s1 = Inr s2 else s2 = s1"
    and fin: "t_balances s' = t_balances s2" "t_reservations s' = t_reservations s2"
      "t_lots s' = t_lots s2" "t_movements s' = t_movements s2" "t_slots s' = t_slots s2"
      "t_allocations s' = t_allocations s2" .
  have "tgt = CANCELLED" using tgt production_state_of_value [of CANCELLED] by simp
  with rel have rel: "release_and_enqueue_refresh ord' s1 = Inr s2" by simp
  have ord'_id: "or_id ord' = oid" "or_factory_id ord' = or_factory_id ord" using ord' o(2) by simp_all
  have s1_tables: "t_reservations s1 = t_reservations s" "t_allocations s1 = t_allocations s"
    by (simp_all add: s1 take_locks_def)
  have ok1: "capacity_ok s1" "stock_ok s1"
    using books capacity_ok_frame [of s1 s] stock_ok_frame [of s1 s] by (simp_all add: s1 take_locks_def)
  obtain released slots lks where a: "release_order_allocations ord' s1 = Inr (released,
      s1\<lparr>t_slots := slots, t_allocations := allocations_released oid s1, locks := lks\<rparr>)"
    and ok2: "capacity_ok (s1\<lparr>t_slots := slots, t_allocations := allocations_released oid s1, locks := lks\<rparr>)"
    using release_allocations_run [OF ok1(1), of ord'] ord'_id by auto
  define t where "t = s1\<lparr>t_slots := slots, t_allocations := allocations_released oid s1, locks := lks\<rparr>"
  have t: "stock_ok t" "capacity_ok t" "t_reservations t = t_reservations s" "t_allocations t = allocations_released oid s"
    using ok1(2) ok2 stock_ok_frame [of t s1] s1_tables by (simp_all add: t_def allocations_released_def)
  have "rv_factory_id r = or_factory_id ord'" if "r \<in> set (t_reservations t)" "rv_order_id r = or_id ord'" for r
    using fac [of r ord] row_in_set [OF o(1)] that t(3) ord'_id o(2) by simp
  then obtain released' bs lks' where b: "release_order_reservations ord' t = Inr (released',
      t\<lparr>t_balances := bs, t_reservations := reservations_released oid t, locks := lks'\<rparr>)"
    and ok3: "stock_ok (t\<lparr>t_balances := bs, t_reservations := reservations_released oid t, locks := lks'\<rparr>)"
    using release_reservations_run [OF t(1), of ord'] ord'_id by auto
  define u where "u = t\<lparr>t_balances := bs, t_reservations := reservations_released oid t, locks := lks'\<rparr>"
  have u: "stock_ok u" "capacity_ok u" "t_reservations u = reservations_released oid s"
    "t_allocations u = allocations_released oid s"
    using ok3 t capacity_ok_frame [of u t] by (simp_all add: u_def reservations_released_def)
  from rel a b have "t_balances s2 = t_balances u \<and> t_reservations s2 = t_reservations u \<and> t_lots s2 = t_lots u \<and>
      t_movements s2 = t_movements u \<and> t_slots s2 = t_slots u \<and> t_allocations s2 = t_allocations u"
    by (auto simp: release_and_enqueue_refresh_def run_simps t_def [symmetric] u_def [symmetric]
        split: if_splits dest!: enqueue_stock)
  with fin u stock_ok_frame [of s' u] capacity_ok_frame [of s' u] show ?thesis by simp
qed

section \<open>Progress\<close>

lemma progress_orderD:
  assumes "progress_order p oid produced packed v trace s = Inr (ord', s')"
  obtains ord where "row or_id oid (t_orders s) = Some ord" "or_id ord = oid" "v = or_version ord"
    "or_production_state ord = IN_PRODUCTION \<or> or_production_state ord = PRODUCTION_COMPLETE"
    "or_produced_units ord \<le> produced" "produced \<le> or_quantity ord" "or_packed_units ord \<le> packed"
    "packed \<le> or_quantity ord"
    "ord' = ord\<lparr>or_produced_units := produced, or_packed_units := packed, or_version := v + 1\<rparr>"
    "t_orders s' = upd or_id (ord'\<lparr>or_updated_at := utcnow s\<rparr>) (t_orders s)"
proof -
  from assms obtain scoped ord sl s1 where
      ld: "load_order oid p ''order:transition'' s = Inr scoped"
    and lo: "lock_order (or_id scoped) s = Inr (ord, sl)"
    and c: "or_production_state ord \<in> set PROGRESS_ALLOWED_STATES" "v = or_version ord"
      "progress_field_errors ord produced packed = []"
    and ord': "ord' = ord\<lparr>or_produced_units := produced, or_packed_units := packed, or_version := or_version ord + 1\<rparr>"
    and up: "update_order ord' sl = Inr s1" and au: "audited s1 s'"
    by (auto simp: progress_order_def run_simps)
  have oid: "or_id scoped = oid"
    using ld by (auto simp: load_defs dest: load_scoped_cases(1) [THEN row_key])
  have l: "row or_id oid (t_orders s) = Some ord" "sl = take_locks [LockOrder oid] s"
    using lock_orderD [OF lo] oid by simp_all
  have f: "or_produced_units ord \<le> produced" "produced \<le> or_quantity ord" "or_packed_units ord \<le> packed"
    "packed \<le> or_quantity ord"
    using c(3) by (auto simp: progress_field_errors_def split: if_splits)
  have "t_orders s' = upd or_id (ord'\<lparr>or_updated_at := utcnow s\<rparr>) (t_orders s)"
    using up audited_frame(9) [OF au] by (auto simp: update_order_def run_simps l(2) take_locks_def)
  with that [OF l(1) row_key [OF l(1)] c(2) _ f] c(1,2) ord' show thesis
    by (simp add: PROGRESS_ALLOWED_STATES_def)
qed

section \<open>The units of an order\<close>

definition order_ok :: "order \<Rightarrow> bool" where
  "order_ok ord \<longleftrightarrow>
     0 \<le> or_produced_units ord \<and> or_produced_units ord \<le> or_quantity ord \<and>
     0 \<le> or_packed_units ord \<and> or_packed_units ord \<le> or_quantity ord \<and>
     (or_production_state ord \<in> {PRODUCTION_COMPLETE, DISPATCHED} \<longrightarrow> or_produced_units ord = or_quantity ord) \<and>
     (or_production_state ord = DISPATCHED \<longrightarrow> or_packed_units ord = or_quantity ord)"

definition orders_ok :: "db \<Rightarrow> bool" where
  "orders_ok s \<longleftrightarrow> distinct (map or_id (t_orders s)) \<and> (\<forall>ord \<in> set (t_orders s). order_ok ord)"

text \<open>The columns the commands of this service are about.\<close>

definition order_core :: "order \<Rightarrow> uuid \<times> int \<times> int \<times> int \<times> production_state" where
  "order_core ord =
     (or_id ord, or_quantity ord, or_produced_units ord, or_packed_units ord, or_production_state ord)"

text \<open>
  One committed command: creation, transition or progress of an order, a command of the quality
  service, or one that leaves these columns alone.
\<close>

inductive order_step :: "db \<Rightarrow> db \<Rightarrow> bool" where
  created: "create_order p fid data trace s = Inr (ord, s') \<Longrightarrow> order_step s s'"
| moved: "transition_order p oid target v reason trace s = Inr (ord, s') \<Longrightarrow> order_step s s'"
| progressed: "progress_order p oid produced packed v trace s = Inr (ord, s') \<Longrightarrow> order_step s s'"
| inspected: "quality_step s s' \<Longrightarrow> order_step s s'"
| elsewhere: "map order_core (t_orders s') = map order_core (t_orders s) \<Longrightarrow> order_step s s'"

lemma orders_ok_upd:
  assumes inv: "orders_ok s" and "order_ok x" and "t_orders s' = upd or_id x (t_orders s)"
  shows "orders_ok s'"
  using assms by (auto simp: orders_ok_def dest: set_upd_subset)

lemma order_ok_core: "order_core x = order_core y \<Longrightarrow> order_ok x = order_ok y"
  by (simp add: order_core_def order_ok_def)

lemma orders_ok_core:
  assumes inv: "orders_ok s" and core: "map order_core (t_orders s') = map order_core (t_orders s)"
  shows "orders_ok s'"
proof -
  have "map or_id rows = map fst (map order_core rows)" for rows by (simp add: order_core_def comp_def)
  then have ids: "map or_id (t_orders s') = map or_id (t_orders s)" using core by metis
  have "order_ok x" if "x \<in> set (t_orders s')" for x
  proof -
    have "order_core x \<in> order_core ` set (t_orders s)" using that core by (metis image_eqI list.set_map)
    then obtain y where y: "y \<in> set (t_orders s)" "order_core x = order_core y" by auto
    with inv show ?thesis using order_ok_core [OF y(2)] by (simp add: orders_ok_def)
  qed
  with inv ids show ?thesis by (simp add: orders_ok_def)
qed

lemma created_ok:
  assumes inv: "orders_ok s" and run: "create_order p fid data trace s = Inr (ord, s')"
  shows "orders_ok s'"
proof -
  have "or_duplicate (insert_order r s) = Inr (ord, s1) \<Longrightarrow> insert_order r s = Inr (ord, s1)" for r s1
    by (auto simp: or_duplicate_def split: sum.splits exn.splits)
  with run obtain r s1 where ins: "insert_order r s = Inr (ord, s1)" and au: "audited s1 s'"
    and r: "or_produced_units r = 0" "or_packed_units r = 0" "or_production_state r = DRAFT"
    by (fastforce simp: create_order_def run_simps)
  from ins have "order_ok ord" "t_orders s1 = t_orders s @ [ord]" "or_id ord \<notin> or_id ` set (t_orders s)"
    using r by (auto simp: insert_order_def run_simps draw_def insert_row_Inr order_checks_def order_ok_def)
  then show ?thesis using inv audited_frame(9) [OF au] by (simp add: orders_ok_def)
qed

lemma moved_ok:
  assumes inv: "orders_ok s" and run: "transition_order p oid target v reason trace s = Inr (ord', s')"
  shows "orders_ok s'"
proof -
  from transition_orderD [OF run] obtain ord tgt rule s1 where
      o: "row or_id oid (t_orders s) = Some ord"
    and g: "get_transition (or_production_state ord) tgt = Inr rule"
    and r: "enforce_all (tr_preconditions rule) ord (take_locks [LockOrder oid] s) = Inr ()"
    and ord': "ord' = ord\<lparr>or_production_state := tgt, or_version := v + 1\<rparr>"
    and s1: "s1 = (take_locks [LockOrder oid] s)\<lparr>t_orders := upd or_id (ord'\<lparr>or_updated_at := utcnow s\<rparr>) (t_orders s)\<rparr>"
    and same: "orders_same s1 s'" .
  have ok: "order_ok ord" using inv row_in_set [OF o] by (simp add: orders_ok_def)
  have st: "step_allowed (or_production_state ord) tgt" using g by (rule step_allowed.intros)
  have "or_produced_units ord = or_quantity ord" if t: "tgt = PRODUCTION_COMPLETE"
  proof -
    have "or_production_state ord = IN_PRODUCTION" using st step_into_complete t by blast
    with g t have "tr_preconditions rule = [''produced_units_complete'']"
      by (auto simp: get_transition_def transition_table)
    with r ok show ?thesis
      by (auto simp: run_simps ENFORCERS_def enforce_produced_units_complete_def order_ok_def)
  qed
  moreover have "or_produced_units ord = or_quantity ord \<and> or_packed_units ord = or_quantity ord"
    if t: "tgt = DISPATCHED"
  proof -
    have p: "or_production_state ord = PRODUCTION_COMPLETE" using st step_into_dispatched t by blast
    with g t have "tr_preconditions rule = [''shipment_eligible'']"
      by (auto simp: get_transition_def transition_table)
    with r ok p show ?thesis
      by (auto simp: run_simps ENFORCERS_def enforce_shipment_eligible_def compute_shipment_def order_ok_def
          shipment_facts_of_def eligible_iff)
  qed
  ultimately have "order_ok (ord'\<lparr>or_updated_at := utcnow s\<rparr>)" using ok by (auto simp: order_ok_def ord')
  from orders_ok_upd [OF inv this] show ?thesis using same by (simp add: orders_same_def s1)
qed

lemma progressed_ok:
  assumes inv: "orders_ok s" and run: "progress_order p oid produced packed v trace s = Inr (ord', s')"
  shows "orders_ok s'"
  using run
proof (rule progress_orderD)
  fix ord
  assume o: "row or_id oid (t_orders s) = Some ord"
    "or_production_state ord = IN_PRODUCTION \<or> or_production_state ord = PRODUCTION_COMPLETE"
    "or_produced_units ord \<le> produced" "produced \<le> or_quantity ord" "or_packed_units ord \<le> packed"
    "packed \<le> or_quantity ord"
    and ord': "ord' = ord\<lparr>or_produced_units := produced, or_packed_units := packed, or_version := v + 1\<rparr>"
    and t: "t_orders s' = upd or_id (ord'\<lparr>or_updated_at := utcnow s\<rparr>) (t_orders s)"
  have "order_ok ord" using inv row_in_set [OF o(1)] by (simp add: orders_ok_def)
  with o(2-) have "order_ok (ord'\<lparr>or_updated_at := utcnow s\<rparr>)" by (auto simp: order_ok_def ord')
  from orders_ok_upd [OF inv this t] show ?thesis .
qed

text \<open>The quality commands leave these columns alone.\<close>

lemma core_upd:
  assumes "distinct (map or_id rows)" and "row or_id oid rows = Some ord" and "order_core x = order_core ord"
  shows "map order_core (upd or_id x rows) = map order_core rows"
proof -
  have id: "or_id x = oid" using assms(3) row_key [OF assms(2)] by (simp add: order_core_def)
  have "order_core (if or_id y = or_id x then x else y) = order_core y" if "y \<in> set rows" for y
  proof (cases "or_id y = oid")
    case True
    then have "y = ord" using row_distinct [OF assms(1) that] assms(2) by simp
    then show ?thesis using assms(3) by simp
  qed (simp add: id)
  then show ?thesis by (simp add: upd_def)
qed

lemma touch_core:
  assumes "touch_order ord s1 = Inr (ord', s2)" and "quality_logged s2 s'" and "t_orders s1 = t_orders s"
    and "row or_id oid (t_orders s) = Some ord" and "distinct (map or_id (t_orders s))"
  shows "map order_core (t_orders s') = map order_core (t_orders s)"
proof -
  have "t_orders s' = upd or_id (ord'\<lparr>or_updated_at := utcnow s1\<rparr>) (t_orders s)"
    using assms(2,3) touch_orderD(2) [OF assms(1)] by (simp add: quality_logged_def)
  moreover have "order_core (ord'\<lparr>or_updated_at := utcnow s1\<rparr>) = order_core ord"
    using touch_orderD(1) [OF assms(1)] by (simp add: order_core_def)
  ultimately show ?thesis using core_upd [OF assms(5,4)] by simp
qed

lemma inspected_core:
  assumes "quality_step s s'" and ids: "distinct (map or_id (t_orders s))"
  shows "map order_core (t_orders s') = map order_core (t_orders s)"
  using assms(1)
proof cases
  case (inspect p oid data i)
  from record_inspectionD [OF inspect] obtain ord sl line policy rules ev h s1 ord' s2 where
      o: "row or_id oid (t_orders s) = Some ord" "or_id ord = oid" "sl = take_locks [LockOrder oid] s"
    and "active_policy (or_organization_id ord) DEMO_POLICY_CODE s = Some policy"
    and "rules_from_json (qp_rules policy) = Inr rules"
    and "ev = evaluate_inspection rules (ni_inspected_units data) (ni_defective_units data)
       (critical_defects_of (ni_defects data))"
    and st: "store_inspection ord (new_inspection ord data line (qp_id policy) (ie_result ev) p sl) ev
       (ni_defects data) sl = Inr (i, h, s1)"
    and t: "touch_order ord s1 = Inr (ord', s2)" and fin: "quality_logged s2 s'" .
  show ?thesis by (rule touch_core [OF t fin _ o(1) ids]) (simp add: store_inspectionD(3) [OF st] o(3))
next
  case (hold p oid reason h)
  then obtain scoped ord sl r s1 ord' s2 where
      "load_order oid p ''quality:hold'' s = Inr scoped"
    and lo: "lock_order (or_id scoped) s = Inr (ord, sl)"
    and ins: "insert_hold r sl = Inr (h, s1)"
    and t: "touch_order ord s1 = Inr (ord', s2)" and fin: "quality_logged s2 s'"
    by (auto simp: place_hold_def run_simps)
  have "t_orders s1 = t_orders s" "row or_id (or_id scoped) (t_orders s) = Some ord"
    using ins lock_orderD [OF lo] by (auto simp: insert_hold_def run_simps draw_def)
  then show ?thesis by (rule touch_core [OF t fin _ _ ids])
next
  case (release p oid iid v n r)
  from release_orderD [OF release] obtain ord s1 ord' s2 where
      o: "row or_id oid (t_orders s) = Some ord" and s1: "t_orders s1 = t_orders s"
    and t: "touch_order ord (release_holds oid r p s1) = Inr (ord', s2)" and fin: "quality_logged s2 s'" .
  show ?thesis by (rule touch_core [OF t fin _ o ids]) (simp add: s1)
qed

lemma order_step_ok: "order_step s s' \<Longrightarrow> orders_ok s \<Longrightarrow> orders_ok s'"
proof (induction rule: order_step.induct)
  case created
  then show ?case by (rule created_ok [rotated])
next
  case moved
  then show ?case by (rule moved_ok [rotated])
next
  case progressed
  then show ?case by (rule progressed_ok [rotated])
next
  case (inspected s s')
  then have "distinct (map or_id (t_orders s))" by (simp add: orders_ok_def)
  from orders_ok_core [OF inspected.prems inspected_core [OF inspected.hyps this]] show ?case .
next
  case elsewhere
  then show ?case by (rule orders_ok_core [rotated])
qed

section \<open>Properties\<close>

text \<open>
  C25. The list and the detail of an order agree: the shipment eligibility that \<open>list_orders\<close>
  computes from its batched facts is, for every row of the page, the one \<open>compute_shipment\<close>
  gives for that order alone, reasons and their order included (all orders of a factory
  belong to one organization, as the composite foreign key demands).
\<close>

theorem page_shipment_agrees:
  assumes "list_orders p fid f limit offset s = Inr (rows, n)" and "r \<in> set rows"
    and "\<And>x y. x \<in> set (t_orders s) \<Longrightarrow> y \<in> set (t_orders s) \<Longrightarrow> or_factory_id x = fid \<Longrightarrow>
       or_factory_id y = fid \<Longrightarrow> or_organization_id x = or_organization_id y"
  shows "compute_shipment (lr_order r) s = Inr (lr_shipment r)"
  using assms by (rule list_orders_rows(3))

text \<open>
  C26. Nothing leaves the factory unseen: when a transition to DISPATCHED succeeds (on records
  kept by the quality service), the order was complete and fully packed, the caller may
  dispatch at its factory, an active policy exists and every inspection type it requires
  passed in its latest inspection, no hold was active, and the latest FINAL inspection was
  released by somebody other than its inspector.
\<close>

theorem dispatch_is_gated:
  assumes "transition_order p oid ''DISPATCHED'' v reason trace s = Inr (ord', s')" and "quality_books s"
  shows "\<exists>ord policy required i r. row or_id oid (t_orders s) = Some ord \<and>
     or_production_state ord = PRODUCTION_COMPLETE \<and> or_quantity ord \<le> or_packed_units ord \<and>
     require p ''order:dispatch'' (or_factory_id ord) = Inr () \<and>
     active_policy (or_organization_id ord) DEMO_POLICY_CODE s = Some policy \<and>
     required_types_of (Some policy) = Inr required \<and>
     (\<forall>t \<in> set required. \<exists>k j. map_of (latest_inspections_by_type oid s) k = Some j \<and>
        in_result j = PASS \<and> inspection_type_value k = t) \<and>
     \<not> has_active_hold oid s \<and> latest_final_inspection oid s = Some i \<and> in_result i = PASS \<and>
     r \<in> set (t_releases s) \<and> re_inspection_id r = in_id i \<and> in_inspected_by i \<noteq> Some (re_released_by r)"
  using assms(1)
proof (rule dispatch_gates)
  fix ord facts
  assume o: "row or_id oid (t_orders s) = Some ord" "or_id ord = oid"
    and st: "or_production_state ord = PRODUCTION_COMPLETE" "require p ''order:dispatch'' (or_factory_id ord) = Inr ()"
    and el: "shipment_facts_of ord s = Inr facts" "se_eligible (shipment_eligibility_of facts)"
  note e = eligible_in_books [OF assms(2) row_in_set [OF o(1)] el]
  note r = released_in_books [OF assms(2) row_in_set [OF o(1)] e(3)]
  from e(2) obtain policy required where
      "active_policy (or_organization_id ord) DEMO_POLICY_CODE s = Some policy"
      "required_types_of (Some policy) = Inr required"
      "\<forall>t \<in> set required. \<exists>k j. map_of (latest_inspections_by_type oid s) k = Some j \<and>
        in_result j = PASS \<and> inspection_type_value k = t" unfolding o(2) by blast
  moreover from r obtain i r where "latest_final_inspection oid s = Some i" "in_result i = PASS"
      "r \<in> set (t_releases s)" "re_inspection_id r = in_id i" "in_inspected_by i \<noteq> Some (re_released_by r)"
      "\<not> has_active_hold oid s" unfolding o(2) by blast
  ultimately show ?thesis using o(1) st e(1) by blast
qed

text \<open>
  C27. The command refines the lifecycle: a successful transition is a step of the lifecycle
  automaton other than planning, taken by a caller whose role at the order's factory has the
  rule's permission, on the version the caller saw; it sets the new state and the next
  version of that one order and touches no other column of any order.
\<close>

theorem transition_refines_lifecycle:
  assumes "transition_order p oid target v reason trace s = Inr (ord', s')"
  shows "\<exists>ord rule. row or_id oid (t_orders s) = Some ord \<and> v = or_version ord \<and>
     step_allowed (or_production_state ord) (or_production_state ord') \<and>
     (or_production_state ord, or_production_state ord') \<noteq> (VALIDATED, PLANNED) \<and>
     target = production_state_value (or_production_state ord') \<and>
     get_transition (or_production_state ord) (or_production_state ord') = Inr rule \<and>
     has p (tr_permission rule) (or_factory_id ord) = Inr True \<and>
     ord' = ord\<lparr>or_production_state := or_production_state ord', or_version := v + 1\<rparr> \<and>
     t_orders s' = upd or_id (ord'\<lparr>or_updated_at := utcnow s\<rparr>) (t_orders s)"
proof -
  from transition_orderD [OF assms] obtain ord tgt rule s1 where
      o: "row or_id oid (t_orders s) = Some ord" "v = or_version ord"
    and tgt: "production_state_of target = Some tgt"
      "map_of BLOCKED_TRANSITIONS (or_production_state ord, tgt) = None"
    and g: "get_transition (or_production_state ord) tgt = Inr rule"
    and perm: "require p (tr_permission rule) (or_factory_id ord) = Inr ()"
    and ord': "ord' = ord\<lparr>or_production_state := tgt, or_version := v + 1\<rparr>"
    and s1: "s1 = (take_locks [LockOrder oid] s)\<lparr>t_orders := upd or_id (ord'\<lparr>or_updated_at := utcnow s\<rparr>) (t_orders s)\<rparr>"
    and same: "orders_same s1 s'" .
  have "has p (tr_permission rule) (or_factory_id ord) = Inr True"
    using perm by (auto simp: require_def split: sum.splits if_splits)
  moreover have "(or_production_state ord, tgt) \<noteq> (VALIDATED, PLANNED)"
    using tgt(2) by (auto simp: BLOCKED_TRANSITIONS_def)
  moreover have "t_orders s' = upd or_id (ord'\<lparr>or_updated_at := utcnow s\<rparr>) (t_orders s)"
    using same by (simp add: orders_same_def s1)
  moreover have st: "or_production_state ord' = tgt" by (simp add: ord')
  moreover have "ord' = ord\<lparr>or_production_state := or_production_state ord', or_version := v + 1\<rparr>"
    unfolding st by (rule ord')
  ultimately show ?thesis
    using o g step_allowed.intros [OF g] production_state_ofD [OF tgt(1), symmetric] unfolding st by blast
qed

text \<open>
  C28. Cancelling gives everything back: after a transition to CANCELLED exactly the order's
  active allocations and reservations are released, those of other orders are untouched, and
  the books of the slots and of the stock balance again.
\<close>

theorem cancel_gives_everything_back:
  assumes "transition_order p oid ''CANCELLED'' v reason trace s = Inr (ord', s')"
    and "capacity_ok s" and "stock_ok s"
    and "\<And>r ord. r \<in> set (t_reservations s) \<Longrightarrow> ord \<in> set (t_orders s) \<Longrightarrow> rv_order_id r = or_id ord \<Longrightarrow>
       rv_factory_id r = or_factory_id ord"
  shows "t_allocations s' =
      map (\<lambda>a. if al_order_id a = oid \<and> al_status a = ALLOC_ACTIVE
               then a\<lparr>al_status := ALLOC_RELEASED\<rparr> else a) (t_allocations s) \<and>
    t_reservations s' =
      map (\<lambda>r. if rv_order_id r = oid \<and> rv_status r = RES_ACTIVE
               then r\<lparr>rv_status := RES_RELEASED\<rparr> else r) (t_reservations s) \<and>
    capacity_ok s' \<and> stock_ok s'"
  unfolding allocations_released_def [symmetric] reservations_released_def [symmetric]
  using assms by (rule cancel_releases)

text \<open>
  C29. Units add up: from orders in order, any sequence of creations, transitions, progress
  reports, quality commands and commands that leave production columns alone keeps the
  produced and the packed units of every order between zero and its quantity, and an order
  that is complete is fully produced, one that is dispatched fully produced and packed.
\<close>

theorem dispatched_is_complete:
  assumes "order_step\<^sup>*\<^sup>* s s'" and "orders_ok s" and "ord \<in> set (t_orders s')"
  shows "0 \<le> or_produced_units ord \<and> or_produced_units ord \<le> or_quantity ord \<and>
    0 \<le> or_packed_units ord \<and> or_packed_units ord \<le> or_quantity ord \<and>
    (or_production_state ord \<in> {PRODUCTION_COMPLETE, DISPATCHED} \<longrightarrow> or_produced_units ord = or_quantity ord) \<and>
    (or_production_state ord = DISPATCHED \<longrightarrow> or_packed_units ord = or_quantity ord)"
proof -
  have "orders_ok s'" using assms(1,2) by (induction rule: rtranclp_induct) (blast intro: order_step_ok)+
  with assms(3) show ?thesis by (simp add: orders_ok_def order_ok_def)
qed

section \<open>One order on its way out\<close>

definition demo_inspection :: inspection where
  "demo_inspection =
     \<lparr>in_id = 30, in_organization_id = 1, in_factory_id = 7, in_order_id = 9, in_line_id = None,
      in_inspection_type = FINAL, in_inspected_units = 20, in_defective_units = 0,
      in_policy_version_id = 50, in_result = PASS, in_inspected_by = Some 5, in_inspected_at = 0\<rparr>"

definition demo_release :: quality_release where
  "demo_release =
     \<lparr>re_id = 40, re_organization_id = 1, re_factory_id = 7, re_order_id = 9, re_inspection_id = 30,
      re_policy_version_id = 50, re_released_by = 6, re_released_at = 0, re_notes = None\<rparr>"

definition demo_customer :: customer where
  "demo_customer = \<lparr>cu_id = 1, cu_organization_id = 1, cu_code = ''ACME'', cu_name = ''Acme''\<rparr>"

definition demo_style :: style where
  "demo_style = \<lparr>st_id = 1, st_organization_id = 1, st_code = ''TS'', st_name = ''Tee'', st_product_type = ''T''\<rparr>"

definition orders_demo :: db where
  "orders_demo =
     empty_db\<lparr>t_factories := [demo_factory], t_policies := [demo_policy],
       t_customers := [demo_customer], t_styles := [demo_style],
       t_inspections := [demo_inspection], t_releases := [demo_release],
       t_orders := [demo_order\<lparr>or_production_state := PRODUCTION_COMPLETE, or_produced_units := 100,
         or_packed_units := 100, or_quality_state := QS_RELEASED\<rparr>]\<rparr>"

lemma orders_demo_books: "quality_books orders_demo" "orders_ok orders_demo"
proof -
  have "derived_quality 9 orders_demo = QS_RELEASED" by code_simp
  then show "quality_books orders_demo"
    by (simp add: quality_books_def quality_ok_def orders_demo_def empty_db_def release_ok_def
        demo_inspection_def demo_release_def demo_order_def)
  show "orders_ok orders_demo"
    by (simp add: orders_ok_def order_ok_def orders_demo_def empty_db_def demo_order_def)
qed

definition demo_dispatch :: "exn + (order \<times> db)" where
  "demo_dispatch = transition_order (demo_user 2 [SUPERVISOR]) 9 ''DISPATCHED'' 1 None None orders_demo"

lemma demo_dispatch_value: "case demo_dispatch of Inl _ \<Rightarrow> False | Inr (ord, s') \<Rightarrow>
    or_production_state ord = DISPATCHED \<and> t_orders s' \<noteq> []"
  by code_simp

definition demo_page :: "exn + (order_list_row list \<times> nat)" where
  "demo_page =
     list_orders (demo_user 2 [SUPERVISOR]) 7 \<lparr>of_q = Some ''cm'', of_production_state = None,
       of_material_state = None, of_quality_state = None, of_due_before = None\<rparr> 50 0 orders_demo"

lemma demo_page_value: "case demo_page of Inl _ \<Rightarrow> False | Inr (rows, n) \<Rightarrow> length rows = 1 \<and> n = 1"
  by code_simp

theorem page_shipment_agrees_witness:
  "\<exists>rows n r. demo_page = Inr (rows, n) \<and> r \<in> set rows \<and>
     compute_shipment (lr_order r) orders_demo = Inr (lr_shipment r)"
proof -
  from demo_page_value obtain rows n where p: "demo_page = Inr (rows, n)" "length rows = 1"
    by (auto split: sum.splits)
  then obtain r where r: "r \<in> set rows" by (cases rows) auto
  have "or_organization_id x = or_organization_id y"
    if "x \<in> set (t_orders orders_demo)" "y \<in> set (t_orders orders_demo)" for x y
    using that by (simp add: orders_demo_def)
  from page_shipment_agrees [OF p(1) [unfolded demo_page_def] r this] p(1) r show ?thesis by blast
qed

theorem dispatch_is_gated_witness:
  "\<exists>ord s' i. demo_dispatch = Inr (ord, s') \<and> latest_final_inspection 9 orders_demo = Some i \<and> in_result i = PASS"
proof -
  from demo_dispatch_value obtain ord s' where d: "demo_dispatch = Inr (ord, s')" by (auto split: sum.splits)
  from dispatch_is_gated [OF d [unfolded demo_dispatch_def] orders_demo_books(1)] d show ?thesis by blast
qed

theorem transition_refines_lifecycle_witness:
  "\<exists>ord' s' ord. demo_dispatch = Inr (ord', s') \<and> row or_id 9 (t_orders orders_demo) = Some ord \<and>
     step_allowed (or_production_state ord) (or_production_state ord')"
proof -
  from demo_dispatch_value obtain ord' s' where d: "demo_dispatch = Inr (ord', s')" by (auto split: sum.splits)
  from transition_refines_lifecycle [OF d [unfolded demo_dispatch_def]] d show ?thesis by blast
qed

theorem dispatched_is_complete_witness:
  "\<exists>ord s' x. demo_dispatch = Inr (ord, s') \<and> x \<in> set (t_orders s') \<and> or_packed_units x \<le> or_quantity x"
proof -
  from demo_dispatch_value obtain ord s' where d: "demo_dispatch = Inr (ord, s')" and ne: "t_orders s' \<noteq> []"
    by (auto split: sum.splits)
  from d have run: "transition_order (demo_user 2 [SUPERVISOR]) 9 ''DISPATCHED'' 1 None None orders_demo = Inr (ord, s')"
    by (simp only: demo_dispatch_def)
  then have "order_step\<^sup>*\<^sup>* orders_demo s'" by (intro r_into_rtranclp order_step.moved)
  moreover have x: "hd (t_orders s') \<in> set (t_orders s')" using ne by simp
  ultimately show ?thesis using dispatched_is_complete [OF _ orders_demo_books(2) x] d x by blast
qed

definition cancel_demo :: db where
  "cancel_demo =
     stock_demo\<lparr>t_orders := [demo_order], t_slots := t_slots capacity_demo,
       t_allocations := t_allocations capacity_demo\<rparr>"

lemma cancel_demo_books: "capacity_ok cancel_demo" "stock_ok cancel_demo"
  using capacity_ok_frame [of cancel_demo capacity_demo] capacity_demo_ok
    stock_ok_frame [of cancel_demo stock_demo] stock_demo_ok
  by (simp_all add: cancel_demo_def)

definition demo_cancel :: "exn + (order \<times> db)" where
  "demo_cancel = transition_order (demo_user 2 [SUPERVISOR]) 9 ''CANCELLED'' 1 None None cancel_demo"

lemma demo_cancel_value: "case demo_cancel of Inl _ \<Rightarrow> False | Inr (_, s') \<Rightarrow> length (t_jobs s') = 1"
  by code_simp

theorem cancel_gives_everything_back_witness:
  "\<exists>ord s'. demo_cancel = Inr (ord, s') \<and> map al_status (t_allocations s') = [ALLOC_RELEASED] \<and>
     map rv_status (t_reservations s') = [RES_RELEASED] \<and> capacity_ok s' \<and> stock_ok s'"
proof -
  from demo_cancel_value obtain ord s' where d: "demo_cancel = Inr (ord, s')" by (auto split: sum.splits)
  have fac: "rv_factory_id r = or_factory_id ord"
    if "r \<in> set (t_reservations cancel_demo)" "ord \<in> set (t_orders cancel_demo)" for r ord
    using that by (simp add: cancel_demo_def stock_demo_def demo_order_def)
  from cancel_gives_everything_back [OF d [unfolded demo_cancel_def] cancel_demo_books fac]
  have "map al_status (t_allocations s') = [ALLOC_RELEASED] \<and> map rv_status (t_reservations s') = [RES_RELEASED] \<and>
      capacity_ok s' \<and> stock_ok s'"
    by (simp add: cancel_demo_def stock_demo_def capacity_demo_def)
  with d show ?thesis by (intro exI [of _ ord] exI [of _ s']) simp
qed

end
