(* ===== verification/LS_Approvals.thy ===== *)
theory LS_Approvals
  imports LS_Orders
begin

text \<open>
  Approvals (\<open>app/domain/approvals/service.py\<close>): whether a proposal is stale, deciding it,
  and applying it in one transaction under the locks of everything it touches; then the read
  models of the review screen. A service call that ends in a \<open>PersistedRejection\<close> has
  committed its changes, so the result of a call is a failure (rolled back), or a state with
  either the rejection that is raised after the commit or the value.
\<close>

definition DECIDE_PERMISSION :: string where
  "DECIDE_PERMISSION = ''recommendation:decide''"

definition APPLY_PERMISSION :: string where
  "APPLY_PERMISSION = ''recommendation:apply''"

definition READ_PERMISSION :: string where
  "READ_PERMISSION = ''analysis:read''"

definition DECIDE_ACTION :: string where
  "DECIDE_ACTION = ''recommendation.decided''"

definition APPLY_ACTION :: string where
  "APPLY_ACTION = ''recommendation.applied''"

definition APPLICABLE_ORDER_STATES :: "production_state list" where
  "APPLICABLE_ORDER_STATES = [VALIDATED, PLANNED]"

definition REASON_MIN_LENGTH :: nat where
  "REASON_MIN_LENGTH = 3"

definition REASON_MAX_LENGTH :: nat where
  "REASON_MAX_LENGTH = 500"

definition ORDER_KIND :: string where
  "ORDER_KIND = ''order''"

definition SLOT_KIND :: string where
  "SLOT_KIND = ''capacity_slot''"

definition BALANCE_KIND :: string where
  "BALANCE_KIND = ''material_balance''"

text \<open>What a call leaves: the committed state with a rejection or with the value.\<close>

type_synonym 'a outcome = "exn + ((exn + 'a) \<times> db)"

section \<open>Small helpers\<close>

definition decimal_or_zero :: "json \<Rightarrow> decimal" where
  "decimal_or_zero v = (case decimal_of_json v of None \<Rightarrow> 0 | Some d \<Rightarrow> d)"

text \<open>The later of two entries for the same identifier wins.\<close>

definition expected_versions :: "json option \<Rightarrow> (uuid \<times> int) list" where
  "expected_versions sec =
     (case sec of
        Some (JObj fs) \<Rightarrow>
          List.map_filter (\<lambda>(k, v). case uuid_of_text k of
               None \<Rightarrow> None
             | Some i \<Rightarrow> (case v of JInt n \<Rightarrow> Some (i, n) | _ \<Rightarrow> None)) (rev fs)
      | _ \<Rightarrow> [])"

definition is_expired :: "recommendation \<Rightarrow> datetime \<Rightarrow> bool" where
  "is_expired rec now \<longleftrightarrow> rc_expires_at rec \<le> now"

definition lock_recommendation :: "uuid \<Rightarrow> db \<Rightarrow> exn + (recommendation \<times> db)" where
  "lock_recommendation rec_id s =
     bind_err (some_or NoResultFound (row rc_id rec_id (t_recommendations s))) (\<lambda>rec.
     Inr (rec, take_locks [LockRecommendation rec_id] s))"

definition notify_of ::
  "recommendation \<Rightarrow> uuid option \<Rightarrow> role option \<Rightarrow> string \<Rightarrow> string \<Rightarrow> string \<Rightarrow> db \<Rightarrow> exn + db" where
  "notify_of rec user_id r kind title body s =
     insert_notification
       \<lparr>no_id = 0, no_organization_id = rc_organization_id rec, no_factory_id = rc_factory_id rec,
        no_user_id = user_id, no_role = r, no_kind = kind, no_title = title, no_body = body,
        no_link = Some (''/recommendations/'', rc_id rec), no_read_at = None\<rparr> s"

definition audit_of ::
  "recommendation \<Rightarrow> principal \<Rightarrow> string \<Rightarrow> audit_outcome \<Rightarrow> string option \<Rightarrow> string option \<Rightarrow>
   json option \<Rightarrow> json option \<Rightarrow> db \<Rightarrow> db" where
  "audit_of rec p action out reason trace before after s =
     record_audit (rc_organization_id rec) (Some (rc_factory_id rec)) USER (Id (p_user_id p)) action
       ''recommendation'' (Id (rc_id rec)) out reason trace (Some (rc_run_id rec)) before after s"

definition status_doc :: "recommendation \<Rightarrow> (jtext \<times> json) list" where
  "status_doc rec = [(Lit ''status'', JStr (recommendation_status_value (rc_status rec)))]"

section \<open>Staleness\<close>

record stale_input =
  sti_kind :: string
  sti_id :: uuid
  sti_expected_version :: "int option"
  sti_current_version :: "int option"

text \<open>The ids of one kind of row the proposal would write to.\<close>

definition required_ids :: "recommendation \<Rightarrow> string \<Rightarrow> string \<Rightarrow> uuid list" where
  "required_ids rec key field =
     List.map_filter (\<lambda>r. uuid_of_json (json_at r field)) (json_rows (rc_proposal rec) key)"

definition stale_section ::
  "string \<Rightarrow> (uuid \<times> int) list \<Rightarrow> uuid list \<Rightarrow> (uuid \<Rightarrow> int option) \<Rightarrow> stale_input list" where
  "stale_section kind expected required current =
     List.map_filter (\<lambda>i.
         let want = map_of expected i; have_now = current i
         in if want = None \<or> have_now \<noteq> want
            then Some \<lparr>sti_kind = kind, sti_id = i, sti_expected_version = want,
                       sti_current_version = have_now\<rparr>
            else None)
       (sorted_set (map fst expected @ required))"

definition check_staleness :: "recommendation \<Rightarrow> db \<Rightarrow> stale_input list" where
  "check_staleness rec s =
     (let versions = (case rc_input_versions rec of JObj fs \<Rightarrow> fs | _ \<Rightarrow> [])
      in stale_section ORDER_KIND (expected_versions (json_get versions ''order'')) [rc_order_id rec]
           (\<lambda>i. map_option or_version (row or_id i (t_orders s))) @
         stale_section SLOT_KIND (expected_versions (json_get versions ''capacity_slots''))
           (required_ids rec ''allocations'' ''slot_id'')
           (\<lambda>i. map_option sl_version (row sl_id i (t_slots s))) @
         stale_section BALANCE_KIND (expected_versions (json_get versions ''material_balances''))
           (required_ids rec ''reservations'' ''balance_id'')
           (\<lambda>i. map_option ba_version (row ba_id i (t_balances s))))"

definition stale_reason :: "stale_input list \<Rightarrow> string" where
  "stale_reason stale = ''STALE_INPUT: '' @ join_comma (sorted_set (map sti_kind stale))"

definition self_approval_error :: exn where
  "self_approval_error =
     AppError 403 SELF_APPROVAL_DENIED
       ''The person who requested an analysis cannot decide or apply its proposal.'' []"

definition hash_error :: exn where
  "hash_error = AppError 409 CONFLICT ''Proposal changed'' [''proposal_hash'']"

section \<open>Rejections that are committed\<close>

definition expire_recommendation ::
  "recommendation \<Rightarrow> principal \<Rightarrow> string \<Rightarrow> string option \<Rightarrow> db \<Rightarrow> 'a outcome" where
  "expire_recommendation rec p action trace s =
     (let r = rec\<lparr>rc_status := REC_EXPIRED, rc_version := rc_version rec + 1\<rparr>;
          s = update_recommendation r s;
          s = audit_of r p action FAILED (Some ''EXPIRED'') trace (Some (JObj (status_doc rec)))
                (Some (JObj (status_doc r))) s
      in bind_err (notify_of r (Some (rc_proposer_user_id r)) None ''recommendation.expired''
           ''A proposal expired before it was decided''
           ''The proposal expired - run a new analysis.'' s) (\<lambda>s.
         Inr (Inl (AppError 409 EXPIRED ''This proposal has expired.'' []), s)))"

definition stale_doc :: "stale_input \<Rightarrow> json" where
  "stale_doc x =
     JObj [(Lit ''kind'', JStr (sti_kind x)), (Lit ''id'', JText (Id (sti_id x))),
       (Lit ''expected_version'', json_opt JInt (sti_expected_version x)),
       (Lit ''current_version'', json_opt JInt (sti_current_version x))]"

definition supersede ::
  "recommendation \<Rightarrow> principal \<Rightarrow> stale_input list \<Rightarrow> string option \<Rightarrow> db \<Rightarrow> 'a outcome" where
  "supersede rec p stale trace s =
     (let r = rec\<lparr>rc_status := REC_SUPERSEDED, rc_superseded_reason := Some (stale_reason stale),
                  rc_version := rc_version rec + 1\<rparr>;
          s = update_recommendation r s;
          s = audit_of r p APPLY_ACTION FAILED (rc_superseded_reason r) trace
                (Some (JObj (status_doc rec)))
                (Some (JObj (status_doc r @ [(Lit ''stale_inputs'', JArr (map stale_doc stale))]))) s
      in bind_err (notify_of r (Some (rc_proposer_user_id r)) None ''recommendation.superseded''
           ''A proposal became out of date'' ''Inputs changed - run a new analysis.'' s) (\<lambda>s.
         Inr (Inl (AppError 409 STALE_INPUT
           ''The inputs this proposal was computed from have changed.'' (map sti_kind stale)), s)))"

section \<open>Deciding\<close>

definition decision_text :: "approval_decision \<Rightarrow> string" where
  "decision_text d = map to_lower (approval_decision_value d)"

definition decide ::
  "principal \<Rightarrow> uuid \<Rightarrow> string \<Rightarrow> string option \<Rightarrow> string \<Rightarrow> string option \<Rightarrow> db \<Rightarrow> recommendation outcome" where
  "decide p rec_id decision reason proposal_hash trace s =
     bind_err (load_recommendation rec_id p DECIDE_PERMISSION s) (\<lambda>scoped.
     bind_err (lock_order (rc_order_id scoped) s) (\<lambda>(_, s).
     bind_err (lock_recommendation (rc_id scoped) s) (\<lambda>(rec, s).
     bind_err (ensure (rc_status rec = REC_PROPOSED)
       (AppError 409 CONFLICT ''A proposal cannot be decided.'' [])) (\<lambda>_.
     if is_expired rec (utcnow s) then expire_recommendation rec p DECIDE_ACTION trace s
     else
     bind_err (ensure (p_user_id p \<noteq> rc_proposer_user_id rec) self_approval_error) (\<lambda>_.
     bind_err (ensure (proposal_hash = rc_proposal_hash rec) hash_error) (\<lambda>_.
     bind_err (some_or (AppError 422 VALIDATION_ERROR ''Unknown decision.'' [''decision''])
       (approval_decision_of decision)) (\<lambda>resolved.
     let text = strip (case reason of None \<Rightarrow> '''' | Some r \<Rightarrow> r)
     in bind_err (ensure (resolved = DEC_REJECTED \<longrightarrow>
          REASON_MIN_LENGTH \<le> length text \<and> length text \<le> REASON_MAX_LENGTH)
          (AppError 422 VALIDATION_ERROR ''A rejection needs a reason.'' [''reason''])) (\<lambda>_.
        bind_err (insert_approval
          \<lparr>ap_id = 0, ap_recommendation_id = rc_id rec, ap_decision = resolved,
           ap_decided_by = p_user_id p, ap_reason = text, ap_proposal_hash = rc_proposal_hash rec,
           ap_decided_at = utcnow s\<rparr> s) (\<lambda>s.
        let r = rec\<lparr>rc_status := (if resolved = DEC_APPROVED then REC_APPROVED else REC_REJECTED),
                    rc_version := rc_version rec + 1\<rparr>;
            s = update_recommendation r s;
            s = audit_of r p DECIDE_ACTION SUCCESS (if text = [] then None else Some text) trace
                  (Some (JObj (status_doc rec)))
                  (Some (JObj (status_doc r @
                     [(Lit ''decision'', JStr (approval_decision_value resolved)),
                      (Lit ''decided_by'', JText (Id (p_user_id p)))]))) s
        in bind_err (notify_of r (Some (rc_proposer_user_id r)) None ''recommendation.decided''
             (''Your proposal was '' @ decision_text resolved)
             (p_display_name p @ '' '' @ decision_text resolved @ '' the proposal'' @
                (if text = [] then ''.'' else '': '' @ text)) s) (\<lambda>s.
           Inr (Inr r, s)))))))))))"

section \<open>Applying\<close>

text \<open>\<open>_lock_inputs\<close>: the slots, then the balances of everything the transaction may touch.\<close>

fun ensure_balances :: "uuid \<Rightarrow> uuid \<Rightarrow> uuid list \<Rightarrow> db \<Rightarrow> exn + db" where
  "ensure_balances organization_id factory_id [] s = Inr s"
| "ensure_balances organization_id factory_id (m # ms) s =
     bind_err (ensure_balance organization_id factory_id m s) (\<lambda>(_, s).
     ensure_balances organization_id factory_id ms s)"

definition lock_inputs ::
  "order \<Rightarrow> recommendation \<Rightarrow> db \<Rightarrow> exn + (line_capacity_slot list \<times> uuid list \<times> db)" where
  "lock_inputs ord rec s =
     (let (slots, s) = lock_slots (required_ids rec ''allocations'' ''slot_id'' @
            allocation_slot_ids (or_id ord) s) s;
          material_ids = sorted_set (required_ids rec ''reservations'' ''material_id'' @
            reserved_materials_of ord s)
      in bind_err (ensure_balances (or_organization_id ord) (or_factory_id ord) material_ids s) (\<lambda>s.
         let balance_ids = map ba_id (filter (\<lambda>b. ba_factory_id b = or_factory_id ord \<and>
               ba_material_id b \<in> set material_ids) (t_balances s));
             (_, s) = lock_balances balance_ids s
         in Inr (slots, material_ids, s)))"

definition allocation_summary :: "allocation \<Rightarrow> json" where
  "allocation_summary a =
     JObj [(Lit ''slot_id'', JText (Id (al_slot_id a))),
       (Lit ''standard_minutes'', JText (Dec (al_standard_minutes a))),
       (Lit ''units'', JText (Dec (al_units a)))]"

definition reservation_summary :: "reservation \<Rightarrow> json" where
  "reservation_summary r =
     JObj [(Lit ''material_id'', JText (Id (rv_material_id r))),
       (Lit ''quantity'', JText (Dec (rv_quantity r)))]"

fun apply_allocations ::
  "principal \<Rightarrow> recommendation \<Rightarrow> uuid \<Rightarrow> uuid list \<Rightarrow> (jtext \<times> json) list list \<Rightarrow> db \<Rightarrow>
   exn + (allocation list \<times> db)" where
  "apply_allocations p rec order_id slots [] s = Inr ([], s)"
| "apply_allocations p rec order_id slots (r # rs) s =
     bind_err (case uuid_of_json (json_at r ''slot_id'') of
         None \<Rightarrow> Inl (AppError 409 CONFLICT ''The proposal references an unknown capacity slot.'' [])
       | Some i \<Rightarrow>
           if i \<in> set slots then Inr i
           else Inl (AppError 409 CONFLICT ''The proposal references an unknown capacity slot.'' [])) (\<lambda>slot_id.
     bind_err (allocate slot_id order_id (decimal_or_zero (json_at r ''standard_minutes''))
       (decimal_or_zero (json_at r ''units'')) (Some (p_user_id p)) (Some (rc_id rec)) s) (\<lambda>(a, s).
     bind_err (apply_allocations p rec order_id slots rs s) (\<lambda>(as, s).
     Inr (a # as, s))))"

fun apply_reservations ::
  "principal \<Rightarrow> recommendation \<Rightarrow> order \<Rightarrow> (jtext \<times> json) list list \<Rightarrow> db \<Rightarrow>
   exn + (reservation list \<times> db)" where
  "apply_reservations p rec ord [] s = Inr ([], s)"
| "apply_reservations p rec ord (r # rs) s =
     bind_err (some_or (AppError 409 CONFLICT ''The proposal references an unknown material.'' [])
       (uuid_of_json (json_at r ''material_id''))) (\<lambda>material_id.
     bind_err (reserve_material (or_organization_id ord) (or_factory_id ord) material_id (or_id ord)
       (decimal_or_zero (json_at r ''quantity'')) (Some (p_user_id p)) (Some (rc_id rec)) s) (\<lambda>(x, s).
     bind_err (apply_reservations p rec ord rs s) (\<lambda>(xs, s).
     Inr (x # xs, s))))"

record apply_result =
  ay_recommendation_id :: uuid
  ay_status :: recommendation_status
  ay_applied_at :: datetime
  ay_order :: order
  ay_allocations :: "allocation list"
  ay_reservations :: "reservation list"
  ay_released_allocations :: nat
  ay_released_reservations :: nat

definition order_doc :: "order \<Rightarrow> json" where
  "order_doc ord =
     JObj [(Lit ''production_state'', JStr (production_state_value (or_production_state ord))),
       (Lit ''material_state'', JStr (material_state_value (or_material_state ord))),
       (Lit ''version'', JInt (or_version ord))]"

text \<open>The bookings of an application: what the order held is released, the proposal is booked.\<close>

definition rebook ::
  "principal \<Rightarrow> recommendation \<Rightarrow> order \<Rightarrow> uuid list \<Rightarrow> db \<Rightarrow>
   exn + (allocation list \<times> reservation list \<times> allocation list \<times> reservation list \<times> db)" where
  "rebook p rec ord slots s =
     bind_err (release_order_allocations ord s) (\<lambda>(released_allocations, s).
     bind_err (release_order_reservations ord s) (\<lambda>(released_reservations, s).
     bind_err (apply_allocations p rec (or_id ord) slots (json_rows (rc_proposal rec) ''allocations'') s)
       (\<lambda>(allocations, s).
     bind_err (apply_reservations p rec ord (json_rows (rc_proposal rec) ''reservations'') s)
       (\<lambda>(reservations, s).
     Inr (released_allocations, released_reservations, allocations, reservations, s)))))"

text \<open>The end of an application: the recommendation, the audit event and the notifications.\<close>

definition finish_apply ::
  "principal \<Rightarrow> recommendation \<Rightarrow> order \<Rightarrow> json option \<Rightarrow> json option \<Rightarrow> uuid list \<Rightarrow> string option \<Rightarrow>
   db \<Rightarrow> exn + (recommendation \<times> db)" where
  "finish_apply p rec ord before after material_ids trace s =
     (let r = rec\<lparr>rc_status := REC_APPLIED, rc_applied_by := Some (p_user_id p),
                  rc_applied_at := Some (utcnow s), rc_version := rc_version rec + 1\<rparr>;
          s = update_recommendation r s;
          s = audit_of r p APPLY_ACTION SUCCESS None trace before after s
      in bind_err (notify_of r (Some (rc_proposer_user_id r)) None ''recommendation.applied''
           (''Your proposal for '' @ or_external_ref ord @ '' was applied'')
           (p_display_name p @ '' applied the proposal; the order is now PLANNED.'') s) (\<lambda>s.
         bind_err (notify_of r None (Some PLANNER) ''recommendation.applied''
           (''Order '' @ or_external_ref ord @ '' is planned'')
           (p_display_name p @ '' applied an approved proposal for order '' @ or_external_ref ord @ ''.'') s) (\<lambda>s.
         bind_err (if material_ids = [] then Inr (None, s)
           else enqueue ''maintenance'' REFRESH_MATERIAL_STATES_JOB
             (JObj [(Lit ''factory_id'', JText (Id (or_factory_id ord))),
               (Lit ''material_ids'', JArr (map (\<lambda>m. JText (Id m)) material_ids))])
             (Some [Lit ''refresh:'', Id (or_id ord), Lit '':'', Id (rc_id r)]) None 3 s) (\<lambda>(_, s).
         Inr (r, s)))))"

definition apply_recommendation ::
  "principal \<Rightarrow> uuid \<Rightarrow> string \<Rightarrow> string option \<Rightarrow> db \<Rightarrow> apply_result outcome" where
  "apply_recommendation p rec_id proposal_hash trace s =
     bind_err (load_recommendation rec_id p APPLY_PERMISSION s) (\<lambda>scoped.
     bind_err (lock_order (rc_order_id scoped) s) (\<lambda>(ord, s).
     bind_err (lock_recommendation (rc_id scoped) s) (\<lambda>(rec, s).
     bind_err (ensure (rc_status rec = REC_APPROVED)
       (AppError 409 CONFLICT ''A proposal cannot be applied.'' [])) (\<lambda>_.
     if is_expired rec (utcnow s) then expire_recommendation rec p APPLY_ACTION trace s
     else
     bind_err (ensure (proposal_hash = rc_proposal_hash rec) hash_error) (\<lambda>_.
     bind_err (ensure (p_user_id p \<noteq> rc_proposer_user_id rec) self_approval_error) (\<lambda>_.
     bind_err (lock_inputs ord rec s) (\<lambda>(slots, material_ids, s).
     let stale = check_staleness rec s
     in if stale \<noteq> [] then supersede rec p stale trace s
        else
        bind_err (ensure (or_production_state ord \<in> set APPLICABLE_ORDER_STATES)
          (AppError 409 INVALID_TRANSITION ''A order cannot be planned from a proposal.'' [])) (\<lambda>_.
        bind_err (rebook p rec ord (map sl_id slots) s)
          (\<lambda>(released_allocations, released_reservations, allocations, reservations, s).
        let planned = ord\<lparr>or_production_state := PLANNED, or_version := or_version ord + 1\<rparr>
        in bind_err (update_order planned s) (\<lambda>s.
           bind_err (recompute_material_states (or_factory_id ord) material_ids (Some [or_id ord]) s) (\<lambda>(_, s).
           bind_err (some_or NoResultFound (row or_id (or_id ord) (t_orders s))) (\<lambda>current.
           bind_err (finish_apply p rec current
             (Some (JObj [(Lit ''order'', order_doc ord),
                (Lit ''allocations'', JArr (map allocation_summary released_allocations)),
                (Lit ''reservations'', JArr (map reservation_summary released_reservations))]))
             (Some (JObj [(Lit ''order'', order_doc current),
                (Lit ''allocations'', JArr (map allocation_summary allocations)),
                (Lit ''reservations'', JArr (map reservation_summary reservations))]))
             material_ids trace s) (\<lambda>(r, s).
           Inr (Inr \<lparr>ay_recommendation_id = rc_id r, ay_status = rc_status r, ay_applied_at = utcnow s,
                     ay_order = current, ay_allocations = allocations, ay_reservations = reservations,
                     ay_released_allocations = length released_allocations,
                     ay_released_reservations = length released_reservations\<rparr>, s))))))))))))))"

section \<open>What the steps leave alone\<close>

text \<open>The tables of the bookings and of the orders are untouched.\<close>

definition books_same :: "db \<Rightarrow> db \<Rightarrow> bool" where
  "books_same s s' \<longleftrightarrow>
     t_slots s' = t_slots s \<and> t_allocations s' = t_allocations s \<and> t_balances s' = t_balances s \<and>
     t_reservations s' = t_reservations s \<and> t_movements s' = t_movements s \<and> t_lots s' = t_lots s \<and>
     t_orders s' = t_orders s"

lemma books_same_refl [simp]: "books_same s s"
  by (simp add: books_same_def)

lemma books_same_trans: "books_same s t \<Longrightarrow> books_same t u \<Longrightarrow> books_same s u"
  by (simp add: books_same_def)

lemma books_same_ok:
  assumes "books_same s s'"
  shows "capacity_ok s' = capacity_ok s" and "stock_ok s' = stock_ok s"
  using assms capacity_ok_frame [of s' s] stock_ok_frame [of s' s] by (simp_all add: books_same_def)

text \<open>Nor do the recommendations, the decisions, the clock or the locks change.\<close>

definition quiet :: "db \<Rightarrow> db \<Rightarrow> bool" where
  "quiet s s' \<longleftrightarrow>
     books_same s s' \<and> t_recommendations s' = t_recommendations s \<and> t_approvals s' = t_approvals s \<and>
     utcnow s' = utcnow s \<and> locks s' = locks s"

lemma quiet_refl [simp]: "quiet s s"
  by (simp add: quiet_def)

lemma quiet_trans: "quiet s t \<Longrightarrow> quiet t u \<Longrightarrow> quiet s u"
  by (auto simp: quiet_def intro: books_same_trans)

lemma quiet_audit_of [simp, intro]: "quiet s (audit_of rec p ac out re tr be af s)"
  by (simp add: quiet_def books_same_def audit_of_def)

lemma quiet_notify_of: "notify_of rec u r k ti b s = Inr s' \<Longrightarrow> quiet s s'"
  by (auto simp: notify_of_def insert_notification_def run_simps draw_def quiet_def books_same_def)

lemma quiet_enqueue: "enqueue q ty pl k av m s = Inr (i, s') \<Longrightarrow> quiet s s'"
  by (auto simp: enqueue_def run_simps draw_def quiet_def books_same_def split: if_splits)

text \<open>A recommendation gets a new row and nothing else happens.\<close>

definition rec_moved :: "recommendation \<Rightarrow> db \<Rightarrow> db \<Rightarrow> bool" where
  "rec_moved r s s' \<longleftrightarrow>
     books_same s s' \<and> t_recommendations s' = upd rc_id r (t_recommendations s) \<and>
     utcnow s' = utcnow s \<and> locks s' = locks s"

lemma rec_movedI:
  "quiet (update_recommendation r s) s' \<Longrightarrow> rec_moved r s s'"
  by (simp add: rec_moved_def quiet_def books_same_def update_recommendation_def)

lemma expireD:
  assumes "expire_recommendation rec p action trace s = Inr (out, s')"
  shows "out = Inl (AppError 409 EXPIRED ''This proposal has expired.'' [])"
    and "rec_moved (rec\<lparr>rc_status := REC_EXPIRED, rc_version := rc_version rec + 1\<rparr>) s s'"
    and "t_approvals s' = t_approvals s"
proof -
  let ?r = "rec\<lparr>rc_status := REC_EXPIRED, rc_version := rc_version rec + 1\<rparr>"
  from assms obtain s1 k ti b u ro where n: "notify_of ?r u ro k ti b s1 = Inr s'"
    and s1: "quiet (update_recommendation ?r s) s1"
    and out: "out = Inl (AppError 409 EXPIRED ''This proposal has expired.'' [])"
    by (auto simp: expire_recommendation_def run_simps)
  have q: "quiet (update_recommendation ?r s) s'" using quiet_trans [OF s1 quiet_notify_of [OF n]] .
  show "out = Inl (AppError 409 EXPIRED ''This proposal has expired.'' [])" by (rule out)
  show "rec_moved ?r s s'" using q by (rule rec_movedI)
  show "t_approvals s' = t_approvals s" using q by (simp add: quiet_def update_recommendation_def)
qed

lemma supersedeD:
  assumes "supersede rec p stale trace s = Inr (out, s')"
  shows "out = Inl (AppError 409 STALE_INPUT
           ''The inputs this proposal was computed from have changed.'' (map sti_kind stale))"
    and "rec_moved (rec\<lparr>rc_status := REC_SUPERSEDED, rc_superseded_reason := Some (stale_reason stale),
           rc_version := rc_version rec + 1\<rparr>) s s'"
proof -
  let ?r = "rec\<lparr>rc_status := REC_SUPERSEDED, rc_superseded_reason := Some (stale_reason stale),
    rc_version := rc_version rec + 1\<rparr>"
  from assms obtain s1 k ti b u ro where n: "notify_of ?r u ro k ti b s1 = Inr s'"
    and s1: "quiet (update_recommendation ?r s) s1"
    and out: "out = Inl (AppError 409 STALE_INPUT
           ''The inputs this proposal was computed from have changed.'' (map sti_kind stale))"
    by (auto simp: supersede_def run_simps)
  show "out = Inl (AppError 409 STALE_INPUT
           ''The inputs this proposal was computed from have changed.'' (map sti_kind stale))" by (rule out)
  show "rec_moved ?r s s'" using quiet_trans [OF s1 quiet_notify_of [OF n]] by (rule rec_movedI)
qed

lemma finish_applyD:
  assumes "finish_apply p rec ord before after ms trace s = Inr (r, s')"
  shows "r = rec\<lparr>rc_status := REC_APPLIED, rc_applied_by := Some (p_user_id p),
           rc_applied_at := Some (utcnow s), rc_version := rc_version rec + 1\<rparr>"
    and "rec_moved r s s'"
proof -
  let ?r = "rec\<lparr>rc_status := REC_APPLIED, rc_applied_by := Some (p_user_id p),
    rc_applied_at := Some (utcnow s), rc_version := rc_version rec + 1\<rparr>"
  from assms obtain s1 s2 s3 k ti b u ro k' ti' b' u' ro' where
      n: "notify_of ?r u ro k ti b s1 = Inr s2" "notify_of ?r u' ro' k' ti' b' s2 = Inr s3"
    and s1: "quiet (update_recommendation ?r s) s1" and r: "r = ?r"
    and e: "quiet s3 s'"
    by (auto simp: finish_apply_def run_simps split: if_splits dest!: quiet_enqueue)
  show "r = ?r" by (rule r)
  show "rec_moved r s s'"
    unfolding r using quiet_trans [OF quiet_trans [OF quiet_trans [OF s1 quiet_notify_of [OF n(1)]]
      quiet_notify_of [OF n(2)]] e] by (rule rec_movedI)
qed

section \<open>The run of a decision\<close>

lemma load_recommendationD:
  assumes "load_recommendation i p perm s = Inr rec"
  shows "row rc_id i (t_recommendations s) = Some rec" and "rc_id rec = i"
    and "has p perm (rc_factory_id rec) = Inr True" and "rc_organization_id rec = p_organization_id p"
  using assms by (auto simp: load_defs dest: load_scoped_cases(1) [THEN row_key]
      load_scoped_cases(1,2) load_scoped_cases(3) [where f = "rc_factory_id rec"])

lemma lock_recommendationD:
  "lock_recommendation i s = Inr (rec, s') \<Longrightarrow>
   row rc_id i (t_recommendations s) = Some rec \<and> s' = take_locks [LockRecommendation i] s"
  by (simp add: lock_recommendation_def run_simps)

text \<open>The state in which a call works on a recommendation: both rows are locked.\<close>

definition locked_for :: "recommendation \<Rightarrow> db \<Rightarrow> db" where
  "locked_for rec s = take_locks [LockRecommendation (rc_id rec)] (take_locks [LockOrder (rc_order_id rec)] s)"

lemma locked_for_frame [simp]:
  "books_same s (locked_for rec s)" "t_recommendations (locked_for rec s) = t_recommendations s"
  "t_approvals (locked_for rec s) = t_approvals s" "utcnow (locked_for rec s) = utcnow s"
  "t_orders (locked_for rec s) = t_orders s" "t_slots (locked_for rec s) = t_slots s"
  "t_balances (locked_for rec s) = t_balances s" "t_allocations (locked_for rec s) = t_allocations s"
  "t_reservations (locked_for rec s) = t_reservations s" "t_bom_lines (locked_for rec s) = t_bom_lines s"
  by (simp_all add: locked_for_def take_locks_def books_same_def)

lemma open_recommendation:
  assumes "load_recommendation i p perm s = Inr scoped"
    and "lock_order (rc_order_id scoped) s = Inr (ord, s1)"
    and "lock_recommendation (rc_id scoped) s1 = Inr (rec, s2)"
  shows "row rc_id i (t_recommendations s) = Some rec" and "rc_id rec = i"
    and "has p perm (rc_factory_id rec) = Inr True"
    and "row or_id (rc_order_id rec) (t_orders s) = Some ord" and "s2 = locked_for rec s"
proof -
  note ld = load_recommendationD [OF assms(1)] and lo = lock_orderD [OF assms(2)]
    and lr = lock_recommendationD [OF assms(3)]
  have "t_recommendations s1 = t_recommendations s" using lo by (simp add: take_locks_def)
  then have "rec = scoped" using lr ld by simp
  then show "row rc_id i (t_recommendations s) = Some rec" "rc_id rec = i"
    "has p perm (rc_factory_id rec) = Inr True"
    "row or_id (rc_order_id rec) (t_orders s) = Some ord" "s2 = locked_for rec s"
    using ld lo lr by (simp_all add: locked_for_def)
qed

lemma insert_approvalD:
  assumes "insert_approval a s = Inr s'"
  shows "\<exists>n j. s' = s\<lparr>drawn := n, t_approvals := t_approvals s @ [a\<lparr>ap_id := j\<rparr>]\<rparr>"
    and "ap_recommendation_id a \<notin> ap_recommendation_id ` set (t_approvals s)"
  using assms by (auto simp: insert_approval_def run_simps draw_def insert_row_Inr)

lemma decideD:
  assumes "decide p i decision reason h trace s = Inr (out, s')"
  obtains (expired) rec where "row rc_id i (t_recommendations s) = Some rec" "rc_id rec = i"
      "rc_status rec = REC_PROPOSED" "is_expired rec (utcnow s)"
      "expire_recommendation rec p DECIDE_ACTION trace (locked_for rec s) = Inr (out, s')"
  | (decided) rec resolved a r where "row rc_id i (t_recommendations s) = Some rec" "rc_id rec = i"
      "has p DECIDE_PERMISSION (rc_factory_id rec) = Inr True"
      "rc_status rec = REC_PROPOSED" "\<not> is_expired rec (utcnow s)"
      "p_user_id p \<noteq> rc_proposer_user_id rec" "h = rc_proposal_hash rec"
      "approval_decision_of decision = Some resolved"
      "out = Inr r" "r = rec\<lparr>rc_status := (if resolved = DEC_APPROVED then REC_APPROVED else REC_REJECTED),
                              rc_version := rc_version rec + 1\<rparr>"
      "t_approvals s' = t_approvals s @ [a]" "ap_recommendation_id a = i" "ap_decided_by a = p_user_id p"
      "ap_proposal_hash a = rc_proposal_hash rec" "ap_decision a = resolved"
      "resolved = DEC_REJECTED \<Longrightarrow> REASON_MIN_LENGTH \<le> length (ap_reason a) \<and> length (ap_reason a) \<le> REASON_MAX_LENGTH"
      "i \<notin> ap_recommendation_id ` set (t_approvals s)"
      "rec_moved r (locked_for rec s) s'"
proof -
  from assms obtain scoped ord s1 rec s2 where
      ld: "load_recommendation i p DECIDE_PERMISSION s = Inr scoped"
    and lo: "lock_order (rc_order_id scoped) s = Inr (ord, s1)"
    and lr: "lock_recommendation (rc_id scoped) s1 = Inr (rec, s2)"
    and st: "rc_status rec = REC_PROPOSED"
    by (auto simp: decide_def run_simps)
  note o = open_recommendation [OF ld lo lr]
  show thesis
  proof (cases "is_expired rec (utcnow s)")
    case True
    then have "expire_recommendation rec p DECIDE_ACTION trace (locked_for rec s) = Inr (out, s')"
      using assms ld lo lr st o(5) by (simp add: decide_def run_simps)
    with True show thesis using expired o st by blast
  next
    case False
    define reply where "reply = strip (case reason of None \<Rightarrow> '''' | Some r \<Rightarrow> r)"
    from assms ld lo lr st False o(5) obtain resolved s3 s4 r k ti b u ro where
        d: "p_user_id p \<noteq> rc_proposer_user_id rec" "h = rc_proposal_hash rec"
          "approval_decision_of decision = Some resolved"
      and re: "resolved = DEC_REJECTED \<longrightarrow> REASON_MIN_LENGTH \<le> length reply \<and> length reply \<le> REASON_MAX_LENGTH"
      and ins: "insert_approval
          \<lparr>ap_id = 0, ap_recommendation_id = rc_id rec, ap_decision = resolved,
           ap_decided_by = p_user_id p, ap_reason = reply, ap_proposal_hash = rc_proposal_hash rec,
           ap_decided_at = utcnow (locked_for rec s)\<rparr> (locked_for rec s) = Inr s3"
      and r: "r = rec\<lparr>rc_status := (if resolved = DEC_APPROVED then REC_APPROVED else REC_REJECTED),
                 rc_version := rc_version rec + 1\<rparr>"
      and q: "quiet (update_recommendation r s3) s4" and n: "notify_of r u ro k ti b s4 = Inr s'"
      and out: "out = Inr r"
      unfolding reply_def by (simp add: decide_def run_simps) blast
    note a = insert_approvalD [OF ins]
    from a(1) obtain m j where s3: "s3 = (locked_for rec s)\<lparr>drawn := m, t_approvals := t_approvals s @
        [\<lparr>ap_id = j, ap_recommendation_id = rc_id rec, ap_decision = resolved,
           ap_decided_by = p_user_id p, ap_reason = reply, ap_proposal_hash = rc_proposal_hash rec,
           ap_decided_at = utcnow s\<rparr>]\<rparr>" by auto
    have q': "quiet (update_recommendation r s3) s'" using quiet_trans [OF q quiet_notify_of [OF n]] .
    then have "rec_moved r s3 s'" by (rule rec_movedI)
    then have mv: "rec_moved r (locked_for rec s) s'" by (simp add: rec_moved_def s3 books_same_def)
    have ap: "t_approvals s' = t_approvals s3" using q' by (simp add: quiet_def update_recommendation_def)
    show thesis
      by (rule decided [OF o(1,2,3) st False d out r _ _ _ _ _ _ _ mv])
        (use ap s3 re a(2) o(2) in auto)
  qed
qed

section \<open>Held locks\<close>

text \<open>No lock of the ordered groups is added.\<close>

definition locks_held :: "db \<Rightarrow> db \<Rightarrow> bool" where
  "locks_held s s' \<longleftrightarrow>
     set (locks s) \<subseteq> set (locks s') \<and>
     List.map_filter lock_key (locks s') = List.map_filter lock_key (locks s)"

lemma locks_held_same: "locks s' = locks s \<Longrightarrow> locks_held s s'"
  by (simp add: locks_held_def)

lemma locks_held_trans: "locks_held s t \<Longrightarrow> locks_held t u \<Longrightarrow> locks_held s u"
  by (auto simp: locks_held_def)

lemma locks_held_ordered: "locks_held s s' \<Longrightarrow> locks_ordered (locks s') = locks_ordered (locks s)"
  by (simp add: locks_held_def locks_ordered_def)

lemma locks_held_other:
  assumes "\<And>l. l \<in> set ls \<Longrightarrow> lock_key l = None"
  shows "locks_held s (take_locks ls s)"
proof -
  have "List.map_filter lock_key (filter P ls) = []" for P
    using assms by (auto simp: List.map_filter_def filter_empty_conv)
  then show ?thesis by (simp add: locks_held_def take_locks_def lock_map_filter_append)
qed

lemma take_locks_frame [simp]:
  "t_slots (take_locks ls s) = t_slots s" "t_allocations (take_locks ls s) = t_allocations s"
  "t_balances (take_locks ls s) = t_balances s" "t_reservations (take_locks ls s) = t_reservations s"
  "t_orders (take_locks ls s) = t_orders s" "t_bom_lines (take_locks ls s) = t_bom_lines s"
  "t_recommendations (take_locks ls s) = t_recommendations s" "utcnow (take_locks ls s) = utcnow s"
  "t_movements (take_locks ls s) = t_movements s" "t_lots (take_locks ls s) = t_lots s"
  by (simp_all add: take_locks_def)

lemma flush_slots_locks: "flush_slots ids s = Inr s' \<Longrightarrow> locks s' = locks s"
  by (induction ids arbitrary: s) (auto simp: update_slot_def run_simps split: option.splits)

lemma release_allocations_loop_locks: "locks (release_allocations_loop as s) = locks s"
  by (induction as s rule: release_allocations_loop.induct) (auto split: option.splits)

lemma flush_balances_locks: "flush_balances ids s = Inr s' \<Longrightarrow> locks s' = locks s"
  by (induction ids arbitrary: s) (auto simp: update_balance_def run_simps split: option.splits)

lemma release_reservations_loop_locks: "locks (release_reservations_loop f rs s) = locks s"
  by (induction f rs s rule: release_reservations_loop.induct) (auto split: option.splits)

lemma release_allocations_locks:
  assumes run: "release_order_allocations ord s = Inr (x, s')"
    and held: "\<And>r. r \<in> set (t_slots s) \<Longrightarrow> sl_id r \<in> set (allocation_slot_ids (or_id ord) s) \<Longrightarrow>
       LockSlot (sl_id r) \<in> set (locks s)"
  shows "locks_held s s'"
proof (cases "allocation_slot_ids (or_id ord) s = []")
  case True
  then show ?thesis using run by (simp add: release_order_allocations_def locks_held_same)
next
  case False
  let ?rows = "rows_by_id sl_id (allocation_slot_ids (or_id ord) s) (t_slots s)"
  have "take_locks (map LockSlot (map sl_id ?rows)) s = s"
    using held by (intro take_held) (auto simp: keys_rows_by_id simp flip: map_map)
  then obtain as ls where "flush_slots (map sl_id ?rows) (release_allocations_loop as (take_locks ls s)) = Inr s'"
    and "ls = map (LockAllocation \<circ> al_id) as"
    using run False by (auto simp: release_order_allocations_def lock_slots_def run_simps split: if_splits)
  then have "locks s' = locks (take_locks ls s)" and "locks_held s (take_locks ls s)"
    using flush_slots_locks release_allocations_loop_locks by (fastforce intro: locks_held_other)+
  then show ?thesis by (simp add: locks_held_def)
qed

lemma release_reservations_locks:
  assumes run: "release_order_reservations ord s = Inr (x, s')"
    and held: "\<And>b. b \<in> set (t_balances s) \<Longrightarrow> ba_factory_id b = or_factory_id ord \<Longrightarrow>
       ba_material_id b \<in> set (reserved_materials_of ord s) \<Longrightarrow> LockBalance (ba_id b) \<in> set (locks s)"
  shows "locks_held s s'"
proof (cases "reserved_materials_of ord s = []")
  case True
  then show ?thesis using run by (simp add: release_order_reservations_def locks_held_same)
next
  case False
  let ?ids = "map ba_id (filter (\<lambda>b. ba_factory_id b = or_factory_id ord \<and>
    ba_material_id b \<in> set (reserved_materials_of ord s)) (t_balances s))"
  let ?rows = "rows_by_id ba_id ?ids (t_balances s)"
  have "take_locks (map LockBalance (map ba_id ?rows)) s = s"
    using held by (intro take_held) (auto simp: keys_rows_by_id simp flip: map_map)
  then obtain rs ls where "flush_balances (map ba_id ?rows)
      (release_reservations_loop (or_factory_id ord) rs (take_locks ls s)) = Inr s'"
    and "ls = map (LockReservation \<circ> rv_id) rs"
    using run False by (auto simp: release_order_reservations_def lock_balances_def run_simps split: if_splits)
  then have "locks s' = locks (take_locks ls s)" and "locks_held s (take_locks ls s)"
    using flush_balances_locks release_reservations_loop_locks by (fastforce intro: locks_held_other)+
  then show ?thesis by (simp add: locks_held_def)
qed

section \<open>Locking the inputs\<close>

lemma ensure_balance_run:
  assumes "ensure_balance org f m s = Inr (i, s')"
  shows "\<exists>new n. s' = s\<lparr>drawn := n, t_balances := t_balances s @ new\<rparr>"
proof (cases "balance_of f m s")
  case None
  have "balance_of f m (s\<lparr>drawn := n\<rparr>) = balance_of f m s" for n by (simp add: balance_of_def)
  with None assms show ?thesis
    by (auto simp: ensure_balance_def draw_def run_simps insert_row_Inr)
next
  case (Some b)
  have "balance_of f m (s\<lparr>drawn := n\<rparr>) = balance_of f m s" for n by (simp add: balance_of_def)
  with Some assms have "s' = s\<lparr>drawn := Suc (drawn s)\<rparr>"
    by (auto simp: ensure_balance_def draw_def)
  then have "s' = s\<lparr>drawn := Suc (drawn s), t_balances := t_balances s @ []\<rparr>" by simp
  then show ?thesis by blast
qed

lemma ensure_balances_run:
  assumes "ensure_balances org f ms s = Inr s'" and "stock_ok s"
  shows "(\<exists>new n. s' = s\<lparr>drawn := n, t_balances := t_balances s @ new\<rparr>) \<and> stock_ok s' \<and>
    (\<forall>m \<in> set ms. \<exists>b \<in> set (t_balances s'). code_of b = (f, m))"
  using assms
proof (induction ms arbitrary: s)
  case Nil
  have "s = s\<lparr>drawn := drawn s, t_balances := t_balances s @ []\<rparr>" by simp
  with Nil show ?case by (metis empty_iff list.set(1) ensure_balances.simps(1) sum.inject(2))
next
  case (Cons m ms)
  from Cons.prems(1) obtain i s1 where en: "ensure_balance org f m s = Inr (i, s1)"
    and rest: "ensure_balances org f ms s1 = Inr s'" by (auto simp: run_simps)
  note e = ensure_balance_ok [OF Cons.prems(2) en]
  obtain new n where s1: "s1 = s\<lparr>drawn := n, t_balances := t_balances s @ new\<rparr>"
    using ensure_balance_run [OF en] by blast
  obtain new' n' where s': "s' = s1\<lparr>drawn := n', t_balances := t_balances s1 @ new'\<rparr>"
    and ok: "stock_ok s'" "\<forall>m \<in> set ms. \<exists>b \<in> set (t_balances s'). code_of b = (f, m)"
    using Cons.IH [OF rest e(1)] by blast
  have "s' = s\<lparr>drawn := n', t_balances := t_balances s @ (new @ new')\<rparr>" by (simp add: s' s1)
  moreover have "\<exists>b \<in> set (t_balances s'). code_of b = (f, m)" using e(3) by (auto simp: s')
  ultimately show ?case using ok by fastforce
qed

text \<open>After \<open>lock_inputs\<close> every row the application may touch is locked, in the agreed order.\<close>

definition inputs_locked :: "order \<Rightarrow> uuid list \<Rightarrow> db \<Rightarrow> bool" where
  "inputs_locked ord ms s \<longleftrightarrow>
     LockOrder (or_id ord) \<in> set (locks s) \<and>
     (\<forall>r \<in> set (t_slots s). sl_id r \<in> set (allocation_slot_ids (or_id ord) s) \<longrightarrow> LockSlot (sl_id r) \<in> set (locks s)) \<and>
     (\<forall>b \<in> set (t_balances s). ba_factory_id b = or_factory_id ord \<longrightarrow> ba_material_id b \<in> set ms \<longrightarrow>
        LockBalance (ba_id b) \<in> set (locks s)) \<and>
     (\<forall>m \<in> set ms. \<exists>b \<in> set (t_balances s). code_of b = (or_factory_id ord, m)) \<and>
     set (reserved_materials_of ord s) \<subseteq> set ms"

lemma lock_inputsD:
  assumes run: "lock_inputs ord rec s = Inr (slots, ms, s')" and inv: "stock_ok s"
    and held: "LockOrder (or_id ord) \<in> set (locks s)"
  obtains new n lks where "s' = s\<lparr>drawn := n, t_balances := t_balances s @ new, locks := lks\<rparr>"
    and "stock_ok s'" and "inputs_locked ord ms s'"
    and "locks_ordered (locks s) \<Longrightarrow> locks_below 1 (locks s) \<Longrightarrow> locks_ordered (locks s')"
    and "set (required_ids rec ''reservations'' ''material_id'') \<subseteq> set ms"
    and "slots = rows_by_id sl_id (required_ids rec ''allocations'' ''slot_id'' @ allocation_slot_ids (or_id ord) s) (t_slots s)"
proof -
  let ?ids = "required_ids rec ''allocations'' ''slot_id'' @ allocation_slot_ids (or_id ord) s"
  let ?rows = "rows_by_id sl_id ?ids (t_slots s)"
  define s1 where "s1 = take_locks (map LockSlot (map sl_id ?rows)) s"
  have same1: "reserved_materials_of ord s1 = reserved_materials_of ord s"
    by (simp add: reserved_materials_of_def s1_def)
  have ms: "ms = sorted_set (required_ids rec ''reservations'' ''material_id'' @ reserved_materials_of ord s)"
    and slots: "slots = ?rows"
    using run same1 by (auto simp: lock_inputs_def lock_slots_def lock_balances_def run_simps s1_def)
  from run obtain s2 where en: "ensure_balances (or_organization_id ord) (or_factory_id ord) ms s1 = Inr s2"
    and s': "s' = snd (lock_balances (map ba_id (filter (\<lambda>b. ba_factory_id b = or_factory_id ord \<and>
        ba_material_id b \<in> set ms) (t_balances s2))) s2)"
    using same1 by (auto simp: lock_inputs_def lock_slots_def lock_balances_def run_simps ms s1_def)
  let ?bids = "map ba_id (filter (\<lambda>b. ba_factory_id b = or_factory_id ord \<and> ba_material_id b \<in> set ms) (t_balances s2))"
  let ?bs = "rows_by_id ba_id ?bids (t_balances s2)"
  have s'': "s' = take_locks (map LockBalance (map ba_id ?bs)) s2" by (simp add: s' lock_balances_def Let_def)
  have ok1: "stock_ok s1" using inv by (simp add: s1_def)
  obtain new n where s2: "s2 = s1\<lparr>drawn := n, t_balances := t_balances s1 @ new\<rparr>" and ok2: "stock_ok s2"
    and bal: "\<forall>m \<in> set ms. \<exists>b \<in> set (t_balances s2). code_of b = (or_factory_id ord, m)"
    using ensure_balances_run [OF en ok1] by blast
  show thesis
  proof (rule that [where new = new and n = n and lks = "locks s'"])
    show "s' = s\<lparr>drawn := n, t_balances := t_balances s @ new, locks := locks s'\<rparr>"
      by (simp add: s'' s2 s1_def take_locks_def)
    show "stock_ok s'" using ok2 by (simp add: s'')
    have locked2: "set (locks s) \<union> LockSlot ` set (map sl_id ?rows) \<subseteq> set (locks s2)"
      by (auto simp: s2 s1_def take_locks_def)
    have lockedB: "LockBalance ` set (map ba_id ?bs) \<subseteq> set (locks s')" by (auto simp: s'' take_locks_def)
    have up: "set (locks s2) \<subseteq> set (locks s')" by (auto simp: s'' take_locks_def)
    have tabs: "t_slots s' = t_slots s" "t_balances s' = t_balances s2"
      "allocation_slot_ids (or_id ord) s' = allocation_slot_ids (or_id ord) s"
      "reserved_materials_of ord s' = reserved_materials_of ord s"
      by (simp_all add: s'' s2 s1_def allocation_slot_ids_def reserved_materials_of_def)
    have "LockSlot (sl_id r) \<in> set (locks s')"
      if "r \<in> set (t_slots s)" "sl_id r \<in> set (allocation_slot_ids (or_id ord) s)" for r
    proof -
      have "sl_id r \<in> set (map sl_id ?rows)" using that by (simp only: keys_rows_by_id) simp
      then show ?thesis using locked2 up by blast
    qed
    moreover have "LockBalance (ba_id b) \<in> set (locks s')"
      if "b \<in> set (t_balances s2)" "ba_factory_id b = or_factory_id ord" "ba_material_id b \<in> set ms" for b
    proof -
      have "ba_id b \<in> set (map ba_id ?bs)" using that by (simp only: keys_rows_by_id) auto
      then show ?thesis using lockedB by blast
    qed
    ultimately show "inputs_locked ord ms s'"
      using held locked2 up bal by (auto simp: inputs_locked_def tabs ms)
    assume ord: "locks_ordered (locks s)" "locks_below 1 (locks s)"
    have key: "\<And>i. lock_key (LockSlot i) = Some (1, i)" "\<And>i. lock_key (LockBalance i) = Some (2, i)"
      by simp_all
    note g = take_group [OF key(1) sorted_rows_by_id distinct_rows_by_id ord, of sl_id ?ids "t_slots s", folded s1_def]
    have "locks_ordered (locks s2)" "locks_below 2 (locks s2)"
      using g by (simp_all add: s2 numeral_2_eq_2)
    then show "locks_ordered (locks s')"
      unfolding s'' by (intro take_group(1) [OF key(2) sorted_rows_by_id distinct_rows_by_id])
  qed (simp_all add: ms slots)
qed

section \<open>Booking the proposal\<close>

text \<open>The bookings a proposal asks for, row by row.\<close>

definition allocation_matches :: "uuid \<Rightarrow> recommendation \<Rightarrow> (jtext \<times> json) list \<Rightarrow> allocation \<Rightarrow> bool" where
  "allocation_matches oid rec r a \<longleftrightarrow>
     uuid_of_json (json_at r ''slot_id'') = Some (al_slot_id a) \<and>
     quantize ROUND_HALF_UP 2 (decimal_or_zero (json_at r ''standard_minutes'')) = Inr (al_standard_minutes a) \<and>
     quantize ROUND_HALF_UP 4 (decimal_or_zero (json_at r ''units'')) = Inr (al_units a) \<and>
     al_order_id a = oid \<and> al_status a = ALLOC_ACTIVE \<and> al_recommendation_id a = Some (rc_id rec)"

definition reservation_matches :: "order \<Rightarrow> recommendation \<Rightarrow> (jtext \<times> json) list \<Rightarrow> reservation \<Rightarrow> bool" where
  "reservation_matches ord rec r x \<longleftrightarrow>
     uuid_of_json (json_at r ''material_id'') = Some (rv_material_id x) \<and>
     quantize ROUND_HALF_UP 4 (decimal_or_zero (json_at r ''quantity'')) = Inr (rv_quantity x) \<and>
     rv_order_id x = or_id ord \<and> rv_factory_id x = or_factory_id ord \<and> rv_status x = RES_ACTIVE \<and>
     rv_recommendation_id x = Some (rc_id rec)"

text \<open>Only the slots and the allocations change.\<close>

definition only_slots :: "db \<Rightarrow> db \<Rightarrow> bool" where
  "only_slots s s' \<longleftrightarrow>
     t_balances s' = t_balances s \<and> t_reservations s' = t_reservations s \<and> t_movements s' = t_movements s \<and>
     t_lots s' = t_lots s \<and> t_orders s' = t_orders s \<and> t_recommendations s' = t_recommendations s \<and>
     utcnow s' = utcnow s \<and> locks s' = locks s \<and> t_bom_lines s' = t_bom_lines s"

lemma only_slots_trans: "only_slots s t \<Longrightarrow> only_slots t u \<Longrightarrow> only_slots s u"
  by (simp add: only_slots_def)

lemma allocate_run:
  assumes "allocate slot_id oid m u actor rec s = Inr (a, s')"
  shows "t_allocations s' = t_allocations s @ [a]" and "only_slots s s'"
    and "al_slot_id a = slot_id" and "quantize ROUND_HALF_UP 2 m = Inr (al_standard_minutes a)"
    and "quantize ROUND_HALF_UP 4 u = Inr (al_units a)" and "al_order_id a = oid"
    and "al_status a = ALLOC_ACTIVE" and "al_recommendation_id a = rec"
proof -
  from allocateD [OF assms] obtain m' u' slot ord s1 s2 where
      q: "quantize ROUND_HALF_UP 2 m = Inr m'" "quantize ROUND_HALF_UP 4 u = Inr u'"
    and row: "row sl_id slot_id (t_slots s) = Some slot" "row or_id oid (t_orders s) = Some ord"
    and ins: "insert_allocation \<lparr>al_id = 0, al_organization_id = sl_organization_id slot,
       al_factory_id = sl_factory_id slot, al_order_id = or_id ord, al_slot_id = sl_id slot,
       al_standard_minutes = m', al_units = u', al_status = ALLOC_ACTIVE,
       al_recommendation_id = rec, al_created_by = actor, al_created_at = utcnow s\<rparr> s = Inr (a, s1)"
    and up: "update_slot (charge_slot m' slot) s1 = Inr s2" and au: "audited s2 s'" .
  note sc = quantize_2 [OF q(1)] quantize_4 [OF q(2)]
  note i = insert_allocationD [OF ins]
  have s2: "\<exists>sl. s2 = s1\<lparr>t_slots := sl\<rparr>" using up by (auto simp: update_slot_def run_simps)
  show "t_allocations s' = t_allocations s @ [a]" "only_slots s s'"
    using i(2) sc s2 audited_frame [OF au] by (auto simp: only_slots_def)
  show "al_slot_id a = slot_id" "quantize ROUND_HALF_UP 2 m = Inr (al_standard_minutes a)"
    "quantize ROUND_HALF_UP 4 u = Inr (al_units a)" "al_order_id a = oid" "al_status a = ALLOC_ACTIVE"
    "al_recommendation_id a = rec"
    using i(1) sc q row_key [OF row(1)] row_key [OF row(2)] by simp_all
qed

lemma apply_allocations_run:
  assumes "apply_allocations p rec oid slots rows s = Inr (as, s')" and "capacity_ok s"
  shows "capacity_ok s' \<and> t_allocations s' = t_allocations s @ as \<and> only_slots s s' \<and>
    list_all2 (allocation_matches oid rec) rows as \<and> set (map al_slot_id as) \<subseteq> set slots"
  using assms
proof (induction rows arbitrary: as s)
  case Nil
  then show ?case by (auto simp: only_slots_def)
next
  case (Cons r rows)
  from Cons.prems(1) obtain i a s1 as' where
      i: "uuid_of_json (json_at r ''slot_id'') = Some i" "i \<in> set slots"
    and al: "allocate i oid (decimal_or_zero (json_at r ''standard_minutes''))
       (decimal_or_zero (json_at r ''units'')) (Some (p_user_id p)) (Some (rc_id rec)) s = Inr (a, s1)"
    and rest: "apply_allocations p rec oid slots rows s1 = Inr (as', s')" and as: "as = a # as'"
    by (auto simp: run_simps split: option.splits if_splits)
  note a = allocate_run [OF al]
  note ih = Cons.IH [OF rest allocate_ok [OF Cons.prems(2) al]]
  have "allocation_matches oid rec r a" using i a by (simp add: allocation_matches_def)
  with ih a i show ?case by (auto simp: as intro: only_slots_trans)
qed

text \<open>Only the balances and the reservations change.\<close>

definition only_stock :: "db \<Rightarrow> db \<Rightarrow> bool" where
  "only_stock s s' \<longleftrightarrow>
     t_slots s' = t_slots s \<and> t_allocations s' = t_allocations s \<and> t_movements s' = t_movements s \<and>
     t_lots s' = t_lots s \<and> t_orders s' = t_orders s \<and> t_recommendations s' = t_recommendations s \<and>
     utcnow s' = utcnow s \<and> t_bom_lines s' = t_bom_lines s"

lemma only_stock_trans: "only_stock s t \<Longrightarrow> only_stock t u \<Longrightarrow> only_stock s u"
  by (simp add: only_stock_def)

text \<open>The balances by what identifies them.\<close>

definition balance_keys :: "db \<Rightarrow> (uuid \<times> uuid \<times> uuid) list" where
  "balance_keys s = map (\<lambda>b. (ba_id b, code_of b)) (t_balances s)"

lemma balance_keys_charge:
  assumes "b \<in> set bs" and "distinct (map ba_id bs)"
  shows "map (\<lambda>b. (ba_id b, code_of b)) (upd ba_id (charge_balance d b) bs) =
    map (\<lambda>b. (ba_id b, code_of b)) bs"
  using assms by (auto simp: upd_def distinct_map dest: inj_onD)

lemma reserve_materialD:
  assumes "reserve_material org f m oid quantity actor rec s = Inr (r, s')"
  obtains q b s1 s2 s3 where "positive_quantity quantity ''quantity'' = Inr q"
    "lock_balance_for org f m s = Inr (b, s1)"
    "insert_reservation
       \<lparr>rv_id = 0, rv_organization_id = org, rv_factory_id = f,
        rv_material_id = m, rv_order_id = oid, rv_quantity = q,
        rv_status = RES_ACTIVE, rv_recommendation_id = rec,
        rv_created_by = actor, rv_created_at = 0\<rparr> s1 = Inr (r, s2)"
    "update_balance (charge_balance q b) s2 = Inr s3" "audited s3 s'"
  using assms by (auto simp: reserve_material_def run_simps inventory_audit_def)

lemma lock_balance_held:
  assumes lb: "lock_balance_for org f m s = Inr (b', s')" and inv: "stock_ok s"
    and b: "b \<in> set (t_balances s)" "code_of b = (f, m)" "LockBalance (ba_id b) \<in> set (locks s)"
  shows "locks s' = locks s" and "t_balances s' = t_balances s" and "b' = b"
proof -
  note ok = stock_okD [OF inv]
  have bo: "balance_of f m s = Some b"
  proof (cases "balance_of f m s")
    case None
    then show ?thesis using balance_ofD(2) [OF None] b by (metis imageI)
  next
    case (Some x)
    then have "x = b" using balance_ofD(1) [OF Some] b inj_onD [OF ok(11), of x b] by simp
    with Some show ?thesis by simp
  qed
  then have bo': "balance_of f m (s\<lparr>drawn := n\<rparr>) = Some b" for n by (simp add: balance_of_def)
  have r: "rows_by_id ba_id [ba_id b] (t_balances s) = [b]"
    using row_distinct [OF ok(9) b(1)]
    by (simp add: rows_by_id_def sorted_set_def List.map_filter_simps)
  define t where "t = s\<lparr>drawn := Suc (drawn s)\<rparr>"
  have "take_locks [LockBalance (ba_id b)] t = t" using b(3) by (intro take_held) (simp add: t_def)
  moreover have "t_balances t = t_balances s" "balance_of f m t = Some b" using bo' by (simp_all add: t_def)
  ultimately have "lock_balance_for org f m s = Inr (b, t)"
    using bo' r by (simp add: lock_balance_for_def ensure_balance_def draw_def lock_balances_def Let_def flip: t_def)
  then show "locks s' = locks s" "t_balances s' = t_balances s" "b' = b"
    using lb by (auto simp: t_def)
qed

lemma reserve_run:
  assumes run: "reserve_material org f m oid quantity actor rec s = Inr (r, s')" and inv: "stock_ok s"
  shows "t_reservations s' = t_reservations s @ [r]" and "only_stock s s'"
    and "quantize ROUND_HALF_UP 4 quantity = Inr (rv_quantity r)" and "rv_material_id r = m"
    and "rv_order_id r = oid" and "rv_factory_id r = f" and "rv_status r = RES_ACTIVE"
    and "rv_recommendation_id r = rec"
    and "b \<in> set (t_balances s) \<Longrightarrow> code_of b = (f, m) \<Longrightarrow> LockBalance (ba_id b) \<in> set (locks s) \<Longrightarrow>
       locks s' = locks s \<and> balance_keys s' = balance_keys s"
proof -
  from reserve_materialD [OF run] obtain q b' s1 s2 s3 where q: "positive_quantity quantity ''quantity'' = Inr q"
    and lb: "lock_balance_for org f m s = Inr (b', s1)"
    and ins: "insert_reservation
       \<lparr>rv_id = 0, rv_organization_id = org, rv_factory_id = f,
        rv_material_id = m, rv_order_id = oid, rv_quantity = q,
        rv_status = RES_ACTIVE, rv_recommendation_id = rec,
        rv_created_by = actor, rv_created_at = 0\<rparr> s1 = Inr (r, s2)"
    and up: "update_balance (charge_balance q b') s2 = Inr s3" and au: "audited s3 s'" .
  note o = lock_balance_forD [OF inv lb]
  have q': "scaled 4 q" "quantize ROUND_HALF_UP 4 quantity = Inr q"
    using positive_quantityD [OF q] q by (auto simp: positive_quantity_def run_simps)
  note i = insert_reservationD [OF ins]
  have b'2: "b' \<in> set (t_balances s2)" using i(2) q'(1) o(3) by simp
  note u = update_balance_charge [OF up stock_okD(2) [OF o(1) o(3)] q'(1)]
  show "t_reservations s' = t_reservations s @ [r]" "only_stock s s'"
    using o(2) i(2) q'(1) u(2) audited_frame [OF au] by (simp_all add: opened_def only_stock_def)
  show "quantize ROUND_HALF_UP 4 quantity = Inr (rv_quantity r)" "rv_material_id r = m"
    "rv_order_id r = oid" "rv_factory_id r = f" "rv_status r = RES_ACTIVE" "rv_recommendation_id r = rec"
    using i(1) q' by simp_all
  assume b: "b \<in> set (t_balances s)" "code_of b = (f, m)" "LockBalance (ba_id b) \<in> set (locks s)"
  note h = lock_balance_held [OF lb inv b]
  show "locks s' = locks s \<and> balance_keys s' = balance_keys s"
    using h i(2) q'(1) u(2) audited_frame [OF au] balance_keys_charge [OF b(1) stock_okD(9) [OF inv]]
    by (simp add: balance_keys_def)
qed

lemma apply_reservations_run:
  assumes "apply_reservations p rec ord rows s = Inr (xs, s')" and "stock_ok s"
    and "\<And>m. m \<in> set (List.map_filter (\<lambda>r. uuid_of_json (json_at r ''material_id'')) rows) \<Longrightarrow>
       \<exists>i. (i, or_factory_id ord, m) \<in> set (balance_keys s) \<and> LockBalance i \<in> set (locks s)"
  shows "stock_ok s' \<and> t_reservations s' = t_reservations s @ xs \<and> only_stock s s' \<and>
    list_all2 (reservation_matches ord rec) rows xs \<and> locks s' = locks s"
  using assms
proof (induction rows arbitrary: xs s)
  case Nil
  then show ?case by (auto simp: only_stock_def)
next
  case (Cons r rows)
  from Cons.prems(1) obtain m x s1 xs' where m: "uuid_of_json (json_at r ''material_id'') = Some m"
    and re: "reserve_material (or_organization_id ord) (or_factory_id ord) m (or_id ord)
       (decimal_or_zero (json_at r ''quantity'')) (Some (p_user_id p)) (Some (rc_id rec)) s = Inr (x, s1)"
    and rest: "apply_reservations p rec ord rows s1 = Inr (xs', s')" and xs: "xs = x # xs'"
    by (auto simp: run_simps)
  obtain b where b: "b \<in> set (t_balances s)" "code_of b = (or_factory_id ord, m)" "LockBalance (ba_id b) \<in> set (locks s)"
    using Cons.prems(3) [of m] m by (auto simp: List.map_filter_simps balance_keys_def)
  note x = reserve_run [OF re Cons.prems(2)]
  note keep = x(9) [OF b]
  have "\<exists>i. (i, or_factory_id ord, m') \<in> set (balance_keys s1) \<and> LockBalance i \<in> set (locks s1)"
    if "m' \<in> set (List.map_filter (\<lambda>r. uuid_of_json (json_at r ''material_id'')) rows)" for m'
    using Cons.prems(3) [of m'] keep that by (simp add: List.map_filter_simps m)
  note ih = Cons.IH [OF rest reserve_material_ok [OF Cons.prems(2) re] this]
  have "reservation_matches ord rec r x" using m x by (simp add: reservation_matches_def)
  with ih x keep show ?case by (auto simp: xs intro: only_stock_trans)
qed

end
