(* ===== verification/LS_ApprovalRules.thy ===== *)
theory LS_ApprovalRules
  imports LS_Approvals
begin

text \<open>
  What the approvals service guarantees: a decision books nothing, an application is gated
  and books exactly the proposal under locks taken in the agreed order, and a committed
  rejection books nothing.
\<close>

section \<open>The run of an application\<close>

text \<open>The gate both calls pass before they work on a recommendation.\<close>

definition open_gate :: "principal \<Rightarrow> string \<Rightarrow> uuid \<Rightarrow> recommendation_status \<Rightarrow> recommendation \<Rightarrow> order \<Rightarrow> db \<Rightarrow> bool" where
  "open_gate p perm i st rec ord s \<longleftrightarrow>
     row rc_id i (t_recommendations s) = Some rec \<and> rc_id rec = i \<and>
     row or_id (rc_order_id rec) (t_orders s) = Some ord \<and>
     has p perm (rc_factory_id rec) = Inr True \<and> rc_status rec = st"

lemma applyD:
  assumes "apply_recommendation p i h trace s = Inr (out, s')"
  obtains (expired) rec ord where "open_gate p APPLY_PERMISSION i REC_APPROVED rec ord s"
      "is_expired rec (utcnow s)"
      "expire_recommendation rec p APPLY_ACTION trace (locked_for rec s) = Inr (out, s')"
  | (stale) rec ord slots ms s1 where "open_gate p APPLY_PERMISSION i REC_APPROVED rec ord s"
      "\<not> is_expired rec (utcnow s)" "h = rc_proposal_hash rec" "p_user_id p \<noteq> rc_proposer_user_id rec"
      "lock_inputs ord rec (locked_for rec s) = Inr (slots, ms, s1)" "check_staleness rec s1 \<noteq> []"
      "supersede rec p (check_staleness rec s1) trace s1 = Inr (out, s')"
  | (applied) rec ord slots ms s1 ra rr as xs s2 s3 m s4 current bf af r res
    where "open_gate p APPLY_PERMISSION i REC_APPROVED rec ord s"
      "\<not> is_expired rec (utcnow s)" "h = rc_proposal_hash rec" "p_user_id p \<noteq> rc_proposer_user_id rec"
      "lock_inputs ord rec (locked_for rec s) = Inr (slots, ms, s1)" "check_staleness rec s1 = []"
      "or_production_state ord \<in> set APPLICABLE_ORDER_STATES"
      "rebook p rec ord (map sl_id slots) s1 = Inr (ra, rr, as, xs, s2)"
      "update_order (ord\<lparr>or_production_state := PLANNED, or_version := or_version ord + 1\<rparr>) s2 = Inr s3"
      "recompute_material_states (or_factory_id ord) ms (Some [or_id ord]) s3 = Inr (m, s4)"
      "row or_id (or_id ord) (t_orders s4) = Some current"
      "finish_apply p rec current bf af ms trace s4 = Inr (r, s')" "out = Inr res"
      "ay_order res = current" "ay_allocations res = as" "ay_reservations res = xs"
      "ay_recommendation_id res = i" "ay_status res = rc_status r"
proof -
  from assms obtain scoped ord s1 rec s2 where
      ld: "load_recommendation i p APPLY_PERMISSION s = Inr scoped"
    and lo: "lock_order (rc_order_id scoped) s = Inr (ord, s1)"
    and lr: "lock_recommendation (rc_id scoped) s1 = Inr (rec, s2)"
    and st: "rc_status rec = REC_APPROVED"
    by (auto simp: apply_recommendation_def run_simps)
  note o = open_recommendation [OF ld lo lr]
  have gate: "open_gate p APPLY_PERMISSION i REC_APPROVED rec ord s"
    using o st by (simp add: open_gate_def)
  show thesis
  proof (cases "is_expired rec (utcnow s)")
    case True
    then have "expire_recommendation rec p APPLY_ACTION trace (locked_for rec s) = Inr (out, s')"
      using assms ld lo lr st o(5) by (simp add: apply_recommendation_def run_simps)
    then show thesis by (rule expired [OF gate True])
  next
    case False
    from assms ld lo lr st False o(5) obtain slots ms t where
        d: "h = rc_proposal_hash rec" "p_user_id p \<noteq> rc_proposer_user_id rec"
      and li: "lock_inputs ord rec (locked_for rec s) = Inr (slots, ms, t)"
      by (auto simp: apply_recommendation_def run_simps)
    show thesis
    proof (cases "check_staleness rec t = []")
      case False
      then have "supersede rec p (check_staleness rec t) trace t = Inr (out, s')"
        using assms ld lo lr st \<open>\<not> is_expired rec (utcnow s)\<close> d li o(5)
        by (simp add: apply_recommendation_def run_simps)
      then show thesis by (rule stale [OF gate \<open>\<not> is_expired rec (utcnow s)\<close> d li False])
    next
      case True
      with assms ld lo lr st \<open>\<not> is_expired rec (utcnow s)\<close> d li o(5)
      obtain ra rr as xs s3 s4 m s5 current bf af r where
          run: "or_production_state ord \<in> set APPLICABLE_ORDER_STATES"
          "rebook p rec ord (map sl_id slots) t = Inr (ra, rr, as, xs, s3)"
          "update_order (ord\<lparr>or_production_state := PLANNED, or_version := or_version ord + 1\<rparr>) s3 = Inr s4"
          "recompute_material_states (or_factory_id ord) ms (Some [or_id ord]) s4 = Inr (m, s5)"
          "row or_id (or_id ord) (t_orders s5) = Some current"
          "finish_apply p rec current bf af ms trace s5 = Inr (r, s')"
        and out: "out = Inr \<lparr>ay_recommendation_id = rc_id r, ay_status = rc_status r, ay_applied_at = utcnow s',
          ay_order = current, ay_allocations = as, ay_reservations = xs,
          ay_released_allocations = length ra, ay_released_reservations = length rr\<rparr>"
        by (simp add: apply_recommendation_def run_simps) blast
      have "rc_id r = i" using finish_applyD(1) [OF run(6)] o(2) by simp
      then show thesis
        by (intro applied [OF gate \<open>\<not> is_expired rec (utcnow s)\<close> d li True run out]) simp_all
    qed
  qed
qed

section \<open>Released and booked\<close>

lemma balance_keys_upd:
  assumes "b \<in> set bs" and "distinct (map ba_id bs)" and "ba_id b' = ba_id b" and "code_of b' = code_of b"
  shows "map (\<lambda>b. (ba_id b, code_of b)) (upd ba_id b' bs) = map (\<lambda>b. (ba_id b, code_of b)) bs"
  using assms by (auto simp: upd_def distinct_map dest: inj_onD)

lemma balance_ids: "map ba_id (t_balances s) = map fst (balance_keys s)"
  by (simp add: balance_keys_def comp_def)

lemma flush_balances_keys:
  assumes "flush_balances is s = Inr s'" and "distinct (map ba_id (t_balances s))"
  shows "balance_keys s' = balance_keys s"
  using assms
proof (induction "is" arbitrary: s)
  case (Cons i "is")
  show ?case
  proof (cases "row ba_id i (t_balances s)")
    case (Some b)
    with Cons.prems obtain t where t: "update_balance b s = Inr t" "flush_balances is t = Inr s'"
      by (auto simp: run_simps)
    from t(1) obtain x y where "t_balances t = upd ba_id (b\<lparr>ba_on_hand_accepted := x, ba_reserved := y\<rparr>) (t_balances s)"
      by (auto simp: update_balance_def run_simps)
    then have k: "balance_keys t = balance_keys s"
      using balance_keys_upd [OF row_in_set [OF Some] Cons.prems(2)] by (simp add: balance_keys_def code_of_def)
    then show ?thesis using Cons.IH [OF t(2)] Cons.prems(2) by (simp add: balance_ids)
  qed (use Cons in simp)
qed simp

lemma release_loop_keys:
  assumes "distinct (map ba_id (t_balances s))"
  shows "balance_keys (release_reservations_loop f rs s) = balance_keys s"
  using assms
proof (induction rs arbitrary: s)
  case (Cons r rs)
  show ?case
  proof (cases "balance_of f (rv_material_id r) s")
    case (Some b)
    define t where "t = s\<lparr>t_balances := upd ba_id (b\<lparr>ba_reserved := dsub (ba_reserved b) (rv_quantity r),
        ba_version := ba_version b + 1\<rparr>) (t_balances s),
      t_reservations := upd rv_id (r\<lparr>rv_status := RES_RELEASED\<rparr>) (t_reservations s)\<rparr>"
    have "balance_keys t = balance_keys s"
      using balance_keys_upd [OF balance_ofD(1) [OF Some, THEN conjunct1] Cons.prems]
      by (simp add: balance_keys_def t_def code_of_def)
    then show ?thesis using Some Cons.IH [of t] Cons.prems by (simp add: balance_ids flip: t_def)
  qed (use Cons in simp)
qed simp

lemma release_reservations_keys:
  assumes "release_order_reservations ord s = Inr (x, s')" and "distinct (map ba_id (t_balances s))"
  shows "balance_keys s' = balance_keys s"
proof (cases "reserved_materials_of ord s = []")
  case True
  then show ?thesis using assms(1) by (simp add: release_order_reservations_def)
next
  case False
  let ?ids = "map ba_id (filter (\<lambda>b. ba_factory_id b = or_factory_id ord \<and>
    ba_material_id b \<in> set (reserved_materials_of ord s)) (t_balances s))"
  let ?s1 = "snd (lock_balances ?ids s)" and ?bs = "fst (lock_balances ?ids s)"
  define rs where "rs = active_reservations_of ord ?s1"
  define u where "u = take_locks (map (LockReservation \<circ> rv_id) rs) ?s1"
  have fl: "flush_balances (map ba_id ?bs) (release_reservations_loop (or_factory_id ord) rs u) = Inr s'"
    using assms(1) False
    by (simp add: release_order_reservations_def Let_def case_prod_beta rs_def u_def split: if_splits)
      (auto simp: run_simps)
  have tab: "t_balances u = t_balances s" by (simp add: u_def lock_balances_def Let_def)
  have d: "distinct (map ba_id (t_balances u))" using assms(2) by (simp add: tab)
  note k = release_loop_keys [OF d, of "or_factory_id ord" rs]
  have "distinct (map ba_id (t_balances (release_reservations_loop (or_factory_id ord) rs u)))"
    using d unfolding balance_ids k .
  with fl have "balance_keys s' = balance_keys (release_reservations_loop (or_factory_id ord) rs u)"
    by (rule flush_balances_keys)
  then show ?thesis unfolding k by (simp add: tab balance_keys_def)
qed

text \<open>
  The bookings of an application on sound books with all inputs locked: the order's own are
  released, the proposal's rows are added, no lock of an ordered group is taken.
\<close>

lemma rebook_run:
  assumes run: "rebook p rec ord slots s = Inr (ra, rr, as, xs, s')"
    and books: "capacity_ok s" "stock_ok s" and il: "inputs_locked ord ms s"
    and ms: "set (required_ids rec ''reservations'' ''material_id'') \<subseteq> set ms"
    and fac: "\<forall>r \<in> set (t_reservations s). rv_order_id r = or_id ord \<longrightarrow> rv_factory_id r = or_factory_id ord"
  shows "capacity_ok s'" and "stock_ok s'"
    and "t_allocations s' = allocations_released (or_id ord) s @ as"
    and "t_reservations s' = reservations_released (or_id ord) s @ xs"
    and "list_all2 (allocation_matches (or_id ord) rec) (json_rows (rc_proposal rec) ''allocations'') as"
    and "list_all2 (reservation_matches ord rec) (json_rows (rc_proposal rec) ''reservations'') xs"
    and "t_orders s' = t_orders s" and "t_recommendations s' = t_recommendations s" and "utcnow s' = utcnow s"
    and "locks_held s s'"
proof -
  from run obtain s1 s2 s3 where
      ra: "release_order_allocations ord s = Inr (ra, s1)"
    and rr: "release_order_reservations ord s1 = Inr (rr, s2)"
    and al: "apply_allocations p rec (or_id ord) slots (json_rows (rc_proposal rec) ''allocations'') s2 = Inr (as, s3)"
    and re: "apply_reservations p rec ord (json_rows (rc_proposal rec) ''reservations'') s3 = Inr (xs, s')"
    by (auto simp: rebook_def run_simps)
  obtain sl l1 where s1: "s1 = s\<lparr>t_slots := sl, t_allocations := allocations_released (or_id ord) s, locks := l1\<rparr>"
    and cap1: "capacity_ok s1" using release_allocations_run [OF books(1), of ord] ra by auto
  have st1: "stock_ok s1" using books(2) stock_ok_frame [of s1 s] by (simp add: s1)
  have rm1: "reserved_materials_of ord s1 = reserved_materials_of ord s" by (simp add: s1 reserved_materials_of_def)
  obtain bs l2 where s2: "s2 = s1\<lparr>t_balances := bs, t_reservations := reservations_released (or_id ord) s1, locks := l2\<rparr>"
    and st2: "stock_ok s2" using release_reservations_run [OF st1, of ord] fac rr by (auto simp: s1)
  have cap2: "capacity_ok s2" using cap1 capacity_ok_frame [of s2 s1] by (simp add: s2)
  note k2 = release_reservations_keys [OF rr stock_okD(9) [OF st1]]
  note a = apply_allocations_run [OF al cap2]
  have st3: "stock_ok s3" using a st2 stock_ok_frame [of s3 s2] by (simp add: only_slots_def)
  have h1: "locks_held s s1"
    using il by (intro release_allocations_locks [OF ra]) (simp add: inputs_locked_def)
  have up1: "set (locks s) \<subseteq> set (locks s1)" using h1 by (simp add: locks_held_def)
  have h2: "locks_held s1 s2"
    using il up1 by (intro release_reservations_locks [OF rr]) (unfold rm1, auto simp: inputs_locked_def s1)
  have up2: "set (locks s1) \<subseteq> set (locks s2)" using h2 by (simp add: locks_held_def)
  have k3: "balance_keys s3 = balance_keys s"
    using a k2 by (simp add: balance_keys_def only_slots_def s1)
  have held: "\<exists>i. (i, or_factory_id ord, m) \<in> set (balance_keys s3) \<and> LockBalance i \<in> set (locks s3)"
    if "m \<in> set (List.map_filter (\<lambda>r. uuid_of_json (json_at r ''material_id'')) (json_rows (rc_proposal rec) ''reservations''))" for m
  proof -
    have "m \<in> set ms" using ms that by (auto simp: required_ids_def)
    then obtain b where b: "b \<in> set (t_balances s)" "code_of b = (or_factory_id ord, m)"
      using il by (auto simp: inputs_locked_def)
    then have "LockBalance (ba_id b) \<in> set (locks s)"
      using il \<open>m \<in> set ms\<close> by (auto simp: inputs_locked_def code_of_def)
    then have "LockBalance (ba_id b) \<in> set (locks s3)" using up1 up2 a by (auto simp: only_slots_def)
    moreover have "(ba_id b, or_factory_id ord, m) \<in> set (balance_keys s3)"
      unfolding k3 using b by (force simp: balance_keys_def)
    ultimately show ?thesis by blast
  qed
  note r = apply_reservations_run [OF re st3 held]
  show "capacity_ok s'" using a r capacity_ok_frame [of s' s3] by (simp add: only_stock_def)
  show "stock_ok s'" using r by blast
  show "t_allocations s' = allocations_released (or_id ord) s @ as"
    using a r by (simp add: only_stock_def s1 s2)
  show "t_reservations s' = reservations_released (or_id ord) s @ xs"
    using a r by (simp add: only_slots_def s1 s2 reservations_released_def)
  show "list_all2 (allocation_matches (or_id ord) rec) (json_rows (rc_proposal rec) ''allocations'') as"
    "list_all2 (reservation_matches ord rec) (json_rows (rc_proposal rec) ''reservations'') xs"
    using a r by blast+
  show "t_orders s' = t_orders s" "t_recommendations s' = t_recommendations s" "utcnow s' = utcnow s"
    using a r by (simp_all add: only_slots_def only_stock_def s1 s2)
  have "locks s' = locks s2" using a r by (simp add: only_slots_def)
  then show "locks_held s s'" using locks_held_trans [OF h1 h2] by (simp add: locks_held_def)
qed

section \<open>After an application\<close>

lemma rec_moved_row:
  assumes "rec_moved r s s'" and "row rc_id (rc_id r) (t_recommendations s) = Some x"
  shows "row rc_id (rc_id r) (t_recommendations s') = Some r"
  using assms by (simp add: rec_moved_def row_upd)

lemma stale_section_empty:
  "stale_section kind expected required current = [] \<longleftrightarrow>
     (\<forall>i \<in> set (map fst expected) \<union> set required.
        map_of expected i \<noteq> None \<and> current i = map_of expected i)"
proof -
  have "List.map_filter f xs = [] \<longleftrightarrow> (\<forall>x \<in> set xs. f x = None)" for f :: "uuid \<Rightarrow> stale_input option" and xs
    by (induction xs) (auto simp: List.map_filter_simps split: option.splits)
  then have "stale_section kind expected required current = [] \<longleftrightarrow>
      (\<forall>i \<in> set (sorted_set (map fst expected @ required)).
         \<not> (map_of expected i = None \<or> current i \<noteq> map_of expected i))"
    by (simp add: stale_section_def Let_def if_split_eq1)
  then show ?thesis by (simp add: not_le)
qed

lemma rec_moved_books: "rec_moved r (locked_for rec s) s' \<Longrightarrow> books_same s s'"
  by (rule books_same_trans [OF locked_for_frame(1) [of s rec]]) (simp add: rec_moved_def)

text \<open>The versions a proposal pins in one section of its inputs.\<close>

definition pinned :: "recommendation \<Rightarrow> string \<Rightarrow> uuid \<Rightarrow> int option" where
  "pinned rec sec i =
     map_of (expected_versions (json_get (case rc_input_versions rec of JObj fs \<Rightarrow> fs | _ \<Rightarrow> []) sec)) i"

lemma not_stale_pinned:
  assumes "check_staleness rec s = []"
  shows "pinned rec ''order'' (rc_order_id rec) \<noteq> None \<and>
      map_option or_version (row or_id (rc_order_id rec) (t_orders s)) = pinned rec ''order'' (rc_order_id rec)"
    and "i \<in> set (required_ids rec ''allocations'' ''slot_id'') \<or> pinned rec ''capacity_slots'' i \<noteq> None \<Longrightarrow>
      pinned rec ''capacity_slots'' i \<noteq> None \<and>
      map_option sl_version (row sl_id i (t_slots s)) = pinned rec ''capacity_slots'' i"
    and "i \<in> set (required_ids rec ''reservations'' ''balance_id'') \<or> pinned rec ''material_balances'' i \<noteq> None \<Longrightarrow>
      pinned rec ''material_balances'' i \<noteq> None \<and>
      map_option ba_version (row ba_id i (t_balances s)) = pinned rec ''material_balances'' i"
proof -
  let ?E = "\<lambda>sec. expected_versions (json_get (case rc_input_versions rec of JObj fs \<Rightarrow> fs | _ \<Rightarrow> []) sec)"
  have dom: "pinned rec sec i \<noteq> None \<Longrightarrow> i \<in> set (map fst (?E sec))" for sec i
    by (metis pinned_def map_of_eq_None_iff set_map)
  have sec: "stale_section ORDER_KIND (?E ''order'') [rc_order_id rec]
       (\<lambda>i. map_option or_version (row or_id i (t_orders s))) = []"
    "stale_section SLOT_KIND (?E ''capacity_slots'') (required_ids rec ''allocations'' ''slot_id'')
       (\<lambda>i. map_option sl_version (row sl_id i (t_slots s))) = []"
    "stale_section BALANCE_KIND (?E ''material_balances'') (required_ids rec ''reservations'' ''balance_id'')
       (\<lambda>i. map_option ba_version (row ba_id i (t_balances s))) = []"
    using assms by (simp_all only: check_staleness_def Let_def append_is_Nil_conv)
  note sec = sec [unfolded stale_section_empty, folded pinned_def]
  show "pinned rec ''order'' (rc_order_id rec) \<noteq> None \<and>
      map_option or_version (row or_id (rc_order_id rec) (t_orders s)) = pinned rec ''order'' (rc_order_id rec)"
    using sec(1) by simp
  show "i \<in> set (required_ids rec ''allocations'' ''slot_id'') \<or> pinned rec ''capacity_slots'' i \<noteq> None \<Longrightarrow>
      pinned rec ''capacity_slots'' i \<noteq> None \<and>
      map_option sl_version (row sl_id i (t_slots s)) = pinned rec ''capacity_slots'' i"
    using sec(2) dom by blast
  show "i \<in> set (required_ids rec ''reservations'' ''balance_id'') \<or> pinned rec ''material_balances'' i \<noteq> None \<Longrightarrow>
      pinned rec ''material_balances'' i \<noteq> None \<and>
      map_option ba_version (row ba_id i (t_balances s)) = pinned rec ''material_balances'' i"
    using sec(3) dom by blast
qed

text \<open>What the locks leave to the staleness check: all of the old state, and new balances.\<close>

lemma lock_inputs_rows:
  assumes "lock_inputs ord rec (locked_for rec s) = Inr (slots, ms, s1)" and "stock_ok s"
    and "rc_order_id rec = or_id ord"
  obtains new where "t_balances s1 = t_balances s @ new" and "t_orders s1 = t_orders s"
    and "t_slots s1 = t_slots s" and "t_recommendations s1 = t_recommendations s"
    and "t_allocations s1 = t_allocations s" and "t_reservations s1 = t_reservations s"
    and "utcnow s1 = utcnow s" and "stock_ok s1" and "inputs_locked ord ms s1"
    and "capacity_ok s1 = capacity_ok s"
    and "set (required_ids rec ''reservations'' ''material_id'') \<subseteq> set ms"
    and "locks s = [] \<longrightarrow> locks_ordered (locks s1)"
proof -
  have ok: "stock_ok (locked_for rec s)" using assms(2) books_same_ok(2) [of s "locked_for rec s"] by simp
  have held: "LockOrder (or_id ord) \<in> set (locks (locked_for rec s))"
    using assms(3) by (simp add: locked_for_def take_locks_def)
  from lock_inputsD [OF assms(1) ok held] obtain new n lks where
      s1: "s1 = (locked_for rec s)\<lparr>drawn := n, t_balances := t_balances (locked_for rec s) @ new, locks := lks\<rparr>"
    and il: "stock_ok s1" "inputs_locked ord ms s1"
      "set (required_ids rec ''reservations'' ''material_id'') \<subseteq> set ms"
    and lo: "locks_ordered (locks (locked_for rec s)) \<Longrightarrow> locks_below 1 (locks (locked_for rec s)) \<Longrightarrow> locks_ordered (locks s1)"
    by metis
  have "locks_ordered (locks s1)" if "locks s = []"
    using that by (intro lo) (simp_all add: locked_for_def take_locks_def locks_ordered_def locks_below_def List.map_filter_simps)
  moreover have "capacity_ok s1 = capacity_ok s"
    by (rule capacity_ok_frame) (simp_all add: s1)
  ultimately show thesis by (intro that [OF _ _ _ _ _ _ _ il(1,2) _ il(3)]) (simp_all add: s1)
qed

lemma same_order_key: "same_order r r' \<Longrightarrow> or_id r' = or_id r"
  and same_order_state: "same_order r r' \<Longrightarrow> or_production_state r' = or_production_state r"
  unfolding same_order_def by (cases r; cases r'; simp)+

lemma states_refreshed_row:
  assumes "states_refreshed s s'" and "row or_id i (t_orders s) = Some r"
  obtains r' where "row or_id i (t_orders s') = Some r'" and "same_order r r'"
proof -
  have "\<exists>r'. row or_id i ys = Some r' \<and> same_order r r'"
    if "list_all2 same_order xs ys" "row or_id i xs = Some r" for xs ys
    using that by (induction rule: list_all2_induct) (auto simp: same_order_key split: if_splits)
  from this [of "t_orders s" "t_orders s'"] show thesis
    using assms that by (auto simp: states_refreshed_def)
qed

text \<open>Everything an application leaves behind.\<close>

lemma applied_state:
  assumes run: "apply_recommendation p i h trace s = Inr (Inr res, s')"
    and books: "capacity_ok s" "stock_ok s" and d: "distinct (map or_id (t_orders s))"
    and fac: "\<And>r ord. r \<in> set (t_reservations s) \<Longrightarrow> ord \<in> set (t_orders s) \<Longrightarrow> rv_order_id r = or_id ord \<Longrightarrow>
       rv_factory_id r = or_factory_id ord"
  obtains rec ord where "open_gate p APPLY_PERMISSION i REC_APPROVED rec ord s"
    and "capacity_ok s'" and "stock_ok s'"
    and "t_allocations s' = allocations_released (or_id ord) s @ ay_allocations res"
    and "t_reservations s' = reservations_released (or_id ord) s @ ay_reservations res"
    and "list_all2 (allocation_matches (or_id ord) rec) (json_rows (rc_proposal rec) ''allocations'') (ay_allocations res)"
    and "list_all2 (reservation_matches ord rec) (json_rows (rc_proposal rec) ''reservations'') (ay_reservations res)"
    and "row or_id (or_id ord) (t_orders s') = Some (ay_order res)" and "or_production_state (ay_order res) = PLANNED"
    and "row rc_id i (t_recommendations s') = Some (rec\<lparr>rc_status := REC_APPLIED, rc_applied_by := Some (p_user_id p),
           rc_applied_at := Some (utcnow s), rc_version := rc_version rec + 1\<rparr>)"
    and "locks s = [] \<longrightarrow> locks_ordered (locks s')"
  using run
proof (cases rule: applyD)
  case (expired rec ord)
  then show thesis using expireD(1) by fastforce
next
  case (stale rec ord slots ms s1)
  then show thesis using supersedeD(1) by fastforce
next
  case (applied rec ord slots ms s1 ra rr as xs s2 s3 m s4 current bf af r res')
  have res: "res' = res" using applied(13) by simp
  note g = applied(1) [unfolded open_gate_def]
  have oid: "rc_order_id rec = or_id ord" using g row_key by fastforce
  have ord: "ord \<in> set (t_orders s)" using g row_in_set by fastforce
  from lock_inputs_rows [OF applied(5) books(2) oid] obtain new where
      s1: "t_balances s1 = t_balances s @ new" "t_orders s1 = t_orders s" "t_slots s1 = t_slots s"
        "t_recommendations s1 = t_recommendations s" "t_allocations s1 = t_allocations s"
        "t_reservations s1 = t_reservations s" "utcnow s1 = utcnow s"
    and ok1: "stock_ok s1" and il: "inputs_locked ord ms s1" and cap1: "capacity_ok s1 = capacity_ok s"
    and rq: "set (required_ids rec ''reservations'' ''material_id'') \<subseteq> set ms"
    and lo: "locks s = [] \<longrightarrow> locks_ordered (locks s1)" .
  have f1: "\<forall>r \<in> set (t_reservations s1). rv_order_id r = or_id ord \<longrightarrow> rv_factory_id r = or_factory_id ord"
    using fac ord by (simp add: s1)
  note b = rebook_run [OF applied(8) cap1 [THEN iffD2, OF books(1)] ok1 il rq f1]
  let ?p = "ord\<lparr>or_production_state := PLANNED, or_version := or_version ord + 1\<rparr>"
  have s3: "s3 = s2\<lparr>t_orders := upd or_id (?p\<lparr>or_updated_at := utcnow s2\<rparr>) (t_orders s2)\<rparr>"
    using applied(9) by (auto simp: update_order_def run_simps)
  have rf: "states_refreshed s3 s4"
    using d by (intro recompute_refreshed [OF applied(10)]) (simp add: s3 b(7) s1)
  note s4 = states_refreshed_frame [OF rf]
  note fin = finish_applyD [OF applied(12)]
  note mv = fin(2) [unfolded rec_moved_def books_same_def]
  show thesis
  proof (rule that [of rec ord])
    show "open_gate p APPLY_PERMISSION i REC_APPROVED rec ord s" by (rule applied(1))
    have "capacity_ok s' = capacity_ok s2" by (rule capacity_ok_frame) (simp_all add: mv s4 s3)
    then show "capacity_ok s'" using b(1) by simp
    have "stock_ok s' = stock_ok s2" by (rule stock_ok_frame) (simp_all add: mv s4 s3)
    then show "stock_ok s'" using b(2) by simp
    show "t_allocations s' = allocations_released (or_id ord) s @ ay_allocations res"
      using applied(15) by (simp add: mv s4 s3 b(3) res allocations_released_def s1)
    show "t_reservations s' = reservations_released (or_id ord) s @ ay_reservations res"
      using applied(16) by (simp add: mv s4 s3 b(4) res reservations_released_def s1)
    show "list_all2 (allocation_matches (or_id ord) rec) (json_rows (rc_proposal rec) ''allocations'') (ay_allocations res)"
      using b(5) applied(15) res by simp
    show "list_all2 (reservation_matches ord rec) (json_rows (rc_proposal rec) ''reservations'') (ay_reservations res)"
      using b(6) applied(16) res by simp
    show "row or_id (or_id ord) (t_orders s') = Some (ay_order res)"
      using applied(11,14) res by (simp add: mv)
    have "row or_id (or_id ord) (t_orders s3) = Some (?p\<lparr>or_updated_at := utcnow s2\<rparr>)"
      using g by (simp add: s3 b(7) s1 row_upd oid)
    then show "or_production_state (ay_order res) = PLANNED"
      using applied(11,14) res by (auto elim!: states_refreshed_row [OF rf] dest: same_order_state)
    have "row rc_id i (t_recommendations s4) = Some rec" using g by (simp add: s4 s3 b(8) s1)
    then have "row rc_id i (t_recommendations s') = Some r"
      using rec_moved_row [OF fin(2)] fin(1) g by simp
    then show "row rc_id i (t_recommendations s') = Some (rec\<lparr>rc_status := REC_APPLIED,
        rc_applied_by := Some (p_user_id p), rc_applied_at := Some (utcnow s), rc_version := rc_version rec + 1\<rparr>)"
      using fin(1) by (simp add: s4 s3 b(9) s1)
    have "locks s4 = locks s3"
      using il b(10) by (intro recompute_locks_held [OF applied(10)]) (auto simp: s3 inputs_locked_def locks_held_def)
    then show "locks s = [] \<longrightarrow> locks_ordered (locks s')"
      using lo locks_held_ordered [OF b(10)] mv by (simp add: s3)
  qed
qed

section \<open>Properties\<close>

text \<open>
  C30. Deciding never applies. A call of \<open>decide\<close> that returns leaves slots, allocations,
  balances, reservations and orders as they were. Either the proposal had expired, which is
  recorded, or an open, unexpired proposal whose hash the caller confirmed got exactly one
  approval row, by somebody other than its proposer who holds the decide permission, and the
  matching status.
\<close>

theorem deciding_never_applies:
  assumes "decide p i decision reason h trace s = Inr (out, s')"
  shows "books_same s s' \<and>
    (\<exists>rec. row rc_id i (t_recommendations s) = Some rec \<and> rc_status rec = REC_PROPOSED \<and>
      (case out of
         Inl e \<Rightarrow> rc_expires_at rec \<le> utcnow s \<and> t_approvals s' = t_approvals s \<and>
           map_option rc_status (row rc_id i (t_recommendations s')) = Some REC_EXPIRED
       | Inr r \<Rightarrow> utcnow s < rc_expires_at rec \<and> has p DECIDE_PERMISSION (rc_factory_id rec) = Inr True \<and>
           p_user_id p \<noteq> rc_proposer_user_id rec \<and> h = rc_proposal_hash rec \<and>
           row rc_id i (t_recommendations s') = Some r \<and>
           (\<exists>a. t_approvals s' = t_approvals s @ [a] \<and> ap_recommendation_id a = i \<and>
              ap_decided_by a = p_user_id p \<and> ap_proposal_hash a = h \<and>
              (rc_status r, ap_decision a) \<in> {(REC_APPROVED, DEC_APPROVED), (REC_REJECTED, DEC_REJECTED)})))"
  using assms
proof (cases rule: decideD)
  case (expired rec)
  note e = expireD [OF expired(5)]
  have "books_same s s'" using e(2) by (rule rec_moved_books)
  moreover have "row rc_id i (t_recommendations s') = Some (rec\<lparr>rc_status := REC_EXPIRED, rc_version := rc_version rec + 1\<rparr>)"
    using rec_moved_row [OF e(2)] expired(1,2) by simp
  ultimately show ?thesis using expired e(1,3) by (auto simp: is_expired_def)
next
  case (decided rec resolved a r)
  have "books_same s s'" using decided(18) by (rule rec_moved_books)
  moreover have "row rc_id i (t_recommendations s') = Some r"
    using rec_moved_row [OF decided(18)] decided(1,2,10) by simp
  moreover have "(rc_status r, ap_decision a) \<in> {(REC_APPROVED, DEC_APPROVED), (REC_REJECTED, DEC_REJECTED)}"
    using decided(10,15) by (cases resolved) simp_all
  ultimately show ?thesis using decided by (auto simp: is_expired_def)
qed

text \<open>
  C31. Applying is gated: a proposal is only applied when it is approved, unexpired and the
  one the caller reviewed, by somebody other than its proposer who holds the apply permission,
  to an order that is VALIDATED or PLANNED, and while the order and every slot and balance row
  it writes to or was computed from still has the version the proposal pins; no row it writes
  to goes unpinned. Afterwards the proposal is APPLIED and the order PLANNED.
\<close>

theorem apply_is_gated:
  assumes "apply_recommendation p i h trace s = Inr (Inr res, s')"
    and "capacity_ok s" and "stock_ok s" and "distinct (map or_id (t_orders s))"
    and "\<And>r ord. r \<in> set (t_reservations s) \<Longrightarrow> ord \<in> set (t_orders s) \<Longrightarrow> rv_order_id r = or_id ord \<Longrightarrow>
       rv_factory_id r = or_factory_id ord"
  shows "\<exists>rec ord. row rc_id i (t_recommendations s) = Some rec \<and>
    row or_id (rc_order_id rec) (t_orders s) = Some ord \<and>
    rc_status rec = REC_APPROVED \<and> utcnow s < rc_expires_at rec \<and> h = rc_proposal_hash rec \<and>
    p_user_id p \<noteq> rc_proposer_user_id rec \<and> has p APPLY_PERMISSION (rc_factory_id rec) = Inr True \<and>
    or_production_state ord \<in> {VALIDATED, PLANNED} \<and>
    pinned rec ''order'' (or_id ord) = Some (or_version ord) \<and>
    (\<forall>j \<in> set (required_ids rec ''allocations'' ''slot_id'') \<union> {j. pinned rec ''capacity_slots'' j \<noteq> None}.
       \<exists>slot. row sl_id j (t_slots s) = Some slot \<and> pinned rec ''capacity_slots'' j = Some (sl_version slot)) \<and>
    (\<forall>j \<in> set (required_ids rec ''reservations'' ''balance_id'') \<union> {j. pinned rec ''material_balances'' j \<noteq> None}.
       pinned rec ''material_balances'' j \<noteq> None \<and>
       (\<forall>b. row ba_id j (t_balances s) = Some b \<longrightarrow> pinned rec ''material_balances'' j = Some (ba_version b))) \<and>
    map_option rc_status (row rc_id i (t_recommendations s')) = Some REC_APPLIED \<and>
    map_option or_production_state (row or_id (or_id ord) (t_orders s')) = Some PLANNED"
  using assms(1)
proof (cases rule: applyD)
  case (expired rec ord)
  then show ?thesis using expireD(1) by fastforce
next
  case (stale rec ord slots ms s1)
  then show ?thesis using supersedeD(1) by fastforce
next
  case (applied rec ord slots ms s1 ra rr as xs s2 s3 m s4 current bf af r res')
  from applied_state [OF assms] obtain rec' ord' where st: "open_gate p APPLY_PERMISSION i REC_APPROVED rec' ord' s"
    and b: "capacity_ok s'" "stock_ok s'" "t_allocations s' = allocations_released (or_id ord') s @ ay_allocations res"
      "t_reservations s' = reservations_released (or_id ord') s @ ay_reservations res"
      "list_all2 (allocation_matches (or_id ord') rec') (json_rows (rc_proposal rec') ''allocations'') (ay_allocations res)"
      "list_all2 (reservation_matches ord' rec') (json_rows (rc_proposal rec') ''reservations'') (ay_reservations res)"
      "row or_id (or_id ord') (t_orders s') = Some (ay_order res)" "or_production_state (ay_order res) = PLANNED"
      "row rc_id i (t_recommendations s') = Some (rec'\<lparr>rc_status := REC_APPLIED, rc_applied_by := Some (p_user_id p),
         rc_applied_at := Some (utcnow s), rc_version := rc_version rec' + 1\<rparr>)"
      "locks s = [] \<longrightarrow> locks_ordered (locks s')" .
  note g = applied(1) [unfolded open_gate_def]
  have same: "rec' = rec" "ord' = ord" using st g by (auto simp: open_gate_def)
  have oid: "rc_order_id rec = or_id ord" using g row_key by fastforce
  from lock_inputs_rows [OF applied(5) assms(3) oid] obtain new where
      s1: "t_balances s1 = t_balances s @ new" "t_orders s1 = t_orders s" "t_slots s1 = t_slots s" by metis
  note v = not_stale_pinned [OF applied(6), unfolded s1]
  have "pinned rec ''order'' (or_id ord) = Some (or_version ord)" using v(1) g oid by simp
  moreover have "\<exists>slot. row sl_id j (t_slots s) = Some slot \<and> pinned rec ''capacity_slots'' j = Some (sl_version slot)"
    if "j \<in> set (required_ids rec ''allocations'' ''slot_id'') \<union> {j. pinned rec ''capacity_slots'' j \<noteq> None}" for j
    using v(2) [of j] that by auto
  moreover have "pinned rec ''material_balances'' j \<noteq> None \<and>
       (\<forall>b. row ba_id j (t_balances s) = Some b \<longrightarrow> pinned rec ''material_balances'' j = Some (ba_version b))"
    if "j \<in> set (required_ids rec ''reservations'' ''balance_id'') \<union> {j. pinned rec ''material_balances'' j \<noteq> None}" for j
    using v(3) [of j] that by (auto simp: row_append)
  ultimately show ?thesis
    using applied(2,3,4,7) g b(7,8,9) same by (intro exI [of _ rec] exI [of _ ord]) (auto simp: is_expired_def APPLICABLE_ORDER_STATES_def)
qed

text \<open>
  C32. An application books exactly the proposal. From sound books it leaves sound books: the
  order's active allocations and reservations are released, one allocation per allocation row
  and one reservation per reservation row of the proposal is added with the row's slot or
  material and its quantities rounded to the column, nothing else is booked, and the locks a
  transaction starting without any has taken follow the agreed order.
\<close>

theorem apply_rebooks:
  assumes "apply_recommendation p i h trace s = Inr (Inr res, s')"
    and "capacity_ok s" and "stock_ok s" and "distinct (map or_id (t_orders s))"
    and "\<And>r ord. r \<in> set (t_reservations s) \<Longrightarrow> ord \<in> set (t_orders s) \<Longrightarrow> rv_order_id r = or_id ord \<Longrightarrow>
       rv_factory_id r = or_factory_id ord"
  shows "capacity_ok s' \<and> stock_ok s' \<and>
    (\<exists>rec ord. row rc_id i (t_recommendations s) = Some rec \<and> row or_id (rc_order_id rec) (t_orders s) = Some ord \<and>
      t_allocations s' =
        map (\<lambda>a. if al_order_id a = or_id ord \<and> al_status a = ALLOC_ACTIVE
                 then a\<lparr>al_status := ALLOC_RELEASED\<rparr> else a) (t_allocations s) @ ay_allocations res \<and>
      t_reservations s' =
        map (\<lambda>r. if rv_order_id r = or_id ord \<and> rv_status r = RES_ACTIVE
                 then r\<lparr>rv_status := RES_RELEASED\<rparr> else r) (t_reservations s) @ ay_reservations res \<and>
      list_all2 (allocation_matches (or_id ord) rec) (json_rows (rc_proposal rec) ''allocations'') (ay_allocations res) \<and>
      list_all2 (reservation_matches ord rec) (json_rows (rc_proposal rec) ''reservations'') (ay_reservations res)) \<and>
    (locks s = [] \<longrightarrow> locks_ordered (locks s'))"
proof -
  from applied_state [OF assms] obtain rec ord where st: "open_gate p APPLY_PERMISSION i REC_APPROVED rec ord s"
    and b: "capacity_ok s'" "stock_ok s'" "t_allocations s' = allocations_released (or_id ord) s @ ay_allocations res"
      "t_reservations s' = reservations_released (or_id ord) s @ ay_reservations res"
      "list_all2 (allocation_matches (or_id ord) rec) (json_rows (rc_proposal rec) ''allocations'') (ay_allocations res)"
      "list_all2 (reservation_matches ord rec) (json_rows (rc_proposal rec) ''reservations'') (ay_reservations res)"
      "row or_id (or_id ord) (t_orders s') = Some (ay_order res)" "or_production_state (ay_order res) = PLANNED"
      "row rc_id i (t_recommendations s') = Some (rec\<lparr>rc_status := REC_APPLIED, rc_applied_by := Some (p_user_id p),
         rc_applied_at := Some (utcnow s), rc_version := rc_version rec + 1\<rparr>)"
      "locks s = [] \<longrightarrow> locks_ordered (locks s')" .
  with st show ?thesis
    unfolding allocations_released_def [symmetric] reservations_released_def [symmetric] open_gate_def by blast
qed

lemma check_staleness_cong:
  "t_orders s = t_orders s' \<Longrightarrow> t_slots s = t_slots s' \<Longrightarrow> t_balances s = t_balances s' \<Longrightarrow>
   check_staleness rec s = check_staleness rec s'"
  by (simp add: check_staleness_def)

text \<open>
  C33. A rejection that is committed books nothing: when \<open>apply\<close> ends in one, no allocation,
  reservation, slot or order has changed, no balance either (rows may have been opened), and
  the proposal is either EXPIRED after its time, or SUPERSEDED with the kinds of the inputs
  whose versions have moved.
\<close>

theorem rejected_apply_books_nothing:
  assumes "apply_recommendation p i h trace s = Inr (Inl e, s')" and "stock_ok s"
  shows "t_allocations s' = t_allocations s \<and> t_reservations s' = t_reservations s \<and>
    t_slots s' = t_slots s \<and> t_orders s' = t_orders s \<and> stock_ok s' \<and>
    (\<exists>new. t_balances s' = t_balances s @ new) \<and>
    (\<exists>rec r. row rc_id i (t_recommendations s) = Some rec \<and> rc_status rec = REC_APPROVED \<and>
      row rc_id i (t_recommendations s') = Some r \<and>
      (if rc_expires_at rec \<le> utcnow s
       then e = AppError 409 EXPIRED ''This proposal has expired.'' [] \<and> rc_status r = REC_EXPIRED
       else check_staleness rec s' \<noteq> [] \<and> rc_status r = REC_SUPERSEDED \<and>
         rc_superseded_reason r = Some (stale_reason (check_staleness rec s')) \<and>
         e = AppError 409 STALE_INPUT ''The inputs this proposal was computed from have changed.''
               (map sti_kind (check_staleness rec s'))))"
  using assms(1)
proof (cases rule: applyD)
  case (expired rec ord)
  note e = expireD [OF expired(3)]
  note g = expired(1) [unfolded open_gate_def]
  have bs: "books_same s s'" using e(2) by (rule rec_moved_books)
  have "row rc_id i (t_recommendations s') = Some (rec\<lparr>rc_status := REC_EXPIRED, rc_version := rc_version rec + 1\<rparr>)"
    using rec_moved_row [OF e(2)] g by simp
  then show ?thesis using g e(1) expired(2) bs books_same_ok(2) [OF bs] assms(2)
    by (simp add: books_same_def is_expired_def)
next
  case (stale rec ord slots ms s1)
  note e = supersedeD [OF stale(7)]
  note g = stale(1) [unfolded open_gate_def]
  have oid: "rc_order_id rec = or_id ord" using g row_key by fastforce
  from lock_inputs_rows [OF stale(5) assms(2) oid] obtain new where
      s1: "t_balances s1 = t_balances s @ new" "t_orders s1 = t_orders s" "t_slots s1 = t_slots s"
        "t_recommendations s1 = t_recommendations s" "t_allocations s1 = t_allocations s"
        "t_reservations s1 = t_reservations s" and ok: "stock_ok s1" by metis
  have bs: "books_same s1 s'" using e(2) by (simp add: rec_moved_def)
  then have cs: "check_staleness rec s' = check_staleness rec s1"
    by (intro check_staleness_cong) (simp_all add: books_same_def)
  have "row rc_id i (t_recommendations s') = Some (rec\<lparr>rc_status := REC_SUPERSEDED,
      rc_superseded_reason := Some (stale_reason (check_staleness rec s1)), rc_version := rc_version rec + 1\<rparr>)"
    using rec_moved_row [OF e(2)] g s1 by simp
  then show ?thesis using g e(1) stale(2,6) bs books_same_ok(2) [OF bs] ok s1
    by (simp add: books_same_def is_expired_def cs)
next
  case (applied rec ord slots ms s1 ra rr as xs s2 s3 m s4 current bf af r res')
  then show ?thesis by simp
qed

section \<open>A proposal for one order\<close>

text \<open>60 standard minutes for 30 units in slot 1, 40 units of material 3, for order 9.\<close>

definition demo_rec :: recommendation where
  "demo_rec =
     \<lparr>rc_id = 20, rc_organization_id = 1, rc_factory_id = 7, rc_order_id = 9, rc_run_id = 30,
      rc_kind = KIND_ALLOCATION_AND_RESERVATION, rc_status = REC_APPROVED,
      rc_proposal = JObj
        [(Lit ''allocations'', JArr [JObj [(Lit ''slot_id'', JText (Id 1)),
           (Lit ''standard_minutes'', JText (Dec 60)), (Lit ''units'', JText (Dec 30))]]),
         (Lit ''reservations'', JArr [JObj [(Lit ''material_id'', JText (Id 3)),
           (Lit ''balance_id'', JText (Id 6)), (Lit ''quantity'', JText (Dec 40))]])],
      rc_proposal_hash = ''hash'',
      rc_input_versions = JObj [(Lit ''order'', JObj [(Id 9, JInt 1)]),
        (Lit ''capacity_slots'', JObj [(Id 1, JInt 1)]),
        (Lit ''material_balances'', JObj [(Id 6, JInt 2)])],
      rc_rationale = '''', rc_evidence_refs = JNull, rc_generated_by = GEN_DETERMINISTIC,
      rc_proposed_by_agent = ''planning'', rc_proposer_user_id = 3, rc_expires_at = 100,
      rc_applied_by = None, rc_applied_at = None, rc_superseded_reason = None, rc_version = 2,
      rc_created_at = 0\<rparr>"

definition approvals_demo :: db where
  "approvals_demo = cancel_demo\<lparr>t_recommendations := [demo_rec]\<rparr>"

text \<open>The same after the slot has moved on, and before the decision.\<close>

definition stale_demo :: db where
  "stale_demo = approvals_demo\<lparr>t_slots := map (\<lambda>x. x\<lparr>sl_version := 2\<rparr>) (t_slots approvals_demo)\<rparr>"

definition open_demo :: db where
  "open_demo = approvals_demo\<lparr>t_recommendations := [demo_rec\<lparr>rc_status := REC_PROPOSED\<rparr>]\<rparr>"

lemma approvals_demo_ok:
  "capacity_ok approvals_demo" "stock_ok approvals_demo" "stock_ok stale_demo"
  "distinct (map or_id (t_orders approvals_demo))"
  using capacity_ok_frame [of approvals_demo cancel_demo] stock_ok_frame [of approvals_demo cancel_demo]
    stock_ok_frame [of stale_demo cancel_demo] cancel_demo_books
  by (simp_all add: approvals_demo_def stale_demo_def cancel_demo_def)

lemma approvals_demo_factory:
  "r \<in> set (t_reservations approvals_demo) \<Longrightarrow> ord \<in> set (t_orders approvals_demo) \<Longrightarrow>
   rv_factory_id r = or_factory_id ord"
  by (simp add: approvals_demo_def cancel_demo_def stock_demo_def demo_order_def)

definition demo_apply :: "apply_result outcome" where
  "demo_apply = apply_recommendation (demo_user 2 [SUPERVISOR]) 20 ''hash'' None approvals_demo"

definition demo_reject :: "apply_result outcome" where
  "demo_reject = apply_recommendation (demo_user 2 [SUPERVISOR]) 20 ''hash'' None stale_demo"

definition demo_decide :: "recommendation outcome" where
  "demo_decide = decide (demo_user 2 [SUPERVISOR]) 20 ''APPROVED'' None ''hash'' None open_demo"

lemma demo_arithmetic:
  "quantize ROUND_HALF_UP 2 60 = Inr 60" "quantize ROUND_HALF_UP 4 30 = Inr 30"
  "quantize ROUND_HALF_UP 4 40 = Inr 40" "dmul 480 (4 / 5) = 384" "dadd 0 60 = 60" "dadd 0 40 = 40"
  "dsub 100 100 = 0" "dsub 30 30 = 0" "available_now 100 0 = 100"
  "to_column 12 2 0 = Inr 0" "to_column 12 2 60 = Inr 60" "to_column 14 4 0 = Inr 0"
  "to_column 14 4 30 = Inr 30" "to_column 14 4 40 = Inr 40" "to_column 14 4 100 = Inr 100"
  by code_simp+

lemmas demo_rows =
  approvals_demo_def cancel_demo_def stock_demo_def capacity_demo_def empty_db_def demo_order_def
  demo_rec_def demo_user_def demo_factory_def

text \<open>The operations an application goes through, for evaluation.\<close>

lemmas apply_steps =
  lock_order_def lock_recommendation_def is_expired_def lock_inputs_def lock_slots_def required_ids_def
  allocation_slot_ids_def reserved_materials_of_def json_rows_def json_get_def json_at_def
  uuid_of_text_def ensure_balance_def draw_def balance_of_def lock_balances_def rows_by_id_def
  sorted_set_def take_locks_def List.map_filter_simps insert_row_def check_staleness_def
  stale_section_def expected_versions_def APPLICABLE_ORDER_STATES_def rebook_def
  release_order_allocations_def active_allocations_of_def update_slot_def
  release_order_reservations_def active_reservations_of_def update_balance_def decimal_or_zero_def
  allocate_def insert_allocation_def charge_slot_def record_audit_def reserve_material_def
  positive_quantity_def lock_balance_for_def insert_reservation_def charge_balance_def
  inventory_audit_def update_order_def order_checks_def recompute_material_states_def lock_orders_def
  MATERIAL_STATE_ORDER_STATES_def order_state_def worst_material_state_def finish_apply_def
  update_recommendation_def audit_of_def notify_of_def insert_notification_def enqueue_def QUEUES_def
  new_job_def order_doc_def

lemma demo_load:
  "load_recommendation 20 (demo_user 2 [SUPERVISOR]) APPLY_PERMISSION approvals_demo = Inr demo_rec"
  by code_simp

lemma demo_apply_value: "case demo_apply of Inr (Inr res, s') \<Rightarrow> ay_released_allocations res = 1 | _ \<Rightarrow> False"
  unfolding demo_apply_def apply_recommendation_def demo_load bind_err_simps
  by (simp add: demo_arithmetic apply_steps demo_rows Let_def del: One_nat_def cong: eval_congs)

lemma demo_reject_value: "case demo_reject of Inr (Inl e, s') \<Rightarrow> True | _ \<Rightarrow> False"
  by code_simp

lemma demo_decide_value: "case demo_decide of Inr (Inr r, s') \<Rightarrow> rc_status r = REC_APPROVED | _ \<Rightarrow> False"
  by code_simp

theorem deciding_never_applies_witness:
  "\<exists>r s'. demo_decide = Inr (Inr r, s') \<and> books_same open_demo s' \<and> length (t_approvals s') = 1"
proof -
  from demo_decide_value obtain r s' where d: "demo_decide = Inr (Inr r, s')" by (auto split: sum.splits)
  have "t_approvals open_demo = []" by (simp add: open_demo_def approvals_demo_def cancel_demo_def stock_demo_def empty_db_def)
  with deciding_never_applies [OF d [unfolded demo_decide_def]] d show ?thesis
    by (intro exI [of _ r] exI [of _ s']) auto
qed

lemma demo_applied: obtains res s' where "demo_apply = Inr (Inr res, s')"
  using demo_apply_value by (auto split: sum.splits)

theorem apply_is_gated_witness:
  "\<exists>res s'. demo_apply = Inr (Inr res, s') \<and>
     map_option or_production_state (row or_id 9 (t_orders s')) = Some PLANNED"
proof -
  obtain res s' where d: "demo_apply = Inr (Inr res, s')" by (rule demo_applied)
  from apply_is_gated [OF d [unfolded demo_apply_def] approvals_demo_ok(1,2,4) approvals_demo_factory]
  have "map_option or_production_state (row or_id 9 (t_orders s')) = Some PLANNED"
    by (auto simp: approvals_demo_def cancel_demo_def demo_rec_def demo_order_def split: if_splits)
  with d show ?thesis by blast
qed

theorem apply_rebooks_witness:
  "\<exists>res s'. demo_apply = Inr (Inr res, s') \<and> capacity_ok s' \<and> stock_ok s' \<and> locks_ordered (locks s') \<and>
     length (t_allocations s') = 2"
proof -
  obtain res s' where d: "demo_apply = Inr (Inr res, s')" by (rule demo_applied)
  note a = apply_rebooks [OF d [unfolded demo_apply_def] approvals_demo_ok(1,2,4) approvals_demo_factory]
  have "locks approvals_demo = []" by (simp add: approvals_demo_def cancel_demo_def stock_demo_def empty_db_def)
  moreover have "length (t_allocations s') = 2"
    using a by (auto simp: approvals_demo_def cancel_demo_def capacity_demo_def demo_rec_def json_rows_def json_get_def
        List.map_filter_simps dest!: list_all2_lengthD)
  ultimately show ?thesis using a d by blast
qed

theorem rejected_apply_books_nothing_witness:
  "\<exists>e s'. demo_reject = Inr (Inl e, s') \<and> t_allocations s' = t_allocations stale_demo \<and>
     (\<exists>rec. row rc_id 20 (t_recommendations stale_demo) = Some rec \<and> check_staleness rec s' \<noteq> [])"
proof -
  from demo_reject_value obtain e s' where d: "demo_reject = Inr (Inl e, s')" by (auto split: sum.splits)
  have "utcnow stale_demo = 0" "t_recommendations stale_demo = [demo_rec]"
    by (simp_all add: stale_demo_def approvals_demo_def cancel_demo_def stock_demo_def empty_db_def)
  moreover have "rc_expires_at demo_rec = 100" by (simp add: demo_rec_def)
  ultimately show ?thesis
    using rejected_apply_books_nothing [OF d [unfolded demo_reject_def] approvals_demo_ok(3)] d
    by (auto split: if_splits)
qed

end
