(* ===== verification/LS_Report.thy ===== *)
theory LS_Report
  imports LS_Readiness
begin

text \<open>
  The order report of a finished run (\<open>app/orchestration/synthesis.py\<close>): one record built from
  the run, its snapshot and the stored results, and its JSON dump, which is the payload of the
  \<open>run.report\<close> event. The results of a run are an association list from task ids.
\<close>

type_synonym run_results = "(uuid \<times> agent_result) list"

definition SHIPMENT_SOURCE :: string where
  "SHIPMENT_SOURCE = ''Calculated from records''"

definition TASK_FAILED_REASON :: string where
  "TASK_FAILED_REASON = ''TASK_FAILED''"

definition TASK_CANCELLED_REASON :: string where
  "TASK_CANCELLED_REASON = ''TASK_CANCELLED''"

definition NO_RESULT_SUMMARY :: string where
  "NO_RESULT_SUMMARY = ''This agent produced no result.''"

fun SOURCE_LABELS :: "generated_by \<Rightarrow> string" where
  "SOURCE_LABELS GEN_MODEL = ''AI-assisted explanation; every number is calculated''"
| "SOURCE_LABELS GEN_DETERMINISTIC = ''Deterministic proposal; AI explanation unavailable''"

text \<open>The codes of the findings that carry a material's state.\<close>

definition MATERIAL_STATE_BY_FINDING :: "(string \<times> material_state) list" where
  "MATERIAL_STATE_BY_FINDING =
     [(''MATERIAL_SHORTAGE'', MS_SHORTAGE), (''PLAN_MATERIAL_SHORT'', MS_SHORTAGE),
      (''MATERIAL_AT_RISK'', MS_AT_RISK), (''MATERIAL_BALANCE_MISSING'', MS_UNKNOWN),
      (''UNIT_CONVERSION_MISSING'', MS_UNKNOWN)]"

text \<open>\<open>a or b\<close> on optional texts: an empty text is falsy.\<close>

definition or_text :: "string option \<Rightarrow> string option \<Rightarrow> string option" where
  "or_text a b = (case a of None \<Rightarrow> b | Some t \<Rightarrow> if t = [] then b else a)"

section \<open>The report\<close>

record report_blocker =
  bk_code :: string
  bk_message :: string
  bk_agent :: agent_recipient
  bk_severity :: severity_level
  bk_evidence_ids :: "string list"
  bk_source :: generated_by

record report_agent_summary =
  sy_agent :: agent_recipient
  sy_status :: string
  sy_summary :: string
  sy_summary_source :: generated_by
  sy_provider :: string
  sy_model :: string
  sy_degraded_reason :: "string option"
  sy_finding_codes :: "string list"

record report_recommendation =
  rp_id :: uuid
  rp_status :: recommendation_status
  rp_kind :: recommendation_kind
  rp_source_label :: string

record order_report =
  rt_order_id :: uuid
  rt_external_ref :: string
  rt_due_date :: date
  rt_production :: production_state
  rt_material :: material_state
  rt_quality :: quality_state
  rt_analysis :: run_status
  rt_eligible :: bool
  rt_reasons :: "string list"
  rt_blockers :: "report_blocker list"
  rt_agent_summaries :: "report_agent_summary list"
  rt_recommendation :: "report_recommendation option"
  rt_evidence :: "(jtext \<times> json) list list"
  rt_degraded :: bool
  rt_degraded_reasons :: "string list"
  rt_generated_at :: datetime

section \<open>Building it\<close>

definition task_of :: "agent_task list \<Rightarrow> agent_recipient \<Rightarrow> int \<Rightarrow> agent_task option" where
  "task_of tasks recipient round_no = find (\<lambda>t. tk_recipient t = recipient \<and> tk_round t = round_no) tasks"

definition result_of :: "run_results \<Rightarrow> agent_task option \<Rightarrow> agent_result option" where
  "result_of results t = (case t of None \<Rightarrow> None | Some t \<Rightarrow> map_of results (tk_id t))"

definition report_material_state :: "agent_task list \<Rightarrow> run_results \<Rightarrow> material_state" where
  "report_material_state tasks results =
     (case result_of results (task_of tasks AGENT_RM 0) of
        None \<Rightarrow> MS_UNKNOWN
      | Some r \<Rightarrow>
          if ar_status r = AR_FAILED then MS_UNKNOWN
          else let states = List.map_filter (\<lambda>f. if fi_source f = GEN_DETERMINISTIC
                     then map_of MATERIAL_STATE_BY_FINDING (fi_code f) else None) (ar_findings r)
               in if states = []
                  then if \<not> dq_complete (ar_data_quality r) then MS_UNKNOWN else MS_READY
                  else worst_material_state states)"

definition blocker_of :: "agent_result \<Rightarrow> finding \<Rightarrow> report_blocker" where
  "blocker_of r f =
     \<lparr>bk_code = fi_code f, bk_message = fi_message f, bk_agent = ar_agent r,
      bk_severity = fi_severity f, bk_evidence_ids = fi_evidence_ids f, bk_source = fi_source f\<rparr>"

definition report_blockers :: "agent_task list \<Rightarrow> run_results \<Rightarrow> report_blocker list" where
  "report_blockers tasks results =
     sort_key (\<lambda>b. bk_source b \<noteq> GEN_DETERMINISTIC)
       (concat (map (\<lambda>t. case map_of results (tk_id t) of
            None \<Rightarrow> []
          | Some r \<Rightarrow> map (blocker_of r) (filter (\<lambda>f. fi_severity f = SEV_CRITICAL) (ar_findings r)))
        tasks))"

definition report_degraded_reason ::
  "analysis_run \<Rightarrow> agent_task \<Rightarrow> agent_result option \<Rightarrow> string option" where
  "report_degraded_reason run t result =
     (case result of
        None \<Rightarrow>
          if tk_status t = TASK_CANCELLED then or_text (ru_error_code run) (Some TASK_CANCELLED_REASON)
          else Some TASK_FAILED_REASON
      | Some r \<Rightarrow>
          let own = or_text (em_degraded_reason (ar_execution_metadata r));
              error = map_option agent_error_code_value (ar_error_code r)
          in if ar_status r = AR_FAILED \<or> tk_status t = TASK_FAILED
             then own (or_text error (Some TASK_FAILED_REASON))
             else if em_degraded (ar_execution_metadata r)
             then own (or_text error (Some (result_status_value (ar_status r))))
             else None)"

definition agent_summary ::
  "analysis_run \<Rightarrow> run_results \<Rightarrow> agent_task \<Rightarrow> report_agent_summary" where
  "agent_summary run results t =
     (let result = map_of results (tk_id t); reason = report_degraded_reason run t result
      in case result of
           Some r \<Rightarrow>
             \<lparr>sy_agent = tk_recipient t, sy_status = result_status_value (ar_status r),
              sy_summary = ar_summary r, sy_summary_source = ar_summary_source r,
              sy_provider = em_provider (ar_execution_metadata r),
              sy_model = em_model (ar_execution_metadata r), sy_degraded_reason = reason,
              sy_finding_codes = map fi_code (ar_findings r)\<rparr>
         | None \<Rightarrow>
             \<lparr>sy_agent = tk_recipient t, sy_status = task_status_value (tk_status t),
              sy_summary = NO_RESULT_SUMMARY, sy_summary_source = GEN_DETERMINISTIC,
              sy_provider = ru_llm_provider run, sy_model = ru_llm_model run,
              sy_degraded_reason = reason, sy_finding_codes = []\<rparr>)"

text \<open>Every evidence reference once per agent, the first one of an id.\<close>

fun first_evidence ::
  "(agent_recipient \<times> string) list \<Rightarrow> (agent_recipient \<times> evidence_ref) list \<Rightarrow>
   (agent_recipient \<times> evidence_ref) list" where
  "first_evidence seen [] = []"
| "first_evidence seen ((a, e) # rest) =
     (if (a, ev_evidence_id e) \<in> set seen then first_evidence seen rest
      else (a, e) # first_evidence ((a, ev_evidence_id e) # seen) rest)"

definition tagged_evidence :: "agent_recipient \<Rightarrow> evidence_ref \<Rightarrow> (jtext \<times> json) list" where
  "tagged_evidence a e = (Lit ''agent'', JStr (agent_recipient_value a)) # evidence_fields e"

definition report_evidence :: "agent_task list \<Rightarrow> run_results \<Rightarrow> (jtext \<times> json) list list" where
  "report_evidence tasks results =
     map (\<lambda>(a, e). tagged_evidence a e)
       (first_evidence []
         (concat (map (\<lambda>t. case map_of results (tk_id t) of
              None \<Rightarrow> [] | Some r \<Rightarrow> map (Pair (ar_agent r)) (ar_evidence_refs r)) tasks)))"

definition truthy_texts :: "string option list \<Rightarrow> string list" where
  "truthy_texts xs = filter (\<lambda>t. t \<noteq> []) (List.map_filter (\<lambda>x. x) xs)"

definition build_order_report ::
  "analysis_run \<Rightarrow> snapshot_data \<Rightarrow> run_results \<Rightarrow> recommendation option \<Rightarrow> agent_task list \<Rightarrow>
   datetime \<Rightarrow> order_report" where
  "build_order_report run snap results rec tasks now =
     (let summaries = map (agent_summary run results) tasks;
          reasons = sorted_set (truthy_texts (map sy_degraded_reason summaries))
      in \<lparr>rt_order_id = xo_id (xd_order snap), rt_external_ref = xo_external_ref (xd_order snap),
          rt_due_date = xo_due_date (xd_order snap),
          rt_production = xo_production_state (xd_order snap),
          rt_material = report_material_state tasks results,
          rt_quality = xq_quality_state (xd_quality snap), rt_analysis = ru_status run,
          rt_eligible = fst (xq_shipment (xd_quality snap)),
          rt_reasons = snd (xq_shipment (xd_quality snap)),
          rt_blockers = report_blockers tasks results, rt_agent_summaries = summaries,
          rt_recommendation = map_option (\<lambda>r. \<lparr>rp_id = rc_id r, rp_status = rc_status r,
            rp_kind = rc_kind r, rp_source_label = SOURCE_LABELS (rc_generated_by r)\<rparr>) rec,
          rt_evidence = report_evidence tasks results, rt_degraded = reasons \<noteq> [],
          rt_degraded_reasons = reasons, rt_generated_at = now\<rparr>)"

section \<open>Its dump\<close>

fun severity_level_value :: "severity_level \<Rightarrow> string" where
  "severity_level_value SEV_INFO = ''info''"
| "severity_level_value SEV_WARNING = ''warning''"
| "severity_level_value SEV_CRITICAL = ''critical''"

definition blocker_json :: "report_blocker \<Rightarrow> json" where
  "blocker_json b =
     JObj [(Lit ''code'', JStr (bk_code b)), (Lit ''message'', JStr (bk_message b)),
       (Lit ''agent'', JStr (agent_recipient_value (bk_agent b))),
       (Lit ''severity'', JStr (severity_level_value (bk_severity b))),
       (Lit ''evidence_ids'', JArr (map JStr (bk_evidence_ids b))),
       (Lit ''source'', JStr (generated_by_value (bk_source b)))]"

definition summary_json :: "report_agent_summary \<Rightarrow> json" where
  "summary_json x =
     JObj [(Lit ''agent'', JStr (agent_recipient_value (sy_agent x))),
       (Lit ''status'', JStr (sy_status x)), (Lit ''summary'', JStr (sy_summary x)),
       (Lit ''summary_source'', JStr (generated_by_value (sy_summary_source x))),
       (Lit ''provider'', JStr (sy_provider x)), (Lit ''model'', JStr (sy_model x)),
       (Lit ''degraded_reason'', json_opt JStr (sy_degraded_reason x)),
       (Lit ''finding_codes'', JArr (map JStr (sy_finding_codes x)))]"

definition report_json :: "order_report \<Rightarrow> json" where
  "report_json r =
     JObj [(Lit ''order'', JObj [(Lit ''id'', JText (Id (rt_order_id r))),
         (Lit ''external_ref'', JStr (rt_external_ref r)), (Lit ''due_date'', JText (Day (rt_due_date r)))]),
       (Lit ''states'', JObj [(Lit ''production'', JStr (production_state_value (rt_production r))),
         (Lit ''material'', JStr (material_state_value (rt_material r))),
         (Lit ''quality'', JStr (quality_state_value (rt_quality r))),
         (Lit ''analysis'', JStr (run_status_value (rt_analysis r)))]),
       (Lit ''shipment'', JObj [(Lit ''eligible'', JBool (rt_eligible r)),
         (Lit ''reasons'', JArr (map JStr (rt_reasons r))), (Lit ''source'', JStr SHIPMENT_SOURCE)]),
       (Lit ''blockers'', JArr (map blocker_json (rt_blockers r))),
       (Lit ''agent_summaries'', JArr (map summary_json (rt_agent_summaries r))),
       (Lit ''recommendation'', json_opt (\<lambda>x. JObj [(Lit ''id'', JText (Id (rp_id x))),
         (Lit ''status'', JStr (recommendation_status_value (rp_status x))),
         (Lit ''kind'', JStr (recommendation_kind_value (rp_kind x))),
         (Lit ''source_label'', JStr (rp_source_label x))]) (rt_recommendation r)),
       (Lit ''evidence'', JArr (map JObj (rt_evidence r))), (Lit ''degraded'', JBool (rt_degraded r)),
       (Lit ''degraded_reasons'', JArr (map JStr (rt_degraded_reasons r))),
       (Lit ''generated_at'', JText (Time (rt_generated_at r)))]"

section \<open>What the report says\<close>

text \<open>A shown material state is deterministic: no finding of a model has a say in it.\<close>

lemma material_state_deterministic:
  assumes "result_of results (task_of tasks AGENT_RM 0) = Some r"
    and "result_of results' (task_of tasks AGENT_RM 0) = Some r'"
    and "filter (\<lambda>f. fi_source f = GEN_DETERMINISTIC) (ar_findings r) =
         filter (\<lambda>f. fi_source f = GEN_DETERMINISTIC) (ar_findings r')"
    and "ar_status r = ar_status r'" and "ar_data_quality r = ar_data_quality r'"
  shows "report_material_state tasks results = report_material_state tasks results'"
proof -
  have "List.map_filter (\<lambda>f. if fi_source f = GEN_DETERMINISTIC then g f else None) xs =
      List.map_filter g (filter (\<lambda>f. fi_source f = GEN_DETERMINISTIC) xs)" for g :: "finding \<Rightarrow> material_state option" and xs
    by (induction xs) (auto simp: List.map_filter_simps split: option.splits)
  then show ?thesis using assms by (simp add: report_material_state_def)
qed

lemma first_evidence_distinct:
  "distinct (map (\<lambda>(a, e). (a, ev_evidence_id e)) (first_evidence seen xs)) \<and>
   set (map (\<lambda>(a, e). (a, ev_evidence_id e)) (first_evidence seen xs)) \<inter> set seen = {}"
  by (induction seen xs rule: first_evidence.induct) auto

end
