(* ===== verification/LS_Dispatch.thy ===== *)
theory LS_Dispatch
  imports LS_Queue LS_Report
begin

text \<open>
  Sending work to agents: the envelope the orchestrator builds
  (\<open>app/orchestration/dispatch.py\<close>), the run's event log (\<open>app/orchestration/events.py\<close>), the
  internal endpoint that turns an envelope into a task (\<open>app/api/internal.py\<close>) and the client
  that reads its answer. A call of the endpoint leaves a committed state together with its
  answer: a denied dispatch has been audited.
\<close>

section \<open>Events and envelopes\<close>

definition append_event :: "uuid \<Rightarrow> string \<Rightarrow> string \<Rightarrow> json \<Rightarrow> db \<Rightarrow> db" where
  "append_event run_id event_type actor payload s =
     s\<lparr>t_events := t_events s @
        [\<lparr>rn_run_id = run_id, rn_event_type = event_type, rn_actor = actor, rn_payload = payload\<rparr>]\<rparr>"

definition DEFAULT_MAX_TOOL_CALLS :: int where
  "DEFAULT_MAX_TOOL_CALLS = 4"

definition make_envelope ::
  "analysis_run \<Rightarrow> agent_recipient \<Rightarrow> string \<Rightarrow> int \<Rightarrow> uuid option \<Rightarrow> input_ref list \<Rightarrow> datetime \<Rightarrow>
   db \<Rightarrow> exn + (task_envelope \<times> db)" where
  "make_envelope run recipient task_type round_no parent refs deadline s =
     bind_err (some_or (ValueError ''run has no snapshot yet'') (ru_snapshot_id run)) (\<lambda>snapshot_id.
     let (i, s) = draw s;
         e = \<lparr>te_message_id = i, te_run_id = ru_id run, te_parent_task_id = parent,
              te_organization_id = ru_organization_id run, te_factory_id = ru_factory_id run,
              te_order_id = ru_order_id run, te_snapshot_id = snapshot_id, te_recipient = recipient,
              te_task_type = task_type,
              te_idempotency_key = idempotency_key_for (ru_id run) recipient snapshot_id round_no,
              te_round = round_no, te_deadline_at = deadline, te_input_refs = refs,
              te_max_tool_calls = DEFAULT_MAX_TOOL_CALLS, te_trace_id = ru_trace_id run\<rparr>
     in bind_err (ensure (envelope_valid e) (ValidationFailure ''TaskEnvelope'')) (\<lambda>_. Inr (e, s)))"

fun input_ref_type_value :: "input_ref_type \<Rightarrow> string" where
  "input_ref_type_value REF_ORDER = ''order''"
| "input_ref_type_value REF_SNAPSHOT = ''snapshot''"
| "input_ref_type_value REF_AGENT_RESULT = ''agent_result''"
| "input_ref_type_value REF_MATERIAL_BALANCE = ''material_balance''"
| "input_ref_type_value REF_CAPACITY_SLOT = ''capacity_slot''"
| "input_ref_type_value REF_POLICY = ''policy''"

text \<open>\<open>envelope.model_dump(mode="json")\<close>, the key left as the texts it is made of.\<close>

definition envelope_json :: "task_envelope \<Rightarrow> json" where
  "envelope_json e =
     JObj [(Lit ''schema_version'', JStr ''1.0''), (Lit ''message_id'', JText (Id (te_message_id e))),
       (Lit ''run_id'', JText (Id (te_run_id e))),
       (Lit ''parent_task_id'', json_opt (JText \<circ> Id) (te_parent_task_id e)),
       (Lit ''organization_id'', JText (Id (te_organization_id e))),
       (Lit ''factory_id'', JText (Id (te_factory_id e))), (Lit ''order_id'', JText (Id (te_order_id e))),
       (Lit ''snapshot_id'', JText (Id (te_snapshot_id e))), (Lit ''sender'', JStr ''orchestrator''),
       (Lit ''recipient'', JStr (agent_recipient_value (te_recipient e))),
       (Lit ''task_type'', JStr (te_task_type e)),
       (Lit ''idempotency_key'', JArr (map JText (te_idempotency_key e))),
       (Lit ''round'', JInt (te_round e)), (Lit ''deadline_at'', JText (Time (te_deadline_at e))),
       (Lit ''input_refs'', JArr (map (\<lambda>r. JObj [(Lit ''type'', JStr (input_ref_type_value (ir_type r))),
          (Lit ''id'', JText (Id (ir_id r))), (Lit ''version'', json_opt JInt (ir_version r))])
          (te_input_refs e))),
       (Lit ''constraints'', JObj [(Lit ''max_tool_calls'', JInt (te_max_tool_calls e)),
          (Lit ''read_only'', JBool True)]),
       (Lit ''trace_id'', JStr (te_trace_id e))]"

section \<open>The endpoint\<close>

definition DISPATCH_ACTION :: string where
  "DISPATCH_ACTION = ''agent_task.dispatch''"

definition SERVICE_ACTOR :: string where
  "SERVICE_ACTOR = ''orchestrator''"

definition AGENT_EXECUTE_JOB :: string where
  "AGENT_EXECUTE_JOB = ''agent.execute''"

definition DISPATCHABLE_RUN_STATUSES :: "run_status list" where
  "DISPATCHABLE_RUN_STATUSES = [RUN_QUEUED, RUN_RUNNING]"

text \<open>\<open>authorization.partition(" ")\<close>, then the comparison of the stripped value.\<close>

definition require_service_token :: "string \<Rightarrow> string option \<Rightarrow> exn + unit" where
  "require_service_token expected authorization =
     (let presented = (case authorization of
            None \<Rightarrow> []
          | Some header \<Rightarrow>
              let scheme = takeWhile (\<lambda>c. c \<noteq> CHR '' '') header;
                  value = drop (Suc (length scheme)) header
              in if map to_lower scheme = ''bearer'' then strip value else [])
      in ensure (presented = expected \<and> presented \<noteq> [])
           (AppError 401 UNAUTHENTICATED ''A valid service token is required.'' []))"

record dispatch_receipt =
  dr_task_id :: uuid
  dr_run_id :: uuid
  dr_status :: task_status

definition deny ::
  "analysis_run \<Rightarrow> string \<Rightarrow> nat \<Rightarrow> error_code \<Rightarrow> string list \<Rightarrow> string option \<Rightarrow> db \<Rightarrow>
   (exn + 'a) \<times> db" where
  "deny run reason status c fs trace s =
     (Inl (AppError status c reason fs),
      audit_denied (ru_organization_id run) (Some (ru_factory_id run)) (Lit SERVICE_ACTOR) DISPATCH_ACTION
        ''analysis_run'' (Id (ru_id run)) reason SERVICE trace (Some (ru_id run)) s)"

definition existing_task :: "jtext list \<Rightarrow> db \<Rightarrow> agent_task option" where
  "existing_task key s = find (\<lambda>t. tk_idempotency_key t = key) (t_tasks s)"

definition receipt_of :: "agent_task \<Rightarrow> dispatch_receipt" where
  "receipt_of t = \<lparr>dr_task_id = tk_id t, dr_run_id = tk_run_id t, dr_status = tk_status t\<rparr>"

definition mismatches :: "analysis_run \<Rightarrow> task_envelope \<Rightarrow> string list" where
  "mismatches run e =
     (if te_organization_id e \<noteq> ru_organization_id run then [''organization_id''] else []) @
     (if te_factory_id e \<noteq> ru_factory_id run then [''factory_id''] else []) @
     (if te_order_id e \<noteq> ru_order_id run then [''order_id''] else []) @
     (if Some (te_snapshot_id e) \<noteq> ru_snapshot_id run then [''snapshot_id''] else [])"

definition referenced_tasks :: "task_envelope \<Rightarrow> uuid list" where
  "referenced_tasks e =
     map ir_id (filter (\<lambda>r. ir_type r = REF_AGENT_RESULT) (te_input_refs e)) @
     (case te_parent_task_id e of None \<Rightarrow> [] | Some p \<Rightarrow> [p])"

definition new_task :: "uuid \<Rightarrow> analysis_run \<Rightarrow> task_envelope \<Rightarrow> datetime \<Rightarrow> agent_task" where
  "new_task i run e now =
     \<lparr>tk_id = i, tk_run_id = ru_id run, tk_organization_id = ru_organization_id run,
      tk_factory_id = ru_factory_id run, tk_parent_task_id = te_parent_task_id e,
      tk_message_id = te_message_id e, tk_sender = ''orchestrator'', tk_recipient = te_recipient e,
      tk_task_type = te_task_type e, tk_round = te_round e, tk_idempotency_key = te_idempotency_key e,
      tk_status = TASK_PENDING, tk_envelope = e, tk_attempt = 0, tk_max_attempts = 3,
      tk_error_code = None, tk_error_detail = None, tk_deadline_at = te_deadline_at e,
      tk_created_at = now, tk_completed_at = None\<rparr>"

text \<open>\<open>INSERT ... ON CONFLICT DO NOTHING\<close>: no row that shares a unique column.\<close>

definition task_conflict :: "agent_task \<Rightarrow> db \<Rightarrow> bool" where
  "task_conflict t s \<longleftrightarrow>
     list_ex (\<lambda>x. tk_id x = tk_id t \<or> tk_message_id x = tk_message_id t \<or>
       tk_idempotency_key x = tk_idempotency_key t) (t_tasks s)"

definition store_task :: "analysis_run \<Rightarrow> task_envelope \<Rightarrow> db \<Rightarrow> exn + ((nat \<times> dispatch_receipt) \<times> db)" where
  "store_task run e s =
     (let (i, s) = draw s; t = new_task i run e (utcnow s)
      in if task_conflict t s
         then (case existing_task (te_idempotency_key e) s of
                 None \<Rightarrow> Inl (AppError 409 CONFLICT ''message_id has already been used.'' [])
               | Some x \<Rightarrow> Inr ((200, receipt_of x), s))
         else let s = s\<lparr>t_tasks := t_tasks s @ [t]\<rparr>
              in bind_err (enqueue ''agent'' AGENT_EXECUTE_JOB (JObj [(Lit ''task_id'', JText (Id i))])
                   (Some [Lit ''task:'', Id i]) None 3 s) (\<lambda>(_, s).
                 Inr ((202, receipt_of t),
                   append_event (ru_id run) ''task.dispatched'' SERVICE_ACTOR
                     (JObj [(Lit ''task_id'', JText (Id i)),
                        (Lit ''recipient'', JStr (agent_recipient_value (te_recipient e))),
                        (Lit ''task_type'', JStr (te_task_type e)), (Lit ''round'', JInt (te_round e)),
                        (Lit ''message'', envelope_json e)]) s)))"

definition dispatch_agent_task ::
  "task_envelope \<Rightarrow> string option \<Rightarrow> db \<Rightarrow> (exn + (nat \<times> dispatch_receipt)) \<times> db" where
  "dispatch_agent_task e trace s =
     (case row ru_id (te_run_id e) (t_runs s) of
        None \<Rightarrow> (Inl (AppError 422 VALIDATION_ERROR ''Unknown run.'' [''run_id'']), s)
      | Some run \<Rightarrow>
          if mismatches run e \<noteq> []
          then deny run ''Envelope does not match the run.'' 422 VALIDATION_ERROR (mismatches run e) trace s
          else if te_idempotency_key e \<noteq>
              idempotency_key_for (ru_id run) (te_recipient e) (te_snapshot_id e) (te_round e)
          then deny run ''idempotency_key does not follow run:recipient:snapshot:round.'' 422
                 VALIDATION_ERROR [''idempotency_key''] trace s
          else case existing_task (te_idempotency_key e) s of
            Some x \<Rightarrow> (Inr (200, receipt_of x), s)
          | None \<Rightarrow>
              if ru_status run \<notin> set DISPATCHABLE_RUN_STATUSES
              then deny run ''Run is over; no further tasks can be dispatched.'' 409 CONFLICT [] trace s
              else if te_task_type e \<notin> set (ALLOWED_TASK_TYPES (te_recipient e))
              then deny run ''task_type is not allowed for the recipient.'' 422 VALIDATION_ERROR
                     [''task_type''] trace s
              else if ru_deadline_at run < te_deadline_at e
              then deny run ''deadline_at is later than the run deadline.'' 422 VALIDATION_ERROR
                     [''deadline_at''] trace s
              else if list_ex (\<lambda>i. \<not> list_ex (\<lambda>t. tk_id t = i \<and> tk_run_id t = ru_id run) (t_tasks s))
                   (referenced_tasks e)
              then deny run ''Referenced tasks do not belong to this run.'' 422 VALIDATION_ERROR
                     [''input_refs''] trace s
              else case store_task run e s of
                     Inl err \<Rightarrow> (Inl err, s)
                   | Inr (answer, s') \<Rightarrow> (Inr answer, s'))"

section \<open>The client\<close>

datatype http_reply = TransportError | Response nat "dispatch_receipt option"

datatype dispatch_error = DispatchError bool

text \<open>What \<open>AgentDispatchClient.submit\<close> makes of an answer.\<close>

definition submit_reply :: "http_reply \<Rightarrow> dispatch_error + dispatch_receipt option" where
  "submit_reply reply =
     (case reply of
        TransportError \<Rightarrow> Inl (DispatchError True)
      | Response c receipt \<Rightarrow>
          if c \<in> {200, 202} then Inr receipt
          else Inl (DispatchError (500 \<le> c \<or> c = 429)))"

text \<open>The endpoint reached over HTTP, with the service token in place.\<close>

definition http_dispatch :: "string option \<Rightarrow> task_envelope \<Rightarrow> db \<Rightarrow> http_reply \<times> db" where
  "http_dispatch trace e s =
     (case dispatch_agent_task e trace s of
        (Inl err, s) \<Rightarrow> (Response (http_status err) None, s)
      | (Inr (c, receipt), s) \<Rightarrow> (Response c (Some receipt), s))"

end
