(* ===== verification/LS_Orchestrator.thy ===== *)
theory LS_Orchestrator
  imports LS_Dispatch LS_Approvals
begin

text \<open>
  The run orchestrator (\<open>app/orchestration/orchestrator.py\<close>) and the making of a proposal
  (\<open>app/orchestration/recommendations.py\<close>). A step of a run reads and writes under the run's
  lock and returns the envelopes to send; they are sent after its transaction has
  committed. The hash of a proposal is an argument \<open>digest\<close>, the endpoint that takes an
  envelope is an argument \<open>post\<close>; \<open>utcnow\<close> is read once per transaction. Log lines are not
  modelled.
\<close>

section \<open>Names\<close>

definition ORCHESTRATOR_ACTOR :: string where
  "ORCHESTRATOR_ACTOR = ''orchestrator''"

definition RUN_FINALIZED_EVENT :: string where
  "RUN_FINALIZED_EVENT = ''run.finalized''"

definition RUN_STARTED_EVENT :: string where
  "RUN_STARTED_EVENT = ''run.started''"

definition REPLAN_EVENT :: string where
  "REPLAN_EVENT = ''orchestrator.replan''"

definition NOTIFICATION_KIND :: string where
  "NOTIFICATION_KIND = ''analysis.completed''"

definition SUPERSEDED_REASON :: string where
  "SUPERSEDED_REASON = ''NEWER_ANALYSIS''"

definition ANALYSIS_COMPLETED_ACTION :: string where
  "ANALYSIS_COMPLETED_ACTION = ''analysis.completed''"

definition RM_ASSESS :: string where
  "RM_ASSESS = ''assess_material_readiness''"

definition RM_VALIDATE :: string where
  "RM_VALIDATE = ''validate_plan_materials''"

definition PLANNING_PROPOSE :: string where
  "PLANNING_PROPOSE = ''propose_allocation''"

definition PLANNING_REVISE :: string where
  "PLANNING_REVISE = ''revise_allocation''"

definition IE_ASSESS :: string where
  "IE_ASSESS = ''assess_line_capability''"

definition QUALITY_ASSESS :: string where
  "QUALITY_ASSESS = ''assess_quality_status''"

definition ROUND_ZERO :: "(agent_recipient \<times> string) list" where
  "ROUND_ZERO = [(AGENT_RM, RM_ASSESS), (AGENT_IE, IE_ASSESS), (AGENT_QUALITY, QUALITY_ASSESS)]"

definition TERMINAL_RUN_STATUSES :: "run_status list" where
  "TERMINAL_RUN_STATUSES =
     [RUN_AWAITING_REVIEW, RUN_COMPLETED, RUN_DEGRADED, RUN_FAILED, RUN_CANCELLED]"

definition TERMINAL_TASK_STATUSES :: "task_status list" where
  "TERMINAL_TASK_STATUSES = [TASK_SUCCEEDED, TASK_FAILED, TASK_CANCELLED]"

definition ACTIVE_TASK_STATUSES :: "task_status list" where
  "ACTIVE_TASK_STATUSES = [TASK_PENDING, TASK_RUNNING]"

definition SUPERSEDABLE :: "recommendation_status list" where
  "SUPERSEDABLE = [REC_PROPOSED, REC_APPROVED]"

definition RECOMMENDATION_TTL :: datetime where
  "RECOMMENDATION_TTL = 24 * 3600 * 1000000"

definition PROPOSING_AGENT :: string where
  "PROPOSING_AGENT = ''planning''"

text \<open>\<open>str(u)\<close>: 32 hexadecimal digits in groups of 8, 4, 4, 4 and 12.\<close>

definition hex_digit :: "nat \<Rightarrow> char" where
  "hex_digit d = char_of (if d < 10 then 48 + d else 87 + d)"

fun hex_digits :: "nat \<Rightarrow> nat \<Rightarrow> string" where
  "hex_digits 0 n = []"
| "hex_digits (Suc k) n = hex_digits k (n div 16) @ [hex_digit (n mod 16)]"

definition uuid_text :: "uuid \<Rightarrow> string" where
  "uuid_text u =
     (let h = hex_digits 32 u
      in take 8 h @ ''-'' @ take 4 (drop 8 h) @ ''-'' @ take 4 (drop 12 h) @ ''-'' @
         take 4 (drop 16 h) @ ''-'' @ drop 20 h)"

section \<open>The replan rule\<close>

definition actions_of :: "agent_result \<Rightarrow> action_kind \<Rightarrow> recommended_action list" where
  "actions_of r kind = sort_key ra_rank (filter (\<lambda>a. ra_kind a = kind) (ar_recommended_actions r))"

definition top_allocation :: "agent_result option \<Rightarrow> recommended_action option" where
  "top_allocation result =
     (case result of
        None \<Rightarrow> None
      | Some r \<Rightarrow>
          if ar_status r = AR_FAILED then None
          else (case actions_of r ACT_ALLOCATION of [] \<Rightarrow> None | a # _ \<Rightarrow> Some a))"

definition allocated_units :: "recommended_action \<Rightarrow> json" where
  "allocated_units a = json_at (ra_payload a) ''allocated_units''"

text \<open>The reason, as the texts it is put together from.\<close>

definition needs_replan :: "agent_result option \<Rightarrow> agent_result option \<Rightarrow> jtext list option" where
  "needs_replan planning_result rm_result =
     (case (planning_result, rm_result) of
        (Some p, Some r) \<Rightarrow>
          if ar_status p = AR_FAILED \<or> ar_status r = AR_FAILED then None
          else (case top_allocation planning_result of
                  None \<Rightarrow> None
                | Some action \<Rightarrow>
                    (case (decimal_of_json (allocated_units action),
                           Option.bind (find (\<lambda>m. me_name m = ''coverable_units'') (ar_metrics r)) me_value) of
                       (Some allocated, Some coverable) \<Rightarrow>
                         if allocated \<le> coverable then None
                         else Some [Lit ''MATERIAL_SHORTAGE_CONFLICT: selected plan allocates '',
                                Dec allocated, Lit '' units but materials cover '', Dec coverable]
                     | _ \<Rightarrow> None))
      | _ \<Rightarrow> None)"

definition allocates_units :: "agent_result option \<Rightarrow> bool" where
  "allocates_units result =
     (case result of
        None \<Rightarrow> False
      | Some r \<Rightarrow>
          ar_status r \<in> {AR_SUCCEEDED, AR_DEGRADED} \<and>
          (case top_allocation result of
             None \<Rightarrow> False
           | Some action \<Rightarrow>
               (case decimal_of_json (allocated_units action) of None \<Rightarrow> False | Some d \<Rightarrow> 0 < d)))"

section \<open>Loading a run\<close>

definition lock_run :: "uuid \<Rightarrow> db \<Rightarrow> analysis_run option \<times> db" where
  "lock_run run_id s =
     (case row ru_id run_id (t_runs s) of
        None \<Rightarrow> (None, s)
      | Some run \<Rightarrow> (Some run, take_locks [LockRun run_id] s))"

definition update_run :: "analysis_run \<Rightarrow> db \<Rightarrow> db" where
  "update_run run s = s\<lparr>t_runs := upd ru_id run (t_runs s)\<rparr>"

definition tasks_of :: "analysis_run \<Rightarrow> db \<Rightarrow> agent_task list" where
  "tasks_of run s =
     sort_key (\<lambda>t. (tk_created_at t, tk_id t)) (filter (\<lambda>t. tk_run_id t = ru_id run) (t_tasks s))"

definition results_of :: "analysis_run \<Rightarrow> db \<Rightarrow> run_results" where
  "results_of run s =
     map (\<lambda>r. (rr_task_id r, rr_payload r)) (filter (\<lambda>r. rr_run_id r = ru_id run) (t_results s))"

definition task_terminal :: "agent_task \<Rightarrow> bool" where
  "task_terminal t \<longleftrightarrow> tk_status t \<in> set TERMINAL_TASK_STATUSES"

definition ref_to :: "input_ref_type \<Rightarrow> uuid \<Rightarrow> input_ref" where
  "ref_to ty i = \<lparr>ir_type = ty, ir_id = i, ir_version = None\<rparr>"

section \<open>A proposal\<close>

definition top_action :: "agent_result option \<Rightarrow> action_kind \<Rightarrow> recommended_action option" where
  "top_action result kind =
     (case result of
        None \<Rightarrow> None
      | Some r \<Rightarrow>
          if ar_status r \<notin> {AR_SUCCEEDED, AR_DEGRADED} then None
          else (case actions_of r kind of [] \<Rightarrow> None | a # _ \<Rightarrow> Some a))"

text \<open>
  \<open>str(value)\<close> of a scalar; the text of a list or dict starts with a bracket, which no key
  of a version section does.
\<close>

fun str_of_json :: "json \<Rightarrow> jtext option" where
  "str_of_json (JText t) = Some t"
| "str_of_json (JInt n) = Some (Dec (of_int n))"
| "str_of_json (JBool b) = Some (Lit (if b then ''True'' else ''False''))"
| "str_of_json JNull = Some (Lit ''None'')"
| "str_of_json _ = None"

definition cited_evidence :: "agent_result option \<Rightarrow> recommended_action option \<Rightarrow> json list" where
  "cited_evidence result action =
     (case (result, action) of
        (Some r, Some a) \<Rightarrow>
          List.map_filter (\<lambda>i. map_option (\<lambda>e. JObj (tagged_evidence (ar_agent r) e))
             (map_of (rev (map (\<lambda>e. (ev_evidence_id e, e)) (ar_evidence_refs r))) i)) (ra_evidence_ids a)
      | _ \<Rightarrow> [])"

definition referenced_versions :: "(jtext \<times> json) list \<Rightarrow> string \<Rightarrow> jtext list \<Rightarrow> json" where
  "referenced_versions versions section_name ids =
     JObj (case json_get versions section_name of
             Some (JObj known) \<Rightarrow> filter (\<lambda>(key, v). key \<in> set ids) known
           | _ \<Rightarrow> [])"

definition row_ids :: "(jtext \<times> json) list list \<Rightarrow> string \<Rightarrow> jtext list" where
  "row_ids rows key = List.map_filter (\<lambda>r. str_of_json (json_at r key)) rows"

definition proposal_of ::
  "analysis_run \<Rightarrow> recommended_action \<Rightarrow> (jtext \<times> json) list list \<Rightarrow> (jtext \<times> json) list list \<Rightarrow> json" where
  "proposal_of run allocation allocations reservations =
     JObj [(Lit ''order_id'', JText (Id (ru_order_id run))),
       (Lit ''allocations'', JArr (map JObj allocations)),
       (Lit ''reservations'', JArr (map JObj reservations)),
       (Lit ''unscheduled_units'', json_at (ra_payload allocation) ''unscheduled_units''),
       (Lit ''unscheduled_reason'', json_at (ra_payload allocation) ''unscheduled_reason''),
       (Lit ''option_code'', json_at (ra_payload allocation) ''option_code'')]"

definition create_recommendation ::
  "(json \<Rightarrow> string) \<Rightarrow> analysis_run \<Rightarrow> (jtext \<times> json) list \<Rightarrow> agent_result option \<Rightarrow>
   agent_result option \<Rightarrow> db \<Rightarrow> exn + (recommendation option \<times> db)" where
  "create_recommendation digest run versions planning_result rm_result s =
     (case top_action planning_result ACT_ALLOCATION of
        None \<Rightarrow> Inr (None, s)
      | Some allocation \<Rightarrow>
          if decimal_or_zero (allocated_units allocation) \<le> 0 then Inr (None, s)
          else
          let reservation = top_action rm_result ACT_RESERVATION;
              allocations = json_rows (JObj (ra_payload allocation)) ''allocations'';
              reservations = (case reservation of None \<Rightarrow> []
                | Some a \<Rightarrow> json_rows (JObj (ra_payload a)) ''reservations'');
              proposal = proposal_of run allocation allocations reservations;
              input_versions =
                [(Lit ''order'', case json_get versions ''order'' of Some (JObj o1) \<Rightarrow> JObj o1 | _ \<Rightarrow> JObj []),
                 (Lit ''capacity_slots'',
                    referenced_versions versions ''capacity_slots'' (row_ids allocations ''slot_id'')),
                 (Lit ''material_balances'',
                    referenced_versions versions ''material_balances'' (row_ids reservations ''balance_id''))];
              summary = (case planning_result of None \<Rightarrow> '''' | Some p \<Rightarrow> ar_summary p);
              rationale = (case (reservation, rm_result) of
                  (Some _, Some r) \<Rightarrow> strip (summary @ '' '' @ ar_summary r)
                | _ \<Rightarrow> summary)
          in bind_err (insert_recommendation
               \<lparr>rc_id = 0, rc_organization_id = ru_organization_id run, rc_factory_id = ru_factory_id run,
                rc_order_id = ru_order_id run, rc_run_id = ru_id run,
                rc_kind = (if reservations = [] then KIND_ALLOCATION else KIND_ALLOCATION_AND_RESERVATION),
                rc_status = REC_PROPOSED, rc_proposal = proposal, rc_proposal_hash = digest proposal,
                rc_input_versions = JObj input_versions, rc_rationale = rationale,
                rc_evidence_refs = JObj [(Lit ''items'', JArr (cited_evidence planning_result (Some allocation) @
                   cited_evidence rm_result reservation))],
                rc_generated_by = (case planning_result of
                    Some p \<Rightarrow> if ar_summary_source p = GEN_MODEL then GEN_MODEL else GEN_DETERMINISTIC
                  | None \<Rightarrow> GEN_DETERMINISTIC),
                rc_proposed_by_agent = PROPOSING_AGENT, rc_proposer_user_id = ru_requested_by run,
                rc_expires_at = utcnow s + RECOMMENDATION_TTL, rc_applied_by = None, rc_applied_at = None,
                rc_superseded_reason = None, rc_version = 1, rc_created_at = utcnow s\<rparr> s) (\<lambda>(rec, s).
             Inr (Some rec, s)))"

section \<open>Closing a run\<close>

definition degraded_reasons :: "run_results \<Rightarrow> agent_task list \<Rightarrow> string list" where
  "degraded_reasons results tasks =
     List.map_filter (\<lambda>t. case map_of results (tk_id t) of
         None \<Rightarrow> None
       | Some r \<Rightarrow>
           if ar_status r = AR_SUCCEEDED then None
           else Some (agent_recipient_value (ar_agent r) @ '':'' @
             (case or_text (em_degraded_reason (ar_execution_metadata r))
                     (map_option agent_error_code_value (ar_error_code r)) of
                Some reason \<Rightarrow> reason
              | None \<Rightarrow> result_status_value (ar_status r)))) tasks"

definition supersede_previous :: "analysis_run \<Rightarrow> uuid option \<Rightarrow> db \<Rightarrow> db" where
  "supersede_previous run keep s =
     s\<lparr>t_recommendations := map (\<lambda>r.
         if rc_order_id r = ru_order_id run \<and> rc_status r \<in> set SUPERSEDABLE \<and>
            rc_id r \<noteq> (case keep of None \<Rightarrow> 0 | Some k \<Rightarrow> k)
         then r\<lparr>rc_status := REC_SUPERSEDED, rc_superseded_reason := Some SUPERSEDED_REASON,
                rc_version := rc_version r + 1\<rparr>
         else r) (t_recommendations s)\<rparr>"

definition status_words :: "run_status \<Rightarrow> string" where
  "status_words st =
     map (\<lambda>c. if c = CHR ''_'' then CHR '' '' else c) (map to_lower (run_status_value st))"

definition close_run ::
  "analysis_run \<Rightarrow> run_status \<Rightarrow> string option \<Rightarrow> string option \<Rightarrow> uuid option \<Rightarrow> datetime \<Rightarrow> db \<Rightarrow>
   exn + (analysis_run \<times> db)" where
  "close_run run status degraded_reason error_code rec_id completed_at s =
     (let run = run\<lparr>ru_status := status, ru_degraded_reason := degraded_reason, ru_error_code := error_code,
                ru_completed_at := Some completed_at, ru_version := ru_version run + 1\<rparr>;
          s = update_run run s;
          s = append_event (ru_id run) RUN_FINALIZED_EVENT ORCHESTRATOR_ACTOR
                (JObj [(Lit ''status'', JStr (run_status_value status)),
                   (Lit ''degraded_reason'', json_opt JStr degraded_reason),
                   (Lit ''error_code'', json_opt JStr error_code),
                   (Lit ''recommendation_id'', json_id_opt rec_id)]) s;
          external_ref = (case row or_id (ru_order_id run) (t_orders s) of
              Some ord \<Rightarrow> or_external_ref ord | None \<Rightarrow> uuid_text (ru_order_id run))
      in bind_err (insert_notification
           \<lparr>no_id = 0, no_organization_id = ru_organization_id run, no_factory_id = ru_factory_id run,
            no_user_id = None, no_role = Some SUPERVISOR, no_kind = NOTIFICATION_KIND,
            no_title = ''Analysis '' @ status_words status @ '' for order '' @ external_ref,
            no_body = ''The analysis run for order '' @ external_ref @ '' finished with status '' @
              run_status_value status @ ''.'' @
              (if rec_id \<noteq> None then '' A recommendation is waiting for review.'' else ''''),
            no_link = Some (''/runs/'', ru_id run), no_read_at = None\<rparr> s) (\<lambda>s.
         Inr (run, record_audit (ru_organization_id run) (Some (ru_factory_id run)) SYSTEM
           (Lit ORCHESTRATOR_ACTOR) ANALYSIS_COMPLETED_ACTION ''analysis_run'' (Id (ru_id run)) SUCCESS
           degraded_reason (Some (ru_trace_id run)) (Some (ru_id run)) None
           (Some (JObj [(Lit ''status'', JStr (run_status_value status)),
              (Lit ''recommendation_id'', json_id_opt rec_id),
              (Lit ''error_code'', json_opt JStr error_code)])) s)))"

definition append_report ::
  "analysis_run \<Rightarrow> agent_task list \<Rightarrow> run_results \<Rightarrow> run_snapshot option \<Rightarrow> recommendation option \<Rightarrow>
   db \<Rightarrow> db" where
  "append_report run tasks results snap rec s =
     (case snap of
        None \<Rightarrow> s
      | Some sn \<Rightarrow>
          append_event (ru_id run) REPORT_EVENT_TYPE ORCHESTRATOR_ACTOR
            (report_json (build_order_report run (sn_data sn) results rec tasks (utcnow s))) s)"

fun first_error_code :: "run_results \<Rightarrow> agent_task option list \<Rightarrow> string option" where
  "first_error_code results [] = None"
| "first_error_code results (None # ts) = first_error_code results ts"
| "first_error_code results (Some t # ts) =
     (case Option.bind (map_of results (tk_id t)) ar_error_code of
        Some c \<Rightarrow> Some (agent_error_code_value c)
      | None \<Rightarrow>
          (case tk_error_code t of
             Some c \<Rightarrow> if c \<noteq> '''' then Some c else first_error_code results ts
           | None \<Rightarrow> first_error_code results ts))"

definition or_else :: "'a option \<Rightarrow> 'a option \<Rightarrow> 'a option" where
  "or_else a b = (case a of None \<Rightarrow> b | Some x \<Rightarrow> Some x)"

definition snapshot_of :: "analysis_run \<Rightarrow> db \<Rightarrow> run_snapshot option" where
  "snapshot_of run s = Option.bind (ru_snapshot_id run) (\<lambda>i. row sn_id i (t_snapshots s))"

definition task_failed :: "agent_task option \<Rightarrow> bool" where
  "task_failed t = (case t of None \<Rightarrow> False | Some t \<Rightarrow> tk_status t = TASK_FAILED)"

definition final_status ::
  "bool \<Rightarrow> recommendation option \<Rightarrow> string list \<Rightarrow> run_status" where
  "final_status both_failed rec reasons =
     (if both_failed then RUN_FAILED
      else if rec \<noteq> None then RUN_AWAITING_REVIEW
      else if reasons = [] then RUN_COMPLETED
      else RUN_DEGRADED)"

definition finalize ::
  "(json \<Rightarrow> string) \<Rightarrow> analysis_run \<Rightarrow> agent_task list \<Rightarrow> run_results \<Rightarrow> db \<Rightarrow>
   exn + (analysis_run \<times> db)" where
  "finalize digest run tasks results s =
     (let rm0 = task_of tasks AGENT_RM 0;
          final_planning = or_else (task_of tasks AGENT_PLANNING 1) (task_of tasks AGENT_PLANNING 0);
          rm1 = task_of tasks AGENT_RM 1;
          snap = snapshot_of run s;
          versions = (case snap of None \<Rightarrow> [] | Some sn \<Rightarrow> sn_input_versions sn)
      in bind_err (create_recommendation digest run versions (result_of results final_planning)
           (result_of results rm1) s) (\<lambda>(rec, s).
         let s = (case rec of None \<Rightarrow> s | Some r \<Rightarrow> supersede_previous run (Some (rc_id r)) s);
             reasons = degraded_reasons results tasks;
             both_failed = (task_failed rm0 \<and> task_failed final_planning);
             status = final_status both_failed rec reasons;
             error_code = (if both_failed then first_error_code results [rm0, final_planning] else None);
             run = run\<lparr>ru_status := status\<rparr>;
             s = append_report run tasks results snap rec s
         in close_run run status (if reasons = [] then None else Some (join_comma reasons)) error_code
              (map_option rc_id rec) (utcnow s) s))"

definition cancel_active :: "uuid \<Rightarrow> db \<Rightarrow> db" where
  "cancel_active run_id s =
     s\<lparr>t_tasks := map (\<lambda>t.
         if tk_run_id t = run_id \<and> tk_status t \<in> set ACTIVE_TASK_STATUSES
         then t\<lparr>tk_status := TASK_CANCELLED,
                tk_error_code := Some (agent_error_code_value AE_DEADLINE_EXCEEDED),
                tk_error_detail := Some ''the run deadline passed before this task finished'',
                tk_completed_at := Some (utcnow s)\<rparr>
         else t) (t_tasks s)\<rparr>"

definition finalize_deadline ::
  "analysis_run \<Rightarrow> agent_task list \<Rightarrow> run_results \<Rightarrow> db \<Rightarrow> exn + (analysis_run \<times> db)" where
  "finalize_deadline run tasks results s =
     (let s = cancel_active (ru_id run) s;
          tasks = map (\<lambda>t. if tk_status t \<in> set ACTIVE_TASK_STATUSES
                    then t\<lparr>tk_status := TASK_CANCELLED\<rparr> else t) tasks;
          planning_succeeded = list_ex (\<lambda>(i, r). ar_agent r = AGENT_PLANNING \<and> ar_status r = AR_SUCCEEDED) results;
          reasons = degraded_reasons results tasks;
          status = (if planning_succeeded then RUN_DEGRADED else RUN_FAILED);
          late = agent_error_code_value AE_DEADLINE_EXCEEDED;
          run = run\<lparr>ru_status := status, ru_error_code := Some late\<rparr>;
          s = append_report run tasks results (snapshot_of run s) None s
      in close_run run status (Some (if reasons = [] then late else join_comma reasons)) (Some late) None
           (utcnow s) s)"

section \<open>The decision\<close>

definition envelope_for ::
  "analysis_run \<Rightarrow> agent_recipient \<Rightarrow> string \<Rightarrow> int \<Rightarrow> uuid option \<Rightarrow> input_ref list \<Rightarrow> db \<Rightarrow>
   exn + (task_envelope \<times> db)" where
  "envelope_for run recipient task_type round_no parent refs s =
     make_envelope run recipient task_type round_no parent refs (ru_deadline_at run) s"

fun round_zero_envelopes ::
  "analysis_run \<Rightarrow> input_ref list \<Rightarrow> (agent_recipient \<times> string) list \<Rightarrow> db \<Rightarrow>
   exn + (task_envelope list \<times> db)" where
  "round_zero_envelopes run refs [] s = Inr ([], s)"
| "round_zero_envelopes run refs ((recipient, task_type) # rest) s =
     bind_err (envelope_for run recipient task_type 0 None refs s) (\<lambda>(e, s).
     bind_err (round_zero_envelopes run refs rest s) (\<lambda>(es, s). Inr (e # es, s)))"

definition one_envelope ::
  "analysis_run \<Rightarrow> agent_recipient \<Rightarrow> string \<Rightarrow> int \<Rightarrow> uuid option \<Rightarrow> input_ref list \<Rightarrow> db \<Rightarrow>
   exn + (task_envelope list \<times> db)" where
  "one_envelope run recipient task_type round_no parent refs s =
     bind_err (envelope_for run recipient task_type round_no parent refs s) (\<lambda>(e, s). Inr ([e], s))"

definition start_run :: "analysis_run \<Rightarrow> uuid \<Rightarrow> db \<Rightarrow> analysis_run \<times> db" where
  "start_run run snapshot_id s =
     (if ru_status run = RUN_QUEUED
      then let run = run\<lparr>ru_status := RUN_RUNNING, ru_started_at := Some (utcnow s),
                         ru_version := ru_version run + 1\<rparr>
           in (run, append_event (ru_id run) RUN_STARTED_EVENT ORCHESTRATOR_ACTOR
                  (JObj [(Lit ''snapshot_id'', JText (Id snapshot_id))]) (update_run run s))
      else (run, s))"

definition result_refs :: "run_results \<Rightarrow> agent_task \<Rightarrow> input_ref list" where
  "result_refs results t =
     (if tk_id t \<in> fst ` set results then [ref_to REF_AGENT_RESULT (tk_id t)] else [])"

text \<open>What the plan still needs after its last planning task: its validation, quality, the end.\<close>

definition after_planning ::
  "(json \<Rightarrow> string) \<Rightarrow> analysis_run \<Rightarrow> uuid \<Rightarrow> agent_task list \<Rightarrow> run_results \<Rightarrow> agent_task \<Rightarrow>
   agent_task \<Rightarrow> db \<Rightarrow> exn + (task_envelope list \<times> db)" where
  "after_planning digest run snapshot_id tasks results final_planning quality0 s =
     (if \<not> task_terminal final_planning then Inr ([], s)
      else case task_of tasks AGENT_RM 1 of
        None \<Rightarrow>
          if allocates_units (map_of results (tk_id final_planning))
          then one_envelope run AGENT_RM RM_VALIDATE 1 (Some (tk_id final_planning))
                 [ref_to REF_SNAPSHOT snapshot_id, ref_to REF_AGENT_RESULT (tk_id final_planning)] s
          else if \<not> task_terminal quality0 then Inr ([], s)
          else bind_err (finalize digest run tasks results s) (\<lambda>(_, s). Inr ([], s))
      | Some rm1 \<Rightarrow>
          if \<not> task_terminal rm1 then Inr ([], s)
          else if \<not> task_terminal quality0 then Inr ([], s)
          else bind_err (finalize digest run tasks results s) (\<lambda>(_, s). Inr ([], s)))"

text \<open>The revision of the plan, sent again as long as its task does not exist.\<close>

definition note_replan :: "analysis_run \<Rightarrow> jtext list option \<Rightarrow> db \<Rightarrow> analysis_run \<times> db" where
  "note_replan run reason s =
     (if ru_replan_count run = 0
      then let run = run\<lparr>ru_replan_count := 1, ru_version := ru_version run + 1\<rparr>
           in (run, append_event (ru_id run) REPLAN_EVENT ORCHESTRATOR_ACTOR
                (JObj [(Lit ''reason'', json_opt (\<lambda>ts. JArr (map JText ts)) reason)]) (update_run run s))
      else (run, s))"

definition decide_tasks ::
  "(json \<Rightarrow> string) \<Rightarrow> analysis_run \<Rightarrow> uuid \<Rightarrow> agent_task list \<Rightarrow> run_results \<Rightarrow> db \<Rightarrow>
   exn + (task_envelope list \<times> db)" where
  "decide_tasks digest run snapshot_id tasks results s =
     (let snapshot_ref = ref_to REF_SNAPSHOT snapshot_id;
          missing = filter (\<lambda>(recipient, _). task_of tasks recipient 0 = None) ROUND_ZERO
      in if missing \<noteq> [] then round_zero_envelopes run [snapshot_ref] missing s
         else case (task_of tasks AGENT_RM 0, task_of tasks AGENT_IE 0, task_of tasks AGENT_QUALITY 0) of
           (Some rm0, Some ie0, Some quality0) \<Rightarrow>
             if \<not> task_terminal rm0 \<or> \<not> task_terminal ie0 then Inr ([], s)
             else
             let refs = result_refs results rm0 @ result_refs results ie0
             in (case task_of tasks AGENT_PLANNING 0 of
                   None \<Rightarrow> one_envelope run AGENT_PLANNING PLANNING_PROPOSE 0 None (snapshot_ref # refs) s
                 | Some planning0 \<Rightarrow>
                     if \<not> task_terminal planning0 then Inr ([], s)
                     else case task_of tasks AGENT_PLANNING 1 of
                       Some planning1 \<Rightarrow> after_planning digest run snapshot_id tasks results planning1 quality0 s
                     | None \<Rightarrow>
                         let reason = needs_replan (map_of results (tk_id planning0)) (map_of results (tk_id rm0))
                         in if reason \<noteq> None \<or> 0 < ru_replan_count run
                            then let (run, s) = note_replan run reason s
                                 in one_envelope run AGENT_PLANNING PLANNING_REVISE 1 (Some (tk_id planning0))
                                      (refs @ [ref_to REF_AGENT_RESULT (tk_id planning0)]) s
                            else after_planning digest run snapshot_id tasks results planning0 quality0 s)
         | _ \<Rightarrow> Inl (RuntimeError ''AssertionError''))"

definition decide_run ::
  "(json \<Rightarrow> string) \<Rightarrow> analysis_run \<Rightarrow> db \<Rightarrow> exn + (task_envelope list \<times> db)" where
  "decide_run digest run s =
     (if ru_status run \<in> set TERMINAL_RUN_STATUSES then Inr ([], s)
      else case ru_snapshot_id run of
        None \<Rightarrow> Inl (PermanentJobError ''run has no snapshot to reason about'')
      | Some snapshot_id \<Rightarrow>
          let tasks = tasks_of run s; results = results_of run s
          in if ru_deadline_at run \<le> utcnow s
             then bind_err (finalize_deadline run tasks results s) (\<lambda>(_, s). Inr ([], s))
             else let (run, s) = start_run run snapshot_id s
                  in decide_tasks digest run snapshot_id tasks results s)"

section \<open>The job\<close>

text \<open>A transaction ends: its locks are gone; what is raised undoes its writes.\<close>

definition commit :: "db \<Rightarrow> db" where
  "commit s = s\<lparr>locks := []\<rparr>"

definition finish_in_transaction :: "claimed_job \<Rightarrow> db \<Rightarrow> exn + db" where
  "finish_in_transaction job s =
     (let (hit, s') = complete (cj_id job) (cj_lease_token job) s
      in if hit then Inr s' else Inl LeaseLost)"

definition finish_job :: "claimed_job \<Rightarrow> db \<Rightarrow> (exn + unit) \<times> db" where
  "finish_job job s =
     (case finish_in_transaction job s of Inl e \<Rightarrow> (Inl e, s) | Inr s' \<Rightarrow> (Inr (), commit s'))"

fun dispatch_all ::
  "(task_envelope \<Rightarrow> db \<Rightarrow> http_reply \<times> db) \<Rightarrow> task_envelope list \<Rightarrow> db \<Rightarrow> (exn + unit) \<times> db" where
  "dispatch_all post [] s = (Inr (), s)"
| "dispatch_all post (e # es) s =
     (case post e s of (reply, s) \<Rightarrow>
       (case submit_reply reply of
          Inl (DispatchError retryable) \<Rightarrow>
            (Inl (if retryable then RetryableJobError ''dispatch failed''
                  else PermanentJobError ''dispatch rejected''), s)
        | Inr _ \<Rightarrow> dispatch_all post es s))"

definition job_run_id :: "claimed_job \<Rightarrow> exn + uuid" where
  "job_run_id job =
     (case cj_payload job of
        JObj fs \<Rightarrow>
          bind_err (some_or (KeyError ''run_id'') (json_get fs ''run_id'')) (\<lambda>v.
          some_or (ValueError ''badly formed hexadecimal UUID string'') (uuid_of_json v))
      | _ \<Rightarrow> Inl (TypeError ''payload''))"

definition advance_run ::
  "(json \<Rightarrow> string) \<Rightarrow> (task_envelope \<Rightarrow> db \<Rightarrow> http_reply \<times> db) \<Rightarrow> claimed_job \<Rightarrow> db \<Rightarrow>
   (exn + unit) \<times> db" where
  "advance_run digest post job s =
     (case job_run_id job of
        Inl e \<Rightarrow> (Inl e, s)
      | Inr run_id \<Rightarrow>
          (case lock_run run_id s of
             (None, _) \<Rightarrow> finish_job job s
           | (Some run, s1) \<Rightarrow>
               (case decide_run digest run s1 of
                  Inl e \<Rightarrow> (Inl e, s)
                | Inr (envelopes, s2) \<Rightarrow>
                    (case dispatch_all post envelopes (commit s2) of
                       (Inl e, s3) \<Rightarrow> (Inl e, s3)
                     | (Inr _, s3) \<Rightarrow> finish_job job s3))))"

end
