(* ===== verification/LS_AgentLoop.thy ===== *)
theory LS_AgentLoop
  imports LS_Models "HOL-Library.Multiset"
begin

text \<open>
  How an agent is run (\<open>app/agents/base.py\<close>) and the budget of its model calls
  (\<open>app/llm/budget.py\<close>). The assessment is computed by the code, then a model may investigate
  with tools, annotate and choose. The model and the tools are arguments: \<open>llm n\<close> is what the
  provider does with the n-th request, a tool is its handler. \<open>meanwhile\<close> is what other
  transactions and the clock do between the statements of the loop. The texts that are sent to
  the model are not modelled; the arguments of a submission are given as pydantic reads them,
  up to the length limits of its fields.
\<close>

section \<open>Constants\<close>

definition MAX_TOOL_CALLS :: int where
  "MAX_TOOL_CALLS = 4"

definition MAX_REPAIR_CALLS :: nat where
  "MAX_REPAIR_CALLS = 1"

definition SUBMIT_TOOL_NAME :: string where
  "SUBMIT_TOOL_NAME = ''submit_assessment''"

definition AI_UNAVAILABLE_WARNING :: string where
  "AI_UNAVAILABLE_WARNING = ''AI explanation unavailable''"

definition LLM_DISABLED_REASON :: string where
  "LLM_DISABLED_REASON = ''LLM_DISABLED''"

section \<open>Types\<close>

record assessment =
  sm_summary :: string
  sm_findings :: "finding list"
  sm_metrics :: "metric list"
  sm_recommended_actions :: "recommended_action list"
  sm_evidence_refs :: "evidence_ref list"
  sm_warnings :: "string list"
  sm_data_quality :: data_quality

record finding_note =
  fn_finding_id :: string
  fn_note :: string
  fn_evidence_ids :: "string list"

record submit_assessment =
  su_summary :: string
  su_selected_action_id :: "string option"
  su_action_rationale :: "string option"
  su_finding_notes :: "finding_note list"
  su_revision_note :: "string option"
  su_cited_evidence_ids :: "string list"

text \<open>The limits on the fields of a submission.\<close>

definition submission_fits :: "submit_assessment \<Rightarrow> bool" where
  "submission_fits x \<longleftrightarrow>
     1 \<le> length (su_summary x) \<and> length (su_summary x) \<le> 2000 \<and>
     (case su_action_rationale x of None \<Rightarrow> True | Some t \<Rightarrow> length t \<le> 2000) \<and>
     length (su_finding_notes x) \<le> 20 \<and>
     (case su_revision_note x of None \<Rightarrow> True | Some t \<Rightarrow> length t \<le> 2000) \<and>
     length (su_cited_evidence_ids x) \<le> 50"

record llm_tool_call =
  lt_name :: string
  lt_arguments :: json
  lt_submission :: "submit_assessment option"

record llm_response =
  lr_tool_calls :: "llm_tool_call list"
  lr_input_tokens :: int
  lr_output_tokens :: int

datatype llm_error =
    LLMUnavailableError | LLMRateLimitedError | LLMRefusalError | LLMInvalidResponseError
  | LLMDisabledError

fun PROVIDER_FAILURE_REASONS :: "llm_error \<Rightarrow> string option" where
  "PROVIDER_FAILURE_REASONS LLMRefusalError = Some ''LLM_REFUSAL''"
| "PROVIDER_FAILURE_REASONS LLMInvalidResponseError = Some ''LLM_INVALID_RESPONSE''"
| "PROVIDER_FAILURE_REASONS LLMDisabledError = Some LLM_DISABLED_REASON"
| "PROVIDER_FAILURE_REASONS _ = None"

text \<open>A model: its labels and what it does with each request.\<close>

record llm_client =
  ll_provider :: string
  ll_model :: string
  ll_complete :: "nat \<Rightarrow> llm_error + llm_response"

datatype agent_failure = AgentExecutionError agent_error_code bool string | AgentRaised exn

text \<open>A tool refuses (\<open>ToolError\<close>), raises something else, or finds evidence; it may extend the assessment.\<close>

datatype tool_answer = ToolError | ToolRaised exn | ToolResult "evidence_ref list"

record agent_tool =
  at_name :: string
  at_accepts :: "json \<Rightarrow> bool"
  at_handler :: "json \<Rightarrow> assessment \<Rightarrow> tool_answer \<times> assessment"

record agent_context =
  cx_run_id :: uuid
  cx_task_id :: uuid
  cx_round :: int
  cx_task_type :: string
  cx_organization_id :: uuid
  cx_factory_id :: uuid
  cx_order_id :: uuid
  cx_requested_by :: uuid
  cx_snapshot :: snapshot_data
  cx_input_versions :: "(jtext \<times> json) list"
  cx_dependency_results :: "(string \<times> agent_result) list"
  cx_llm :: "llm_client option"
  cx_deadline_at :: datetime
  cx_requester_roles :: "role list"
  cx_max_tool_calls :: int

record base_agent =
  bg_name :: agent_recipient
  bg_prompt_version :: string
  bg_tools :: "agent_context \<Rightarrow> agent_tool list"
  bg_assess :: "agent_context \<Rightarrow> agent_failure + assessment"

section \<open>The budget\<close>

definition RESERVABLE_STATUSES :: "run_status list" where
  "RESERVABLE_STATUSES = [RUN_QUEUED, RUN_RUNNING]"

definition reservable :: "uuid \<Rightarrow> analysis_run \<Rightarrow> bool" where
  "reservable run_id r \<longleftrightarrow>
     ru_id r = run_id \<and> ru_model_calls_used r < ru_model_calls_limit r \<and>
     ru_tokens_used r < ru_token_budget r \<and> ru_status r \<in> set RESERVABLE_STATUSES"

definition reserve_model_call :: "uuid \<Rightarrow> db \<Rightarrow> bool \<times> db" where
  "reserve_model_call run_id s =
     (list_ex (reservable run_id) (t_runs s),
      s\<lparr>t_runs := map (\<lambda>r. if reservable run_id r
          then r\<lparr>ru_model_calls_used := ru_model_calls_used r + 1\<rparr> else r) (t_runs s)\<rparr>)"

definition record_usage :: "uuid \<Rightarrow> int \<Rightarrow> int \<Rightarrow> db \<Rightarrow> db" where
  "record_usage run_id input_tokens output_tokens s =
     s\<lparr>t_runs := map (\<lambda>r. if ru_id r = run_id
         then r\<lparr>ru_tokens_used := ru_tokens_used r + (input_tokens + output_tokens)\<rparr> else r) (t_runs s)\<rparr>"

definition token_budget_remaining :: "uuid \<Rightarrow> db \<Rightarrow> exn + int" where
  "token_budget_remaining run_id s =
     bind_err (some_or NoResultFound (row ru_id run_id (t_runs s))) (\<lambda>r.
     Inr (max 0 (ru_token_budget r - ru_tokens_used r)))"

section \<open>Results\<close>

record counters =
  ct_model_calls :: int
  ct_tool_calls :: "string list"
  ct_input_tokens :: int
  ct_output_tokens :: int

definition no_calls :: counters where
  "no_calls = \<lparr>ct_model_calls = 0, ct_tool_calls = [], ct_input_tokens = 0, ct_output_tokens = 0\<rparr>"

definition AGENT_ERROR_CODES :: "agent_error_code list" where
  "AGENT_ERROR_CODES =
     [AE_MISSING_DATA, AE_STALE_INPUT, AE_PROVIDER_UNAVAILABLE, AE_BUDGET_EXCEEDED,
      AE_INVALID_AGENT_OUTPUT, AE_POLICY_DENIED, AE_DEADLINE_EXCEEDED]"

definition as_error_code :: "string \<Rightarrow> agent_error_code option" where
  "as_error_code reason = find (\<lambda>c. agent_error_code_value c = reason) AGENT_ERROR_CODES"

definition build_result ::
  "base_agent \<Rightarrow> agent_context \<Rightarrow> assessment \<Rightarrow> result_status \<Rightarrow> generated_by \<Rightarrow> datetime \<Rightarrow> counters \<Rightarrow>
   string option \<Rightarrow> agent_error_code option \<Rightarrow> datetime \<Rightarrow> agent_result" where
  "build_result agent ctx a status source started ct reason error_code now =
     \<lparr>ar_task_id = cx_task_id ctx, ar_agent = bg_name agent, ar_status = status,
      ar_summary = sm_summary a, ar_summary_source = source, ar_findings = sm_findings a,
      ar_metrics = sm_metrics a, ar_recommended_actions = sm_recommended_actions a,
      ar_evidence_refs = sm_evidence_refs a, ar_warnings = sm_warnings a,
      ar_input_versions = cx_input_versions ctx, ar_data_quality = sm_data_quality a,
      ar_execution_metadata =
        \<lparr>em_provider = (case cx_llm ctx of None \<Rightarrow> ''disabled'' | Some l \<Rightarrow> ll_provider l),
         em_model = (case cx_llm ctx of None \<Rightarrow> ''disabled'' | Some l \<Rightarrow> ll_model l),
         em_model_calls = ct_model_calls ct, em_tool_calls = ct_tool_calls ct,
         em_input_tokens = ct_input_tokens ct, em_output_tokens = ct_output_tokens ct,
         em_prompt_version = bg_prompt_version agent, em_degraded = reason \<noteq> None,
         em_degraded_reason = reason, em_started_at = started, em_completed_at = now\<rparr>,
      ar_error_code = error_code\<rparr>"

definition degraded_result ::
  "base_agent \<Rightarrow> agent_context \<Rightarrow> assessment \<Rightarrow> datetime \<Rightarrow> string \<Rightarrow> string \<Rightarrow> counters \<Rightarrow> datetime \<Rightarrow>
   agent_result" where
  "degraded_result agent ctx a started reason warning ct now =
     build_result agent ctx (a\<lparr>sm_warnings := sm_warnings a @ [warning]\<rparr>) AR_DEGRADED
       GEN_DETERMINISTIC started ct (Some reason) (as_error_code reason) now"

definition invalid_output ::
  "base_agent \<Rightarrow> agent_context \<Rightarrow> assessment \<Rightarrow> datetime \<Rightarrow> counters \<Rightarrow> datetime \<Rightarrow> agent_result" where
  "invalid_output agent ctx a started ct now =
     degraded_result agent ctx a started (agent_error_code_value AE_INVALID_AGENT_OUTPUT)
       (AI_UNAVAILABLE_WARNING @ '' (the model's output was rejected)'') ct now"

text \<open>\<open>BaseAgent.failed_result\<close>: no content at all.\<close>

definition agent_failed_result ::
  "base_agent \<Rightarrow> agent_context \<Rightarrow> agent_error_code \<Rightarrow> string \<Rightarrow> datetime \<Rightarrow> agent_result" where
  "agent_failed_result agent ctx c msg now =
     build_result agent ctx
       \<lparr>sm_summary = msg, sm_findings = [], sm_metrics = [], sm_recommended_actions = [],
        sm_evidence_refs = [], sm_warnings = [],
        sm_data_quality = \<lparr>dq_complete = False, dq_missing = [agent_recipient_value (bg_name agent)],
          dq_notes = [msg]\<rparr>\<rparr>
       AR_FAILED GEN_DETERMINISTIC now no_calls None (Some c) now"

text \<open>The selected action first, the rest by rank; only ranks change.\<close>

fun number_actions :: "int \<Rightarrow> recommended_action list \<Rightarrow> recommended_action list" where
  "number_actions n [] = []"
| "number_actions n (a # as) = a\<lparr>ra_rank := n\<rparr> # number_actions (n + 1) as"

definition reranked :: "recommended_action list \<Rightarrow> string option \<Rightarrow> recommended_action list" where
  "reranked actions selected =
     (let ordered = sort_key ra_rank actions
      in number_actions 0
           (case selected of
              None \<Rightarrow> ordered
            | Some i \<Rightarrow> filter (\<lambda>a. ra_action_id a = i) ordered @ filter (\<lambda>a. ra_action_id a \<noteq> i) ordered))"

fun note_findings :: "int \<Rightarrow> finding_note list \<Rightarrow> finding list" where
  "note_findings n [] = []"
| "note_findings n (x # xs) =
     \<lparr>fi_finding_id = ''model-note-'' @ int_text n, fi_severity = SEV_INFO, fi_code = ''MODEL_NOTE'',
      fi_message = ''Note on '' @ fn_finding_id x @ '': '' @ fn_note x,
      fi_evidence_ids = fn_evidence_ids x, fi_source = GEN_MODEL\<rparr> # note_findings (n + 1) xs"

definition truthy_text :: "string option \<Rightarrow> bool" where
  "truthy_text t \<longleftrightarrow> (case t of None \<Rightarrow> False | Some x \<Rightarrow> x \<noteq> [])"

definition rationale_finding :: "submit_assessment \<Rightarrow> finding list" where
  "rationale_finding x =
     (case (su_action_rationale x, su_selected_action_id x) of
        (Some r, Some i) \<Rightarrow>
          if r \<noteq> [] \<and> i \<noteq> [] then
            [\<lparr>fi_finding_id = ''model-action-rationale'', fi_severity = SEV_INFO, fi_code = ''MODEL_NOTE'',
              fi_message = ''Rationale for '' @ i @ '': '' @ r,
              fi_evidence_ids = su_cited_evidence_ids x, fi_source = GEN_MODEL\<rparr>]
          else []
      | _ \<Rightarrow> [])"

definition merge_assessment :: "assessment \<Rightarrow> submit_assessment \<Rightarrow> evidence_ref list \<Rightarrow> assessment" where
  "merge_assessment a x tool_evidence =
     a\<lparr>sm_summary := su_summary x,
       sm_evidence_refs := sm_evidence_refs a @ tool_evidence,
       sm_recommended_actions := reranked (sm_recommended_actions a) (su_selected_action_id x),
       sm_findings := sm_findings a @ note_findings 1 (su_finding_notes x) @ rationale_finding x,
       sm_warnings := (if truthy_text (su_revision_note x)
          then sm_warnings a @ [''Revision: '' @ (case su_revision_note x of None \<Rightarrow> [] | Some t \<Rightarrow> t)]
          else sm_warnings a)\<rparr>"

section \<open>One answer of the model\<close>

text \<open>\<open>_validate_submission\<close>: what the submission may name.\<close>

definition validate_submission :: "submit_assessment option \<Rightarrow> assessment \<Rightarrow> string list \<Rightarrow> submit_assessment option" where
  "validate_submission parsed a evidence_ids =
     (case parsed of
        None \<Rightarrow> None
      | Some x \<Rightarrow>
          if submission_fits x \<and>
             (case su_selected_action_id x of None \<Rightarrow> True
              | Some i \<Rightarrow> i \<in> ra_action_id ` set (sm_recommended_actions a)) \<and>
             list_all (\<lambda>i. i \<in> set evidence_ids) (su_cited_evidence_ids x) \<and>
             list_all (\<lambda>n. fn_finding_id n \<in> fi_finding_id ` set (sm_findings a) \<and>
               list_all (\<lambda>i. i \<in> set evidence_ids) (fn_evidence_ids n)) (su_finding_notes x)
          then Some x else None)"

record turn =
  tu_assessment :: assessment
  tu_evidence_ids :: "string list"
  tu_tool_evidence :: "evidence_ref list"
  tu_tool_calls :: "string list"
  tu_submitted :: "submit_assessment option"
  tu_rejected :: bool

text \<open>New evidence is registered once per id.\<close>

fun add_evidence :: "evidence_ref list \<Rightarrow> turn \<Rightarrow> turn" where
  "add_evidence [] t = t"
| "add_evidence (e # es) t =
     add_evidence es
       (if ev_evidence_id e \<in> set (tu_evidence_ids t) then t
        else t\<lparr>tu_evidence_ids := tu_evidence_ids t @ [ev_evidence_id e],
               tu_tool_evidence := tu_tool_evidence t @ [e]\<rparr>)"

definition handle_call :: "agent_tool list \<Rightarrow> int \<Rightarrow> llm_tool_call \<Rightarrow> turn \<Rightarrow> exn + turn" where
  "handle_call tools tool_limit call t =
     (if lt_name call = SUBMIT_TOOL_NAME then
        (case validate_submission (lt_submission call) (tu_assessment t) (tu_evidence_ids t) of
           Some x \<Rightarrow> Inr (t\<lparr>tu_submitted := Some x\<rparr>)
         | None \<Rightarrow> Inr (t\<lparr>tu_rejected := True\<rparr>))
      else case find (\<lambda>tool. at_name tool = lt_name call) (rev tools) of
        None \<Rightarrow> Inr t
      | Some tool \<Rightarrow>
          if \<not> at_accepts tool (lt_arguments call) then Inr t
          else if tool_limit \<le> int (length (tu_tool_calls t)) then Inr t
          else (case at_handler tool (lt_arguments call) (tu_assessment t) of (answer, a) \<Rightarrow>
            (case answer of
               ToolRaised e \<Rightarrow> Inl e
             | ToolError \<Rightarrow>
                 Inr (t\<lparr>tu_assessment := a, tu_tool_calls := tu_tool_calls t @ [at_name tool]\<rparr>)
             | ToolResult found \<Rightarrow>
                 Inr (add_evidence found
                   (t\<lparr>tu_assessment := a, tu_tool_calls := tu_tool_calls t @ [at_name tool]\<rparr>)))))"

section \<open>The loop\<close>

record loop_state =
  lp_turn :: turn
  lp_repairs :: nat
  lp_counters :: counters

definition current_counters :: "loop_state \<Rightarrow> counters" where
  "current_counters l = (lp_counters l)\<lparr>ct_tool_calls := tu_tool_calls (lp_turn l)\<rparr>"

definition check_deadline :: "agent_context \<Rightarrow> datetime \<Rightarrow> agent_failure + unit" where
  "check_deadline ctx now =
     ensure (now < cx_deadline_at ctx)
       (AgentExecutionError AE_DEADLINE_EXCEEDED False
         ''the task deadline passed before the agent could finish'')"

text \<open>What follows from an answer: another request, or the end of the loop.\<close>

datatype loop_step = Again loop_state | Finished "agent_failure + agent_result"

definition after_answer ::
  "base_agent \<Rightarrow> agent_context \<Rightarrow> agent_tool list \<Rightarrow> int \<Rightarrow> datetime \<Rightarrow> llm_response \<Rightarrow> loop_state \<Rightarrow>
   datetime \<Rightarrow> loop_step" where
  "after_answer agent ctx tools tool_limit started response l now =
     (let invalid = (\<lambda>l. Finished (Inr (invalid_output agent ctx (tu_assessment (lp_turn l)) started
            (current_counters l) now)))
      in if lr_tool_calls response = []
         then if MAX_REPAIR_CALLS \<le> lp_repairs l then invalid l
              else Again (l\<lparr>lp_repairs := lp_repairs l + 1\<rparr>)
         else case fold_err (handle_call tools tool_limit) (lr_tool_calls response)
                ((lp_turn l)\<lparr>tu_submitted := None, tu_rejected := False\<rparr>) of
           Inl e \<Rightarrow> Finished (Inl (AgentRaised e))
         | Inr t \<Rightarrow>
             let l = l\<lparr>lp_turn := t\<rparr>
             in (case tu_submitted t of
                   Some x \<Rightarrow>
                     Finished (Inr (build_result agent ctx
                       (merge_assessment (tu_assessment t) x (tu_tool_evidence t))
                       AR_SUCCEEDED GEN_MODEL started (current_counters l) None None now))
                 | None \<Rightarrow>
                     if tu_rejected t
                     then if MAX_REPAIR_CALLS \<le> lp_repairs l then invalid l
                          else Again (l\<lparr>lp_repairs := lp_repairs l + 1\<rparr>)
                     else Again l))"

fun run_rounds ::
  "(nat \<Rightarrow> db \<Rightarrow> db) \<Rightarrow> base_agent \<Rightarrow> agent_context \<Rightarrow> llm_client \<Rightarrow> agent_tool list \<Rightarrow> int \<Rightarrow> datetime \<Rightarrow>
   nat \<Rightarrow> nat \<Rightarrow> loop_state \<Rightarrow> db \<Rightarrow> (agent_failure + agent_result) \<times> db" where
  "run_rounds meanwhile agent ctx llm tools tool_limit started 0 n l s =
     (Inr (invalid_output agent ctx (tu_assessment (lp_turn l)) started (current_counters l) (utcnow s)), s)"
| "run_rounds meanwhile agent ctx llm tools tool_limit started (Suc k) n l s =
     (let s = meanwhile (2 * n) s
      in case check_deadline ctx (utcnow s) of
           Inl e \<Rightarrow> (Inl e, s)
         | Inr _ \<Rightarrow>
             let (reserved, s) = reserve_model_call (cx_run_id ctx) s
             in if \<not> reserved
                then (Inr (degraded_result agent ctx (tu_assessment (lp_turn l)) started
                       (agent_error_code_value AE_BUDGET_EXCEEDED)
                       (AI_UNAVAILABLE_WARNING @ '' (model call budget exhausted)'')
                       (current_counters l) (utcnow s)), s)
                else let s = meanwhile (2 * n + 1) s
                in case ll_complete llm n of
                     Inl e \<Rightarrow>
                       (case PROVIDER_FAILURE_REASONS e of
                          None \<Rightarrow> (Inl (AgentExecutionError AE_PROVIDER_UNAVAILABLE True ''''), s)
                        | Some reason \<Rightarrow>
                            (Inr (degraded_result agent ctx (tu_assessment (lp_turn l)) started reason
                               (AI_UNAVAILABLE_WARNING @ '' ('' @ reason @ '')'')
                               (current_counters l) (utcnow s)), s))
                   | Inr response \<Rightarrow>
                       let c = lp_counters l;
                           l = l\<lparr>lp_counters := c\<lparr>ct_model_calls := ct_model_calls c + 1,
                                   ct_input_tokens := ct_input_tokens c + lr_input_tokens response,
                                   ct_output_tokens := ct_output_tokens c + lr_output_tokens response\<rparr>\<rparr>;
                           s = record_usage (cx_run_id ctx) (lr_input_tokens response)
                                 (lr_output_tokens response) s
                       in (case after_answer agent ctx tools tool_limit started response l (utcnow s) of
                             Finished r \<Rightarrow> (r, s)
                           | Again l \<Rightarrow>
                               run_rounds meanwhile agent ctx llm tools tool_limit started k (Suc n) l s))"

definition tool_limit_of :: "agent_context \<Rightarrow> int" where
  "tool_limit_of ctx = max 0 (min MAX_TOOL_CALLS (cx_max_tool_calls ctx))"

definition first_turn :: "assessment \<Rightarrow> turn" where
  "first_turn a =
     \<lparr>tu_assessment = a, tu_evidence_ids = map ev_evidence_id (sm_evidence_refs a),
      tu_tool_evidence = [], tu_tool_calls = [], tu_submitted = None, tu_rejected = False\<rparr>"

definition run_loop ::
  "(nat \<Rightarrow> db \<Rightarrow> db) \<Rightarrow> base_agent \<Rightarrow> agent_context \<Rightarrow> llm_client \<Rightarrow> assessment \<Rightarrow> datetime \<Rightarrow> db \<Rightarrow>
   (agent_failure + agent_result) \<times> db" where
  "run_loop meanwhile agent ctx llm a started s =
     run_rounds meanwhile agent ctx llm
       (filter (\<lambda>tool. at_name tool \<noteq> SUBMIT_TOOL_NAME) (bg_tools agent ctx))
       (tool_limit_of ctx) started (nat (tool_limit_of ctx) + 2 + MAX_REPAIR_CALLS) 0
       \<lparr>lp_turn = first_turn a, lp_repairs = 0, lp_counters = no_calls\<rparr> s"

definition run_agent ::
  "(nat \<Rightarrow> db \<Rightarrow> db) \<Rightarrow> base_agent \<Rightarrow> agent_context \<Rightarrow> db \<Rightarrow> (agent_failure + agent_result) \<times> db" where
  "run_agent meanwhile agent ctx s =
     (let started = utcnow s
      in case bind_err (check_deadline ctx (utcnow s)) (\<lambda>_. bg_assess agent ctx) of
           Inl e \<Rightarrow> (Inl e, s)
         | Inr a \<Rightarrow>
             (case cx_llm ctx of
                None \<Rightarrow>
                  (Inr (degraded_result agent ctx a started LLM_DISABLED_REASON AI_UNAVAILABLE_WARNING
                     no_calls (utcnow s)), s)
              | Some llm \<Rightarrow> run_loop meanwhile agent ctx llm a started s))"

definition deterministic_result ::
  "base_agent \<Rightarrow> agent_context \<Rightarrow> string \<Rightarrow> string \<Rightarrow> db \<Rightarrow> agent_failure + agent_result" where
  "deterministic_result agent ctx reason warning s =
     bind_err (bg_assess agent ctx) (\<lambda>a.
     Inr (degraded_result agent ctx a (utcnow s) reason warning no_calls (utcnow s)))"

section \<open>What a model can change\<close>

text \<open>An assessment the tools can turn \<open>a\<close> into.\<close>

inductive tools_extend :: "agent_tool list \<Rightarrow> assessment \<Rightarrow> assessment \<Rightarrow> bool" for tools where
  untouched: "tools_extend tools a a"
| handled: "tools_extend tools a b \<Longrightarrow> tool \<in> set tools \<Longrightarrow>
    at_handler tool arguments b = (answer, c) \<Longrightarrow> tools_extend tools a c"

definition tools_keep_evidence :: "agent_tool list \<Rightarrow> bool" where
  "tools_keep_evidence tools \<longleftrightarrow>
     (\<forall>tool \<in> set tools. \<forall>args a. set (sm_evidence_refs a) \<subseteq> set (sm_evidence_refs (snd (at_handler tool args a))))"

lemma tools_extend_evidence:
  "tools_extend tools a b \<Longrightarrow> tools_keep_evidence tools \<Longrightarrow> set (sm_evidence_refs a) \<subseteq> set (sm_evidence_refs b)"
proof (induction rule: tools_extend.induct)
  case (handled a b tool arguments answer c)
  have "set (sm_evidence_refs b) \<subseteq> set (sm_evidence_refs (snd (at_handler tool arguments b)))"
    using handled.hyps(2) handled.prems by (simp add: tools_keep_evidence_def)
  then show ?case using handled by simp
qed simp

lemma tools_extend_mono: "tools_extend tools a b \<Longrightarrow> set tools \<subseteq> set tools' \<Longrightarrow> tools_extend tools' a b"
  by (induction rule: tools_extend.induct) (auto intro: tools_extend.intros)

lemma number_actions_payload:
  "map (\<lambda>x. x\<lparr>ra_rank := 0\<rparr>) (number_actions n as) = map (\<lambda>x. x\<lparr>ra_rank := 0\<rparr>) as"
  by (induction n as rule: number_actions.induct) simp_all

lemma filter_split: "mset (filter P xs) + mset (filter (\<lambda>x. \<not> P x) xs) = mset xs"
  by (induction xs) simp_all

lemma reranked_payload:
  "mset (map (\<lambda>x. x\<lparr>ra_rank := 0\<rparr>) (reranked as i)) = mset (map (\<lambda>x. x\<lparr>ra_rank := 0\<rparr>) as)"
proof -
  let ?f = "\<lambda>x :: recommended_action. x\<lparr>ra_rank := 0\<rparr>"
  obtain xs where xs: "reranked as i = number_actions 0 xs" "mset xs = mset (sort_key ra_rank as)"
  proof (cases i)
    case (Some k)
    then show thesis
      by (intro that [of "filter (\<lambda>a. ra_action_id a = k) (sort_key ra_rank as) @
          filter (\<lambda>a. ra_action_id a \<noteq> k) (sort_key ra_rank as)"])
        (simp_all add: reranked_def Let_def filter_split)
  qed (simp add: reranked_def)
  then have "mset (map ?f (reranked as i)) = image_mset ?f (mset xs)"
    by (simp only: number_actions_payload mset_map)
  then show ?thesis by (simp add: xs(2))
qed

lemma note_findings_props:
  "f \<in> set (note_findings n xs) \<Longrightarrow> fi_severity f = SEV_INFO \<and> fi_source f = GEN_MODEL \<and>
     (\<exists>x \<in> set xs. fi_evidence_ids f = fn_evidence_ids x)"
  by (induction n xs rule: note_findings.induct) auto

lemma rationale_finding_props:
  "f \<in> set (rationale_finding x) \<Longrightarrow>
     fi_severity f = SEV_INFO \<and> fi_source f = GEN_MODEL \<and> fi_evidence_ids f = su_cited_evidence_ids x"
  by (auto simp: rationale_finding_def split: option.splits if_splits)

definition cites :: "submit_assessment \<Rightarrow> string list" where
  "cites x = su_cited_evidence_ids x @ concat (map fn_evidence_ids (su_finding_notes x))"

lemma validate_submissionD:
  "validate_submission parsed a ids = Some x \<Longrightarrow> set (cites x) \<subseteq> set ids"
  by (auto simp: validate_submission_def cites_def list_all_iff split: option.splits if_splits)

section \<open>The invariant of the loop\<close>

definition evidence_ids_of :: "evidence_ref list \<Rightarrow> string set" where
  "evidence_ids_of es = ev_evidence_id ` set es"

definition turn_ok :: "agent_tool list \<Rightarrow> int \<Rightarrow> assessment \<Rightarrow> turn \<Rightarrow> bool" where
  "turn_ok tools tool_limit a t \<longleftrightarrow>
     tools_extend tools a (tu_assessment t) \<and>
     set (tu_evidence_ids t) \<subseteq> evidence_ids_of (sm_evidence_refs a @ tu_tool_evidence t) \<and>
     int (length (tu_tool_calls t)) \<le> tool_limit \<and>
     (\<forall>x. tu_submitted t = Some x \<longrightarrow> set (cites x) \<subseteq> set (tu_evidence_ids t))"

lemma first_turn_ok: "0 \<le> tool_limit \<Longrightarrow> turn_ok tools tool_limit a (first_turn a)"
  by (auto simp: turn_ok_def first_turn_def evidence_ids_of_def intro: tools_extend.intros)

lemma add_evidence_props:
  "tu_assessment (add_evidence es t) = tu_assessment t" "tu_tool_calls (add_evidence es t) = tu_tool_calls t"
  "tu_submitted (add_evidence es t) = tu_submitted t"
  "set (tu_evidence_ids t) \<subseteq> set (tu_evidence_ids (add_evidence es t))"
  "set (tu_evidence_ids t) \<subseteq> evidence_ids_of (xs @ tu_tool_evidence t) \<Longrightarrow>
   set (tu_evidence_ids (add_evidence es t)) \<subseteq> evidence_ids_of (xs @ tu_tool_evidence (add_evidence es t))"
proof -
  show "tu_assessment (add_evidence es t) = tu_assessment t" "tu_tool_calls (add_evidence es t) = tu_tool_calls t"
    "tu_submitted (add_evidence es t) = tu_submitted t"
    by (induction es t rule: add_evidence.induct) simp_all
  show "set (tu_evidence_ids t) \<subseteq> set (tu_evidence_ids (add_evidence es t))"
    by (induction es t rule: add_evidence.induct) (auto split: if_splits)
  show "set (tu_evidence_ids t) \<subseteq> evidence_ids_of (xs @ tu_tool_evidence t) \<Longrightarrow>
     set (tu_evidence_ids (add_evidence es t)) \<subseteq> evidence_ids_of (xs @ tu_tool_evidence (add_evidence es t))"
  proof (induction es t rule: add_evidence.induct)
    case (2 e es t)
    have "set (tu_evidence_ids (add_evidence [e] t)) \<subseteq> evidence_ids_of (xs @ tu_tool_evidence (add_evidence [e] t))"
      using 2(2) by (auto simp: evidence_ids_of_def)
    with 2(1) show ?case by (simp split: if_splits)
  qed simp
qed

lemma handle_call_ok:
  assumes "turn_ok tools tool_limit a t" and "handle_call tools tool_limit call t = Inr t'"
  shows "turn_ok tools tool_limit a t'"
proof (cases "lt_name call = SUBMIT_TOOL_NAME")
  case True
  then show ?thesis using assms
    by (auto simp: handle_call_def turn_ok_def dest!: validate_submissionD split: option.splits)
next
  case False
  show ?thesis
  proof (cases "t' = t")
    case True
    with assms(1) show ?thesis by simp
  next
    case changed: False
    from assms(2) False changed obtain tool where
        tl: "find (\<lambda>tool. at_name tool = lt_name call) (rev tools) = Some tool"
      and lim: "\<not> tool_limit \<le> int (length (tu_tool_calls t))"
      and run: "(case at_handler tool (lt_arguments call) (tu_assessment t) of (answer, a) \<Rightarrow>
            (case answer of
               ToolRaised e \<Rightarrow> Inl e
             | ToolError \<Rightarrow> Inr (t\<lparr>tu_assessment := a, tu_tool_calls := tu_tool_calls t @ [at_name tool]\<rparr>)
             | ToolResult found \<Rightarrow> Inr (add_evidence found
                   (t\<lparr>tu_assessment := a, tu_tool_calls := tu_tool_calls t @ [at_name tool]\<rparr>)))) = Inr t'"
      by (auto simp: handle_call_def split: option.splits if_splits)
    obtain answer b where h: "at_handler tool (lt_arguments call) (tu_assessment t) = (answer, b)"
      by fastforce
    with run obtain found where t': "t' = add_evidence found
          (t\<lparr>tu_assessment := b, tu_tool_calls := tu_tool_calls t @ [at_name tool]\<rparr>)"
      by (cases answer) (auto intro: that [of "[]"])
    have "tool \<in> set (rev tools)" using tl by (auto simp: find_Some_iff simp del: set_rev)
    then have "tools_extend tools a b"
      using assms(1) h by (auto simp: turn_ok_def intro: handled)
    then show ?thesis
      using assms(1) lim add_evidence_props(4,5) [where t = "t\<lparr>tu_assessment := b,
          tu_tool_calls := tu_tool_calls t @ [at_name tool]\<rparr>" and es = found]
      by (simp add: turn_ok_def t' add_evidence_props(1-3)) blast
  qed
qed

lemma calls_ok:
  assumes "turn_ok tools tool_limit a t" and "fold_err (handle_call tools tool_limit) calls t = Inr t'"
  shows "turn_ok tools tool_limit a t'"
  by (rule fold_err_invariant [OF assms(2), where I = "turn_ok tools tool_limit a"])
    (auto intro: assms(1) handle_call_ok)

text \<open>
  \<open>r\<close> is \<open>a\<close>, as far as the tools have extended it, with remarks: the numbers, the payloads
  and the findings are the code's; the model orders the actions and adds marked notes that
  cite declared evidence.
\<close>

definition unranked :: "recommended_action \<Rightarrow> recommended_action" where
  "unranked x = x\<lparr>ra_rank := 0\<rparr>"

definition remark_ok :: "agent_tool list \<Rightarrow> evidence_ref list \<Rightarrow> finding \<Rightarrow> bool" where
  "remark_ok tools evidence f \<longleftrightarrow>
     fi_severity f = SEV_INFO \<and> fi_source f = GEN_MODEL \<and>
     (tools_keep_evidence tools \<longrightarrow> set (fi_evidence_ids f) \<subseteq> evidence_ids_of evidence)"

definition result_contained ::
  "base_agent \<Rightarrow> agent_context \<Rightarrow> agent_tool list \<Rightarrow> int \<Rightarrow> int \<Rightarrow> assessment \<Rightarrow> agent_result \<Rightarrow> bool" where
  "result_contained agent ctx tools call_limit tool_limit a r \<longleftrightarrow>
     (\<exists>b found notes.
        tools_extend tools a b \<and>
        mset (map unranked (ar_recommended_actions r)) = mset (map unranked (sm_recommended_actions b)) \<and>
        ar_findings r = sm_findings b @ notes \<and> ar_metrics r = sm_metrics b \<and>
        ar_data_quality r = sm_data_quality b \<and> ar_evidence_refs r = sm_evidence_refs b @ found \<and>
        (\<forall>f \<in> set notes. remark_ok tools (ar_evidence_refs r) f)) \<and>
     ar_task_id r = cx_task_id ctx \<and> ar_agent r = bg_name agent \<and>
     ar_input_versions r = cx_input_versions ctx \<and> ar_status r \<in> {AR_SUCCEEDED, AR_DEGRADED} \<and>
     em_model_calls (ar_execution_metadata r) \<le> call_limit \<and>
     int (length (em_tool_calls (ar_execution_metadata r))) \<le> tool_limit"

lemma degraded_contained:
  assumes "tools_extend tools a b" and "ct_model_calls ct \<le> call_limit"
    and "int (length (ct_tool_calls ct)) \<le> tool_limit"
  shows "result_contained agent ctx tools call_limit tool_limit a (degraded_result agent ctx b started reason w ct now)"
  using assms by (auto simp: result_contained_def degraded_result_def build_result_def)

lemma merge_contained:
  assumes t: "turn_ok tools tool_limit a t" "tu_submitted t = Some x"
    and calls: "ct_model_calls ct \<le> call_limit" "ct_tool_calls ct = tu_tool_calls t"
  shows "result_contained agent ctx tools call_limit tool_limit a
     (build_result agent ctx (merge_assessment (tu_assessment t) x (tu_tool_evidence t)) AR_SUCCEEDED
        GEN_MODEL started ct None None now)"
proof -
  let ?notes = "note_findings 1 (su_finding_notes x) @ rationale_finding x"
  let ?evidence = "sm_evidence_refs (tu_assessment t) @ tu_tool_evidence t"
  from t have ext: "tools_extend tools a (tu_assessment t)" and cited: "set (cites x) \<subseteq> set (tu_evidence_ids t)"
    and ids: "set (tu_evidence_ids t) \<subseteq> evidence_ids_of (sm_evidence_refs a @ tu_tool_evidence t)"
    and lim: "int (length (tu_tool_calls t)) \<le> tool_limit"
    by (simp_all add: turn_ok_def)
  have "remark_ok tools ?evidence f" if f: "f \<in> set ?notes" for f
  proof -
    have own: "set (fi_evidence_ids f) \<subseteq> set (cites x)" "fi_severity f = SEV_INFO" "fi_source f = GEN_MODEL"
      using f by (auto simp: cites_def dest!: note_findings_props rationale_finding_props)
    have "evidence_ids_of (sm_evidence_refs a @ tu_tool_evidence t) \<subseteq> evidence_ids_of ?evidence"
      if "tools_keep_evidence tools"
      using tools_extend_evidence [OF ext that] by (auto simp: evidence_ids_of_def)
    with own cited ids show ?thesis by (auto simp: remark_ok_def)
  qed
  moreover have "mset (map unranked (reranked (sm_recommended_actions (tu_assessment t)) (su_selected_action_id x)))
      = mset (map unranked (sm_recommended_actions (tu_assessment t)))"
    using reranked_payload unfolding unranked_def .
  ultimately have "\<exists>b found notes. tools_extend tools a b \<and>
      mset (map unranked (reranked (sm_recommended_actions (tu_assessment t)) (su_selected_action_id x))) =
        mset (map unranked (sm_recommended_actions b)) \<and>
      sm_findings (tu_assessment t) @ ?notes = sm_findings b @ notes \<and>
      sm_metrics (tu_assessment t) = sm_metrics b \<and>
      sm_data_quality (tu_assessment t) = sm_data_quality b \<and> ?evidence = sm_evidence_refs b @ found \<and>
      (\<forall>f \<in> set notes. remark_ok tools ?evidence f)"
    by (intro exI [of _ "tu_assessment t"] exI [of _ "tu_tool_evidence t"] exI [of _ ?notes])
      (use ext in simp)
  then show ?thesis using lim calls
    by (simp only: result_contained_def build_result_def merge_assessment_def agent_result.simps
        execution_metadata.simps assessment.simps append_assoc) simp
qed

lemma after_answer_ok:
  assumes l: "turn_ok tools tool_limit a (lp_turn l)" "ct_model_calls (lp_counters l) \<le> call_limit"
  shows "after_answer agent ctx tools tool_limit started response l now = Again l' \<Longrightarrow>
      turn_ok tools tool_limit a (lp_turn l') \<and> lp_counters l' = lp_counters l"
    and "after_answer agent ctx tools tool_limit started response l now = Finished (Inr r) \<Longrightarrow>
      result_contained agent ctx tools call_limit tool_limit a r"
proof -
  let ?t = "(lp_turn l)\<lparr>tu_submitted := None, tu_rejected := False\<rparr>"
  have "turn_ok tools tool_limit a ?t" using l by (simp add: turn_ok_def)
  then have ok: "turn_ok tools tool_limit a t"
    if "fold_err (handle_call tools tool_limit) (lr_tool_calls response) ?t = Inr t" for t
    using that by (rule calls_ok)
  have invalid: "result_contained agent ctx tools call_limit tool_limit a
      (invalid_output agent ctx (tu_assessment (lp_turn k)) started (current_counters k) now)"
    if "turn_ok tools tool_limit a (lp_turn k)" "lp_counters k = lp_counters l" for k
    unfolding invalid_output_def using that l(2)
    by (intro degraded_contained) (simp_all add: turn_ok_def current_counters_def)
  have invalid': "result_contained agent ctx tools call_limit tool_limit a
      (invalid_output agent ctx (tu_assessment t) started (current_counters (l\<lparr>lp_turn := t\<rparr>)) now)"
    if "turn_ok tools tool_limit a t" for t
    using invalid [of "l\<lparr>lp_turn := t\<rparr>"] that by simp
  have merged: "result_contained agent ctx tools call_limit tool_limit a
      (build_result agent ctx (merge_assessment (tu_assessment t) x (tu_tool_evidence t)) AR_SUCCEEDED
         GEN_MODEL started (current_counters (l\<lparr>lp_turn := t\<rparr>)) None None now)"
    if "turn_ok tools tool_limit a t" "tu_submitted t = Some x" for t x
    using that l(2) by (intro merge_contained) (simp_all add: current_counters_def)
  show "turn_ok tools tool_limit a (lp_turn l') \<and> lp_counters l' = lp_counters l"
    if "after_answer agent ctx tools tool_limit started response l now = Again l'"
    using that l ok by (auto simp: after_answer_def Let_def split: if_splits sum.splits option.splits)
  show "result_contained agent ctx tools call_limit tool_limit a r"
    if "after_answer agent ctx tools tool_limit started response l now = Finished (Inr r)"
    using that l(1) ok invalid [of l] invalid' merged
    by (auto simp: after_answer_def Let_def split: if_splits sum.splits option.splits)
qed

lemma contained_mono:
  "result_contained agent ctx tools c tlim a r \<Longrightarrow> c \<le> c' \<Longrightarrow> result_contained agent ctx tools c' tlim a r"
  by (auto simp: result_contained_def)

lemma run_rounds_contained:
  assumes "run_rounds meanwhile agent ctx llm tools tool_limit started k n l s = (Inr r, s')"
    and "turn_ok tools tool_limit a (lp_turn l)" and "ct_model_calls (lp_counters l) = int n"
  shows "result_contained agent ctx tools (int (n + k)) tool_limit a r"
  using assms
proof (induction k arbitrary: n l s)
  case 0
  then show ?case
    by (auto simp: invalid_output_def current_counters_def turn_ok_def intro!: degraded_contained)
next
  case (Suc k)
  let ?s1 = "meanwhile (2 * n) s"
  have degraded: "result_contained agent ctx tools (int (n + Suc k)) tool_limit a
      (degraded_result agent ctx (tu_assessment (lp_turn l)) started reason w (current_counters l) now)"
    for reason w now
    using Suc.prems(2,3) by (intro degraded_contained) (simp_all add: turn_ok_def current_counters_def)
  obtain reserved s2 where rs: "reserve_model_call (cx_run_id ctx) ?s1 = (reserved, s2)" by fastforce
  show ?case
  proof (cases "\<exists>response. ll_complete llm n = Inr response")
    case True
    then obtain response where resp: "ll_complete llm n = Inr response" by blast
    let ?c = "lp_counters l"
    let ?l = "l\<lparr>lp_counters := ?c\<lparr>ct_model_calls := ct_model_calls ?c + 1,
                ct_input_tokens := ct_input_tokens ?c + lr_input_tokens response,
                ct_output_tokens := ct_output_tokens ?c + lr_output_tokens response\<rparr>\<rparr>"
    have l: "turn_ok tools tool_limit a (lp_turn ?l)" "ct_model_calls (lp_counters ?l) \<le> int (Suc n)"
      using Suc.prems(2,3) by simp_all
    let ?s4 = "record_usage (cx_run_id ctx) (lr_input_tokens response) (lr_output_tokens response)
        (meanwhile (2 * n + 1) s2)"
    show ?thesis
    proof (cases "after_answer agent ctx tools tool_limit started response ?l (utcnow ?s4)")
      case (Again l')
      note ok = after_answer_ok(1) [OF l Again]
      from Suc.prems(1) rs resp Again
      have "(\<exists>reason w now. r = degraded_result agent ctx (tu_assessment (lp_turn l)) started reason w (current_counters l) now) \<or>
          run_rounds meanwhile agent ctx llm tools tool_limit started k (Suc n) l' ?s4 = (Inr r, s')"
        by (auto simp: Let_def split: sum.splits if_splits)
      then show ?thesis
      proof (elim disjE exE)
        assume "run_rounds meanwhile agent ctx llm tools tool_limit started k (Suc n) l' ?s4 = (Inr r, s')"
        then have "result_contained agent ctx tools (int (Suc n + k)) tool_limit a r"
          by (rule Suc.IH) (use ok Suc.prems(3) in simp_all)
        then show ?thesis by simp
      qed (simp only: degraded)
    next
      case (Finished res)
      from Suc.prems(1) rs resp Finished
      have "(\<exists>reason w now. r = degraded_result agent ctx (tu_assessment (lp_turn l)) started reason w (current_counters l) now) \<or>
          res = Inr r"
        by (auto simp: Let_def split: sum.splits if_splits)
      then show ?thesis
        using degraded after_answer_ok(2) [OF l, of agent ctx started response "utcnow ?s4" r] Finished
        by (auto intro: contained_mono)
    qed
  next
    case False
    with Suc.prems(1) rs obtain reason w now where
        "r = degraded_result agent ctx (tu_assessment (lp_turn l)) started reason w (current_counters l) now"
      by (auto simp: Let_def split: sum.splits if_splits option.splits)
    then show ?thesis by (simp only: degraded)
  qed
qed

text \<open>The budget: the calls of a run never exceed its limit.\<close>

definition calls_within :: "db \<Rightarrow> bool" where
  "calls_within s \<longleftrightarrow> (\<forall>r \<in> set (t_runs s). ru_model_calls_used r \<le> ru_model_calls_limit r)"

lemma reserve_within: "calls_within s \<Longrightarrow> calls_within (snd (reserve_model_call i s))"
  by (auto simp: calls_within_def reserve_model_call_def reservable_def)

lemma usage_within: "calls_within s \<Longrightarrow> calls_within (record_usage i a b s)"
  by (auto simp: calls_within_def record_usage_def)

lemma run_rounds_within:
  assumes "\<And>n s. calls_within s \<Longrightarrow> calls_within (meanwhile n s)" and "calls_within s"
  shows "calls_within (snd (run_rounds meanwhile agent ctx llm tools tool_limit started k n l s))"
  using assms(2)
proof (induction k arbitrary: n l s)
  case (Suc k)
  note step = assms(1) reserve_within usage_within
  obtain reserved s2 where rs: "reserve_model_call (cx_run_id ctx) (meanwhile (2 * n) s) = (reserved, s2)"
    by fastforce
  have a: "calls_within (meanwhile (2 * n) s)" and b: "calls_within s2"
    using step(2) [OF assms(1) [OF Suc.prems], of "cx_run_id ctx" "2 * n"] rs assms(1) [OF Suc.prems]
    by simp_all
  then show ?case using rs Suc.IH step
    by (auto simp: Let_def split: sum.splits if_splits option.splits loop_step.splits)
qed simp

lemma run_agent_contained:
  assumes "run_agent meanwhile agent ctx s = (Inr r, s')"
  obtains a where "bg_assess agent ctx = Inr a"
    "result_contained agent ctx (filter (\<lambda>tool. at_name tool \<noteq> SUBMIT_TOOL_NAME) (bg_tools agent ctx))
       (tool_limit_of ctx + 3) (tool_limit_of ctx) a r"
proof -
  let ?tools = "filter (\<lambda>tool. at_name tool \<noteq> SUBMIT_TOOL_NAME) (bg_tools agent ctx)"
  have lim: "0 \<le> tool_limit_of ctx" by (simp add: tool_limit_of_def)
  from assms obtain a where a: "bg_assess agent ctx = Inr a"
    by (auto simp: run_agent_def Let_def bind_err_Inr split: sum.splits)
  show thesis
  proof (cases "cx_llm ctx")
    case None
    with assms a have "r = degraded_result agent ctx a (utcnow s) LLM_DISABLED_REASON
        AI_UNAVAILABLE_WARNING no_calls (utcnow s)"
      by (auto simp: run_agent_def Let_def bind_err_Inr simp del: run_rounds.simps split: sum.splits if_splits)
    then show thesis
      using that [OF a] lim by (simp add: degraded_contained untouched no_calls_def)
  next
    case (Some llm)
    with assms a have "run_loop meanwhile agent ctx llm a (utcnow s) s = (Inr r, s')"
      by (auto simp: run_agent_def Let_def bind_err_Inr simp del: run_rounds.simps split: sum.splits if_splits)
    then have "result_contained agent ctx ?tools (int (0 + (nat (tool_limit_of ctx) + 2 + MAX_REPAIR_CALLS)))
        (tool_limit_of ctx) a r"
      unfolding run_loop_def
      by (rule run_rounds_contained) (simp_all add: first_turn_ok [OF lim] no_calls_def)
    then show thesis
      using that [OF a] lim by (simp add: MAX_REPAIR_CALLS_def add.commute)
  qed
qed

lemma run_agent_within:
  assumes "\<And>n s. calls_within s \<Longrightarrow> calls_within (meanwhile n s)" and "calls_within s"
  shows "calls_within (snd (run_agent meanwhile agent ctx s))"
  using run_rounds_within [OF assms] assms(2)
  by (auto simp: run_agent_def run_loop_def Let_def simp del: run_rounds.simps split: sum.splits option.splits)

section \<open>A run with a model\<close>

definition demo_snapshot :: snapshot_data where
  "demo_snapshot =
     \<lparr>xd_order = \<lparr>xo_id = 9, xo_version = 1, xo_external_ref = ''SO-1'', xo_customer_code = ''C'',
        xo_style_id = 1, xo_style_code = ''S'', xo_quantity = 100, xo_produced_units = 0,
        xo_remaining_units = 100, xo_due_date = 30, xo_priority = 3, xo_production_state = VALIDATED,
        xo_factory_timezone = ''UTC''\<rparr>,
      xd_as_of_date = 0, xd_bom = \<lparr>xb_bom_version_id = 1, xb_version_no = 1, xb_lines = []\<rparr>,
      xd_materials = [(3, \<lparr>xm_balance_id = Some 5, xm_balance_version = Some 2, xm_on_hand_accepted = 40,
         xm_reserved = 10, xm_open_receipts = [], xm_issues_14d = []\<rparr>)],
      xd_operations = [], xd_sam_total_minutes = 1, xd_lines = [],
      xd_slots = [\<lparr>xs_slot_id = 4, xs_line_id = 6, xs_line_code = ''L1'', xs_slot_date = 3,
         xs_shift_code = ''A'', xs_available_operator_minutes = 600, xs_planned_efficiency = 1,
         xs_allocated_standard_minutes = 0, xs_version = 7\<rparr>],
      xd_ie = [],
      xd_quality = \<lparr>xq_policy = None, xq_inspections = [], xq_active_holds = [], xq_releases = [],
        xq_shipment = (False, [''NOT_INSPECTED'']), xq_quality_state = QS_NOT_INSPECTED\<rparr>\<rparr>"

definition demo_action :: "string \<Rightarrow> int \<Rightarrow> int \<Rightarrow> recommended_action" where
  "demo_action i units rank =
     \<lparr>ra_action_id = i, ra_kind = ACT_ALLOCATION, ra_summary = ''plan'',
      ra_payload = [(Lit ''allocated_units'', JInt units)], ra_evidence_ids = [], ra_rank = rank,
      ra_source = GEN_DETERMINISTIC\<rparr>"

definition demo_assessment :: assessment where
  "demo_assessment =
     \<lparr>sm_summary = ''two plans'',
      sm_findings = [\<lparr>fi_finding_id = ''f1'', fi_severity = SEV_WARNING, fi_code = ''LATE'',
        fi_message = ''late'', fi_evidence_ids = [], fi_source = GEN_DETERMINISTIC\<rparr>],
      sm_metrics = [], sm_recommended_actions = [demo_action ''a'' 60 0], sm_evidence_refs = [],
      sm_warnings = [], sm_data_quality = \<lparr>dq_complete = True, dq_missing = [], dq_notes = []\<rparr>\<rparr>"

text \<open>A tool that adds a second plan.\<close>

definition demo_tool :: agent_tool where
  "demo_tool =
     \<lparr>at_name = ''simulate'', at_accepts = (\<lambda>_. True),
      at_handler = (\<lambda>args a. (ToolResult [],
        a\<lparr>sm_recommended_actions := sm_recommended_actions a @ [demo_action ''sim'' 40 1]\<rparr>))\<rparr>"

definition demo_agent :: base_agent where
  "demo_agent = \<lparr>bg_name = AGENT_PLANNING, bg_prompt_version = ''v1'', bg_tools = (\<lambda>_. [demo_tool]),
     bg_assess = (\<lambda>_. Inr demo_assessment)\<rparr>"

definition demo_submission :: "string \<Rightarrow> submit_assessment" where
  "demo_submission i =
     \<lparr>su_summary = ''take it'', su_selected_action_id = Some i, su_action_rationale = Some ''cheaper'',
      su_finding_notes = [\<lparr>fn_finding_id = ''f1'', fn_note = ''ok'', fn_evidence_ids = []\<rparr>],
      su_revision_note = None, su_cited_evidence_ids = []\<rparr>"

text \<open>The model simulates, names a plan that does not exist, then chooses the simulated one.\<close>

definition demo_llm :: llm_client where
  "demo_llm =
     \<lparr>ll_provider = ''fixture'', ll_model = ''fixture'',
      ll_complete = (\<lambda>n. Inr \<lparr>lr_tool_calls =
        (if n = 0 then [\<lparr>lt_name = ''simulate'', lt_arguments = JNull, lt_submission = None\<rparr>]
         else [\<lparr>lt_name = SUBMIT_TOOL_NAME, lt_arguments = JNull,
                lt_submission = Some (demo_submission (if n = 1 then ''x'' else ''sim''))\<rparr>]),
        lr_input_tokens = 10, lr_output_tokens = 5\<rparr>)\<rparr>"

definition demo_context :: agent_context where
  "demo_context =
     \<lparr>cx_run_id = 20, cx_task_id = 30, cx_round = 0, cx_task_type = ''propose_allocation'',
      cx_organization_id = 1, cx_factory_id = 7, cx_order_id = 9, cx_requested_by = 2,
      cx_snapshot = demo_snapshot, cx_input_versions = [], cx_dependency_results = [],
      cx_llm = Some demo_llm, cx_deadline_at = 100, cx_requester_roles = [PLANNER], cx_max_tool_calls = 4\<rparr>"

definition demo_run_row :: analysis_run where
  "demo_run_row =
     \<lparr>ru_id = 20, ru_organization_id = 1, ru_factory_id = 7, ru_order_id = 9, ru_status = RUN_RUNNING,
      ru_requested_by = 2, ru_idempotency_key = ''k'', ru_snapshot_id = Some 21, ru_replan_count = 0,
      ru_model_calls_used = 0, ru_model_calls_limit = 16, ru_tokens_used = 0, ru_token_budget = 1000,
      ru_llm_provider = ''fixture'', ru_llm_model = ''fixture'', ru_degraded_reason = None,
      ru_error_code = None, ru_trace_id = ''t'', ru_deadline_at = 100, ru_started_at = Some 0,
      ru_completed_at = None, ru_version = 2, ru_created_at = 0\<rparr>"

definition demo_agent_run :: "(agent_failure + agent_result) \<times> db" where
  "demo_agent_run = run_agent (\<lambda>_ s. s) demo_agent demo_context (empty_db\<lparr>t_runs := [demo_run_row]\<rparr>)"

lemma demo_agent_run_value:
  "case demo_agent_run of
     (Inr r, s') \<Rightarrow> map ra_action_id (ar_recommended_actions r) = [''sim'', ''a''] \<and>
       map ra_rank (ar_recommended_actions r) = [0, 1] \<and>
       map ru_model_calls_used (t_runs s') = [3]
   | _ \<Rightarrow> False"
  by code_simp

text \<open>
  C34. Whatever the model answers, it cannot touch what the code has calculated. A result of an
  agent is its deterministic assessment, extended only by what the tools' handlers add: the
  actions are the assessed ones with their kinds, payloads and evidence, in another order and
  newly ranked; findings, metrics and data quality are kept; what the model adds is a marked,
  informational finding that cites declared evidence. The result belongs to the task and
  carries the versions of the snapshot, is never FAILED, and took at most four tool calls
  and seven model calls. The run's budget of model calls holds throughout.
\<close>

theorem model_cannot_edit:
  assumes "run_agent meanwhile agent ctx s = (Inr r, s')"
  shows "(\<exists>a. bg_assess agent ctx = Inr a \<and>
       result_contained agent ctx (filter (\<lambda>tool. at_name tool \<noteq> SUBMIT_TOOL_NAME) (bg_tools agent ctx)) 7 4 a r) \<and>
     (calls_within s \<longrightarrow> (\<forall>n t. calls_within t \<longrightarrow> calls_within (meanwhile n t)) \<longrightarrow> calls_within s')"
proof (rule conjI)
  obtain a where a: "bg_assess agent ctx = Inr a"
      "result_contained agent ctx (filter (\<lambda>tool. at_name tool \<noteq> SUBMIT_TOOL_NAME) (bg_tools agent ctx))
         (tool_limit_of ctx + 3) (tool_limit_of ctx) a r"
    using assms by (rule run_agent_contained)
  have "tool_limit_of ctx \<le> 4" by (simp add: tool_limit_of_def MAX_TOOL_CALLS_def)
  with a show "\<exists>a. bg_assess agent ctx = Inr a \<and>
      result_contained agent ctx (filter (\<lambda>tool. at_name tool \<noteq> SUBMIT_TOOL_NAME) (bg_tools agent ctx)) 7 4 a r"
    by (auto simp: result_contained_def)
  show "calls_within s \<longrightarrow> (\<forall>n t. calls_within t \<longrightarrow> calls_within (meanwhile n t)) \<longrightarrow> calls_within s'"
    using run_agent_within [of meanwhile s agent ctx] assms by auto
qed

theorem model_cannot_edit_witness:
  "\<exists>r s'. demo_agent_run = (Inr r, s') \<and> map ra_action_id (ar_recommended_actions r) = [''sim'', ''a''] \<and>
     result_contained demo_agent demo_context [demo_tool] 7 4 demo_assessment r"
proof -
  obtain r s' where d: "demo_agent_run = (Inr r, s')"
    "map ra_action_id (ar_recommended_actions r) = [''sim'', ''a'']"
    using demo_agent_run_value by (auto split: prod.splits sum.splits)
  have "\<exists>a. bg_assess demo_agent demo_context = Inr a \<and>
      result_contained demo_agent demo_context
        (filter (\<lambda>tool. at_name tool \<noteq> SUBMIT_TOOL_NAME) (bg_tools demo_agent demo_context)) 7 4 a r"
    using model_cannot_edit [OF d(1) [unfolded demo_agent_run_def]] by blast
  then have "result_contained demo_agent demo_context [demo_tool] 7 4 demo_assessment r"
    by (simp add: demo_agent_def demo_tool_def SUBMIT_TOOL_NAME_def)
  with d show ?thesis by (intro exI conjI)
qed

end
