(* ===== verification/LS_Executor.thy ===== *)
theory LS_Executor
  imports LS_Orchestrator LS_AgentLoop
begin

text \<open>
  The execution of one agent task (\<open>app/orchestration/executor.py\<close>) and the checks every
  result has to pass before it is stored (\<open>app/orchestration/validation.py\<close>). The registered
  agents and the model are arguments; \<open>between\<close> is what other transactions and the clock do
  between the transactions of a handler. The text of an identifier is its canonical one; the
  values of identifiers are left out of the messages.
\<close>

section \<open>Validation\<close>

definition AGENT_RESULT_RECORD_TYPE :: string where
  "AGENT_RESULT_RECORD_TYPE = ''agent_result''"

definition ACTIVE_DOCUMENT_STATUSES :: "document_version_status list" where
  "ACTIVE_DOCUMENT_STATUSES = [DV_ACTIVE, DV_SUPERSEDED]"

text \<open>\<open>RECORD_MODELS\<close>: the organization and, where the table has one, the factory of a row.\<close>

definition scope_in :: "('r \<Rightarrow> uuid) \<Rightarrow> ('r \<Rightarrow> uuid) \<Rightarrow> ('r \<Rightarrow> uuid option) \<Rightarrow> 'r list \<Rightarrow> uuid \<Rightarrow> (uuid \<times> uuid option) option" where
  "scope_in key org fac rs i = map_option (\<lambda>r. (org r, fac r)) (row key i rs)"

definition RECORD_MODELS :: "(string \<times> (uuid \<Rightarrow> db \<Rightarrow> (uuid \<times> uuid option) option)) list" where
  "RECORD_MODELS =
     [(''order'', \<lambda>i s. scope_in or_id or_organization_id (Some \<circ> or_factory_id) (t_orders s) i),
      (''material'', \<lambda>i s. scope_in ma_id ma_organization_id (\<lambda>_. None) (t_materials s) i),
      (''material_balance'', \<lambda>i s. scope_in ba_id ba_organization_id (Some \<circ> ba_factory_id) (t_balances s) i),
      (''material_lot'', \<lambda>i s. scope_in lo_id lo_organization_id (Some \<circ> lo_factory_id) (t_lots s) i),
      (''stock_movement'', \<lambda>i s. scope_in mv_id mv_organization_id (Some \<circ> mv_factory_id) (t_movements s) i),
      (''expected_receipt'', \<lambda>i s. scope_in er_id er_organization_id (Some \<circ> er_factory_id) (t_expected_receipts s) i),
      (''reservation'', \<lambda>i s. scope_in rv_id rv_organization_id (Some \<circ> rv_factory_id) (t_reservations s) i),
      (''allocation'', \<lambda>i s. scope_in al_id al_organization_id (Some \<circ> al_factory_id) (t_allocations s) i),
      (''line'', \<lambda>i s. scope_in li_id li_organization_id (Some \<circ> li_factory_id) (t_lines s) i),
      (''capacity_slot'', \<lambda>i s. scope_in sl_id sl_organization_id (Some \<circ> sl_factory_id) (t_slots s) i),
      (''cycle_observation'', \<lambda>i s. scope_in cy_id cy_organization_id (Some \<circ> cy_factory_id) (t_cycles s) i),
      (''line_measurement'', \<lambda>i s. scope_in lm_id lm_organization_id (Some \<circ> lm_factory_id) (t_measurements s) i),
      (''operation_staffing'', \<lambda>i s. scope_in os_id os_organization_id (Some \<circ> os_factory_id) (t_staffing s) i),
      (''inspection'', \<lambda>i s. scope_in in_id in_organization_id (Some \<circ> in_factory_id) (t_inspections s) i),
      (''quality_hold'', \<lambda>i s. scope_in ho_id ho_organization_id (Some \<circ> ho_factory_id) (t_holds s) i),
      (''quality_release'', \<lambda>i s. scope_in re_id re_organization_id (Some \<circ> re_factory_id) (t_releases s) i),
      (''quality_policy'', \<lambda>i s. scope_in qp_id qp_organization_id (\<lambda>_. None) (t_policies s) i),
      (''style'', \<lambda>i s. scope_in st_id st_organization_id (\<lambda>_. None) (t_styles s) i)]"

definition style_in_org :: "analysis_run \<Rightarrow> uuid option \<Rightarrow> db \<Rightarrow> bool" where
  "style_in_org run style_id s =
     (case Option.bind style_id (\<lambda>i. row st_id i (t_styles s)) of
        None \<Rightarrow> False | Some st \<Rightarrow> st_organization_id st = ru_organization_id run)"

definition record_exists_in_scope :: "analysis_run \<Rightarrow> string \<Rightarrow> uuid \<Rightarrow> db \<Rightarrow> bool" where
  "record_exists_in_scope run record_type record_id s =
     (if record_type = AGENT_RESULT_RECORD_TYPE then
        (case row tk_id record_id (t_tasks s) of None \<Rightarrow> False | Some t \<Rightarrow> tk_run_id t = ru_id run)
      else if record_type = ''style_operation'' then
        style_in_org run (map_option so_style_id (row so_id record_id (t_style_operations s))) s
      else if record_type = ''bom_line'' then
        style_in_org run (Option.bind (row bl_id record_id (t_bom_lines s)) (\<lambda>l.
          map_option bv_style_id (row bv_id (bl_bom_version_id l) (t_bom_versions s)))) s
      else case map_of RECORD_MODELS record_type of
        None \<Rightarrow> False
      | Some lookup \<Rightarrow>
          (case lookup record_id s of
             None \<Rightarrow> False
           | Some (org, fac) \<Rightarrow> org = ru_organization_id run \<and> (fac = None \<or> fac = Some (ru_factory_id run))))"

definition validate_document_evidence :: "analysis_run \<Rightarrow> evidence_ref \<Rightarrow> db \<Rightarrow> string list" where
  "validate_document_evidence run e s =
     (let bad = (\<lambda>t. ''evidence '' @ ev_evidence_id e @ '': '' @ t)
      in case ev_document_version_id e of
           None \<Rightarrow> [bad ''document evidence must name a document_version_id'']
         | Some version_id \<Rightarrow>
             (case row dv_id version_id (t_document_versions s) of
                None \<Rightarrow> [bad ''document version is unknown or not readable'']
              | Some v \<Rightarrow>
                  if dv_status v \<notin> set ACTIVE_DOCUMENT_STATUSES
                  then [bad ''document version is unknown or not readable'']
                  else (case row dc_id (dv_document_id v) (t_documents s) of
                    None \<Rightarrow> [bad ''document is outside the run's organization'']
                  | Some d \<Rightarrow>
                      if dc_organization_id d \<noteq> ru_organization_id run
                      then [bad ''document is outside the run's organization'']
                      else if dc_factory_id d \<noteq> None \<and> dc_factory_id d \<noteq> Some (ru_factory_id run)
                      then [bad ''document belongs to another factory'']
                      else
                        (if ev_document_id e \<noteq> None \<and> ev_document_id e \<noteq> Some (dc_id d)
                         then [bad ''document_id does not match the cited version''] else []) @
                        (case ev_chunk_id e of
                           None \<Rightarrow> []
                         | Some chunk_id \<Rightarrow>
                             (case row ck_id chunk_id (t_chunks s) of
                                Some c \<Rightarrow>
                                  if ck_document_version_id c = dv_id v then []
                                  else [bad ''chunk does not belong to the cited document version'']
                              | None \<Rightarrow> [bad ''chunk does not belong to the cited document version''])))))"

text \<open>A value whose text is the identifier of one of \<open>ids\<close>.\<close>

definition names_one_of :: "json \<Rightarrow> uuid list \<Rightarrow> bool" where
  "names_one_of v ids \<longleftrightarrow> (case str_of_json v of None \<Rightarrow> False | Some t \<Rightarrow> t \<in> Id ` set ids)"

definition action_payload_errors :: "snapshot_data \<Rightarrow> recommended_action \<Rightarrow> string list" where
  "action_payload_errors d a =
     (let bad = (\<lambda>t. ''action '' @ ra_action_id a @ '': '' @ t)
      in concat (map (\<lambda>r. if names_one_of (json_at r ''slot_id'') (snapshot_slot_ids d) then []
             else [bad ''slot is not in the run snapshot''])
           (json_rows (JObj (ra_payload a)) ''allocations'')) @
         concat (map (\<lambda>r.
             (if names_one_of (json_at r ''balance_id'') (snapshot_balance_ids d) then []
              else [bad ''balance is not in the run snapshot'']) @
             (if json_at r ''material_id'' = JNull \<or>
                 names_one_of (json_at r ''material_id'') (map fst (xd_materials d)) then []
              else [bad ''material is not in the run snapshot'']))
           (json_rows (JObj (ra_payload a)) ''reservations'')))"

definition evidence_errors :: "analysis_run \<Rightarrow> evidence_ref \<Rightarrow> db \<Rightarrow> string list" where
  "evidence_errors run e s =
     (case ev_kind e of
        EV_RECORD \<Rightarrow>
          (case (ev_record_type e, ev_record_id e) of
             (Some ty, Some i) \<Rightarrow>
               if record_exists_in_scope run ty i s then []
               else [''evidence '' @ ev_evidence_id e @ '': record is unknown or out of scope'']
           | _ \<Rightarrow> [''evidence '' @ ev_evidence_id e @ '': record evidence needs record_type and record_id''])
      | EV_DOCUMENT \<Rightarrow> validate_document_evidence run e s
      | EV_CALCULATION \<Rightarrow> [])"

fun duplicate_evidence :: "string list \<Rightarrow> evidence_ref list \<Rightarrow> string list" where
  "duplicate_evidence seen [] = []"
| "duplicate_evidence seen (e # es) =
     (if ev_evidence_id e \<in> set seen then [''evidence '' @ ev_evidence_id e @ '' is declared twice''] else []) @
     duplicate_evidence (ev_evidence_id e # seen) es"

definition unknown_citations :: "string list \<Rightarrow> string \<Rightarrow> string list \<Rightarrow> string list" where
  "unknown_citations known place ids =
     map (\<lambda>i. place @ '': unknown evidence id '' @ i) (filter (\<lambda>i. i \<notin> set known) ids)"

definition validate_result ::
  "analysis_run \<Rightarrow> run_snapshot \<Rightarrow> agent_result \<Rightarrow> agent_task option \<Rightarrow> db \<Rightarrow> string list" where
  "validate_result run sn r task s =
     (let known = map ev_evidence_id (ar_evidence_refs r)
      in (case (case task of Some t \<Rightarrow> Some t | None \<Rightarrow> row tk_id (ar_task_id r) (t_tasks s)) of
            None \<Rightarrow> [''task does not belong to run'']
          | Some t \<Rightarrow>
              if tk_run_id t \<noteq> ru_id run then [''task does not belong to run'']
              else
                (if ar_task_id r \<noteq> tk_id t then [''task_id does not match the executed task''] else []) @
                (if ar_agent r \<noteq> tk_recipient t then [''agent is not the task's recipient''] else [])) @
         (if json_eq (JObj (ar_input_versions r)) (JObj (sn_input_versions sn)) then []
          else [''input_versions do not match the run snapshot'']) @
         duplicate_evidence [] (ar_evidence_refs r) @
         concat (map (\<lambda>f. unknown_citations known (''finding '' @ fi_finding_id f) (fi_evidence_ids f)) (ar_findings r)) @
         concat (map (\<lambda>a. unknown_citations known (''action '' @ ra_action_id a) (ra_evidence_ids a))
           (ar_recommended_actions r)) @
         concat (map (\<lambda>e. evidence_errors run e s) (ar_evidence_refs r)) @
         concat (map (action_payload_errors (sn_data sn)) (ar_recommended_actions r)))"

definition load_snapshot_data :: "uuid \<Rightarrow> db \<Rightarrow> exn + snapshot_data" where
  "load_snapshot_data snapshot_id s =
     bind_err (some_or (LookupError ''snapshot does not exist'') (row sn_id snapshot_id (t_snapshots s))) (\<lambda>sn.
     Inr (sn_data sn))"

section \<open>Loading a task\<close>

definition ORCHESTRATOR_ADVANCE_JOB :: string where
  "ORCHESTRATOR_ADVANCE_JOB = ''orchestrator.advance''"

definition RUN_PERMISSION :: string where
  "RUN_PERMISSION = ''analysis:run''"

definition PROVIDER_UNAVAILABLE_WARNING :: string where
  "PROVIDER_UNAVAILABLE_WARNING = ''AI explanation unavailable (provider unavailable)''"

definition SUCCESSFUL_RESULT_STATUSES :: "result_status list" where
  "SUCCESSFUL_RESULT_STATUSES = [AR_SUCCEEDED, AR_DEGRADED]"

text \<open>\<open>_TaskFailure\<close>: a code and a detail.\<close>

type_synonym task_failure = "agent_error_code \<times> string"

definition load_task :: "uuid \<Rightarrow> db \<Rightarrow> task_failure + (agent_task \<times> analysis_run \<times> run_snapshot)" where
  "load_task task_id s =
     bind_err (some_or (AE_MISSING_DATA, ''agent task does not exist'') (row tk_id task_id (t_tasks s))) (\<lambda>t.
     bind_err (some_or (AE_MISSING_DATA, ''run does not exist'') (row ru_id (tk_run_id t) (t_runs s))) (\<lambda>run.
     bind_err (some_or (AE_MISSING_DATA, ''run has no snapshot'') (snapshot_of run s)) (\<lambda>sn.
     Inr (t, run, sn))))"

definition requester_roles :: "analysis_run \<Rightarrow> db \<Rightarrow> role list" where
  "requester_roles run s =
     (case row us_id (ru_requested_by run) (t_users s) of
        None \<Rightarrow> []
      | Some u \<Rightarrow>
          if \<not> us_is_active u then []
          else concat (map (\<lambda>m.
                 map as_role (filter (\<lambda>a. as_membership_id a = mb_id m \<and>
                     (as_factory_id a = Some (ru_factory_id run) \<or> as_factory_id a = None))
                   (t_role_assignments s)))
               (filter (\<lambda>m. mb_user_id m = ru_requested_by run \<and>
                   mb_organization_id m = ru_organization_id run \<and> mb_is_active m) (t_memberships s))))"

definition dependency_key :: "agent_task \<Rightarrow> agent_task \<Rightarrow> string" where
  "dependency_key task dependency =
     (if tk_recipient dependency = tk_recipient task
      then agent_recipient_value (tk_recipient dependency) @ ''_r'' @ int_text (tk_round dependency)
      else agent_recipient_value (tk_recipient dependency))"

definition dependency_results :: "agent_task \<Rightarrow> db \<Rightarrow> (string \<times> agent_result) list" where
  "dependency_results task s =
     (let ids = map ir_id (filter (\<lambda>r. ir_type r = REF_AGENT_RESULT) (te_input_refs (tk_envelope task)))
      in rev (List.map_filter (\<lambda>t.
           if tk_id t \<in> set ids \<and> tk_run_id t = tk_run_id task
           then map_option (\<lambda>r. (dependency_key task t, rr_payload r))
                  (find (\<lambda>r. rr_task_id r = tk_id t) (t_results s))
           else None) (t_tasks s)))"

section \<open>Storing an outcome\<close>

definition event_payload :: "agent_result \<Rightarrow> json" where
  "event_payload r =
     JObj [(Lit ''task_id'', JText (Id (ar_task_id r))), (Lit ''status'', JStr (result_status_value (ar_status r))),
       (Lit ''summary'', JStr (ar_summary r)),
       (Lit ''summary_source'', JStr (generated_by_value (ar_summary_source r))),
       (Lit ''finding_codes'', JArr (map (JStr \<circ> fi_code) (ar_findings r))),
       (Lit ''action_ids'', JArr (map (JStr \<circ> ra_action_id) (ar_recommended_actions r))),
       (Lit ''error_code'', json_opt (JStr \<circ> agent_error_code_value) (ar_error_code r))]"

definition failed_result ::
  "agent_task \<Rightarrow> run_snapshot \<Rightarrow> agent_error_code \<Rightarrow> string \<Rightarrow> agent_result option \<Rightarrow> datetime \<Rightarrow> agent_result" where
  "failed_result task sn c msg template now =
     \<lparr>ar_task_id = tk_id task, ar_agent = tk_recipient task, ar_status = AR_FAILED, ar_summary = msg,
      ar_summary_source = GEN_DETERMINISTIC, ar_findings = [], ar_metrics = [],
      ar_recommended_actions = [], ar_evidence_refs = [], ar_warnings = [],
      ar_input_versions = sn_input_versions sn,
      ar_data_quality = \<lparr>dq_complete = False, dq_missing = [agent_recipient_value (tk_recipient task)],
        dq_notes = [msg]\<rparr>,
      ar_execution_metadata =
        (case template of
           Some r \<Rightarrow> (ar_execution_metadata r)\<lparr>em_degraded := False, em_degraded_reason := None\<rparr>
         | None \<Rightarrow>
             \<lparr>em_provider = ''none'', em_model = ''none'', em_model_calls = 0, em_tool_calls = [],
              em_input_tokens = 0, em_output_tokens = 0, em_prompt_version = ''n/a'', em_degraded = False,
              em_degraded_reason = None, em_started_at = now, em_completed_at = now\<rparr>),
      ar_error_code = Some c\<rparr>"

fun join_semicolon :: "string list \<Rightarrow> string" where
  "join_semicolon [] = ''''"
| "join_semicolon [x] = x"
| "join_semicolon (x # y # xs) = x @ ''; '' @ join_semicolon (y # xs)"

definition checked_result ::
  "agent_task \<Rightarrow> analysis_run \<Rightarrow> run_snapshot \<Rightarrow> agent_result \<Rightarrow> db \<Rightarrow> agent_result" where
  "checked_result task run sn r s =
     (let problems = validate_result run sn r (Some task) s
      in if problems = [] then r
         else failed_result task sn AE_INVALID_AGENT_OUTPUT (take 2000 (join_semicolon problems)) (Some r)
                (utcnow s))"

definition complete_task :: "uuid \<Rightarrow> agent_result \<Rightarrow> db \<Rightarrow> db" where
  "complete_task task_id r s =
     (let succeeded = (ar_status r \<in> set SUCCESSFUL_RESULT_STATUSES)
      in s\<lparr>t_tasks := map (\<lambda>t.
           if tk_id t = task_id \<and> tk_status t \<in> set ACTIVE_TASK_STATUSES
           then t\<lparr>tk_status := (if succeeded then TASK_SUCCEEDED else TASK_FAILED),
                  tk_error_code := map_option agent_error_code_value (ar_error_code r),
                  tk_error_detail := (if succeeded then None else Some (take 2000 (ar_summary r))),
                  tk_completed_at := Some (utcnow s)\<rparr>
           else t) (t_tasks s)\<rparr>)"

definition store_outcome ::
  "agent_task \<Rightarrow> analysis_run \<Rightarrow> run_snapshot \<Rightarrow> agent_result \<Rightarrow> db \<Rightarrow> exn + (agent_result \<times> db)" where
  "store_outcome task run sn r s =
     (let r = checked_result task run sn r s; (i, s) = draw s
      in if list_ex (\<lambda>x. rr_task_id x = tk_id task) (t_results s) then Inr (r, s)
         else bind_err (insert_row rr_id
                \<lparr>rr_id = i, rr_task_id = tk_id task, rr_run_id = ru_id run, rr_schema_version = ''1.0'',
                 rr_status = ar_status r, rr_payload = r\<rparr> (t_results s)) (\<lambda>rows.
              let s = complete_task (tk_id task) r (s\<lparr>t_results := rows\<rparr>);
                  s = append_event (ru_id run) ''task.completed''
                        (''agent:'' @ agent_recipient_value (tk_recipient task)) (event_payload r) s
              in bind_err (enqueue ''orchestrator'' ORCHESTRATOR_ADVANCE_JOB
                   (JObj [(Lit ''run_id'', JText (Id (ru_id run)))])
                   (Some [Lit ''run:'', Id (ru_id run), Lit '':after:'', Id (tk_id task)]) None 3 s) (\<lambda>(_, s).
                 Inr (r, s))))"

section \<open>The handler\<close>

definition start_attempt :: "uuid \<Rightarrow> int \<Rightarrow> db \<Rightarrow> db" where
  "start_attempt task_id attempt s =
     s\<lparr>t_tasks := map (\<lambda>t.
         if tk_id t = task_id \<and> tk_status t \<in> set ACTIVE_TASK_STATUSES
         then t\<lparr>tk_status := TASK_RUNNING, tk_attempt := attempt, tk_error_code := None,
                tk_error_detail := None\<rparr>
         else t) (t_tasks s)\<rparr>"

definition record_retryable :: "uuid \<Rightarrow> agent_error_code \<Rightarrow> string \<Rightarrow> db \<Rightarrow> db" where
  "record_retryable task_id c detail s =
     s\<lparr>t_tasks := map (\<lambda>t.
         if tk_id t = task_id
         then t\<lparr>tk_error_code := Some (agent_error_code_value c),
                tk_error_detail := Some (if take 2000 detail = '''' then agent_error_code_value c
                                         else take 2000 detail)\<rparr>
         else t) (t_tasks s)\<rparr>"

definition prepare ::
  "(agent_recipient \<Rightarrow> base_agent option) \<Rightarrow> llm_client option \<Rightarrow> agent_task \<Rightarrow> analysis_run \<Rightarrow>
   run_snapshot \<Rightarrow> db \<Rightarrow> exn + (task_failure + (base_agent \<times> agent_context))" where
  "prepare agents llm task run sn s =
     (let roles = requester_roles run s
      in bind_err (permission_roles RUN_PERMISSION) (\<lambda>allowed.
         Inr (if \<not> intersects roles allowed
           then Inl (AE_POLICY_DENIED, ''the requesting user no longer has analysis:run on this factory'')
           else bind_err (some_or (AE_MISSING_DATA, ''no agent is registered'') (agents (tk_recipient task))) (\<lambda>agent.
             Inr (agent,
               \<lparr>cx_run_id = ru_id run, cx_task_id = tk_id task, cx_round = tk_round task,
                cx_task_type = tk_task_type task, cx_organization_id = ru_organization_id run,
                cx_factory_id = ru_factory_id run, cx_order_id = ru_order_id run,
                cx_requested_by = ru_requested_by run, cx_snapshot = sn_data sn,
                cx_input_versions = sn_input_versions sn, cx_dependency_results = dependency_results task s,
                cx_llm = llm, cx_deadline_at = tk_deadline_at task, cx_requester_roles = roles,
                cx_max_tool_calls = te_max_tool_calls (tk_envelope task)\<rparr>)))))"

definition detail_or_code :: "agent_error_code \<Rightarrow> string \<Rightarrow> string" where
  "detail_or_code c detail = (if detail = '''' then agent_error_code_value c else detail)"

definition job_task_id :: "claimed_job \<Rightarrow> exn + uuid" where
  "job_task_id job =
     (case cj_payload job of
        JObj fs \<Rightarrow>
          bind_err (some_or (KeyError ''task_id'') (json_get fs ''task_id'')) (\<lambda>v.
          some_or (ValueError ''badly formed hexadecimal UUID string'') (uuid_of_json v))
      | _ \<Rightarrow> Inl (TypeError ''payload''))"

text \<open>The result of a task's agent, or what the job raises; the state its own transactions leave.\<close>

definition agent_outcome ::
  "(agent_recipient \<Rightarrow> base_agent option) \<Rightarrow> llm_client option \<Rightarrow> (nat \<Rightarrow> db \<Rightarrow> db) \<Rightarrow> agent_task \<Rightarrow>
   analysis_run \<Rightarrow> run_snapshot \<Rightarrow> db \<Rightarrow> (exn + agent_result) \<times> db" where
  "agent_outcome agents llm meanwhile task run sn s =
     (case prepare agents llm task run sn s of
        Inl e \<Rightarrow> (Inl e, s)
      | Inr (Inl (c, detail)) \<Rightarrow> (Inr (failed_result task sn c detail None (utcnow s)), s)
      | Inr (Inr (agent, ctx)) \<Rightarrow>
          (case run_agent meanwhile agent ctx s of
             (Inr r, s) \<Rightarrow> (Inr r, s)
           | (Inl (AgentRaised e), s) \<Rightarrow> (Inl e, s)
           | (Inl (AgentExecutionError c retryable detail), s) \<Rightarrow>
               if retryable
               then (Inl (RetryableJobError (agent_error_code_value c @ '': '' @ detail)),
                     record_retryable (tk_id task) c detail s)
               else (Inr (agent_failed_result agent ctx c (detail_or_code c detail) (utcnow s)), s)))"

definition execute_agent_task ::
  "(agent_recipient \<Rightarrow> base_agent option) \<Rightarrow> llm_client option \<Rightarrow> (nat \<Rightarrow> db \<Rightarrow> db) \<Rightarrow>
   (nat \<Rightarrow> db \<Rightarrow> db) \<Rightarrow> claimed_job \<Rightarrow> db \<Rightarrow> (exn + unit) \<times> db" where
  "execute_agent_task agents llm meanwhile between job s =
     (case job_task_id job of
        Inl e \<Rightarrow> (Inl e, s)
      | Inr task_id \<Rightarrow>
          (case load_task task_id s of
             Inl _ \<Rightarrow> finish_job job s
           | Inr (task, run, sn) \<Rightarrow>
               if ru_status run = RUN_CANCELLED \<or> tk_status task \<notin> set ACTIVE_TASK_STATUSES
               then finish_job job s
               else
               let s = between 0 (start_attempt task_id (cj_attempt job) s)
               in (case load_task task_id s of
                     Inl (c, detail) \<Rightarrow> (Inl (RuntimeError detail), s)
                   | Inr (task, run, sn) \<Rightarrow>
                       (case agent_outcome agents llm meanwhile task run sn s of
                          (Inl e, s) \<Rightarrow> (Inl e, s)
                        | (Inr r, s) \<Rightarrow>
                            let s = between 1 s
                            in (case load_task task_id s of
                                  Inl (c, detail) \<Rightarrow> (Inl (RuntimeError detail), s)
                                | Inr (task, run, sn) \<Rightarrow>
                                    (case bind_err (store_outcome task run sn r s) (\<lambda>(_, s').
                                        finish_in_transaction job s') of
                                       Inl e \<Rightarrow> (Inl e, s)
                                     | Inr s' \<Rightarrow> (Inr (), commit s')))))))"

section \<open>When every attempt has failed\<close>

fun occurs_in :: "string \<Rightarrow> string \<Rightarrow> bool" where
  "occurs_in p [] = (p = [])"
| "occurs_in p (c # cs) = (take (length p) (c # cs) = p \<or> occurs_in p cs)"

definition last_error_code :: "agent_task \<Rightarrow> string \<Rightarrow> agent_error_code option" where
  "last_error_code task err =
     (case tk_error_code task of
        Some c \<Rightarrow> as_error_code c
      | None \<Rightarrow> find (\<lambda>c. occurs_in (agent_error_code_value c) err) AGENT_ERROR_CODES)"

definition exhausted_result ::
  "(agent_recipient \<Rightarrow> base_agent option) \<Rightarrow> llm_client option \<Rightarrow> agent_task \<Rightarrow> analysis_run \<Rightarrow>
   run_snapshot \<Rightarrow> string \<Rightarrow> db \<Rightarrow> exn + agent_result" where
  "exhausted_result agents llm task run sn err s =
     (let failed = (\<lambda>c msg. failed_result task sn c msg None (utcnow s))
      in case last_error_code task err of
           None \<Rightarrow> Inr (failed AE_MISSING_DATA (take 2000 (''agent task failed after '' @
               int_text (tk_max_attempts task) @ '' attempts: '' @ err)))
         | Some c \<Rightarrow>
             if c \<noteq> AE_PROVIDER_UNAVAILABLE
             then Inr (failed c (take 2000 (''agent task failed after '' @ int_text (tk_max_attempts task) @
                    '' attempts: '' @ err)))
             else bind_err (prepare agents llm task run sn s) (\<lambda>prepared.
               case prepared of
                 Inl (c, detail) \<Rightarrow> Inr (failed c detail)
               | Inr (agent, ctx) \<Rightarrow>
                   (case deterministic_result agent ctx (agent_error_code_value AE_PROVIDER_UNAVAILABLE)
                           PROVIDER_UNAVAILABLE_WARNING s of
                      Inr r \<Rightarrow> Inr r
                    | Inl (AgentExecutionError c retryable detail) \<Rightarrow> Inr (failed c (detail_or_code c detail))
                    | Inl (AgentRaised e) \<Rightarrow> Inl e)))"

text \<open>The hook of the queue; what it raises leaves its transaction undone.\<close>

definition on_agent_task_exhausted ::
  "(agent_recipient \<Rightarrow> base_agent option) \<Rightarrow> llm_client option \<Rightarrow> (db \<Rightarrow> db) \<Rightarrow> claimed_job \<Rightarrow>
   string \<Rightarrow> db \<Rightarrow> db" where
  "on_agent_task_exhausted agents llm between job err s =
     (case bind_err (job_task_id job) (\<lambda>task_id.
        case load_task task_id s of
          Inl _ \<Rightarrow> Inr (None, s)
        | Inr (task, run, sn) \<Rightarrow>
            if tk_status task \<notin> set ACTIVE_TASK_STATUSES then Inr (None, s)
            else bind_err (exhausted_result agents llm task run sn err s) (\<lambda>r. Inr (Some (task_id, r), s))) of
        Inl e \<Rightarrow> s
      | Inr (None, _) \<Rightarrow> s
      | Inr (Some (task_id, r), _) \<Rightarrow>
          let s = between s
          in (case load_task task_id s of
                Inl _ \<Rightarrow> s
              | Inr (task, run, sn) \<Rightarrow>
                  if tk_status task \<notin> set ACTIVE_TASK_STATUSES then s
                  else (case store_outcome task run sn r s of
                          Inl e \<Rightarrow> s
                        | Inr (_, s') \<Rightarrow> commit s')))"

end
