(* ===== verification/LS_Reconcile.thy ===== *)
theory LS_Reconcile
  imports LS_Executor
begin

text \<open>
  The reconciler (\<open>app/jobs/reconcile.py\<close>) and the maintenance handlers that run it
  (\<open>app/jobs/handlers.py\<close>). \<open>busy\<close> are the rows other transactions hold a lock on, which
  \<open>SKIP LOCKED\<close> passes over. \<open>now\<close> overrides the clock of the database. The minute in a
  deduplication key is kept as the instant it begins at. Where a statement has a LIMIT and no
  ORDER BY, the rows are taken in the order of the table.
\<close>

definition RECONCILER_ACTOR_ID :: string where
  "RECONCILER_ACTOR_ID = ''reconciler''"

definition RECOMMENDATION_BATCH_SIZE :: nat where
  "RECOMMENDATION_BATCH_SIZE = 500"

definition PURGE_BATCH_SIZE :: nat where
  "PURGE_BATCH_SIZE = 500"

definition PURGE_GRACE :: datetime where
  "PURGE_GRACE = 3600 * 1000000"

definition EXPIRABLE :: "recommendation_status list" where
  "EXPIRABLE = [REC_PROPOSED, REC_APPROVED]"

definition ACTIVE_RUN_STATUSES :: "run_status list" where
  "ACTIVE_RUN_STATUSES = [RUN_QUEUED, RUN_RUNNING]"

definition RUNNABLE_JOB_STATUSES :: "job_status list" where
  "RUNNABLE_JOB_STATUSES = [JOB_READY, JOB_LEASED]"

definition RUN_STALL_GRACE :: datetime where
  "RUN_STALL_GRACE = 30 * 1000000"

definition RUN_BATCH_SIZE :: nat where
  "RUN_BATCH_SIZE = 100"

record reconcile_report =
  rz_idempotency_keys_expired :: nat
  rz_recommendations_expired :: nat
  rz_runs_advanced :: nat

definition cutoff :: "datetime option \<Rightarrow> db \<Rightarrow> datetime" where
  "cutoff now s = (case now of None \<Rightarrow> utcnow s | Some t \<Rightarrow> t)"

definition purge_expired_idempotency_keys ::
  "uuid list \<Rightarrow> datetime option \<Rightarrow> db \<Rightarrow> nat \<times> db" where
  "purge_expired_idempotency_keys busy now s =
     (let doomed = map ik_id (take PURGE_BATCH_SIZE (filter (\<lambda>k.
            ik_expires_at k < cutoff now s - PURGE_GRACE \<and> ik_id k \<notin> set busy) (t_idempotency_keys s)));
          (gone, kept) = partition (\<lambda>k. ik_id k \<in> set doomed) (t_idempotency_keys s)
      in (length gone, s\<lparr>t_idempotency_keys := kept\<rparr>))"

section \<open>Overdue proposals\<close>

definition overdue_recommendations :: "uuid list \<Rightarrow> datetime \<Rightarrow> db \<Rightarrow> recommendation list" where
  "overdue_recommendations busy now s =
     take RECOMMENDATION_BATCH_SIZE (sort_key rc_id (filter (\<lambda>r.
       rc_status r \<in> set EXPIRABLE \<and> rc_expires_at r \<le> now \<and> rc_id r \<notin> set busy) (t_recommendations s)))"

definition audit_expiry :: "recommendation \<Rightarrow> db \<Rightarrow> db" where
  "audit_expiry r s =
     record_audit (rc_organization_id r) (Some (rc_factory_id r)) SYSTEM (Lit RECONCILER_ACTOR_ID)
       ''recommendation.expire'' ''recommendation'' (Id (rc_id r)) SUCCESS (Some ''expires_at passed'')
       None (Some (rc_run_id r))
       (Some (JObj [(Lit ''status'', JStr (recommendation_status_value (rc_status r))),
          (Lit ''version'', JInt (rc_version r))]))
       (Some (JObj [(Lit ''status'', JStr (recommendation_status_value REC_EXPIRED)),
          (Lit ''version'', JInt (rc_version r + 1))])) s"

definition expire_recommendations :: "uuid list \<Rightarrow> datetime option \<Rightarrow> db \<Rightarrow> nat \<times> db" where
  "expire_recommendations busy now s =
     (let rows = overdue_recommendations busy (cutoff now s) s
      in if rows = [] then (0, s)
         else let s = take_locks (map (LockRecommendation \<circ> rc_id) rows) s;
                  s = s\<lparr>t_recommendations := map (\<lambda>r.
                        if rc_id r \<in> set (map rc_id rows)
                        then r\<lparr>rc_status := REC_EXPIRED, rc_version := rc_version r + 1\<rparr>
                        else r) (t_recommendations s)\<rparr>
              in (length rows, fold audit_expiry rows s))"

section \<open>Stalled runs\<close>

definition quiet_since :: "analysis_run \<Rightarrow> db \<Rightarrow> datetime" where
  "quiet_since r s =
     (let created = ru_created_at r;
          started = (case ru_started_at r of None \<Rightarrow> created | Some t \<Rightarrow> t);
          task_times = map (\<lambda>t. max (tk_created_at t)
              (case tk_completed_at t of None \<Rightarrow> tk_created_at t | Some c \<Rightarrow> c))
            (filter (\<lambda>t. tk_run_id t = ru_id r) (t_tasks s));
          last_task = (case task_times of [] \<Rightarrow> created | t # ts \<Rightarrow> fold max ts t)
      in max created (max started last_task))"

definition text_uuid :: "json \<Rightarrow> uuid option" where
  "text_uuid v = (case v of JText (Id u) \<Rightarrow> Some u | _ \<Rightarrow> None)"

definition job_field :: "job \<Rightarrow> string \<Rightarrow> json" where
  "job_field j key = (case jb_payload j of JObj fs \<Rightarrow> json_at fs key | _ \<Rightarrow> JNull)"

definition runnable_values :: "string \<Rightarrow> string \<Rightarrow> db \<Rightarrow> json list" where
  "runnable_values job_type key s =
     map (\<lambda>j. job_field j key) (filter (\<lambda>j. jb_status j \<in> set RUNNABLE_JOB_STATUSES \<and>
       jb_job_type j = job_type) (t_jobs s))"

definition runs_with_runnable_jobs :: "uuid list \<Rightarrow> db \<Rightarrow> uuid list" where
  "runs_with_runnable_jobs run_ids s =
     (let advancing = List.map_filter text_uuid (runnable_values ORCHESTRATOR_ADVANCE_JOB ''run_id'' s);
          executing = List.map_filter uuid_of_json (runnable_values AGENT_EXECUTE_JOB ''task_id'' s)
      in filter (\<lambda>i. i \<in> set run_ids) advancing @
         map tk_run_id (filter (\<lambda>t. tk_id t \<in> set executing \<and> tk_run_id t \<in> set run_ids) (t_tasks s)) @
         map tk_run_id (filter (\<lambda>t. tk_run_id t \<in> set run_ids \<and> tk_status t = TASK_RUNNING) (t_tasks s)))"

definition is_stalled :: "datetime \<Rightarrow> uuid list \<Rightarrow> db \<Rightarrow> analysis_run \<Rightarrow> bool" where
  "is_stalled moment busy_ids s r \<longleftrightarrow>
     ru_deadline_at r \<le> moment \<or>
     (quiet_since r s \<le> moment - RUN_STALL_GRACE \<and> ru_id r \<notin> set busy_ids)"

fun advance_each :: "datetime \<Rightarrow> analysis_run list \<Rightarrow> db \<Rightarrow> exn + (nat \<times> db)" where
  "advance_each minute [] s = Inr (0, s)"
| "advance_each minute (r # rs) s =
     bind_err (enqueue ''orchestrator'' ORCHESTRATOR_ADVANCE_JOB
       (JObj [(Lit ''run_id'', JText (Id (ru_id r)))])
       (Some [Lit ''run:'', Id (ru_id r), Lit '':reconcile:'', Time minute]) None 3 s) (\<lambda>(job, s).
     bind_err (advance_each minute rs s) (\<lambda>(n, s).
     Inr (if job \<noteq> None then n + 1 else n, s)))"

definition advance_stalled_runs :: "datetime option \<Rightarrow> db \<Rightarrow> exn + (nat \<times> db)" where
  "advance_stalled_runs now s =
     (let moment = cutoff now s;
          runs = take RUN_BATCH_SIZE (sort_key ru_created_at
            (filter (\<lambda>r. ru_status r \<in> set ACTIVE_RUN_STATUSES) (t_runs s)));
          busy_ids = runs_with_runnable_jobs (map ru_id runs) s
      in advance_each (moment - moment mod 60000000) (filter (is_stalled moment busy_ids s) runs) s)"

section \<open>A round\<close>

definition reconcile_in_transaction ::
  "uuid list \<Rightarrow> datetime option \<Rightarrow> db \<Rightarrow> exn + (reconcile_report \<times> db)" where
  "reconcile_in_transaction busy now s =
     (let (keys, s) = purge_expired_idempotency_keys busy now s;
          (recs, s) = expire_recommendations busy now s
      in bind_err (advance_stalled_runs now s) (\<lambda>(runs, s).
         Inr (\<lparr>rz_idempotency_keys_expired = keys, rz_recommendations_expired = recs,
               rz_runs_advanced = runs\<rparr>, s)))"

definition reconcile_once ::
  "uuid list \<Rightarrow> datetime option \<Rightarrow> db \<Rightarrow> (exn + reconcile_report) \<times> db" where
  "reconcile_once busy now s =
     (case reconcile_in_transaction busy now s of Inl e \<Rightarrow> (Inl e, s) | Inr (r, s') \<Rightarrow> (Inr r, commit s'))"

section \<open>The maintenance handlers\<close>

definition in_transaction :: "db \<Rightarrow> exn + db \<Rightarrow> (exn + unit) \<times> db" where
  "in_transaction s run = (case run of Inl e \<Rightarrow> (Inl e, s) | Inr s' \<Rightarrow> (Inr (), commit s'))"

definition handle_reconcile :: "uuid list \<Rightarrow> claimed_job \<Rightarrow> db \<Rightarrow> (exn + unit) \<times> db" where
  "handle_reconcile busy job s =
     in_transaction s (bind_err (reconcile_in_transaction busy None s) (\<lambda>(_, s).
       finish_in_transaction job s))"

definition handle_purge_idempotency :: "uuid list \<Rightarrow> claimed_job \<Rightarrow> db \<Rightarrow> (exn + unit) \<times> db" where
  "handle_purge_idempotency busy job s =
     in_transaction s (finish_in_transaction job (snd (purge_expired_idempotency_keys busy None s)))"

text \<open>\<open>uuid.UUID(value)\<close> on a payload value: anything but a text has no \<open>replace\<close>.\<close>

definition payload_uuid :: "json \<Rightarrow> exn + uuid" where
  "payload_uuid v =
     (case v of
        JText t \<Rightarrow> some_or (ValueError ''badly formed hexadecimal UUID string'') (uuid_of_text t)
      | JNull \<Rightarrow> Inl (TypeError ''one of the hex, bytes, bytes_le, fields, or int arguments must be given'')
      | _ \<Rightarrow> Inl (TypeError ''replace''))"

fun payload_uuids :: "json list \<Rightarrow> exn + uuid list" where
  "payload_uuids [] = Inr []"
| "payload_uuids (v # vs) =
     bind_err (payload_uuid v) (\<lambda>i. bind_err (payload_uuids vs) (\<lambda>is'. Inr (i # is')))"

definition refresh_inputs :: "claimed_job \<Rightarrow> exn + (uuid \<times> uuid list)" where
  "refresh_inputs job =
     (case cj_payload job of
        JObj fs \<Rightarrow>
          bind_err (some_or (KeyError ''factory_id'') (json_get fs ''factory_id'')) (\<lambda>f.
          bind_err (payload_uuid f) (\<lambda>factory_id.
          bind_err (some_or (KeyError ''material_ids'') (json_get fs ''material_ids'')) (\<lambda>ms.
          (case ms of
             JArr vs \<Rightarrow> bind_err (payload_uuids vs) (\<lambda>material_ids. Inr (factory_id, material_ids))
           | _ \<Rightarrow> Inl (TypeError ''material_ids'')))))
      | _ \<Rightarrow> Inl (TypeError ''payload''))"

definition handle_refresh_material_states :: "claimed_job \<Rightarrow> db \<Rightarrow> (exn + unit) \<times> db" where
  "handle_refresh_material_states job s =
     (case refresh_inputs job of
        Inl e \<Rightarrow> (Inl e, s)
      | Inr (factory_id, material_ids) \<Rightarrow>
          in_transaction s (bind_err (recompute_material_states factory_id material_ids None s) (\<lambda>(_, s).
            finish_in_transaction job s)))"

end
