(* ===== verification/LS_RunFrames.thy ===== *)
theory LS_RunFrames
  imports LS_Reconcile LS_ApprovalRules
begin

text \<open>
  What the steps of a run change: the envelopes they return, the tables they leave alone, and
  the three ways a decision ends (nothing to do yet, tasks to send, the run closed).
\<close>

section \<open>Tables a step leaves alone\<close>

definition steady :: "db \<Rightarrow> db \<Rightarrow> bool" where
  "steady s s' \<longleftrightarrow>
     t_recommendations s' = t_recommendations s \<and> t_approvals s' = t_approvals s \<and>
     t_snapshots s' = t_snapshots s \<and> t_results s' = t_results s \<and> t_orders s' = t_orders s \<and>
     t_jobs s' = t_jobs s \<and> uuid4 s' = uuid4 s \<and> drawn s \<le> drawn s' \<and> utcnow s' = utcnow s"

lemma steady_refl [simp]: "steady s s"
  by (simp add: steady_def)

lemma steady_trans: "steady s t \<Longrightarrow> steady t u \<Longrightarrow> steady s u"
  by (simp add: steady_def)

lemma steady_event [simp, intro]: "steady s (append_event i ty a p s)"
  by (simp add: steady_def append_event_def)

lemma steady_run [simp, intro]: "steady s (update_run r s)"
  by (simp add: steady_def update_run_def)

lemma steady_draw [simp, intro]: "steady s (s\<lparr>drawn := Suc (drawn s)\<rparr>)"
  by (simp add: steady_def)

lemma steady_audit [simp, intro]: "steady s (record_audit o1 f ty a ac tt ti out re tr ru be af s)"
  by (simp add: steady_def)

lemma insert_notificationD:
  "insert_notification n s = Inr s' \<Longrightarrow>
     \<exists>i rows. s' = s\<lparr>drawn := Suc (drawn s), t_notifications := rows\<rparr>"
  by (auto simp: insert_notification_def run_simps draw_def)

lemma event_frame [simp]:
  "t_runs (append_event i ty a p s) = t_runs s" "t_tasks (append_event i ty a p s) = t_tasks s"
  "t_jobs (append_event i ty a p s) = t_jobs s" "t_orders (append_event i ty a p s) = t_orders s"
  "utcnow (append_event i ty a p s) = utcnow s" "uuid4 (append_event i ty a p s) = uuid4 s"
  "drawn (append_event i ty a p s) = drawn s" "t_notifications (append_event i ty a p s) = t_notifications s"
  "t_recommendations (append_event i ty a p s) = t_recommendations s"
  "t_snapshots (append_event i ty a p s) = t_snapshots s" "t_results (append_event i ty a p s) = t_results s"
  "t_approvals (append_event i ty a p s) = t_approvals s" "locks (append_event i ty a p s) = locks s"
  by (simp_all add: append_event_def)

lemma update_run_frame [simp]:
  "t_runs (update_run r s) = upd ru_id r (t_runs s)" "t_tasks (update_run r s) = t_tasks s"
  "t_jobs (update_run r s) = t_jobs s" "t_orders (update_run r s) = t_orders s"
  "utcnow (update_run r s) = utcnow s" "uuid4 (update_run r s) = uuid4 s" "drawn (update_run r s) = drawn s"
  "t_notifications (update_run r s) = t_notifications s"
  "t_recommendations (update_run r s) = t_recommendations s" "t_snapshots (update_run r s) = t_snapshots s"
  "t_results (update_run r s) = t_results s" "t_approvals (update_run r s) = t_approvals s"
  by (simp_all add: update_run_def)

section \<open>Envelopes\<close>

definition envelope_to ::
  "analysis_run \<Rightarrow> uuid \<Rightarrow> agent_recipient \<Rightarrow> string \<Rightarrow> int \<Rightarrow> uuid option \<Rightarrow> input_ref list \<Rightarrow> uuid \<Rightarrow>
   task_envelope" where
  "envelope_to run snapshot_id recipient task_type round_no parent refs i =
     \<lparr>te_message_id = i, te_run_id = ru_id run, te_parent_task_id = parent,
      te_organization_id = ru_organization_id run, te_factory_id = ru_factory_id run,
      te_order_id = ru_order_id run, te_snapshot_id = snapshot_id, te_recipient = recipient,
      te_task_type = task_type,
      te_idempotency_key = idempotency_key_for (ru_id run) recipient snapshot_id round_no,
      te_round = round_no, te_deadline_at = ru_deadline_at run, te_input_refs = refs,
      te_max_tool_calls = DEFAULT_MAX_TOOL_CALLS, te_trace_id = ru_trace_id run\<rparr>"

text \<open>The tasks of a run: who, in which round, asked for what.\<close>

definition RUN_TASKS :: "(agent_recipient \<times> int \<times> string) list" where
  "RUN_TASKS =
     [(AGENT_RM, 0, RM_ASSESS), (AGENT_IE, 0, IE_ASSESS), (AGENT_QUALITY, 0, QUALITY_ASSESS),
      (AGENT_PLANNING, 0, PLANNING_PROPOSE), (AGENT_PLANNING, 1, PLANNING_REVISE),
      (AGENT_RM, 1, RM_VALIDATE)]"

lemma RUN_TASKS_valid:
  "(a, n, ty) \<in> set RUN_TASKS \<Longrightarrow> ty \<in> set (ALLOWED_TASK_TYPES a) \<and> 0 \<le> n \<and> n \<le> 1"
  by (auto simp: RUN_TASKS_def RM_ASSESS_def IE_ASSESS_def QUALITY_ASSESS_def PLANNING_PROPOSE_def
      PLANNING_REVISE_def RM_VALIDATE_def)

lemma envelope_for_eq:
  assumes "ru_snapshot_id run = Some sid" and "(a, n, ty) \<in> set RUN_TASKS" and "length (ru_trace_id run) \<le> 200"
  shows "envelope_for run a ty n parent refs s =
     Inr (envelope_to run sid a ty n parent refs (uuid4 s (drawn s)), s\<lparr>drawn := Suc (drawn s)\<rparr>)"
  using assms RUN_TASKS_valid [OF assms(2)]
  by (simp add: envelope_for_def make_envelope_def draw_def envelope_to_def envelope_valid_def
      DEFAULT_MAX_TOOL_CALLS_def)

lemma one_envelope_eq:
  assumes "ru_snapshot_id run = Some sid" and "(a, n, ty) \<in> set RUN_TASKS" and "length (ru_trace_id run) \<le> 200"
  shows "one_envelope run a ty n parent refs s =
     Inr ([envelope_to run sid a ty n parent refs (uuid4 s (drawn s))], s\<lparr>drawn := Suc (drawn s)\<rparr>)"
  by (simp add: one_envelope_def envelope_for_eq [OF assms])

text \<open>The envelopes of the start, with consecutive identifiers.\<close>

fun round_zero_list ::
  "analysis_run \<Rightarrow> uuid \<Rightarrow> input_ref list \<Rightarrow> (nat \<Rightarrow> uuid) \<Rightarrow> nat \<Rightarrow> (agent_recipient \<times> string) list \<Rightarrow>
   task_envelope list" where
  "round_zero_list run sid refs u n [] = []"
| "round_zero_list run sid refs u n ((a, ty) # rest) =
     envelope_to run sid a ty 0 None refs (u n) # round_zero_list run sid refs u (Suc n) rest"

lemma round_zero_eq:
  assumes "ru_snapshot_id run = Some sid" and "length (ru_trace_id run) \<le> 200"
    and "\<forall>(a, ty) \<in> set specs. (a, 0, ty) \<in> set RUN_TASKS"
  shows "round_zero_envelopes run refs specs s =
     Inr (round_zero_list run sid refs (uuid4 s) (drawn s) specs, s\<lparr>drawn := drawn s + length specs\<rparr>)"
  using assms(3)
proof (induction specs arbitrary: s)
  case (Cons x rest)
  obtain a ty where x: "x = (a, ty)" by fastforce
  have "round_zero_envelopes run refs rest (s\<lparr>drawn := Suc (drawn s)\<rparr>) =
      Inr (round_zero_list run sid refs (uuid4 s) (Suc (drawn s)) rest,
        s\<lparr>drawn := Suc (drawn s) + length rest\<rparr>)"
    using Cons.IH [of "s\<lparr>drawn := Suc (drawn s)\<rparr>"] Cons.prems by simp
  then show ?case
    using envelope_for_eq [of run sid a 0 ty None refs s] assms(1,2) Cons.prems by (simp add: x)
qed simp

section \<open>How a decision ends\<close>

text \<open>An envelope for a task of the run that does not exist yet, referring to tasks that do.\<close>

definition sendable :: "analysis_run \<Rightarrow> uuid \<Rightarrow> agent_task list \<Rightarrow> task_envelope \<Rightarrow> bool" where
  "sendable run sid tasks e \<longleftrightarrow>
     (\<exists>ty parent refs i. e = envelope_to run sid (te_recipient e) ty (te_round e) parent refs i \<and>
        (te_recipient e, te_round e, ty) \<in> set RUN_TASKS) \<and>
     task_of tasks (te_recipient e) (te_round e) = None \<and>
     set (referenced_tasks e) \<subseteq> tk_id ` set tasks"

definition sent :: "analysis_run \<Rightarrow> uuid \<Rightarrow> agent_task list \<Rightarrow> db \<Rightarrow> task_envelope list \<Rightarrow> db \<Rightarrow> bool" where
  "sent run sid tasks s es s' \<longleftrightarrow>
     es \<noteq> [] \<and> (\<forall>e \<in> set es. sendable run sid tasks e) \<and>
     (\<exists>k. map te_message_id es = map (uuid4 s) [k..<k + length es] \<and> drawn s \<le> k \<and> k + length es \<le> drawn s') \<and>
     distinct (map te_idempotency_key es) \<and>
     steady s s' \<and> t_tasks s' = t_tasks s \<and> t_notifications s' = t_notifications s \<and> locks s' = locks s \<and>
     (t_runs s' = t_runs s \<or>
      (ru_replan_count run = 0 \<and>
       t_runs s' = upd ru_id (run\<lparr>ru_replan_count := 1, ru_version := ru_version run + 1\<rparr>) (t_runs s)))"

lemma task_of_in: "task_of tasks a n = Some t \<Longrightarrow> t \<in> set tasks"
  by (auto simp: task_of_def find_Some_iff)

lemma envelope_to_simps [simp]:
  "te_recipient (envelope_to run sid a ty n parent refs i) = a"
  "te_round (envelope_to run sid a ty n parent refs i) = n"
  "te_message_id (envelope_to run sid a ty n parent refs i) = i"
  "te_run_id (envelope_to run sid a ty n parent refs i) = ru_id run"
  "te_input_refs (envelope_to run sid a ty n parent refs i) = refs"
  "te_parent_task_id (envelope_to run sid a ty n parent refs i) = parent"
  "te_idempotency_key (envelope_to run sid a ty n parent refs i) = idempotency_key_for (ru_id run) a sid n"
  by (simp_all add: envelope_to_def)

lemma ref_to_simps [simp]: "ir_type (ref_to ty i) = ty" "ir_id (ref_to ty i) = i"
  by (simp_all add: ref_to_def)

text \<open>One envelope.\<close>

lemma sent_one:
  assumes "ru_snapshot_id run = Some sid" and "(a, n, ty) \<in> set RUN_TASKS" and "length (ru_trace_id run) \<le> 200"
    and "task_of tasks a n = None"
    and "\<forall>r \<in> set refs. ir_type r = REF_AGENT_RESULT \<longrightarrow> ir_id r \<in> tk_id ` set tasks"
    and "\<forall>p. parent = Some p \<longrightarrow> p \<in> tk_id ` set tasks"
  shows "\<exists>es s'. one_envelope run a ty n parent refs s = Inr (es, s') \<and> sent run sid tasks s es s'"
proof -
  let ?e = "envelope_to run sid a ty n parent refs (uuid4 s (drawn s))"
  have "sendable run sid tasks ?e"
    unfolding sendable_def
  proof (intro conjI)
    show "\<exists>ty' parent' refs' i. ?e = envelope_to run sid (te_recipient ?e) ty' (te_round ?e) parent' refs' i \<and>
        (te_recipient ?e, te_round ?e, ty') \<in> set RUN_TASKS"
      using assms(2) by (intro exI [of _ ty] exI [of _ parent] exI [of _ refs] exI [of _ "uuid4 s (drawn s)"]) simp
    show "set (referenced_tasks ?e) \<subseteq> tk_id ` set tasks"
      using assms(5,6) by (auto simp: referenced_tasks_def split: option.splits)
  qed (simp add: assms(4))
  then have "sent run sid tasks s [?e] (s\<lparr>drawn := Suc (drawn s)\<rparr>)"
    by (auto simp: sent_def intro: exI [of _ "drawn s"])
  then show ?thesis using one_envelope_eq [OF assms(1-3)] by blast
qed

text \<open>The start.\<close>

lemma round_zero_list_props:
  "map te_message_id (round_zero_list run sid refs u n specs) = map u [n..<n + length specs]"
  "map te_recipient (round_zero_list run sid refs u n specs) = map fst specs"
  "e \<in> set (round_zero_list run sid refs u n specs) \<Longrightarrow>
   \<exists>(a, ty) \<in> set specs. \<exists>i. e = envelope_to run sid a ty 0 None refs i"
proof -
  show "map te_message_id (round_zero_list run sid refs u n specs) = map u [n..<n + length specs]"
    by (induction run sid refs u n specs rule: round_zero_list.induct)
      (simp_all add: upt_rec [of _ "Suc (_ + _)"] upt_conv_Cons del: upt_Suc)
  show "map te_recipient (round_zero_list run sid refs u n specs) = map fst specs"
    by (induction run sid refs u n specs rule: round_zero_list.induct) simp_all
  show "e \<in> set (round_zero_list run sid refs u n specs) \<Longrightarrow>
     \<exists>(a, ty) \<in> set specs. \<exists>i. e = envelope_to run sid a ty 0 None refs i"
    by (induction run sid refs u n specs rule: round_zero_list.induct) auto
qed

lemma keys_distinct:
  assumes "distinct (map te_recipient es)"
    and "\<forall>e \<in> set es. te_idempotency_key e = idempotency_key_for r (te_recipient e) sid (te_round e)"
  shows "distinct (map te_idempotency_key es)"
  using assms by (induction es) (auto simp: idempotency_key_inj)

lemma sent_start:
  assumes "ru_snapshot_id run = Some sid" and "length (ru_trace_id run) \<le> 200"
    and "missing = filter (\<lambda>(a, _). task_of tasks a 0 = None) ROUND_ZERO" and "missing \<noteq> []"
  shows "\<exists>es s'. round_zero_envelopes run [ref_to REF_SNAPSHOT sid] missing s = Inr (es, s') \<and>
     sent run sid tasks s es s'"
proof -
  let ?refs = "[ref_to REF_SNAPSHOT sid]"
  let ?es = "round_zero_list run sid ?refs (uuid4 s) (drawn s) missing"
  have specs: "\<forall>(a, ty) \<in> set missing. (a, 0, ty) \<in> set RUN_TASKS \<and> task_of tasks a 0 = None"
    by (auto simp: assms(3) ROUND_ZERO_def RUN_TASKS_def)
  have e: "sendable run sid tasks e \<and> te_idempotency_key e = idempotency_key_for (ru_id run) (te_recipient e) sid (te_round e)"
    if m: "e \<in> set ?es" for e
  proof -
    obtain a ty i where a: "(a, ty) \<in> set missing" "e = envelope_to run sid a ty 0 None ?refs i"
      using round_zero_list_props(3) [OF m] by blast
    with specs have "(a, 0, ty) \<in> set RUN_TASKS" "task_of tasks a 0 = None" by auto
    then show ?thesis
      unfolding sendable_def by (auto simp: a(2) referenced_tasks_def intro: exI)
  qed
  have "distinct (map te_recipient ?es)"
    unfolding round_zero_list_props(2) assms(3) by (simp add: ROUND_ZERO_def)
  then have "distinct (map te_idempotency_key ?es)" by (rule keys_distinct) (use e in blast)
  moreover have "?es \<noteq> []" "length ?es = length missing"
    using round_zero_list_props(2) [of run sid ?refs "uuid4 s" "drawn s" missing] assms(4)
    by (metis length_map list.size(3) length_0_conv)+
  ultimately have "sent run sid tasks s ?es (s\<lparr>drawn := drawn s + length missing\<rparr>)"
    using e round_zero_list_props(1) [of run sid ?refs "uuid4 s" "drawn s" missing]
    by (auto simp: sent_def steady_def intro!: exI [of _ "drawn s"])
  then show ?thesis
    using round_zero_eq [OF assms(1,2), of missing] specs by fastforce
qed

text \<open>The revision.\<close>

lemma sent_replan:
  assumes "note_replan run reason s = (run1, s1)"
    and "one_envelope run1 a ty n parent refs s1 = Inr (es, s')" and "sent run1 sid tasks s1 es s'"
  shows "sent run sid tasks s es s'"
proof (cases "ru_replan_count run = 0")
  case False
  with assms show ?thesis by (simp add: note_replan_def)
next
  case True
  let ?run1 = "run\<lparr>ru_replan_count := 1, ru_version := ru_version run + 1\<rparr>"
  have "run1 = ?run1 \<and> (\<exists>p. s1 = append_event (ru_id run) REPLAN_EVENT ORCHESTRATOR_ACTOR p (update_run ?run1 s))"
    using assms(1) True by (auto simp: note_replan_def Let_def)
  then obtain p where s1: "run1 = ?run1"
      "s1 = append_event (ru_id run) REPLAN_EVENT ORCHESTRATOR_ACTOR p (update_run ?run1 s)" by blast
  have env: "envelope_to ?run1 = envelope_to run" by (intro ext) (simp add: envelope_to_def)
  have "sendable ?run1 sid tasks e = sendable run sid tasks e" for e by (simp add: sendable_def env)
  moreover have "steady s s1" unfolding s1(2) by (rule steady_trans [OF steady_run steady_event])
  moreover have "locks (update_run ?run1 s) = locks s" by (simp add: update_run_def)
  ultimately show ?thesis
    using assms(3) steady_trans True by (auto simp: sent_def s1)
qed

lemma after_planning_form:
  assumes "ru_snapshot_id run = Some sid" and "length (ru_trace_id run) \<le> 200" and "t \<in> set tasks" and "q \<in> set tasks"
  shows "(after_planning digest run sid tasks results t q s = Inr ([], s) \<and> (\<exists>x \<in> set tasks. \<not> task_terminal x)) \<or>
     (\<exists>es s'. after_planning digest run sid tasks results t q s = Inr (es, s') \<and> sent run sid tasks s es s') \<or>
     after_planning digest run sid tasks results t q s =
       bind_err (finalize digest run tasks results s) (\<lambda>(_, s). Inr ([], s))"
proof -
  have one: "\<exists>es s'. one_envelope run AGENT_RM RM_VALIDATE 1 (Some (tk_id t))
       [ref_to REF_SNAPSHOT sid, ref_to REF_AGENT_RESULT (tk_id t)] s = Inr (es, s') \<and> sent run sid tasks s es s'"
    if "task_of tasks AGENT_RM 1 = None"
    by (rule sent_one [OF assms(1) _ assms(2) that]) (use assms(3) in \<open>auto simp: RUN_TASKS_def\<close>)
  show ?thesis
    using assms(3,4) one task_of_in [of tasks AGENT_RM 1]
    by (cases "task_of tasks AGENT_RM 1") (auto simp: after_planning_def)
qed

lemma decide_tasks_form:
  assumes sid: "ru_snapshot_id run = Some sid" and tr: "length (ru_trace_id run) \<le> 200"
  shows "(decide_tasks digest run sid tasks results s = Inr ([], s) \<and> (\<exists>x \<in> set tasks. \<not> task_terminal x)) \<or>
     (\<exists>es s'. decide_tasks digest run sid tasks results s = Inr (es, s') \<and> sent run sid tasks s es s') \<or>
     decide_tasks digest run sid tasks results s =
       bind_err (finalize digest run tasks results s) (\<lambda>(_, s). Inr ([], s))"
proof (cases "filter (\<lambda>(a, _). task_of tasks a 0 = None) ROUND_ZERO = []")
  case False
  then show ?thesis using sent_start [OF sid tr refl False] by (auto simp: decide_tasks_def)
next
  case True
  then obtain rm0 ie0 q0 where t: "task_of tasks AGENT_RM 0 = Some rm0" "task_of tasks AGENT_IE 0 = Some ie0"
      "task_of tasks AGENT_QUALITY 0 = Some q0"
    by (auto simp: ROUND_ZERO_def split: if_splits)
  note ins = t [THEN task_of_in]
  let ?refs = "result_refs results rm0 @ result_refs results ie0"
  have refs: "\<forall>r \<in> set ?refs. ir_id r \<in> tk_id ` set tasks" using ins by (auto simp: result_refs_def)
  show ?thesis
  proof (cases "task_terminal rm0 \<and> task_terminal ie0")
    case False
    then show ?thesis using t ins True by (auto simp: decide_tasks_def)
  next
    case over: True
    show ?thesis
    proof (cases "task_of tasks AGENT_PLANNING 0")
      case None
      have "\<exists>es s'. one_envelope run AGENT_PLANNING PLANNING_PROPOSE 0 None (ref_to REF_SNAPSHOT sid # ?refs) s =
          Inr (es, s') \<and> sent run sid tasks s es s'"
        by (rule sent_one [OF sid _ tr None]) (use refs in \<open>auto simp: RUN_TASKS_def\<close>)
      then show ?thesis using t True over None by (simp add: decide_tasks_def)
    next
      case (Some p0)
      note p0 = task_of_in [OF Some]
      show ?thesis
      proof (cases "task_terminal p0")
        case False
        then show ?thesis using t True over Some p0 by (auto simp: decide_tasks_def)
      next
        case p0_over: True
        show ?thesis
        proof (cases "task_of tasks AGENT_PLANNING 1")
          case p1: (Some p1)
          have "decide_tasks digest run sid tasks results s = after_planning digest run sid tasks results p1 q0 s"
            using t True over Some p0_over p1 by (simp add: decide_tasks_def)
          then show ?thesis
            using after_planning_form [OF sid tr task_of_in [OF p1] ins(3)] by simp
        next
          case None
          let ?reason = "needs_replan (map_of results (tk_id p0)) (map_of results (tk_id rm0))"
          obtain run1 s1 where n: "note_replan run ?reason s = (run1, s1)" by fastforce
          have run1: "ru_snapshot_id run1 = Some sid" "length (ru_trace_id run1) \<le> 200"
            using n sid tr by (auto simp: note_replan_def Let_def split: if_splits)
          have "\<exists>es s'. one_envelope run1 AGENT_PLANNING PLANNING_REVISE 1 (Some (tk_id p0))
              (?refs @ [ref_to REF_AGENT_RESULT (tk_id p0)]) s1 = Inr (es, s') \<and> sent run1 sid tasks s1 es s'"
            by (rule sent_one [OF run1(1) _ run1(2) None]) (use refs p0 in \<open>auto simp: RUN_TASKS_def\<close>)
          then obtain es s' where es: "one_envelope run1 AGENT_PLANNING PLANNING_REVISE 1 (Some (tk_id p0))
              (?refs @ [ref_to REF_AGENT_RESULT (tk_id p0)]) s1 = Inr (es, s')" "sent run1 sid tasks s1 es s'"
            by blast
          have "decide_tasks digest run sid tasks results s =
              (if ?reason \<noteq> None \<or> 0 < ru_replan_count run then Inr (es, s')
               else after_planning digest run sid tasks results p0 q0 s)"
            using t True over Some p0_over None n es(1) by (simp add: decide_tasks_def Let_def)
          then show ?thesis
            using after_planning_form [OF sid tr p0 ins(3)] sent_replan [OF n es] by auto
        qed
      qed
    qed
  qed
qed

section \<open>Closing\<close>

definition outdated :: "analysis_run \<Rightarrow> uuid \<Rightarrow> recommendation \<Rightarrow> recommendation" where
  "outdated run k r =
     (if rc_order_id r = ru_order_id run \<and> rc_status r \<in> set SUPERSEDABLE \<and> rc_id r \<noteq> k
      then r\<lparr>rc_status := REC_SUPERSEDED, rc_superseded_reason := Some SUPERSEDED_REASON,
             rc_version := rc_version r + 1\<rparr>
      else r)"

lemma supersede_previous_eq:
  "supersede_previous run (Some k) s = s\<lparr>t_recommendations := map (outdated run k) (t_recommendations s)\<rparr>"
  by (simp add: supersede_previous_def outdated_def)

lemma outdated_simps [simp]:
  "rc_id (outdated run k r) = rc_id r" "rc_run_id (outdated run k r) = rc_run_id r"
  "rc_proposal (outdated run k r) = rc_proposal r" "rc_proposal_hash (outdated run k r) = rc_proposal_hash r"
  "rc_proposer_user_id (outdated run k r) = rc_proposer_user_id r"
  "rc_applied_by (outdated run k r) = rc_applied_by r" "rc_input_versions (outdated run k r) = rc_input_versions r"
  "rc_order_id (outdated run k r) = rc_order_id r"
  "rc_status (outdated run k r) = REC_SUPERSEDED \<or> rc_status (outdated run k r) = rc_status r"
  by (simp_all add: outdated_def)

text \<open>A new proposal: where it comes from and what it holds.\<close>

definition proposed_from ::
  "(json \<Rightarrow> string) \<Rightarrow> analysis_run \<Rightarrow> (jtext \<times> json) list \<Rightarrow> agent_result option \<Rightarrow> agent_result option \<Rightarrow>
   recommendation \<Rightarrow> bool" where
  "proposed_from digest run versions planning rm r \<longleftrightarrow>
     rc_status r = REC_PROPOSED \<and> rc_run_id r = ru_id run \<and> rc_order_id r = ru_order_id run \<and>
     rc_proposer_user_id r = ru_requested_by run \<and> rc_proposal_hash r = digest (rc_proposal r) \<and>
     (\<exists>al. top_action planning ACT_ALLOCATION = Some al \<and>
        json_rows (rc_proposal r) ''allocations'' = json_rows (JObj (ra_payload al)) ''allocations'' \<and>
        json_rows (rc_proposal r) ''reservations'' =
          (case top_action rm ACT_RESERVATION of None \<Rightarrow> []
           | Some a \<Rightarrow> json_rows (JObj (ra_payload a)) ''reservations'')) \<and>
     rc_input_versions r = JObj
       [(Lit ''order'', case json_get versions ''order'' of Some (JObj o1) \<Rightarrow> JObj o1 | _ \<Rightarrow> JObj []),
        (Lit ''capacity_slots'', referenced_versions versions ''capacity_slots''
           (row_ids (json_rows (rc_proposal r) ''allocations'') ''slot_id'')),
        (Lit ''material_balances'', referenced_versions versions ''material_balances''
           (row_ids (json_rows (rc_proposal r) ''reservations'') ''balance_id''))]"

lemma map_filter_JObj:
  "List.map_filter (\<lambda>r. case r of JObj f \<Rightarrow> Some f | _ \<Rightarrow> None) (map JObj rows) = rows"
  by (induction rows) (simp_all add: List.map_filter_simps)

lemma proposal_rows:
  "json_rows (proposal_of run al as rs) ''allocations'' = as"
  "json_rows (proposal_of run al as rs) ''reservations'' = rs"
  by (simp_all add: proposal_of_def json_rows_def json_get_def map_filter_JObj)

lemma create_recommendationD:
  assumes "create_recommendation digest run versions planning rm s = Inr (rec, s')"
  obtains (nothing_to_propose) "rec = None" "s' = s"
  | (created) r where "rec = Some r" "rc_id r = uuid4 s (drawn s)"
      "rc_id r \<notin> rc_id ` set (t_recommendations s)"
      "s' = s\<lparr>drawn := Suc (drawn s), t_recommendations := t_recommendations s @ [r]\<rparr>"
      "proposed_from digest run versions planning rm r"
proof (cases "top_action planning ACT_ALLOCATION")
  case None
  with assms that(1) show thesis by (simp add: create_recommendation_def)
next
  case (Some al)
  show thesis
  proof (cases "decimal_or_zero (allocated_units al) \<le> 0")
    case True
    with assms Some that(1) show thesis by (simp add: create_recommendation_def)
  next
    case False
    from assms Some False obtain r0 r where ins: "insert_recommendation r0 s = Inr (r, s')" "rec = Some r"
      and r0: "proposed_from digest run versions planning rm r0"
      by (auto simp: create_recommendation_def run_simps proposed_from_def proposal_rows)
    then have "rc_id r = uuid4 s (drawn s)" "rc_id r \<notin> rc_id ` set (t_recommendations s)"
        "s' = s\<lparr>drawn := Suc (drawn s), t_recommendations := t_recommendations s @ [r]\<rparr>"
        "proposed_from digest run versions planning rm r"
      by (auto simp: insert_recommendation_def run_simps draw_def insert_row_Inr proposed_from_def)
    then show thesis using that(2) ins(2) by blast
  qed
qed

lemma create_recommendation_total:
  assumes "uuid4 s (drawn s) \<notin> rc_id ` set (t_recommendations s)"
  shows "\<exists>rec s'. create_recommendation digest run versions planning rm s = Inr (rec, s')"
  using assms
  by (cases "top_action planning ACT_ALLOCATION")
    (auto simp: create_recommendation_def insert_recommendation_def draw_def insert_row_def Let_def)

lemma close_runD:
  assumes "close_run run st reason ec rec_id done_at s = Inr (run', s')"
  shows "ru_id run' = ru_id run" "ru_status run' = st" "ru_snapshot_id run' = ru_snapshot_id run"
    "t_runs s' = upd ru_id run' (t_runs s)" "t_tasks s' = t_tasks s" "steady s s'"
proof -
  from assms obtain s1 s2 i rows where r: "ru_id run' = ru_id run" "ru_status run' = st"
      "ru_snapshot_id run' = ru_snapshot_id run"
    and s1: "\<exists>p. s1 = append_event (ru_id run) RUN_FINALIZED_EVENT ORCHESTRATOR_ACTOR p (update_run run' s)"
    and s2: "s2 = s1\<lparr>drawn := Suc (drawn s1), t_notifications := rows\<rparr>"
    and s': "\<exists>o1 f ty a ac tt ti out re tr ru be af. s' = record_audit o1 f ty a ac tt ti out re tr ru be af s2"
    by (fastforce simp: close_run_def run_simps dest!: insert_notificationD)
  then show "ru_id run' = ru_id run" "ru_status run' = st" "ru_snapshot_id run' = ru_snapshot_id run"
    "t_runs s' = upd ru_id run' (t_runs s)" "t_tasks s' = t_tasks s" "steady s s'"
    by (auto simp: steady_def)
qed

lemma close_run_total:
  assumes "uuid4 s (drawn s) \<notin> no_id ` set (t_notifications s)"
  shows "\<exists>run' s'. close_run run st reason ec rec_id done_at s = Inr (run', s')"
  using assms by (auto simp: close_run_def insert_notification_def draw_def insert_row_def Let_def)

lemma report_frame [simp]:
  "t_runs (append_report run tasks results sn rec s) = t_runs s"
  "t_tasks (append_report run tasks results sn rec s) = t_tasks s"
  "t_notifications (append_report run tasks results sn rec s) = t_notifications s"
  "uuid4 (append_report run tasks results sn rec s) = uuid4 s"
  "drawn (append_report run tasks results sn rec s) = drawn s"
  "t_recommendations (append_report run tasks results sn rec s) = t_recommendations s"
  "steady s (append_report run tasks results sn rec s)"
  by (auto simp: append_report_def split: option.splits)

lemma final_status_terminal: "final_status b rec reasons \<in> set TERMINAL_RUN_STATUSES"
  by (simp add: final_status_def TERMINAL_RUN_STATUSES_def)

text \<open>The recommendations after a run has closed.\<close>

definition proposals_moved ::
  "(json \<Rightarrow> string) \<Rightarrow> analysis_run \<Rightarrow> run_results \<Rightarrow> agent_task list \<Rightarrow> db \<Rightarrow> db \<Rightarrow> bool" where
  "proposals_moved digest run results tasks s s' \<longleftrightarrow>
     t_recommendations s' = t_recommendations s \<or>
     (\<exists>r. rc_id r \<notin> rc_id ` set (t_recommendations s) \<and>
        t_recommendations s' = map (outdated run (rc_id r)) (t_recommendations s) @ [r] \<and>
        proposed_from digest run (case snapshot_of run s of None \<Rightarrow> [] | Some sn \<Rightarrow> sn_input_versions sn)
          (result_of results (or_else (task_of tasks AGENT_PLANNING 1) (task_of tasks AGENT_PLANNING 0)))
          (result_of results (task_of tasks AGENT_RM 1)) r)"

definition run_closed :: "analysis_run \<Rightarrow> db \<Rightarrow> db \<Rightarrow> bool" where
  "run_closed run s s' \<longleftrightarrow>
     (\<exists>run'. ru_id run' = ru_id run \<and> ru_status run' \<in> set TERMINAL_RUN_STATUSES \<and>
        ru_snapshot_id run' = ru_snapshot_id run \<and> t_runs s' = upd ru_id run' (t_runs s)) \<and>
     t_approvals s' = t_approvals s \<and> t_snapshots s' = t_snapshots s \<and> t_results s' = t_results s \<and>
     t_orders s' = t_orders s \<and> t_jobs s' = t_jobs s \<and> utcnow s' = utcnow s \<and> uuid4 s' = uuid4 s \<and>
     drawn s \<le> drawn s'"

lemma finalizeD:
  assumes "finalize digest run tasks results s = Inr (run', s')"
  shows "run_closed run s s'" and "t_tasks s' = t_tasks s" and "proposals_moved digest run results tasks s s'"
proof -
  let ?versions = "case snapshot_of run s of None \<Rightarrow> [] | Some sn \<Rightarrow> sn_input_versions sn"
  let ?planning = "result_of results (or_else (task_of tasks AGENT_PLANNING 1) (task_of tasks AGENT_PLANNING 0))"
  let ?rm = "result_of results (task_of tasks AGENT_RM 1)"
  from assms obtain rec s1 where
      cr: "create_recommendation digest run ?versions ?planning ?rm s = Inr (rec, s1)"
    and rest: "let s2 = (case rec of None \<Rightarrow> s1 | Some r \<Rightarrow> supersede_previous run (Some (rc_id r)) s1) in
      \<exists>b reasons reason ec now sn. let st = final_status b rec reasons in
        close_run (run\<lparr>ru_status := st\<rparr>) st reason ec (map_option rc_id rec) now
          (append_report (run\<lparr>ru_status := st\<rparr>) tasks results sn rec s2) = Inr (run', s')"
    unfolding finalize_def Let_def bind_err_Inr case_prod_Inr by blast
  define s2 where "s2 = (case rec of None \<Rightarrow> s1 | Some r \<Rightarrow> supersede_previous run (Some (rc_id r)) s1)"
  from rest obtain st reason ec now sn where st: "st \<in> set TERMINAL_RUN_STATUSES"
    and cl: "close_run (run\<lparr>ru_status := st\<rparr>) st reason ec (map_option rc_id rec) now
        (append_report (run\<lparr>ru_status := st\<rparr>) tasks results sn rec s2) = Inr (run', s')"
    unfolding s2_def Let_def using final_status_terminal by blast
  have moved: "t_runs s2 = t_runs s" "t_tasks s2 = t_tasks s" "t_approvals s2 = t_approvals s"
      "t_snapshots s2 = t_snapshots s" "t_results s2 = t_results s" "t_orders s2 = t_orders s"
      "t_jobs s2 = t_jobs s" "utcnow s2 = utcnow s" "uuid4 s2 = uuid4 s" "drawn s \<le> drawn s2"
    using cr by (auto simp: s2_def supersede_previous_eq elim!: create_recommendationD)
  note c = close_runD [OF cl]
  have k: "steady s2 s'" using steady_trans [OF report_frame(7) c(6)] .
  show "t_tasks s' = t_tasks s" using c(5) moved by simp
  show "run_closed run s s'"
    unfolding run_closed_def using c(1-4) st moved k
    by (auto simp: steady_def intro!: exI [of _ run'])
  show "proposals_moved digest run results tasks s s'"
    using cr
  proof (cases rule: create_recommendationD)
    case nothing_to_propose
    then show ?thesis using k by (simp add: proposals_moved_def steady_def s2_def)
  next
    case (created r)
    have "outdated run (rc_id r) r = r" by (simp add: outdated_def)
    then have "t_recommendations s' = map (outdated run (rc_id r)) (t_recommendations s) @ [r]"
      using k created by (simp add: steady_def s2_def supersede_previous_eq)
    then show ?thesis using created by (auto simp: proposals_moved_def)
  qed
qed

lemma finalize_deadlineD:
  assumes "finalize_deadline run tasks results s = Inr (run', s')"
  shows "run_closed run s s'" and "t_recommendations s' = t_recommendations s"
    and "map tk_id (t_tasks s') = map tk_id (t_tasks s)"
proof -
  note c = close_runD [OF assms [unfolded finalize_deadline_def Let_def]]
  have k: "steady (cancel_active (ru_id run) s) s'" using steady_trans [OF report_frame(7) c(6)] .
  show "run_closed run s s'"
    unfolding run_closed_def using c(1-4) k
    by (auto simp: steady_def cancel_active_def TERMINAL_RUN_STATUSES_def intro!: exI [of _ run'])
  show "t_recommendations s' = t_recommendations s" using k by (simp add: steady_def cancel_active_def)
  show "map tk_id (t_tasks s') = map tk_id (t_tasks s)" using c(5) by (simp add: cancel_active_def)
qed

text \<open>Identifiers that are still to be drawn are new.\<close>

definition fresh_ids :: "db \<Rightarrow> bool" where
  "fresh_ids s \<longleftrightarrow>
     inj_on (uuid4 s) {drawn s..} \<and>
     (\<forall>n \<ge> drawn s. uuid4 s n \<notin> rc_id ` set (t_recommendations s) \<and>
        uuid4 s n \<notin> no_id ` set (t_notifications s) \<and> uuid4 s n \<notin> jb_id ` set (t_jobs s) \<and>
        uuid4 s n \<notin> tk_id ` set (t_tasks s) \<and> uuid4 s n \<notin> tk_message_id ` set (t_tasks s))"

lemma finalize_total:
  assumes "fresh_ids s"
  shows "\<exists>run' s'. finalize digest run tasks results s = Inr (run', s')"
proof -
  let ?versions = "case snapshot_of run s of None \<Rightarrow> [] | Some sn \<Rightarrow> sn_input_versions sn"
  let ?planning = "result_of results (or_else (task_of tasks AGENT_PLANNING 1) (task_of tasks AGENT_PLANNING 0))"
  let ?rm = "result_of results (task_of tasks AGENT_RM 1)"
  have "uuid4 s (drawn s) \<notin> rc_id ` set (t_recommendations s)" using assms by (simp add: fresh_ids_def)
  from create_recommendation_total [OF this] obtain rec s1 where
      cr: "create_recommendation digest run ?versions ?planning ?rm s = Inr (rec, s1)" by blast
  define s2 where "s2 = (case rec of None \<Rightarrow> s1 | Some r \<Rightarrow> supersede_previous run (Some (rc_id r)) s1)"
  have "t_notifications s2 = t_notifications s" "uuid4 s2 = uuid4 s" "drawn s \<le> drawn s2"
    using cr by (auto simp: s2_def supersede_previous_eq elim!: create_recommendationD)
  with assms have "uuid4 s2 (drawn s2) \<notin> no_id ` set (t_notifications s2)" by (simp add: fresh_ids_def)
  then have "\<exists>run' s'. close_run r st reason ec i done_at (append_report r tasks results sn rec s2) = Inr (run', s')"
    for r st reason ec i done_at sn by (intro close_run_total) simp
  then show ?thesis unfolding finalize_def Let_def using cr by (simp add: s2_def)
qed

end
