(* ===== verification/LS_FourEyes.thy ===== *)
theory LS_FourEyes
  imports LS_RunFrames
begin

text \<open>
  The separation of duties over the life of a proposal: what every step of the program keeps
  of the recommendations and of their approvals.
\<close>

section \<open>Steps that leave these tables alone\<close>

text \<open>The proposals, their approvals and the idempotency keys.\<close>

definition papers_same :: "db \<Rightarrow> db \<Rightarrow> bool" where
  "papers_same s s' \<longleftrightarrow>
     t_recommendations s' = t_recommendations s \<and> t_approvals s' = t_approvals s \<and>
     t_idempotency_keys s' = t_idempotency_keys s"

lemma papers_same_refl [simp]: "papers_same s s"
  by (simp add: papers_same_def)

lemma papers_same_trans: "papers_same s t \<Longrightarrow> papers_same t u \<Longrightarrow> papers_same s u"
  by (simp add: papers_same_def)

lemma papers_locks [simp]: "papers_same s (take_locks ls s)"
  by (simp add: papers_same_def take_locks_def)

lemma papers_event [simp]: "papers_same s (append_event i ty a p s)"
  by (simp add: papers_same_def append_event_def)

lemma papers_run [simp]: "papers_same s (update_run r s)"
  by (simp add: papers_same_def update_run_def)

lemma papers_update:
  "update_order o1 s = Inr s' \<Longrightarrow> papers_same s s'"
  "update_slot sl s = Inr s' \<Longrightarrow> papers_same s s'"
  "update_balance b s = Inr s' \<Longrightarrow> papers_same s s'"
  by (auto simp: update_order_def update_slot_def update_balance_def papers_same_def run_simps)

lemma papers_flush_slots: "flush_slots ids s = Inr s' \<Longrightarrow> papers_same s s'"
  by (induction ids s rule: flush_slots.induct)
    (auto simp: run_simps split: option.splits intro: papers_same_trans [OF papers_update(2)])

lemma papers_flush_balances: "flush_balances ids s = Inr s' \<Longrightarrow> papers_same s s'"
  by (induction ids s rule: flush_balances.induct)
    (auto simp: run_simps split: option.splits intro: papers_same_trans [OF papers_update(3)])

lemma papers_release_loops [simp]:
  "papers_same s (release_allocations_loop as s)" "papers_same s (release_reservations_loop f rs s)"
proof -
  show "papers_same s (release_allocations_loop as s)"
    by (induction as arbitrary: s) (auto simp: papers_same_def Let_def split: option.splits)
  show "papers_same s (release_reservations_loop f rs s)"
    by (induction rs arbitrary: s) (auto simp: papers_same_def Let_def split: option.splits)
qed

lemma papers_release_allocations:
  assumes "release_order_allocations ord s = Inr (as, s')"
  shows "papers_same s s'"
proof -
  from assms have "s' = s \<or> (\<exists>ids ls ms as. flush_slots ids (release_allocations_loop as
      (take_locks ls (take_locks ms s))) = Inr s')"
    by (auto simp: release_order_allocations_def lock_slots_def run_simps split: if_splits)
  then show ?thesis
    by (auto dest!: papers_flush_slots simp: papers_same_def take_locks_def
        papers_release_loops [unfolded papers_same_def])
qed

lemma papers_release_reservations:
  assumes "release_order_reservations ord s = Inr (rs, s')"
  shows "papers_same s s'"
proof -
  from assms have "s' = s \<or> (\<exists>ids ls ms f rs. flush_balances ids (release_reservations_loop f rs
      (take_locks ls (take_locks ms s))) = Inr s')"
    by (auto simp: release_order_reservations_def lock_balances_def run_simps split: if_splits)
  then show ?thesis
    by (auto dest!: papers_flush_balances simp: papers_same_def take_locks_def
        papers_release_loops [unfolded papers_same_def])
qed

lemma papers_allocate: "allocate sl o1 m u ac rid s = Inr (a, s') \<Longrightarrow> papers_same s s'"
  by (auto simp: allocate_def insert_allocation_def run_simps draw_def update_slot_def papers_same_def)

lemma papers_ensure_balance: "ensure_balance o1 f m s = Inr (i, s') \<Longrightarrow> papers_same s s'"
  by (auto simp: ensure_balance_def draw_def run_simps papers_same_def split: option.splits)

lemma papers_ensure_balances: "ensure_balances o1 f ms s = Inr s' \<Longrightarrow> papers_same s s'"
  by (induction o1 f ms s rule: ensure_balances.induct)
    (auto simp: run_simps dest: papers_ensure_balance intro: papers_same_trans)

lemma papers_lock_balance: "lock_balance_for o1 f m s = Inr (b, s') \<Longrightarrow> papers_same s s'"
  by (auto simp: lock_balance_for_def lock_balances_def Let_def run_simps papers_same_def take_locks_def
      dest!: papers_ensure_balance)

lemma papers_reserve: "reserve_material o1 f m oi q ac rid s = Inr (r, s') \<Longrightarrow> papers_same s s'"
  by (auto simp: reserve_material_def insert_reservation_def run_simps draw_def
      update_balance_def papers_same_def inventory_audit_def dest!: papers_lock_balance)

lemma papers_apply_allocations:
  "apply_allocations p rec i slots rs s = Inr (as, s') \<Longrightarrow> papers_same s s'"
proof (induction rs arbitrary: s as)
  case (Cons r rs)
  then obtain j a t as' where a: "allocate j i (decimal_or_zero (json_at r ''standard_minutes''))
      (decimal_or_zero (json_at r ''units'')) (Some (p_user_id p)) (Some (rc_id rec)) s = Inr (a, t)"
    and b: "apply_allocations p rec i slots rs t = Inr (as', s')"
    by (auto simp: run_simps split: option.splits if_splits)
  show ?case using papers_same_trans [OF papers_allocate [OF a] Cons.IH [OF b]] .
qed simp

lemma papers_apply_reservations:
  "apply_reservations p rec ord rs s = Inr (xs, s') \<Longrightarrow> papers_same s s'"
proof (induction rs arbitrary: s xs)
  case (Cons r rs)
  then obtain m x t xs' where a: "reserve_material (or_organization_id ord) (or_factory_id ord) m (or_id ord)
      (decimal_or_zero (json_at r ''quantity'')) (Some (p_user_id p)) (Some (rc_id rec)) s = Inr (x, t)"
    and b: "apply_reservations p rec ord rs t = Inr (xs', s')"
    by (auto simp: run_simps)
  show ?case using papers_same_trans [OF papers_reserve [OF a] Cons.IH [OF b]] .
qed simp

lemma papers_rebook:
  assumes "rebook p rec ord slots s = Inr (ra, rr, as, xs, s')"
  shows "papers_same s s'"
  using assms
  by (auto simp: rebook_def run_simps dest!: papers_release_allocations papers_release_reservations
      papers_apply_allocations papers_apply_reservations intro: papers_same_trans)

lemma papers_lock_inputs:
  assumes "lock_inputs ord rec s = Inr (slots, ms, s')"
  shows "papers_same s s'"
proof -
  from assms obtain ls ks t where "ensure_balances (or_organization_id ord) (or_factory_id ord) ms
      (take_locks ls s) = Inr t" "s' = take_locks ks t"
    by (auto simp: lock_inputs_def lock_slots_def lock_balances_def Let_def run_simps)
  then show ?thesis
    using papers_ensure_balances papers_same_trans papers_locks by blast
qed

lemma papers_store_states: "store_states xs s = Inr s' \<Longrightarrow> papers_same s s'"
  by (induction xs s rule: store_states.induct)
    (auto simp: run_simps split: if_splits intro: papers_same_trans [OF papers_update(1)])

lemma papers_recompute:
  "recompute_material_states f ms ids s = Inr (res, s') \<Longrightarrow> papers_same s s'"
  by (auto simp: recompute_material_states_def lock_orders_def Let_def run_simps
      split: option.splits if_splits dest!: papers_store_states intro: papers_same_trans [OF papers_locks])

lemma papers_enqueue: "enqueue q ty pl k av m s = Inr (j, s') \<Longrightarrow> papers_same s s'"
  by (auto simp: enqueue_def run_simps draw_def papers_same_def split: if_splits)

lemma papers_notify: "notify_of rec u r k ti b s = Inr s' \<Longrightarrow> papers_same s s'"
  by (auto simp: notify_of_def insert_notification_def run_simps draw_def papers_same_def)

section \<open>The invariant\<close>

text \<open>
  A proposal's hash is that of its document; one that is approved was approved, with that hash,
  by somebody other than the person who asked for it; one that is applied was applied by
  somebody other than that person.
\<close>

definition approved_by_other :: "approval list \<Rightarrow> recommendation \<Rightarrow> bool" where
  "approved_by_other approvals r \<longleftrightarrow>
     (\<exists>a \<in> set approvals. ap_recommendation_id a = rc_id r \<and> ap_decision a = DEC_APPROVED \<and>
        ap_decided_by a \<noteq> rc_proposer_user_id r \<and> ap_proposal_hash a = rc_proposal_hash r)"

definition applied_by_other :: "recommendation \<Rightarrow> bool" where
  "applied_by_other r \<longleftrightarrow> (\<exists>u. rc_applied_by r = Some u \<and> u \<noteq> rc_proposer_user_id r)"

definition eyes_ok :: "(json \<Rightarrow> string) \<Rightarrow> approval list \<Rightarrow> recommendation \<Rightarrow> bool" where
  "eyes_ok digest approvals r \<longleftrightarrow>
     rc_proposal_hash r = digest (rc_proposal r) \<and>
     (rc_status r \<in> {REC_APPROVED, REC_APPLIED} \<longrightarrow> approved_by_other approvals r) \<and>
     (rc_status r = REC_APPLIED \<longrightarrow> applied_by_other r)"

definition four_eyes :: "(json \<Rightarrow> string) \<Rightarrow> db \<Rightarrow> bool" where
  "four_eyes digest s \<longleftrightarrow>
     distinct (map rc_id (t_recommendations s)) \<and>
     (\<forall>r \<in> set (t_recommendations s). eyes_ok digest (t_approvals s) r)"

lemma four_eyes_cong:
  "four_eyes digest s \<Longrightarrow> t_recommendations s' = t_recommendations s \<Longrightarrow> t_approvals s' = t_approvals s \<Longrightarrow>
   four_eyes digest s'"
  by (simp add: four_eyes_def)

lemma four_eyes_papers: "papers_same s s' \<Longrightarrow> four_eyes digest s' = four_eyes digest s"
  by (simp add: four_eyes_def papers_same_def)

text \<open>A row that is retired keeps what the invariant looks at and its status is not one of the two.\<close>

definition retires :: "recommendation \<Rightarrow> recommendation \<Rightarrow> bool" where
  "retires r r' \<longleftrightarrow>
     rc_id r' = rc_id r \<and> rc_proposal r' = rc_proposal r \<and> rc_proposal_hash r' = rc_proposal_hash r \<and>
     rc_proposer_user_id r' = rc_proposer_user_id r \<and> rc_applied_by r' = rc_applied_by r \<and>
     (rc_status r' = rc_status r \<or> rc_status r' \<notin> {REC_APPROVED, REC_APPLIED})"

lemma eyes_ok_applied:
  assumes "eyes_ok digest approvals r" and "rc_status r = REC_APPLIED"
  shows "\<exists>u. rc_applied_by r = Some u \<and> u \<noteq> rc_proposer_user_id r"
    and "\<exists>a \<in> set approvals. ap_recommendation_id a = rc_id r \<and> ap_decision a = DEC_APPROVED \<and>
      ap_decided_by a \<noteq> rc_proposer_user_id r \<and> ap_proposal_hash a = digest (rc_proposal r)"
proof -
  have h: "rc_proposal_hash r = digest (rc_proposal r)" using assms by (simp add: eyes_ok_def)
  show "\<exists>u. rc_applied_by r = Some u \<and> u \<noteq> rc_proposer_user_id r"
    using assms by (simp add: eyes_ok_def applied_by_other_def)
  have "approved_by_other approvals r" using assms by (simp add: eyes_ok_def)
  then show "\<exists>a \<in> set approvals. ap_recommendation_id a = rc_id r \<and> ap_decision a = DEC_APPROVED \<and>
      ap_decided_by a \<noteq> rc_proposer_user_id r \<and> ap_proposal_hash a = digest (rc_proposal r)"
    unfolding approved_by_other_def h .
qed

lemma eyes_ok_retires: "retires r r' \<Longrightarrow> eyes_ok digest as r \<Longrightarrow> eyes_ok digest as r'"
  by (auto simp: retires_def eyes_ok_def approved_by_other_def applied_by_other_def)

lemma eyes_ok_more: "set as \<subseteq> set bs \<Longrightarrow> eyes_ok digest as r \<Longrightarrow> eyes_ok digest bs r"
  by (auto simp: eyes_ok_def approved_by_other_def)

lemma four_eyes_map:
  assumes "four_eyes digest s" and "t_approvals s' = t_approvals s"
    and "t_recommendations s' = map f (t_recommendations s)" and "\<And>r. retires r (f r)"
  shows "four_eyes digest s'"
proof -
  have "rc_id \<circ> f = rc_id" using assms(4) by (auto simp: retires_def)
  moreover have "eyes_ok digest (t_approvals s) (f x)" if "x \<in> set (t_recommendations s)" for x
    using that assms(1) eyes_ok_retires [OF assms(4)] by (simp add: four_eyes_def)
  ultimately show ?thesis using assms(1-3) by (simp add: four_eyes_def)
qed

lemma four_eyes_upd:
  assumes "four_eyes digest s" and "row rc_id (rc_id r) (t_recommendations s) = Some x"
    and "t_recommendations s' = upd rc_id r (t_recommendations s)"
    and "set (t_approvals s) \<subseteq> set (t_approvals s')" and "eyes_ok digest (t_approvals s') r"
  shows "four_eyes digest s'"
proof -
  have "map rc_id (upd rc_id r rows) = map rc_id rows" for rows by (auto simp: upd_def)
  moreover have "eyes_ok digest (t_approvals s') y" if "y \<in> set (t_recommendations s')" for y
    using that assms eyes_ok_more [OF assms(4)] by (auto simp: four_eyes_def upd_def split: if_splits)
  ultimately show ?thesis using assms(1,3) by (simp add: four_eyes_def)
qed

section \<open>The operations\<close>

lemma supersede_approvals:
  assumes "supersede rec p stale trace s = Inr (out, s')"
  shows "t_approvals s' = t_approvals s"
  using assms
  by (auto simp: supersede_def run_simps dest!: quiet_notify_of)
    (auto simp: quiet_def audit_of_def update_recommendation_def)

lemma eyes_of_row:
  "four_eyes digest s \<Longrightarrow> row rc_id i (t_recommendations s) = Some r \<Longrightarrow>
   eyes_ok digest (t_approvals s) r \<and> rc_id r = i"
  by (auto simp: four_eyes_def dest: row_in_set row_key)

lemma four_eyes_retire:
  assumes "four_eyes digest s" and "row rc_id (rc_id r) (t_recommendations s) = Some r" and "retires r r'"
    and "t_recommendations s' = upd rc_id r' (t_recommendations s)" and "t_approvals s' = t_approvals s"
  shows "four_eyes digest s'"
  using four_eyes_upd [of digest s r' r s'] eyes_of_row [OF assms(1,2)] eyes_ok_retires [OF assms(3)] assms
  by (simp add: retires_def)

lemma expire_four_eyes:
  assumes "four_eyes digest s" and "row rc_id (rc_id rec) (t_recommendations s) = Some rec"
    and "t_recommendations t = t_recommendations s" and "t_approvals t = t_approvals s"
    and "expire_recommendation rec p ac trace t = Inr (out, s')"
  shows "four_eyes digest s'"
proof -
  note e = expireD [OF assms(5)]
  show ?thesis
    by (rule four_eyes_retire [OF assms(1,2)])
      (use e assms(3,4) in \<open>auto simp: rec_moved_def retires_def\<close>)
qed

lemma decide_four_eyes:
  assumes "four_eyes digest s" and "decide p i decision reason h trace s = Inr (out, s')"
  shows "four_eyes digest s'"
  using assms(2)
proof (cases rule: decideD)
  case (expired rec)
  show ?thesis
    by (rule expire_four_eyes [OF assms(1) _ _ _ expired(5)]) (use expired in simp_all)
next
  case (decided rec resolved a r)
  have ok: "eyes_ok digest (t_approvals s) rec" using eyes_of_row [OF assms(1) decided(1)] by simp
  show ?thesis
  proof (rule four_eyes_upd [OF assms(1), of r rec])
    show "row rc_id (rc_id r) (t_recommendations s) = Some rec" using decided by simp
    show "t_recommendations s' = upd rc_id r (t_recommendations s)"
      using decided by (simp add: rec_moved_def)
    show "set (t_approvals s) \<subseteq> set (t_approvals s')" using decided by auto
    show "eyes_ok digest (t_approvals s') r"
      using ok decided by (auto simp: eyes_ok_def approved_by_other_def)
  qed
qed

lemma finish_apply_approvals:
  assumes "finish_apply p rec ord before after ms trace s = Inr (r, s')"
  shows "t_approvals s' = t_approvals s"
  using assms
  by (auto simp: finish_apply_def run_simps split: if_splits dest!: quiet_notify_of quiet_enqueue)
    (auto simp: quiet_def audit_of_def update_recommendation_def)

lemma apply_four_eyes:
  assumes "four_eyes digest s" and "apply_recommendation p i h trace s = Inr (out, s')"
  shows "four_eyes digest s'"
  using assms(2)
proof (cases rule: applyD)
  case (expired rec ord)
  show ?thesis
    by (rule expire_four_eyes [OF assms(1) _ _ _ expired(3)])
      (use expired in \<open>simp_all add: open_gate_def\<close>)
next
  case (stale rec ord slots ms s1)
  have p: "t_recommendations s1 = t_recommendations s" "t_approvals s1 = t_approvals s"
    using papers_lock_inputs [OF stale(5)] by (simp_all add: papers_same_def)
  show ?thesis
    by (rule four_eyes_retire [OF assms(1)])
      (use stale(1) p supersedeD(2) [OF stale(7)] supersede_approvals [OF stale(7)] in
        \<open>auto simp: open_gate_def rec_moved_def retires_def\<close>)
next
  case (applied rec ord slots ms s1 ra rr as xs s2 s3 m s4 current bf af r res)
  have "papers_same s1 s4"
    using papers_same_trans [OF papers_same_trans [OF papers_rebook [OF applied(8)] papers_update(1) [OF applied(9)]]
      papers_recompute [OF applied(10)]] .
  then have p: "t_recommendations s4 = t_recommendations s" "t_approvals s4 = t_approvals s"
    using papers_lock_inputs [OF applied(5)] by (simp_all add: papers_same_def)
  note f = finish_applyD [OF applied(12)] finish_apply_approvals [OF applied(12)]
  have rec: "row rc_id i (t_recommendations s) = Some rec" "rc_id rec = i" "rc_status rec = REC_APPROVED"
    using applied(1) by (simp_all add: open_gate_def)
  have ok: "eyes_ok digest (t_approvals s) rec" using eyes_of_row [OF assms(1) rec(1)] by simp
  show ?thesis
  proof (rule four_eyes_upd [OF assms(1), of r rec])
    show "row rc_id (rc_id r) (t_recommendations s) = Some rec" using rec f(1) by simp
    show "t_recommendations s' = upd rc_id r (t_recommendations s)"
      using f(2) p by (simp add: rec_moved_def)
    have ap: "t_approvals s' = t_approvals s" using f(3) p by simp
    then show "set (t_approvals s) \<subseteq> set (t_approvals s')" by simp
    show "eyes_ok digest (t_approvals s') r"
      using ok rec applied(4) by (auto simp: ap f(1) eyes_ok_def approved_by_other_def applied_by_other_def)
  qed
qed

text \<open>The orchestrator: nothing happens to the two tables, or the run is closed.\<close>

lemma one_envelope_papers: "one_envelope r a ty n pa refs s = Inr (es, s') \<Longrightarrow> papers_same s s'"
  by (auto simp: one_envelope_def envelope_for_def make_envelope_def run_simps draw_def papers_same_def
      split: option.splits)

lemma round_zero_papers: "round_zero_envelopes r refs specs s = Inr (es, s') \<Longrightarrow> papers_same s s'"
proof (induction specs arbitrary: s es)
  case (Cons x specs)
  obtain a ty where "x = (a, ty)" by fastforce
  with Cons.prems obtain e t es' where a: "envelope_for r a ty 0 None refs s = Inr (e, t)"
    and b: "round_zero_envelopes r refs specs t = Inr (es', s')" by (auto simp: run_simps)
  have "papers_same s t"
    using a by (auto simp: envelope_for_def make_envelope_def run_simps draw_def papers_same_def
        split: option.splits)
  then show ?case using papers_same_trans Cons.IH [OF b] by blast
qed simp

lemma note_replan_papers: "note_replan r reason s = (r', s') \<Longrightarrow> papers_same s s'"
  by (auto simp: note_replan_def Let_def split: if_splits intro: papers_same_trans [OF papers_run papers_event])

lemma after_planning_papers:
  assumes "after_planning digest run sid tasks results t q s = Inr (es, s')"
  shows "papers_same s s' \<or> (\<exists>run'. finalize digest run tasks results s = Inr (run', s'))"
  using assms
  by (auto simp: after_planning_def run_simps split: if_splits option.splits dest: one_envelope_papers)

lemma decide_tasks_papers:
  assumes "decide_tasks digest run sid tasks results s = Inr (es, s')"
  shows "papers_same s s' \<or> (\<exists>run'. finalize digest run tasks results s = Inr (run', s'))"
  using assms
  by (auto simp: decide_tasks_def Let_def split: if_splits option.splits prod.splits
      dest: round_zero_papers one_envelope_papers note_replan_papers after_planning_papers
      intro: papers_same_trans)

lemma decide_runD:
  assumes "decide_run digest run s = Inr (es, s')"
  shows "papers_same s s' \<or>
    (\<exists>r t run'. papers_same s t \<and> ru_snapshot_id r = ru_snapshot_id run \<and> t_snapshots t = t_snapshots s \<and>
       uuid4 t = uuid4 s \<and> drawn t = drawn s \<and> ru_id r = ru_id run \<and> ru_order_id r = ru_order_id run \<and>
       finalize digest r (tasks_of run s) (results_of run s) t = Inr (run', s')) \<or>
    (\<exists>run'. finalize_deadline run (tasks_of run s) (results_of run s) s = Inr (run', s'))"
proof (cases "ru_status run \<in> set TERMINAL_RUN_STATUSES \<or> ru_deadline_at run \<le> utcnow s")
  case True
  with assms show ?thesis by (auto simp: decide_run_def run_simps Let_def split: if_splits option.splits)
next
  case False
  obtain r t sid where st: "start_run run sid s = (r, t)"
    and de: "decide_tasks digest r sid (tasks_of run s) (results_of run s) t = Inr (es, s')"
    using assms False by (auto simp: decide_run_def Let_def split: option.splits prod.splits)
  have "papers_same s t" "ru_snapshot_id r = ru_snapshot_id run" "t_snapshots t = t_snapshots s"
      "uuid4 t = uuid4 s" "drawn t = drawn s" "ru_id r = ru_id run" "ru_order_id r = ru_order_id run"
    using st by (auto simp: start_run_def Let_def split: if_splits intro: papers_same_trans [OF papers_run papers_event])
  with decide_tasks_papers [OF de] show ?thesis using papers_same_trans by blast
qed

lemma proposals_moved_four_eyes:
  assumes "four_eyes digest s" and "proposals_moved digest run results tasks s s'"
    and "t_approvals s' = t_approvals s"
  shows "four_eyes digest s'"
  using assms(2) unfolding proposals_moved_def
proof (elim disjE exE conjE)
  assume "t_recommendations s' = t_recommendations s"
  then show ?thesis using assms by (simp add: four_eyes_def)
next
  fix r :: recommendation
  let ?t = "s\<lparr>t_recommendations := map (outdated run (rc_id r)) (t_recommendations s)\<rparr>"
  assume new: "rc_id r \<notin> rc_id ` set (t_recommendations s)"
    and rows: "t_recommendations s' = map (outdated run (rc_id r)) (t_recommendations s) @ [r]"
    and r: "proposed_from digest run (case snapshot_of run s of None \<Rightarrow> [] | Some sn \<Rightarrow> sn_input_versions sn)
       (result_of results (or_else (task_of tasks AGENT_PLANNING 1) (task_of tasks AGENT_PLANNING 0)))
       (result_of results (task_of tasks AGENT_RM 1)) r"
  have "retires x (outdated run (rc_id r) x)" for x
    by (simp add: retires_def outdated_def)
  then have "four_eyes digest ?t" by (intro four_eyes_map [OF assms(1), where f = "outdated run (rc_id r)"]) simp_all
  moreover have "eyes_ok digest as r" for as using r by (simp add: proposed_from_def eyes_ok_def)
  ultimately show ?thesis using new assms(3) by (auto simp: four_eyes_def rows image_iff)
qed

lemma decide_run_four_eyes:
  assumes "four_eyes digest s" and "decide_run digest run s = Inr (es, s')"
  shows "four_eyes digest s'"
  using decide_runD [OF assms(2)]
proof (elim disjE exE conjE)
  show "papers_same s s' \<Longrightarrow> four_eyes digest s'" using assms(1) by (simp add: four_eyes_papers)
next
  fix r t run'
  assume "papers_same s t" and f: "finalize digest r (tasks_of run s) (results_of run s) t = Inr (run', s')"
  then have "four_eyes digest t" using assms(1) by (simp add: four_eyes_papers)
  then show "four_eyes digest s'"
    using finalizeD(1) [OF f] by (intro proposals_moved_four_eyes [OF _ finalizeD(3) [OF f]])
      (simp_all add: run_closed_def)
next
  fix run'
  assume f: "finalize_deadline run (tasks_of run s) (results_of run s) s = Inr (run', s')"
  show "four_eyes digest s'"
    using finalize_deadlineD(1,2) [OF f] four_eyes_cong [OF assms(1)] by (simp add: run_closed_def)
qed

text \<open>The reconciler.\<close>

lemma advance_each_papers: "advance_each minute rs s = Inr (n, s') \<Longrightarrow> papers_same s s'"
  by (induction rs arbitrary: s n) (auto simp: run_simps dest!: papers_enqueue intro: papers_same_trans)

lemma fold_audit_expiry_papers: "papers_same s (fold audit_expiry rows s)"
  by (induction rows arbitrary: s) (auto simp: audit_expiry_def papers_same_def)

lemma expire_recommendations_rows:
  "\<exists>f. t_recommendations (snd (expire_recommendations busy now s)) = map f (t_recommendations s) \<and>
     (\<forall>r. retires r (f r))"
  "t_approvals (snd (expire_recommendations busy now s)) = t_approvals s"
proof -
  note a = fold_audit_expiry_papers [unfolded papers_same_def]
  show "\<exists>f. t_recommendations (snd (expire_recommendations busy now s)) = map f (t_recommendations s) \<and>
     (\<forall>r. retires r (f r))"
  proof (cases "overdue_recommendations busy (cutoff now s) s = []")
    case True
    then show ?thesis by (intro exI [of _ "\<lambda>x. x"]) (simp add: expire_recommendations_def retires_def)
  next
    case False
    then show ?thesis
      by (intro exI [of _ "\<lambda>r. if rc_id r \<in> rc_id ` set (overdue_recommendations busy (cutoff now s) s)
          then r\<lparr>rc_status := REC_EXPIRED, rc_version := rc_version r + 1\<rparr> else r"])
        (simp add: expire_recommendations_def a Let_def take_locks_def retires_def)
  qed
  show "t_approvals (snd (expire_recommendations busy now s)) = t_approvals s"
    by (simp add: expire_recommendations_def a Let_def take_locks_def)
qed

lemma reconcile_four_eyes:
  assumes "four_eyes digest s" and "reconcile_in_transaction busy now s = Inr (rep, s')"
  shows "four_eyes digest s'"
proof -
  let ?s1 = "snd (purge_expired_idempotency_keys busy now s)"
  let ?s2 = "snd (expire_recommendations busy now ?s1)"
  from assms(2) obtain n where n: "advance_stalled_runs now ?s2 = Inr (n, s')"
    by (auto simp: reconcile_in_transaction_def Let_def case_prod_beta run_simps)
  have one: "four_eyes digest ?s1"
    using assms(1) by (simp add: four_eyes_def purge_expired_idempotency_keys_def Let_def case_prod_beta)
  obtain f where f: "t_recommendations ?s2 = map f (t_recommendations ?s1)" "\<forall>r. retires r (f r)"
    using expire_recommendations_rows(1) by blast
  have two: "four_eyes digest ?s2"
    by (rule four_eyes_map [OF one expire_recommendations_rows(2) f(1)]) (use f(2) in blast)
  have "papers_same ?s2 s'"
    using n by (auto simp: advance_stalled_runs_def Let_def dest: advance_each_papers)
  then show ?thesis using two by (simp add: four_eyes_papers)
qed

section \<open>The life of a proposal\<close>

inductive proposal_step :: "(json \<Rightarrow> string) \<Rightarrow> db \<Rightarrow> db \<Rightarrow> bool" for digest where
  deciding: "decide p i decision reason h trace s = Inr (out, s') \<Longrightarrow> proposal_step digest s s'"
| applying: "apply_recommendation p i h trace s = Inr (out, s') \<Longrightarrow> proposal_step digest s s'"
| orchestrating: "decide_run digest run s = Inr (es, s') \<Longrightarrow> proposal_step digest s s'"
| reconciling: "reconcile_in_transaction busy now s = Inr (rep, s') \<Longrightarrow> proposal_step digest s s'"
| elsewhere: "t_recommendations s' = t_recommendations s \<Longrightarrow> t_approvals s' = t_approvals s \<Longrightarrow>
    proposal_step digest s s'"

inductive_cases proposal_stepE: "proposal_step digest s s'"

lemma proposal_step_four_eyes:
  assumes "proposal_step digest s s'" and "four_eyes digest s"
  shows "four_eyes digest s'"
  using assms
  by (cases rule: proposal_step.cases)
    (auto intro: decide_four_eyes apply_four_eyes decide_run_four_eyes reconcile_four_eyes four_eyes_cong)

lemma life_four_eyes:
  assumes "(proposal_step digest)\<^sup>*\<^sup>* s s'" and "four_eyes digest s"
  shows "four_eyes digest s'"
  using assms by (induction rule: rtranclp_induct) (auto intro: proposal_step_four_eyes)

text \<open>
  C35. Nobody decides or applies their own proposal, however the steps of the program are
  interleaved: decisions, applications, orchestrator steps (which make and supersede
  proposals), reconciler rounds and everything else. Starting where it holds, in particular
  from a database with no proposals, every applied proposal was applied by somebody other than
  the person who asked for it, and its document is the one, by its hash, that somebody other
  than that person approved.
\<close>

theorem four_eyes_always:
  assumes "(proposal_step digest)\<^sup>*\<^sup>* s s'" and "four_eyes digest s"
  shows "four_eyes digest s' \<and>
    (\<forall>r. r \<in> set (t_recommendations s') \<and> rc_status r = REC_APPLIED \<longrightarrow>
       (\<exists>u. rc_applied_by r = Some u \<and> u \<noteq> rc_proposer_user_id r) \<and>
       (\<exists>a \<in> set (t_approvals s'). ap_recommendation_id a = rc_id r \<and> ap_decision a = DEC_APPROVED \<and>
          ap_decided_by a \<noteq> rc_proposer_user_id r \<and> ap_proposal_hash a = digest (rc_proposal r)))"
proof (intro conjI allI impI)
  show inv: "four_eyes digest s'" using life_four_eyes [OF assms] .
  fix r :: recommendation
  assume "r \<in> set (t_recommendations s') \<and> rc_status r = REC_APPLIED"
  with inv have "eyes_ok digest (t_approvals s') r" "rc_status r = REC_APPLIED"
    by (simp_all add: four_eyes_def)
  then show "\<exists>u. rc_applied_by r = Some u \<and> u \<noteq> rc_proposer_user_id r"
    "\<exists>a \<in> set (t_approvals s'). ap_recommendation_id a = rc_id r \<and> ap_decision a = DEC_APPROVED \<and>
       ap_decided_by a \<noteq> rc_proposer_user_id r \<and> ap_proposal_hash a = digest (rc_proposal r)"
    by (rule eyes_ok_applied)+
qed

text \<open>The demonstration: an approved proposal is applied.\<close>

definition demo_digest :: "json \<Rightarrow> string" where
  "demo_digest v = rc_proposal_hash demo_rec"

definition eyes_demo :: db where
  "eyes_demo = approvals_demo\<lparr>t_approvals :=
     [\<lparr>ap_id = 40, ap_recommendation_id = 20, ap_decision = DEC_APPROVED, ap_decided_by = 2,
       ap_reason = '''', ap_proposal_hash = ''hash'', ap_decided_at = 0\<rparr>]\<rparr>"

definition eyes_apply :: "apply_result outcome" where
  "eyes_apply = apply_recommendation (demo_user 2 [SUPERVISOR]) 20 ''hash'' None eyes_demo"

lemma eyes_load:
  "load_recommendation 20 (demo_user 2 [SUPERVISOR]) APPLY_PERMISSION eyes_demo = Inr demo_rec"
  by code_simp

lemma eyes_apply_value:
  "case eyes_apply of Inr (Inr res, s') \<Rightarrow> map rc_status (t_recommendations s') = [REC_APPLIED] | _ \<Rightarrow> False"
  unfolding eyes_apply_def apply_recommendation_def eyes_load bind_err_simps
  by (simp add: demo_arithmetic apply_steps eyes_demo_def demo_rows Let_def del: One_nat_def cong: eval_congs)

lemma outcome_value:
  "(case r of Inr (Inr res, s') \<Rightarrow> P res s' | _ \<Rightarrow> False) \<Longrightarrow> \<exists>res s'. r = Inr (Inr res, s') \<and> P res s'"
  by (cases r; cases "fst (projr r)") (auto split: sum.splits)

lemma eyes_demo_ok: "four_eyes demo_digest eyes_demo"
  by (simp add: four_eyes_def eyes_ok_def approved_by_other_def demo_digest_def eyes_demo_def
      approvals_demo_def cancel_demo_def stock_demo_def demo_rec_def)

theorem four_eyes_always_witness:
  "case eyes_apply of Inr (Inr res, s') \<Rightarrow>
     \<exists>r \<in> set (t_recommendations s'). rc_status r = REC_APPLIED \<and> rc_applied_by r \<noteq> Some (rc_proposer_user_id r)
   | _ \<Rightarrow> False"
proof -
  obtain res s' where d: "eyes_apply = Inr (Inr res, s')" "map rc_status (t_recommendations s') = [REC_APPLIED]"
    using outcome_value [OF eyes_apply_value] by (elim exE conjE) (rule that)
  then obtain r where r: "r \<in> set (t_recommendations s')" "rc_status r = REC_APPLIED" by auto
  have "proposal_step demo_digest eyes_demo s'"
    using d(1) unfolding eyes_apply_def by (rule applying)
  then have "\<exists>u. rc_applied_by r = Some u \<and> u \<noteq> rc_proposer_user_id r"
    using four_eyes_always [OF r_into_rtranclp eyes_demo_ok] r by blast
  with r have "\<exists>r \<in> set (t_recommendations s'). rc_status r = REC_APPLIED \<and>
      rc_applied_by r \<noteq> Some (rc_proposer_user_id r)" by auto
  then show ?thesis unfolding d(1) by simp
qed

end
