(* ===== verification/LS_Grounded.thy ===== *)
theory LS_Grounded
  imports LS_FourEyes LS_Executor
begin

text \<open>
  Where a proposal's numbers come from: the rows a proposal names and the versions it pins are
  those of the run's snapshot, whatever the agents answered.
\<close>

section \<open>Results that passed the checks\<close>

definition grounded_result :: "run_snapshot \<Rightarrow> agent_result \<Rightarrow> bool" where
  "grounded_result sn r \<longleftrightarrow>
     (\<forall>a \<in> set (ar_recommended_actions r). action_payload_errors (sn_data sn) a = [])"

lemma checked_result_grounded: "grounded_result sn (checked_result task run sn r s)"
  by (auto simp: checked_result_def Let_def grounded_result_def validate_result_def failed_result_def)

definition results_checked :: "analysis_run \<Rightarrow> run_snapshot \<Rightarrow> db \<Rightarrow> bool" where
  "results_checked run sn s \<longleftrightarrow>
     (\<forall>x \<in> set (t_results s). rr_run_id x = ru_id run \<longrightarrow>
        (\<exists>task run' r t. ru_id run' = ru_id run \<and> rr_payload x = checked_result task run' sn r t))"

text \<open>Storing the outcome of a task, whatever the agent returned, keeps it so.\<close>

lemma store_outcome_checked:
  assumes "store_outcome task run sn r s = Inr (res, s')" and "results_checked run sn s"
  shows "results_checked run sn s'"
proof -
  have q: "t_results s2 = t_results s1" if "enqueue q ty pl k av m s1 = Inr (j, s2)" for q ty pl k av m s1 j s2
    using that by (auto simp: enqueue_def run_simps draw_def split: if_splits)
  from assms(1) have "t_results s' = t_results s \<or>
      (\<exists>x. t_results s' = t_results s @ [x] \<and> rr_payload x = checked_result task run sn r s)"
    by (auto simp: store_outcome_def Let_def draw_def run_simps insert_row_Inr complete_task_def
        split: if_splits dest!: q)
  then show ?thesis using assms(2) by (fastforce simp: results_checked_def)
qed

lemma other_outcome_checked:
  assumes "store_outcome task run' sn' r s = Inr (res, s')" and "results_checked run sn s"
    and "ru_id run' \<noteq> ru_id run"
  shows "results_checked run sn s'"
proof -
  have q: "t_results s2 = t_results s1" if "enqueue q ty pl k av m s1 = Inr (j, s2)" for q ty pl k av m s1 j s2
    using that by (auto simp: enqueue_def run_simps draw_def split: if_splits)
  from assms(1) have "t_results s' = t_results s \<or> (\<exists>x. t_results s' = t_results s @ [x] \<and> rr_run_id x = ru_id run')"
    by (auto simp: store_outcome_def Let_def draw_def run_simps insert_row_Inr complete_task_def
        split: if_splits dest!: q)
  then show ?thesis using assms(2,3) by (auto simp: results_checked_def)
qed

section \<open>From the actions to the proposal\<close>

lemma top_action_in: "top_action (Some r) kind = Some a \<Longrightarrow> a \<in> set (ar_recommended_actions r)"
proof -
  assume "top_action (Some r) kind = Some a"
  then have "a \<in> set (actions_of r kind)"
    by (cases "actions_of r kind") (auto simp: top_action_def split: if_splits)
  then show ?thesis by (simp add: actions_of_def)
qed

lemma result_of_in: "result_of results t = Some r \<Longrightarrow> \<exists>i. (i, r) \<in> set results"
  by (auto simp: result_of_def split: option.splits dest: map_of_SomeD)

lemma top_action_grounded:
  assumes "results_checked run sn s" and "top_action (result_of (results_of run s) t) kind = Some a"
  shows "action_payload_errors (sn_data sn) a = []"
proof -
  obtain r where r: "result_of (results_of run s) t = Some r" "a \<in> set (ar_recommended_actions r)"
    using assms(2) top_action_in by (cases "result_of (results_of run s) t") (auto simp: top_action_def)
  then obtain x where "x \<in> set (t_results s)" "rr_run_id x = ru_id run" "rr_payload x = r"
    by (auto simp: results_of_def dest!: result_of_in)
  with assms(1) have "grounded_result sn r"
    using checked_result_grounded by (fastforce simp: results_checked_def)
  then show ?thesis using r(2) by (simp add: grounded_result_def)
qed

lemma names_one_ofD: "names_one_of v ids \<Longrightarrow> \<exists>i \<in> set ids. v = JText (Id i)"
  by (cases v rule: str_of_json.cases) (auto simp: names_one_of_def split: if_splits)

lemma payload_slots:
  assumes "action_payload_errors d a = []" and "r \<in> set (json_rows (JObj (ra_payload a)) ''allocations'')"
  shows "\<exists>i \<in> set (snapshot_slot_ids d). json_at r ''slot_id'' = JText (Id i)"
  using assms by (intro names_one_ofD) (auto simp: action_payload_errors_def Let_def split: if_splits)

lemma payload_balances:
  assumes "action_payload_errors d a = []" and "r \<in> set (json_rows (JObj (ra_payload a)) ''reservations'')"
  shows "\<exists>i \<in> set (snapshot_balance_ids d). json_at r ''balance_id'' = JText (Id i)"
  using assms by (intro names_one_ofD) (auto simp: action_payload_errors_def Let_def split: if_splits)

text \<open>The pinned version of a row the proposal names.\<close>

definition section_pin :: "(jtext \<times> json) list \<Rightarrow> string \<Rightarrow> uuid \<Rightarrow> int option" where
  "section_pin versions sec i = map_of (expected_versions (json_get versions sec)) i"

lemma map_of_expected:
  "map_of (List.map_filter (\<lambda>(k, v). case uuid_of_text k of None \<Rightarrow> None
      | Some i \<Rightarrow> (case v of JInt n \<Rightarrow> Some (i, n) | _ \<Rightarrow> None)) (filter (\<lambda>(key, v). key \<in> set ids) fs)) i =
   (if Id i \<in> set ids
    then map_of (List.map_filter (\<lambda>(k, v). case uuid_of_text k of None \<Rightarrow> None
      | Some i \<Rightarrow> (case v of JInt n \<Rightarrow> Some (i, n) | _ \<Rightarrow> None)) fs) i
    else None)"
  by (induction fs)
    (auto simp: List.map_filter_simps uuid_of_text_def split: option.splits jtext.splits json.splits prod.splits)

lemma referenced_pin:
  "map_of (expected_versions (Some (referenced_versions versions sec ids))) i =
   (if Id i \<in> set ids then section_pin versions sec i else None)"
  unfolding referenced_versions_def section_pin_def expected_versions_def
  by (auto simp: map_of_expected rev_filter List.map_filter_simps split: option.splits json.splits)

lemma json_get_versions:
  "json_get [(Lit ''order'', a), (Lit ''capacity_slots'', b), (Lit ''material_balances'', c)] ''capacity_slots'' = Some b"
  "json_get [(Lit ''order'', a), (Lit ''capacity_slots'', b), (Lit ''material_balances'', c)] ''material_balances'' = Some c"
  "json_get [(Lit ''order'', a), (Lit ''capacity_slots'', b), (Lit ''material_balances'', c)] ''order'' = Some a"
  by (simp_all add: json_get_def)

definition grounded_in :: "run_snapshot \<Rightarrow> recommendation \<Rightarrow> bool" where
  "grounded_in sn r \<longleftrightarrow>
     set (required_ids r ''allocations'' ''slot_id'') \<subseteq> set (snapshot_slot_ids (sn_data sn)) \<and>
     set (required_ids r ''reservations'' ''balance_id'') \<subseteq> set (snapshot_balance_ids (sn_data sn)) \<and>
     (\<forall>i. pinned r ''capacity_slots'' i =
        (if i \<in> set (required_ids r ''allocations'' ''slot_id'')
         then section_pin (sn_input_versions sn) ''capacity_slots'' i else None)) \<and>
     (\<forall>i. pinned r ''material_balances'' i =
        (if i \<in> set (required_ids r ''reservations'' ''balance_id'')
         then section_pin (sn_input_versions sn) ''material_balances'' i else None)) \<and>
     (\<forall>i. pinned r ''order'' i = section_pin (sn_input_versions sn) ''order'' i)"

lemma row_ids_required:
  assumes "\<forall>x \<in> set rows. \<exists>i. json_at x key = JText (Id i)"
  shows "Id i \<in> set (row_ids rows key) \<longleftrightarrow> i \<in> set (List.map_filter (\<lambda>x. uuid_of_json (json_at x key)) rows)"
  using assms by (induction rows) (auto simp: row_ids_def List.map_filter_simps uuid_of_text_def)

lemma proposed_from_grounded:
  assumes p: "proposed_from digest run (sn_input_versions sn) planning rm r"
    and pl: "\<And>a. top_action planning ACT_ALLOCATION = Some a \<Longrightarrow> action_payload_errors (sn_data sn) a = []"
    and rm: "\<And>a. top_action rm ACT_RESERVATION = Some a \<Longrightarrow> action_payload_errors (sn_data sn) a = []"
  shows "grounded_in sn r"
proof -
  let ?as = "json_rows (rc_proposal r) ''allocations''" and ?rs = "json_rows (rc_proposal r) ''reservations''"
  have slots: "\<exists>i \<in> set (snapshot_slot_ids (sn_data sn)). json_at x ''slot_id'' = JText (Id i)" if "x \<in> set ?as" for x
    using p pl payload_slots that unfolding proposed_from_def by metis
  have bals: "\<exists>i \<in> set (snapshot_balance_ids (sn_data sn)). json_at x ''balance_id'' = JText (Id i)" if "x \<in> set ?rs" for x
    using p rm payload_balances that unfolding proposed_from_def by (auto split: option.splits)
  have ids: "Id i \<in> set (row_ids ?as ''slot_id'') \<longleftrightarrow> i \<in> set (required_ids r ''allocations'' ''slot_id'')"
    "Id i \<in> set (row_ids ?rs ''balance_id'') \<longleftrightarrow> i \<in> set (required_ids r ''reservations'' ''balance_id'')" for i
    unfolding required_ids_def by (rule row_ids_required, use slots bals in blast)+
  have v: "rc_input_versions r = JObj
       [(Lit ''order'', case json_get (sn_input_versions sn) ''order'' of Some (JObj o1) \<Rightarrow> JObj o1 | _ \<Rightarrow> JObj []),
        (Lit ''capacity_slots'', referenced_versions (sn_input_versions sn) ''capacity_slots'' (row_ids ?as ''slot_id'')),
        (Lit ''material_balances'', referenced_versions (sn_input_versions sn) ''material_balances''
           (row_ids ?rs ''balance_id''))]"
    using p by (simp add: proposed_from_def)
  show ?thesis
    unfolding grounded_in_def
  proof (intro conjI allI)
    show "set (required_ids r ''allocations'' ''slot_id'') \<subseteq> set (snapshot_slot_ids (sn_data sn))"
      using slots by (fastforce simp: required_ids_def List.map_filter_def uuid_of_text_def)
    show "set (required_ids r ''reservations'' ''balance_id'') \<subseteq> set (snapshot_balance_ids (sn_data sn))"
      using bals by (fastforce simp: required_ids_def List.map_filter_def uuid_of_text_def)
    fix i
    show "pinned r ''capacity_slots'' i = (if i \<in> set (required_ids r ''allocations'' ''slot_id'')
         then section_pin (sn_input_versions sn) ''capacity_slots'' i else None)"
      by (simp add: pinned_def v json_get_versions referenced_pin ids)
    show "pinned r ''material_balances'' i = (if i \<in> set (required_ids r ''reservations'' ''balance_id'')
         then section_pin (sn_input_versions sn) ''material_balances'' i else None)"
      by (simp add: pinned_def v json_get_versions referenced_pin ids)
    show "pinned r ''order'' i = section_pin (sn_input_versions sn) ''order'' i"
      by (simp add: pinned_def v json_get_versions section_pin_def expected_versions_def List.map_filter_simps
          split: option.splits json.splits)
  qed
qed

lemma decide_run_grounded:
  assumes "decide_run digest run s = Inr (es, s')" and "snapshot_of run s = Some sn"
    and "results_checked run sn s" and "r \<in> set (t_recommendations s')"
    and "rc_id r \<notin> rc_id ` set (t_recommendations s)"
  shows "rc_status r = REC_PROPOSED \<and> rc_run_id r = ru_id run \<and> grounded_in sn r"
  using decide_runD [OF assms(1)]
proof (elim disjE exE conjE)
  show "papers_same s s' \<Longrightarrow> ?thesis" using assms(4,5) by (auto simp: papers_same_def)
next
  fix run'
  assume "finalize_deadline run (tasks_of run s) (results_of run s) s = Inr (run', s')"
  then show ?thesis using finalize_deadlineD(2) assms(4,5) by auto
next
  fix q t run'
  assume same: "papers_same s t" "ru_snapshot_id q = ru_snapshot_id run" "t_snapshots t = t_snapshots s"
      "ru_id q = ru_id run"
    and f: "finalize digest q (tasks_of run s) (results_of run s) t = Inr (run', s')"
  have sn: "snapshot_of q t = Some sn" using assms(2) same by (simp add: snapshot_of_def)
  have "rc_id ` set (map (outdated q k) rows) = rc_id ` set rows" for k rows by (simp add: image_image)
  with finalizeD(3) [OF f] assms(4,5) same sn
  have "proposed_from digest q (sn_input_versions sn)
       (result_of (results_of run s) (or_else (task_of (tasks_of run s) AGENT_PLANNING 1)
          (task_of (tasks_of run s) AGENT_PLANNING 0)))
       (result_of (results_of run s) (task_of (tasks_of run s) AGENT_RM 1)) r"
    unfolding proposals_moved_def papers_same_def by (fastforce simp: image_iff)
  then have p: "proposed_from digest q (sn_input_versions sn)
       (result_of (results_of run s) (or_else (task_of (tasks_of run s) AGENT_PLANNING 1)
          (task_of (tasks_of run s) AGENT_PLANNING 0)))
       (result_of (results_of run s) (task_of (tasks_of run s) AGENT_RM 1)) r" .
  have "grounded_in sn r"
    by (rule proposed_from_grounded [OF p]) (erule top_action_grounded [OF assms(3)])+
  then show ?thesis using p same(4) by (simp add: proposed_from_def)
qed

text \<open>
  C36. A proposal is grounded in the snapshot of its run. Whatever the agents and the model
  answered, as long as every stored result of the run went through the executor's checks (which
  replace what they refuse), a proposal an orchestrator step makes names only slots and balances
  of the run's snapshot, and the versions it pins for them, and for the order, are exactly the
  versions the snapshot recorded, the ones an application compares with the current rows.
\<close>

theorem grounded_proposals:
  assumes "decide_run digest run s = Inr (es, s')" and "snapshot_of run s = Some sn"
    and "results_checked run sn s" and "r \<in> set (t_recommendations s')"
    and "rc_id r \<notin> rc_id ` set (t_recommendations s)"
  shows "rc_status r = REC_PROPOSED \<and> rc_run_id r = ru_id run \<and>
    set (required_ids r ''allocations'' ''slot_id'') \<subseteq> set (snapshot_slot_ids (sn_data sn)) \<and>
    set (required_ids r ''reservations'' ''balance_id'') \<subseteq> set (snapshot_balance_ids (sn_data sn)) \<and>
    (\<forall>i. pinned r ''capacity_slots'' i =
       (if i \<in> set (required_ids r ''allocations'' ''slot_id'')
        then section_pin (sn_input_versions sn) ''capacity_slots'' i else None)) \<and>
    (\<forall>i. pinned r ''material_balances'' i =
       (if i \<in> set (required_ids r ''reservations'' ''balance_id'')
        then section_pin (sn_input_versions sn) ''material_balances'' i else None)) \<and>
    (\<forall>i. pinned r ''order'' i = section_pin (sn_input_versions sn) ''order'' i)"
  using decide_run_grounded [OF assms] unfolding grounded_in_def .

section \<open>A run that proposes\<close>

definition demo_plan :: agent_result where
  "demo_plan =
     \<lparr>ar_task_id = 54, ar_agent = AGENT_PLANNING, ar_status = AR_SUCCEEDED, ar_summary = ''plan'',
      ar_summary_source = GEN_DETERMINISTIC, ar_findings = [], ar_metrics = [],
      ar_recommended_actions = [\<lparr>ra_action_id = ''a'', ra_kind = ACT_ALLOCATION, ra_summary = ''plan'',
        ra_payload = [(Lit ''allocated_units'', JInt 60),
          (Lit ''allocations'', JArr [JObj [(Lit ''slot_id'', JText (Id 4)),
             (Lit ''standard_minutes'', JText (Dec 60)), (Lit ''units'', JText (Dec 60))]])],
        ra_evidence_ids = [], ra_rank = 0, ra_source = GEN_DETERMINISTIC\<rparr>],
      ar_evidence_refs = [], ar_warnings = [],
      ar_input_versions = [(Lit ''order'', JObj [(Id 9, JInt 1)]), (Lit ''capacity_slots'', JObj [(Id 4, JInt 7)])],
      ar_data_quality = \<lparr>dq_complete = True, dq_missing = [], dq_notes = []\<rparr>,
      ar_execution_metadata = \<lparr>em_provider = ''none'', em_model = ''none'', em_model_calls = 0,
        em_tool_calls = [], em_input_tokens = 0, em_output_tokens = 0, em_prompt_version = ''v1'',
        em_degraded = False, em_degraded_reason = None, em_started_at = 0, em_completed_at = 0\<rparr>,
      ar_error_code = None\<rparr>"

definition demo_task :: "uuid \<Rightarrow> agent_recipient \<Rightarrow> int \<Rightarrow> task_status \<Rightarrow> agent_task" where
  "demo_task i a n st =
     \<lparr>tk_id = i, tk_run_id = 20, tk_organization_id = 1, tk_factory_id = 7, tk_parent_task_id = None,
      tk_message_id = i, tk_sender = ORCHESTRATOR_ACTOR, tk_recipient = a, tk_task_type = '''', tk_round = n,
      tk_idempotency_key = [], tk_status = st,
      tk_envelope = envelope_to demo_run_row 21 a '''' n None [] i, tk_attempt = 1, tk_max_attempts = 3,
      tk_error_code = None, tk_error_detail = None, tk_deadline_at = 100, tk_created_at = 0,
      tk_completed_at = Some 0\<rparr>"

definition demo_sn :: run_snapshot where
  "demo_sn = \<lparr>sn_id = 21, sn_run_id = 20, sn_organization_id = 1, sn_factory_id = 7, sn_order_id = 9,
     sn_input_versions = ar_input_versions demo_plan, sn_data = demo_snapshot\<rparr>"

definition proposing_demo :: db where
  "proposing_demo = empty_db\<lparr>t_runs := [demo_run_row], t_snapshots := [demo_sn],
     t_tasks := [demo_task 51 AGENT_RM 0 TASK_FAILED, demo_task 52 AGENT_IE 0 TASK_FAILED,
       demo_task 53 AGENT_QUALITY 0 TASK_FAILED, demo_task 54 AGENT_PLANNING 0 TASK_SUCCEEDED,
       demo_task 55 AGENT_RM 1 TASK_FAILED],
     t_results := [\<lparr>rr_id = 61, rr_task_id = 54, rr_run_id = 20, rr_schema_version = ''1.0'',
       rr_status = AR_SUCCEEDED, rr_payload = demo_plan\<rparr>]\<rparr>"

definition demo_proposing :: "exn + (task_envelope list \<times> db)" where
  "demo_proposing = decide_run (\<lambda>_. ''hash'') demo_run_row proposing_demo"

lemma demo_proposing_value:
  "case demo_proposing of
     Inr (es, s') \<Rightarrow> map rc_id (t_recommendations s') = [1000] \<and>
       map (\<lambda>r. required_ids r ''allocations'' ''slot_id'') (t_recommendations s') = [[4]]
   | Inl _ \<Rightarrow> False"
  by code_simp

lemma step_value:
  "(case r of Inr (x, s') \<Rightarrow> P x s' | Inl _ \<Rightarrow> False) \<Longrightarrow> \<exists>x s'. r = Inr (x, s') \<and> P x s'"
  by (cases r) auto

lemma demo_plan_checked:
  "checked_result (demo_task 54 AGENT_PLANNING 0 TASK_SUCCEEDED) demo_run_row demo_sn demo_plan proposing_demo = demo_plan"
proof -
  have "validate_result demo_run_row demo_sn demo_plan (Some (demo_task 54 AGENT_PLANNING 0 TASK_SUCCEEDED))
      proposing_demo = []" by code_simp
  then show ?thesis by (simp add: checked_result_def)
qed

lemma demo_results_checked: "results_checked demo_run_row demo_sn proposing_demo"
  unfolding results_checked_def
proof (intro ballI impI)
  fix x
  assume "x \<in> set (t_results proposing_demo)"
  then have "rr_payload x = demo_plan" by (simp add: proposing_demo_def)
  then show "\<exists>task run' r t. ru_id run' = ru_id demo_run_row \<and> rr_payload x = checked_result task run' demo_sn r t"
    using demo_plan_checked by metis
qed

theorem grounded_proposals_witness:
  "\<exists>es s' r. demo_proposing = Inr (es, s') \<and> r \<in> set (t_recommendations s') \<and>
     set (required_ids r ''allocations'' ''slot_id'') = {4} \<and> 4 \<in> set (snapshot_slot_ids demo_snapshot) \<and>
     pinned r ''capacity_slots'' 4 = Some 7"
proof -
  obtain es s' where d: "demo_proposing = Inr (es, s')" "map rc_id (t_recommendations s') = [1000]"
      "map (\<lambda>r. required_ids r ''allocations'' ''slot_id'') (t_recommendations s') = [[4]]"
    using step_value [OF demo_proposing_value] by (elim exE conjE) (rule that)
  then obtain r where r: "t_recommendations s' = [r]" "required_ids r ''allocations'' ''slot_id'' = [4]" by auto
  have sn: "snapshot_of demo_run_row proposing_demo = Some demo_sn" by code_simp
  have none: "t_recommendations proposing_demo = []" by (simp add: proposing_demo_def empty_db_def)
  have "set (required_ids r ''allocations'' ''slot_id'') \<subseteq> set (snapshot_slot_ids (sn_data demo_sn)) \<and>
      pinned r ''capacity_slots'' 4 = section_pin (sn_input_versions demo_sn) ''capacity_slots'' 4"
    using grounded_proposals [OF d(1) [unfolded demo_proposing_def] sn demo_results_checked, of r] r none by simp
  moreover have "section_pin (sn_input_versions demo_sn) ''capacity_slots'' 4 = Some 7" by code_simp
  ultimately have "4 \<in> set (snapshot_slot_ids demo_snapshot) \<and> pinned r ''capacity_slots'' 4 = Some 7"
    using r(2) by (simp add: demo_sn_def)
  then show ?thesis using d(1) r by (intro exI [of _ es] exI [of _ s'] exI [of _ r]) simp
qed

end
