(* ===== verification/LS_Idempotency.thy ===== *)
theory LS_Idempotency
  imports LS_FourEyes "HOL-Library.List_Lexorder" "HOL-Library.Char_ord"
begin

text \<open>
  Idempotency keys (\<open>app/idempotency/service.py\<close>) and the endpoint that applies a proposal
  (\<open>app/api/recommendations.py\<close>). A payload is a Python value; the texts of decimals,
  identifiers, instants, dates and floats are given as such (\<open>str\<close>, \<open>isoformat\<close>, \<open>repr\<close>).
  \<open>json.dumps\<close> with \<open>sort_keys\<close> is the value itself with its objects sorted; SHA-256 is the
  argument \<open>sha\<close>. What other transactions commit while a claim waits is the argument
  \<open>meanwhile\<close>.
\<close>

section \<open>Payloads\<close>

datatype payload =
    PyNone | PyBool bool | PyInt int | PyFloat string | PyStr string | PyDecimal string
  | PyUuid string | PyDatetime string | PyDate string
  | PyDict "(payload \<times> payload) list" | PyList "payload list" | PyTuple "payload list" | PyOther string

datatype wire =
    WBool bool | WInt int | WFloat string | WStr string | WArr "wire list" | WObj "(string \<times> wire) list"

abbreviation WTag :: "string \<Rightarrow> wire \<Rightarrow> wire" where
  "WTag t v \<equiv> WArr [WStr t, v]"

fun tagged :: "payload \<Rightarrow> exn + wire"
  and tagged_items :: "(payload \<times> payload) list \<Rightarrow> exn + (string \<times> wire) list"
  and tagged_list :: "payload list \<Rightarrow> exn + wire list" where
  "tagged PyNone = Inr (WArr [WStr ''null''])"
| "tagged (PyBool b) = Inr (WTag ''bool'' (WBool b))"
| "tagged (PyInt n) = Inr (WTag ''int'' (WInt n))"
| "tagged (PyFloat t) = Inr (WTag ''float'' (WFloat t))"
| "tagged (PyStr t) = Inr (WTag ''str'' (WStr t))"
| "tagged (PyDecimal t) = Inr (WTag ''decimal'' (WStr t))"
| "tagged (PyUuid t) = Inr (WTag ''uuid'' (WStr t))"
| "tagged (PyDatetime t) = Inr (WTag ''datetime'' (WStr t))"
| "tagged (PyDate t) = Inr (WTag ''date'' (WStr t))"
| "tagged (PyDict items) = bind_err (tagged_items items) (\<lambda>ws. Inr (WTag ''object'' (WObj ws)))"
| "tagged (PyList vs) = bind_err (tagged_list vs) (\<lambda>ws. Inr (WTag ''array'' (WArr ws)))"
| "tagged (PyTuple vs) = bind_err (tagged_list vs) (\<lambda>ws. Inr (WTag ''array'' (WArr ws)))"
| "tagged (PyOther t) = Inl (TypeError ''unsupported request payload value of type '')"
| "tagged_items [] = Inr []"
| "tagged_items ((PyStr k, v) # items) =
     bind_err (tagged v) (\<lambda>w. bind_err (tagged_items items) (\<lambda>ws. Inr ((k, w) # ws)))"
| "tagged_items ((_, v) # items) = Inl (TypeError ''request payload keys must be str, got '')"
| "tagged_list [] = Inr []"
| "tagged_list (v # vs) =
     bind_err (tagged v) (\<lambda>w. bind_err (tagged_list vs) (\<lambda>ws. Inr (w # ws)))"

text \<open>\<open>allow_nan=False\<close>: the floats without a JSON text.\<close>

fun has_nan :: "wire \<Rightarrow> bool" where
  "has_nan (WFloat t) = (t \<in> set [''nan'', ''inf'', ''-inf''])"
| "has_nan (WArr ws) = list_ex has_nan ws"
| "has_nan (WObj items) = list_ex (\<lambda>(k, w). has_nan w) items"
| "has_nan _ = False"

fun sort_wire :: "wire \<Rightarrow> wire" where
  "sort_wire (WArr ws) = WArr (map sort_wire ws)"
| "sort_wire (WObj items) = WObj (sort_key fst (map (\<lambda>(k, w). (k, sort_wire w)) items))"
| "sort_wire w = w"

definition request_hash :: "(wire \<Rightarrow> string) \<Rightarrow> payload \<Rightarrow> exn + string" where
  "request_hash sha v =
     bind_err (tagged v) (\<lambda>w.
     if has_nan w then Inl (ValueError ''Out of range float values are not JSON compliant'')
     else Inr (sha (sort_wire w)))"

section \<open>Keys\<close>

definition RETENTION :: datetime where
  "RETENTION = 24 * 3600 * 1000000"

definition MAX_CLAIM_ATTEMPTS :: nat where
  "MAX_CLAIM_ATTEMPTS = 3"

record stored_response =
  sd_status_code :: int
  sd_body :: json

text \<open>\<open>_scope\<close>: organization, actor, operation and key.\<close>

type_synonym key_scope = "uuid \<times> string \<times> string \<times> string"

definition scope_of :: "idempotency_key \<Rightarrow> key_scope" where
  "scope_of r = (ik_organization_id r, ik_actor_id r, ik_operation r, ik_key r)"

definition insert_pending :: "key_scope \<Rightarrow> string \<Rightarrow> db \<Rightarrow> exn + (bool \<times> db)" where
  "insert_pending sc digest s =
     (let (i, s) = draw s
      in if sc \<in> scope_of ` set (t_idempotency_keys s) then Inr (False, s)
         else bind_err (insert_row ik_id
           \<lparr>ik_id = i, ik_organization_id = fst sc, ik_actor_id = fst (snd sc),
            ik_operation = fst (snd (snd sc)), ik_key = snd (snd (snd sc)), ik_request_hash = digest,
            ik_response_status = None, ik_response_body = None, ik_created_at = utcnow s,
            ik_expires_at = utcnow s + RETENTION\<rparr> (t_idempotency_keys s)) (\<lambda>rows.
           Inr (True, s\<lparr>t_idempotency_keys := rows\<rparr>)))"

definition lock_existing :: "key_scope \<Rightarrow> db \<Rightarrow> idempotency_key option" where
  "lock_existing sc s = find (\<lambda>r. scope_of r = sc) (t_idempotency_keys s)"

text \<open>Inserted, or the row that is there; the row may vanish between the two statements.\<close>

fun claim_key ::
  "(nat \<Rightarrow> db \<Rightarrow> db) \<Rightarrow> key_scope \<Rightarrow> string \<Rightarrow> nat \<Rightarrow> db \<Rightarrow> exn + (idempotency_key option \<times> db)" where
  "claim_key meanwhile sc digest 0 s =
     Inl (RuntimeError ''idempotency key kept disappearing while being claimed'')"
| "claim_key meanwhile sc digest (Suc n) s =
     bind_err (insert_pending sc digest s) (\<lambda>(inserted, s).
     if inserted then Inr (None, s)
     else let s = meanwhile n s
          in case lock_existing sc s of
               Some r \<Rightarrow> Inr (Some r, s)
             | None \<Rightarrow> claim_key meanwhile sc digest n s)"

definition begin_key ::
  "(wire \<Rightarrow> string) \<Rightarrow> (nat \<Rightarrow> db \<Rightarrow> db) \<Rightarrow> key_scope \<Rightarrow> payload \<Rightarrow> db \<Rightarrow>
   exn + (stored_response option \<times> db)" where
  "begin_key sha meanwhile sc request_payload s =
     bind_err (request_hash sha request_payload) (\<lambda>digest.
     let now = utcnow s
     in bind_err (claim_key meanwhile sc digest MAX_CLAIM_ATTEMPTS s) (\<lambda>(found, s).
        case found of
          None \<Rightarrow> Inr (None, s)
        | Some r \<Rightarrow>
            if ik_expires_at r \<le> now
            then Inr (None, s\<lparr>t_idempotency_keys := upd ik_id
                   (r\<lparr>ik_request_hash := digest, ik_response_status := None, ik_response_body := None,
                      ik_created_at := now, ik_expires_at := now + RETENTION\<rparr>) (t_idempotency_keys s)\<rparr>)
            else
            bind_err (ensure (ik_request_hash r = digest)
              (AppError 409 IDEMPOTENCY_KEY_REUSED
                ''This Idempotency-Key was already used with a different request.'' [])) (\<lambda>_.
            case (ik_response_status r, ik_response_body r) of
              (Some st, Some b) \<Rightarrow> Inr (Some \<lparr>sd_status_code = st, sd_body = b\<rparr>, s)
            | _ \<Rightarrow> Inl (AppError 409 CONFLICT ''A request with this Idempotency-Key is in progress.'' []))))"

definition finish_key :: "key_scope \<Rightarrow> int \<Rightarrow> json \<Rightarrow> db \<Rightarrow> exn + db" where
  "finish_key sc status body s =
     (if length (filter (\<lambda>r. scope_of r = sc) (t_idempotency_keys s)) \<noteq> 1
      then Inl (RuntimeError ''finish() called for an idempotency key that begin() did not claim'')
      else Inr (s\<lparr>t_idempotency_keys := map (\<lambda>r. if scope_of r = sc
              then r\<lparr>ik_response_status := Some status, ik_response_body := Some body\<rparr> else r)
            (t_idempotency_keys s)\<rparr>))"

definition release_key :: "key_scope \<Rightarrow> db \<Rightarrow> db" where
  "release_key sc s =
     s\<lparr>t_idempotency_keys := filter (\<lambda>r. \<not> (scope_of r = sc \<and> ik_response_status r = None))
       (t_idempotency_keys s)\<rparr>"

section \<open>The apply endpoint\<close>

definition APPLY_OPERATION :: string where
  "APPLY_OPERATION = ''recommendation:apply''"

definition MAX_APPLY_ATTEMPTS :: nat where
  "MAX_APPLY_ATTEMPTS = 3"

definition RETRYABLE_SQLSTATES :: "string list" where
  "RETRYABLE_SQLSTATES = [''40001'', ''40P01'']"

definition apply_body :: "apply_result \<Rightarrow> json" where
  "apply_body x =
     JObj [(Lit ''id'', JText (Id (ay_recommendation_id x))),
       (Lit ''status'', JStr (recommendation_status_value (ay_status x))),
       (Lit ''applied_at'', JText (Time (ay_applied_at x))),
       (Lit ''order'', JObj
         [(Lit ''id'', JText (Id (or_id (ay_order x)))),
          (Lit ''external_ref'', JStr (or_external_ref (ay_order x))),
          (Lit ''production_state'', JStr (production_state_value (or_production_state (ay_order x)))),
          (Lit ''material_state'', JStr (material_state_value (or_material_state (ay_order x)))),
          (Lit ''version'', JInt (or_version (ay_order x)))]),
       (Lit ''allocations'', JArr (map (\<lambda>a. JObj
         [(Lit ''id'', JText (Id (al_id a))), (Lit ''slot_id'', JText (Id (al_slot_id a))),
          (Lit ''standard_minutes'', JText (Dec (al_standard_minutes a))),
          (Lit ''units'', JText (Dec (al_units a)))]) (ay_allocations x))),
       (Lit ''reservations'', JArr (map (\<lambda>r. JObj
         [(Lit ''id'', JText (Id (rv_id r))), (Lit ''material_id'', JText (Id (rv_material_id r))),
          (Lit ''quantity'', JText (Dec (rv_quantity r)))]) (ay_reservations x))),
       (Lit ''released_allocations'', JInt (int (ay_released_allocations x))),
       (Lit ''released_reservations'', JInt (int (ay_released_reservations x)))]"

definition key_scope_of :: "principal \<Rightarrow> string \<Rightarrow> string \<Rightarrow> key_scope" where
  "key_scope_of p operation key = (p_organization_id p, uuid_text (p_user_id p), operation, key)"

definition idempotent_start ::
  "(wire \<Rightarrow> string) \<Rightarrow> (nat \<Rightarrow> db \<Rightarrow> db) \<Rightarrow> principal \<Rightarrow> string \<Rightarrow> string \<Rightarrow> payload \<Rightarrow> db \<Rightarrow>
   exn + (stored_response option \<times> db)" where
  "idempotent_start sha meanwhile p operation key request_payload s =
     begin_key sha meanwhile (key_scope_of p operation key) request_payload s"

definition idempotent_finish ::
  "principal \<Rightarrow> string \<Rightarrow> string \<Rightarrow> int \<Rightarrow> json \<Rightarrow> db \<Rightarrow> exn + (stored_response \<times> db)" where
  "idempotent_finish p operation key status body s =
     bind_err (finish_key (key_scope_of p operation key) status body s) (\<lambda>s.
     Inr (\<lparr>sd_status_code = status, sd_body = body\<rparr>, s))"

definition apply_payload :: "uuid \<Rightarrow> string \<Rightarrow> payload" where
  "apply_payload rec_id proposal_hash =
     PyDict [(PyStr ''recommendation_id'', PyStr (uuid_text rec_id)),
       (PyStr ''proposal_hash'', PyStr proposal_hash)]"

text \<open>\<open>_apply_once\<close>: a reply, a rejection whose changes stay, or an exception.\<close>

definition apply_once ::
  "(wire \<Rightarrow> string) \<Rightarrow> (nat \<Rightarrow> db \<Rightarrow> db) \<Rightarrow> principal \<Rightarrow> uuid \<Rightarrow> string \<Rightarrow> string \<Rightarrow> string option \<Rightarrow> db \<Rightarrow>
   stored_response outcome" where
  "apply_once sha meanwhile p rec_id proposal_hash key trace s =
     bind_err (idempotent_start sha meanwhile p APPLY_OPERATION key (apply_payload rec_id proposal_hash) s)
       (\<lambda>(early, s).
     case early of
       Some r \<Rightarrow> Inr (Inr r, s)
     | None \<Rightarrow>
         bind_err (apply_recommendation p rec_id proposal_hash trace s) (\<lambda>(out, s).
         case out of
           Inl e \<Rightarrow> Inr (Inl e, release_key (key_scope_of p APPLY_OPERATION key) s)
         | Inr result \<Rightarrow>
             bind_err (idempotent_finish p APPLY_OPERATION key 200 (apply_body result) s) (\<lambda>(r, s).
             Inr (Inr r, s))))"

text \<open>A refusal with status 403 is audited in a transaction of its own.\<close>

definition audit_denial_from_error ::
  "principal \<Rightarrow> exn \<Rightarrow> uuid option \<Rightarrow> string \<Rightarrow> string \<Rightarrow> jtext \<Rightarrow> string option \<Rightarrow> db \<Rightarrow> db" where
  "audit_denial_from_error p e factory_id action target_type target_id trace s =
     (case e of
        AppError st c msg fs \<Rightarrow>
          if st \<noteq> 403 then s
          else audit_denied (p_organization_id p) factory_id (Id (p_user_id p)) action target_type target_id
                 msg USER trace None s
      | _ \<Rightarrow> s)"

text \<open>
  The endpoint. \<open>faults n\<close> is the SQLSTATE with which the database ends attempt \<open>n\<close>, if it
  does; the attempt is rolled back then. A commit that fails after a persisted rejection is not
  among them.
\<close>

datatype api_failure = Raised exn | DatabaseError string

fun apply_attempts ::
  "(wire \<Rightarrow> string) \<Rightarrow> (nat \<Rightarrow> string option) \<Rightarrow> (nat \<Rightarrow> nat \<Rightarrow> db \<Rightarrow> db) \<Rightarrow> principal \<Rightarrow> uuid \<Rightarrow> string \<Rightarrow>
   string \<Rightarrow> string option \<Rightarrow> nat list \<Rightarrow> db \<Rightarrow> (api_failure + stored_response) \<times> db" where
  "apply_attempts sha faults meanwhile p rec_id h key trace [] s =
     (Inl (Raised (RuntimeError ''the bounded apply retry loop ended without a result'')), s)"
| "apply_attempts sha faults meanwhile p rec_id h key trace (n # ns) s =
     (case faults n of
        Some st \<Rightarrow>
          if st \<notin> set RETRYABLE_SQLSTATES \<or> ns = [] then (Inl (DatabaseError st), s)
          else apply_attempts sha faults meanwhile p rec_id h key trace ns s
      | None \<Rightarrow>
          (case apply_once sha (meanwhile n) p rec_id h key trace s of
             Inr (Inr r, s') \<Rightarrow> (Inr r, commit s')
           | Inr (Inl e, s') \<Rightarrow> (Inl (Raised e), commit s')
           | Inl e \<Rightarrow> (Inl (Raised e), audit_denial_from_error p e
               (map_option rc_factory_id (row rc_id rec_id (t_recommendations s))) APPLY_ACTION
               ''recommendation'' (Id rec_id) trace s)))"

definition apply_endpoint ::
  "(wire \<Rightarrow> string) \<Rightarrow> (nat \<Rightarrow> string option) \<Rightarrow> (nat \<Rightarrow> nat \<Rightarrow> db \<Rightarrow> db) \<Rightarrow> principal \<Rightarrow> uuid \<Rightarrow> string \<Rightarrow>
   string \<Rightarrow> string option \<Rightarrow> db \<Rightarrow> (api_failure + stored_response) \<times> db" where
  "apply_endpoint sha faults meanwhile p rec_id h key trace s =
     apply_attempts sha faults meanwhile p rec_id h key trace [0..<MAX_APPLY_ATTEMPTS] s"

section \<open>What a hash identifies\<close>

text \<open>A payload up to the order of its keys and the difference between lists and tuples.\<close>

fun key_text :: "payload \<Rightarrow> string" where
  "key_text (PyStr k) = k"
| "key_text _ = ''''"

fun plain :: "payload \<Rightarrow> payload" where
  "plain (PyDict items) =
     PyDict (sort_key (key_text \<circ> fst) (map (\<lambda>(k, v). (k, plain v)) items))"
| "plain (PyList vs) = PyList (map plain vs)"
| "plain (PyTuple vs) = PyList (map plain vs)"
| "plain v = v"

fun untag :: "wire \<Rightarrow> payload" where
  "untag (WArr [WStr t, WBool b]) = PyBool b"
| "untag (WArr [WStr t, WInt n]) = PyInt n"
| "untag (WArr [WStr t, WFloat x]) = PyFloat x"
| "untag (WArr [WStr t, WStr x]) =
     (if t = ''str'' then PyStr x else if t = ''decimal'' then PyDecimal x else if t = ''uuid'' then PyUuid x
      else if t = ''datetime'' then PyDatetime x else PyDate x)"
| "untag (WArr [WStr t, WObj items]) = PyDict (map (\<lambda>(k, w). (PyStr k, untag w)) items)"
| "untag (WArr [WStr t, WArr ws]) = PyList (map untag ws)"
| "untag _ = PyNone"

lemma insort_map:
  assumes "\<And>x. key (g x) = k x"
  shows "insort_key key (g x) (map g xs) = map g (insort_key k x xs)"
  using assms by (induction xs) simp_all

lemma sort_map:
  assumes "\<And>x. key (g x) = k x"
  shows "sort_key key (map g xs) = map g (sort_key k xs)"
  by (induction xs) (simp_all add: insort_map [where key = key and g = g and k = k] assms)

lemma tagged_items_Cons:
  "tagged_items (x # items) = Inr ws \<longleftrightarrow>
   (\<exists>k v w us. x = (PyStr k, v) \<and> tagged v = Inr w \<and> tagged_items items = Inr us \<and> ws = (k, w) # us)"
  by (cases "(x # items)" rule: tagged_items.cases) (auto simp: run_simps)

lemma tagged_items_insort:
  "tagged_items items = Inr ws \<Longrightarrow> tagged v = Inr w \<Longrightarrow>
   tagged_items (insort_key (key_text \<circ> fst) (PyStr k, v) items) = Inr (insort_key fst (k, w) ws)"
  by (induction items arbitrary: ws) (auto simp: tagged_items_Cons)

lemma tagged_items_sort:
  "tagged_items items = Inr ws \<Longrightarrow>
   tagged_items (sort_key (key_text \<circ> fst) items) = Inr (sort_key fst ws)"
  by (induction items arbitrary: ws) (auto simp: tagged_items_Cons tagged_items_insort)

lemma tagged_wire:
  "tagged v = Inr w \<Longrightarrow> untag (sort_wire w) = plain v \<and> tagged (plain v) = Inr (sort_wire w)"
  "tagged_items items = Inr ws \<Longrightarrow>
     map (\<lambda>(k, w). (PyStr k, untag (sort_wire w))) ws = map (\<lambda>(k, v). (k, plain v)) items \<and>
     tagged_items (map (\<lambda>(k, v). (k, plain v)) items) = Inr (map (\<lambda>(k, w). (k, sort_wire w)) ws)"
  "tagged_list vs = Inr us \<Longrightarrow>
     map (untag \<circ> sort_wire) us = map plain vs \<and> tagged_list (map plain vs) = Inr (map sort_wire us)"
proof (induction v and items and vs arbitrary: w and ws and us rule: tagged_tagged_items_tagged_list.induct)
  case (10 items)
  then obtain ws where ws: "tagged_items items = Inr ws" "w = WTag ''object'' (WObj ws)"
    by (auto simp: run_simps)
  let ?ws = "map (\<lambda>(k, w). (k, sort_wire w)) ws"
  let ?g = "\<lambda>(k, w). (PyStr k, untag w)"
  note ih = "10.IH" [OF ws(1)]
  have "map ?g ?ws = map (\<lambda>(k, v). (k, plain v)) items"
    using ih by (simp add: case_prod_beta comp_def)
  moreover have "sort_key (key_text \<circ> fst) (map ?g ?ws) = map ?g (sort_key fst ?ws)"
    by (rule sort_map) (simp add: case_prod_beta)
  ultimately have p: "plain (PyDict items) = PyDict (map ?g (sort_key fst ?ws))" by simp
  have "tagged_items (sort_key (key_text \<circ> fst) (map (\<lambda>(k, v). (k, plain v)) items)) = Inr (sort_key fst ?ws)"
    using ih by (intro tagged_items_sort) simp
  then have "tagged (plain (PyDict items)) = Inr (sort_wire w)" by (simp add: ws(2))
  with p show ?case by (simp add: ws(2))
qed (auto simp: run_simps tagged_items_Cons)

lemma request_hash_identifies:
  assumes "request_hash sha v = Inr h" and "request_hash sha v' = Inr h'"
    and "\<And>w w'. tagged v = Inr w \<Longrightarrow> tagged v' = Inr w' \<Longrightarrow> inj_on sha {sort_wire w, sort_wire w'}"
  shows "h = h' \<longleftrightarrow> plain v = plain v'"
proof -
  obtain w w' where w: "tagged v = Inr w" "h = sha (sort_wire w)" "tagged v' = Inr w'" "h' = sha (sort_wire w')"
    using assms(1,2) by (auto simp: request_hash_def run_simps split: if_splits)
  note t = tagged_wire(1) [OF w(1)] tagged_wire(1) [OF w(3)]
  have "plain v = plain v'" if "sort_wire w = sort_wire w'" using t that by simp
  moreover have "sort_wire w = sort_wire w'" if e: "plain v = plain v'"
  proof -
    have "Inr (sort_wire w) = tagged (plain v)" using t(1) by simp
    also have "\<dots> = Inr (sort_wire w')" unfolding e using t(2) by simp
    finally show ?thesis by simp
  qed
  moreover have "sort_wire w = sort_wire w'" if "h = h'"
    by (rule inj_onD [OF assms(3) [OF w(1,3)]]) (use that w(2,4) in simp_all)
  moreover have "h = h'" if "sort_wire w = sort_wire w'" using that by (simp add: w(2,4))
  ultimately show ?thesis by argo
qed

section \<open>Claims and replays\<close>

lemma find_by_filter: "find P xs = (case filter P xs of [] \<Rightarrow> None | x # _ \<Rightarrow> Some x)"
  by (induction xs) auto

lemma lock_existing_in: "lock_existing sc s = Some r \<Longrightarrow> r \<in> set (t_idempotency_keys s) \<and> scope_of r = sc"
  by (auto simp: lock_existing_def find_Some_iff)

lemma begin_replay:
  assumes "lock_existing sc s = Some r" and "utcnow s < ik_expires_at r" and "request_hash sha v = Inr d"
    and "\<And>n t. lock_existing sc (meanwhile n t) = lock_existing sc t"
  shows "begin_key sha meanwhile sc v s =
    (if ik_request_hash r \<noteq> d
     then Inl (AppError 409 IDEMPOTENCY_KEY_REUSED
       ''This Idempotency-Key was already used with a different request.'' [])
     else case (ik_response_status r, ik_response_body r) of
       (Some st, Some b) \<Rightarrow> Inr (Some \<lparr>sd_status_code = st, sd_body = b\<rparr>, meanwhile 2 (s\<lparr>drawn := Suc (drawn s)\<rparr>))
     | _ \<Rightarrow> Inl (AppError 409 CONFLICT ''A request with this Idempotency-Key is in progress.'' []))"
proof -
  let ?t = "s\<lparr>drawn := Suc (drawn s)\<rparr>"
  have "sc \<in> scope_of ` set (t_idempotency_keys s)" using lock_existing_in [OF assms(1)] by auto
  then have "insert_pending sc d s = Inr (False, ?t)" by (simp add: insert_pending_def draw_def)
  moreover have "lock_existing sc (meanwhile 2 ?t) = Some r" using assms(1,4) by (simp add: lock_existing_def)
  ultimately have "claim_key meanwhile sc d MAX_CLAIM_ATTEMPTS s = Inr (Some r, meanwhile 2 ?t)"
    by (simp add: MAX_CLAIM_ATTEMPTS_def numeral_3_eq_3 numeral_2_eq_2)
  then show ?thesis
    using assms(2,3) by (auto simp: begin_key_def ensure_def split: option.splits)
qed

text \<open>A row for the scope with the hash of the payload.\<close>

definition claimed :: "key_scope \<Rightarrow> string \<Rightarrow> db \<Rightarrow> bool" where
  "claimed sc d s \<longleftrightarrow> (\<exists>r \<in> set (t_idempotency_keys s). scope_of r = sc \<and> ik_request_hash r = d)"

lemma claim_key_cases:
  assumes "claim_key meanwhile sc d n s = Inr (found, s')"
  shows "case found of None \<Rightarrow> claimed sc d s' | Some r \<Rightarrow> lock_existing sc s' = Some r"
  using assms
proof (induction n arbitrary: s)
  case (Suc n)
  then obtain ins t where i: "insert_pending sc d s = Inr (ins, t)" by (auto simp: run_simps)
  show ?case
  proof (cases ins)
    case True
    then have "claimed sc d t"
      using i by (auto simp: insert_pending_def draw_def run_simps insert_row_Inr claimed_def scope_of_def
          split: if_splits)
    then show ?thesis using Suc.prems i True by (auto simp: run_simps)
  next
    case False
    then show ?thesis
      using Suc.prems i Suc.IH by (auto simp: run_simps Let_def split: option.splits)
  qed
qed simp

lemma begin_cases:
  assumes "begin_key sha meanwhile sc v s = Inr (stored, s')"
  obtains (claim) d where "stored = None" "request_hash sha v = Inr d" "claimed sc d s'"
  | (replay) r d where "stored = Some \<lparr>sd_status_code = the (ik_response_status r), sd_body = the (ik_response_body r)\<rparr>"
      "request_hash sha v = Inr d" "lock_existing sc s' = Some r" "ik_request_hash r = d"
      "ik_response_status r \<noteq> None" "ik_response_body r \<noteq> None"
proof -
  from assms obtain d found t where d: "request_hash sha v = Inr d"
    and c: "claim_key meanwhile sc d MAX_CLAIM_ATTEMPTS s = Inr (found, t)"
    by (auto simp: begin_key_def run_simps Let_def)
  note cc = claim_key_cases [OF c]
  show thesis
  proof (cases found)
    case None
    with assms d c have "stored = None" "s' = t" by (auto simp: begin_key_def Let_def)
    with claim d cc None show thesis by simp
  next
    case (Some r)
    note r = lock_existing_in [of sc t r]
    show thesis
    proof (cases "ik_expires_at r \<le> utcnow s")
      case True
      with assms d c Some have s': "stored = None" "s' = t\<lparr>t_idempotency_keys := upd ik_id
           (r\<lparr>ik_request_hash := d, ik_response_status := None, ik_response_body := None,
              ik_created_at := utcnow s, ik_expires_at := utcnow s + RETENTION\<rparr>) (t_idempotency_keys t)\<rparr>"
        by (auto simp: begin_key_def Let_def)
      let ?r = "r\<lparr>ik_request_hash := d, ik_response_status := None, ik_response_body := None,
          ik_created_at := utcnow s, ik_expires_at := utcnow s + RETENTION\<rparr>"
      have "r \<in> set (t_idempotency_keys t)" "scope_of r = sc" using r cc Some by simp_all
      then have "?r \<in> set (t_idempotency_keys s')" "scope_of ?r = sc" "ik_request_hash ?r = d"
        by (auto simp: s'(2) upd_def scope_of_def image_iff intro!: bexI [of _ r])
      then have "claimed sc d s'" unfolding claimed_def by blast
      with claim d s' show thesis by blast
    next
      case False
      with assms d c Some obtain st b where "ik_request_hash r = d" "ik_response_status r = Some st"
          "ik_response_body r = Some b" "stored = Some \<lparr>sd_status_code = st, sd_body = b\<rparr>" "s' = t"
        by (auto simp: begin_key_def run_simps Let_def split: option.splits)
      with replay [of r d] d cc Some show thesis by simp
    qed
  qed
qed

lemma finish_stored:
  assumes "finish_key sc st b s = Inr s'" and "claimed sc d s"
  shows "\<exists>r. lock_existing sc s' = Some r \<and> ik_request_hash r = d \<and> ik_response_status r = Some st \<and>
    ik_response_body r = Some b"
proof -
  from assms(1) have one: "length (filter (\<lambda>r. scope_of r = sc) (t_idempotency_keys s)) = 1"
    and s': "t_idempotency_keys s' = map (\<lambda>r. if scope_of r = sc
          then r\<lparr>ik_response_status := Some st, ik_response_body := Some b\<rparr> else r) (t_idempotency_keys s)"
    by (auto simp: finish_key_def split: if_splits)
  from one obtain r where r: "filter (\<lambda>r. scope_of r = sc) (t_idempotency_keys s) = [r]"
    by (auto simp: length_Suc_conv)
  have h: "ik_request_hash r = d"
  proof -
    obtain x where "x \<in> set (t_idempotency_keys s)" "scope_of x = sc" "ik_request_hash x = d"
      using assms(2) by (auto simp: claimed_def)
    then have "x \<in> set (filter (\<lambda>r. scope_of r = sc) (t_idempotency_keys s))" by simp
    then show ?thesis using r \<open>ik_request_hash x = d\<close> by simp
  qed
  have sc: "scope_of (r\<lparr>ik_response_status := a, ik_response_body := c\<rparr>) = scope_of r" for r a c
    by (simp add: scope_of_def)
  have "filter (\<lambda>r. scope_of r = sc) (map (\<lambda>r. if scope_of r = sc
          then r\<lparr>ik_response_status := Some st, ik_response_body := Some b\<rparr> else r) rows) =
      map (\<lambda>r. r\<lparr>ik_response_status := Some st, ik_response_body := Some b\<rparr>) (filter (\<lambda>r. scope_of r = sc) rows)"
    for rows by (induction rows) (auto simp: sc)
  then show ?thesis using h by (simp add: lock_existing_def find_by_filter s' r)
qed

section \<open>The endpoint\<close>

lemma finish_apply_keys:
  assumes "finish_apply p rec ord before after ms trace s = Inr (r, s')"
  shows "t_idempotency_keys s' = t_idempotency_keys s"
  using assms
  by (auto simp: finish_apply_def run_simps papers_same_def audit_of_def update_recommendation_def
      split: if_splits dest!: papers_notify papers_enqueue)

lemma apply_keys:
  assumes "apply_recommendation p i h trace s = Inr (Inr res, s')"
  shows "t_idempotency_keys s' = t_idempotency_keys s"
  using assms
proof (cases rule: applyD)
  case (expired rec ord)
  then show ?thesis using expireD(1) by blast
next
  case (stale rec ord slots ms s1)
  then show ?thesis using supersedeD(1) by blast
next
  case (applied rec ord slots ms s1 ra rr as xs s2 s3 m s4 current bf af r res)
  have "papers_same (locked_for rec s) s4"
    using papers_same_trans [OF papers_same_trans [OF papers_same_trans [OF papers_lock_inputs [OF applied(5)]
      papers_rebook [OF applied(8)]] papers_update(1) [OF applied(9)]] papers_recompute [OF applied(10)]] .
  then show ?thesis
    using finish_apply_keys [OF applied(12)] by (simp add: papers_same_def locked_for_def take_locks_def)
qed

lemma apply_once_stored:
  assumes "apply_once sha meanwhile p i h key trace s = Inr (Inr resp, s')"
  shows "\<exists>r d. lock_existing (key_scope_of p APPLY_OPERATION key) s' = Some r \<and>
    request_hash sha (apply_payload i h) = Inr d \<and> ik_request_hash r = d \<and>
    ik_response_status r = Some (sd_status_code resp) \<and> ik_response_body r = Some (sd_body resp)"
proof -
  let ?sc = "key_scope_of p APPLY_OPERATION key"
  from assms obtain early t where b: "begin_key sha meanwhile ?sc (apply_payload i h) s = Inr (early, t)"
    by (auto simp: apply_once_def idempotent_start_def run_simps)
  from b show ?thesis
  proof (cases rule: begin_cases)
    case (claim d)
    with assms b obtain out u where o: "apply_recommendation p i h trace t = Inr (out, u)"
      by (auto simp: apply_once_def idempotent_start_def run_simps)
    then obtain res where out: "out = Inr res"
      using assms b claim by (cases out) (auto simp: apply_once_def idempotent_start_def)
    note a = o [unfolded out]
    have f: "finish_key ?sc 200 (apply_body res) u = Inr s'"
      and resp: "resp = \<lparr>sd_status_code = 200, sd_body = apply_body res\<rparr>"
      using assms b claim a by (auto simp: apply_once_def idempotent_start_def idempotent_finish_def run_simps)
    have "claimed ?sc d u" using claim(3) apply_keys [OF a] by (simp add: claimed_def)
    from finish_stored [OF f this] claim(2) resp show ?thesis by auto
  next
    case (replay r d)
    with assms b have "resp = \<lparr>sd_status_code = the (ik_response_status r), sd_body = the (ik_response_body r)\<rparr>" "s' = t"
      by (auto simp: apply_once_def idempotent_start_def run_simps)
    with replay show ?thesis by auto
  qed
qed

lemma apply_attempts_stored:
  assumes "apply_attempts sha faults meanwhile p i h key trace ns s = (Inr resp, s')"
  shows "\<exists>r d. lock_existing (key_scope_of p APPLY_OPERATION key) s' = Some r \<and>
    request_hash sha (apply_payload i h) = Inr d \<and> ik_request_hash r = d \<and>
    ik_response_status r = Some (sd_status_code resp) \<and> ik_response_body r = Some (sd_body resp)"
  using assms
proof (induction ns)
  case (Cons n ns)
  show ?case
  proof (cases "faults n")
    case None
    with Cons.prems obtain t where "apply_once sha (meanwhile n) p i h key trace s = Inr (Inr resp, t)" "s' = commit t"
      by (auto split: sum.splits prod.splits)
    with apply_once_stored show ?thesis by (fastforce simp: commit_def lock_existing_def)
  next
    case (Some st)
    with Cons show ?thesis by (auto split: if_splits)
  qed
qed simp

text \<open>
  C37. Applying a proposal is exactly once per idempotency key. After a call of the endpoint has
  answered, however many attempts it took, a repetition of the request with the same key (before
  the key expires, whatever else happened in between, as long as the key's row is there) gets
  the very same status and body and changes nothing; a request for another proposal, or for
  another version of it, under the same key is refused with IDEMPOTENCY_KEY_REUSED and changes
  nothing, unless SHA-256 collides on the two.
\<close>

theorem apply_exactly_once:
  assumes "apply_endpoint sha faults meanwhile p i h key trace s = (Inr resp, s1)"
    and "lock_existing (key_scope_of p APPLY_OPERATION key) s2 = lock_existing (key_scope_of p APPLY_OPERATION key) s1"
    and "\<forall>r. lock_existing (key_scope_of p APPLY_OPERATION key) s2 = Some r \<longrightarrow> utcnow s2 < ik_expires_at r"
  shows "apply_endpoint sha (\<lambda>_. None) (\<lambda>_ _ t. t) p i h key trace' s2 =
      (Inr resp, commit (s2\<lparr>drawn := Suc (drawn s2)\<rparr>)) \<and>
    (\<forall>j h'. request_hash sha (apply_payload j h') \<noteq> request_hash sha (apply_payload i h) \<longrightarrow>
      apply_endpoint sha (\<lambda>_. None) (\<lambda>_ _ t. t) p j h' key trace' s2 =
        (Inl (Raised (AppError 409 IDEMPOTENCY_KEY_REUSED
          ''This Idempotency-Key was already used with a different request.'' [])), s2))"
proof (intro conjI allI impI)
  let ?sc = "key_scope_of p APPLY_OPERATION key"
  from apply_attempts_stored [OF assms(1) [unfolded apply_endpoint_def]] obtain r d where
      r: "lock_existing ?sc s2 = Some r" "request_hash sha (apply_payload i h) = Inr d" "ik_request_hash r = d"
      "ik_response_status r = Some (sd_status_code resp)" "ik_response_body r = Some (sd_body resp)"
    using assms(2) by auto
  have late: "utcnow s2 < ik_expires_at r" using assms(3) r(1) by simp
  have same: "lock_existing ?sc ((\<lambda>_ t. t) n t) = lock_existing ?sc t" for n :: nat and t by simp
  have range: "[0..<MAX_APPLY_ATTEMPTS] = 0 # [1, 2]" by (simp add: MAX_APPLY_ATTEMPTS_def upt_rec)
  show "apply_endpoint sha (\<lambda>_. None) (\<lambda>_ _ t. t) p i h key trace' s2 =
      (Inr resp, commit (s2\<lparr>drawn := Suc (drawn s2)\<rparr>))"
    using begin_replay [OF r(1) late r(2) same] r(3-5)
    by (simp add: apply_endpoint_def range apply_once_def idempotent_start_def)
  fix j h'
  assume ne: "request_hash sha (apply_payload j h') \<noteq> request_hash sha (apply_payload i h)"
  obtain e where e: "request_hash sha (apply_payload j h') = Inr e"
    by (auto simp: request_hash_def apply_payload_def)
  show "apply_endpoint sha (\<lambda>_. None) (\<lambda>_ _ t. t) p j h' key trace' s2 =
        (Inl (Raised (AppError 409 IDEMPOTENCY_KEY_REUSED
          ''This Idempotency-Key was already used with a different request.'' [])), s2)"
    using begin_replay [OF r(1) late e same] ne e r(2,3)
    by (simp add: apply_endpoint_def range apply_once_def idempotent_start_def audit_denial_from_error_def)
qed

text \<open>The demonstration: a hash that tells the reviewed versions apart, the key of a first call.\<close>

definition demo_sha :: "wire \<Rightarrow> string" where
  "demo_sha w = (case w of WArr [_, WObj ((_, WArr [_, WStr x]) # _)] \<Rightarrow> x | _ \<Rightarrow> '''')"

definition keyed_demo :: db where
  "keyed_demo = eyes_demo\<lparr>drawn := 1, t_idempotency_keys :=
     [\<lparr>ik_id = 1000, ik_organization_id = 1, ik_actor_id = uuid_text 2, ik_operation = APPLY_OPERATION,
       ik_key = ''k'', ik_request_hash = ''hash'', ik_response_status = None, ik_response_body = None,
       ik_created_at = 0, ik_expires_at = RETENTION\<rparr>]\<rparr>"

definition demo_call :: "string \<Rightarrow> db \<Rightarrow> (api_failure + stored_response) \<times> db" where
  "demo_call h s = apply_endpoint demo_sha (\<lambda>_. None) (\<lambda>_ _ t. t) (demo_user 2 [SUPERVISOR]) 20 h ''k'' None s"

lemma demo_hash: "request_hash demo_sha (apply_payload 20 h) = Inr h"
  by (simp add: request_hash_def apply_payload_def demo_sha_def)

lemma demo_start:
  "idempotent_start demo_sha (\<lambda>_ t. t) (demo_user 2 [SUPERVISOR]) APPLY_OPERATION ''k'' (apply_payload 20 ''hash'')
     eyes_demo = Inr (None, keyed_demo)"
  by (simp add: idempotent_start_def begin_key_def demo_hash MAX_CLAIM_ATTEMPTS_def numeral_3_eq_3
      insert_pending_def draw_def insert_row_def key_scope_of_def keyed_demo_def eyes_demo_def demo_rows Let_def)

lemma keyed_load:
  "load_recommendation 20 (demo_user 2 [SUPERVISOR]) APPLY_PERMISSION keyed_demo = Inr demo_rec"
  by code_simp

lemma keyed_apply_value:
  "case apply_recommendation (demo_user 2 [SUPERVISOR]) 20 ''hash'' None keyed_demo of
     Inr (Inr res, s') \<Rightarrow> True | _ \<Rightarrow> False"
  unfolding apply_recommendation_def keyed_load bind_err_simps
  by (simp add: demo_arithmetic apply_steps keyed_demo_def eyes_demo_def demo_rows Let_def del: One_nat_def
      cong: eval_congs)

definition demo_key :: key_scope where
  "demo_key = key_scope_of (demo_user 2 [SUPERVISOR]) APPLY_OPERATION ''k''"

lemma demo_call_value:
  "\<exists>resp s1. demo_call ''hash'' eyes_demo = (Inr resp, s1) \<and>
     (\<forall>r. lock_existing demo_key s1 = Some r \<longrightarrow> ik_expires_at r = RETENTION)"
proof -
  obtain res u where a: "apply_recommendation (demo_user 2 [SUPERVISOR]) 20 ''hash'' None keyed_demo = Inr (Inr res, u)"
    using outcome_value [OF keyed_apply_value] by blast
  have "t_idempotency_keys u = t_idempotency_keys keyed_demo" by (rule apply_keys [OF a])
  then have "\<exists>x s1. idempotent_finish (demo_user 2 [SUPERVISOR]) APPLY_OPERATION ''k'' 200 (apply_body res) u = Inr (x, s1) \<and>
      (\<forall>r \<in> set (t_idempotency_keys s1). ik_expires_at r = RETENTION)"
    by (simp add: idempotent_finish_def finish_key_def keyed_demo_def scope_of_def key_scope_of_def demo_user_def)
  then obtain x s1 where
      f: "idempotent_finish (demo_user 2 [SUPERVISOR]) APPLY_OPERATION ''k'' 200 (apply_body res) u = Inr (x, s1)"
    and k: "\<forall>r \<in> set (t_idempotency_keys s1). ik_expires_at r = RETENTION" by blast
  have "demo_call ''hash'' eyes_demo = (Inr x, commit s1)"
    using a f demo_start
    by (simp add: demo_call_def apply_endpoint_def MAX_APPLY_ATTEMPTS_def numeral_3_eq_3 upt_rec apply_once_def)
  moreover have "t_idempotency_keys (commit s1) = t_idempotency_keys s1" by (simp add: commit_def)
  ultimately show ?thesis using k lock_existing_in by fastforce
qed

theorem apply_exactly_once_witness:
  "\<exists>resp s1. demo_call ''hash'' eyes_demo = (Inr resp, s1) \<and>
     (\<exists>s3. demo_call ''hash'' (s1\<lparr>utcnow := 0\<rparr>) = (Inr resp, s3)) \<and>
     (\<exists>e. demo_call ''other'' (s1\<lparr>utcnow := 0\<rparr>) = (Inl (Raised e), s1\<lparr>utcnow := 0\<rparr>))"
proof -
  obtain resp s1 where d: "demo_call ''hash'' eyes_demo = (Inr resp, s1)"
    and r: "\<forall>r. lock_existing demo_key s1 = Some r \<longrightarrow> ik_expires_at r = RETENTION"
    using demo_call_value by blast
  have kept: "lock_existing demo_key (s1\<lparr>utcnow := 0\<rparr>) = lock_existing demo_key s1"
    by (simp add: lock_existing_def)
  have late: "\<forall>r. lock_existing demo_key (s1\<lparr>utcnow := 0\<rparr>) = Some r \<longrightarrow> utcnow (s1\<lparr>utcnow := 0\<rparr>) < ik_expires_at r"
    using r by (simp add: kept RETENTION_def)
  have ne: "request_hash demo_sha (apply_payload 20 ''other'') \<noteq> request_hash demo_sha (apply_payload 20 ''hash'')"
    by (simp add: demo_hash)
  note once = apply_exactly_once [OF d [unfolded demo_call_def] kept [unfolded demo_key_def] late [unfolded demo_key_def]]
  show ?thesis using d once [where trace' = None] ne by (fastforce simp: demo_call_def)
qed

end
