(* ===== verification/LS_Progress.thy ===== *)
theory LS_Progress
  imports LS_RunFrames LS_AgentLoop
begin

text \<open>
  The progress of a run: a step of the orchestrator that has nothing to wait for ends the run or
  sends envelopes the dispatch endpoint accepts, each for a task the run did not have. The one
  thing that stops it is a trace id longer than an envelope may carry; such a run only ends at
  its deadline.
\<close>

section \<open>Tasks of a run\<close>

text \<open>A task's key names its run, recipient and round, as the endpoint checks.\<close>

definition tasks_keyed :: "db \<Rightarrow> bool" where
  "tasks_keyed s \<longleftrightarrow>
     (\<forall>t \<in> set (t_tasks s). \<exists>sid.
        tk_idempotency_key t = idempotency_key_for (tk_run_id t) (tk_recipient t) sid (tk_round t))"

lemma task_of_None: "task_of ts a n = None \<longleftrightarrow> (\<forall>t \<in> set ts. \<not> (tk_recipient t = a \<and> tk_round t = n))"
  by (auto simp: task_of_def find_None_iff)

lemma tasks_of_set: "set (tasks_of run s) = {t \<in> set (t_tasks s). tk_run_id t = ru_id run}"
  by (auto simp: tasks_of_def)

definition missing_tasks :: "agent_task list \<Rightarrow> nat" where
  "missing_tasks ts = length (filter (\<lambda>(a, n, ty). task_of ts a n = None) RUN_TASKS)"

lemma missing_tasks_bound: "missing_tasks ts \<le> 6"
  unfolding missing_tasks_def by (rule le_trans [OF length_filter_le]) (simp add: RUN_TASKS_def)

lemma length_filter_le_mono:
  "(\<And>x. x \<in> set xs \<Longrightarrow> P x \<Longrightarrow> Q x) \<Longrightarrow> length (filter P xs) \<le> length (filter Q xs)"
  by (induction xs) (auto simp: le_SucI)

lemma length_filter_less:
  assumes "\<And>x. x \<in> set xs \<Longrightarrow> P x \<Longrightarrow> Q x" and "x \<in> set xs" and "Q x" and "\<not> P x"
  shows "length (filter P xs) < length (filter Q xs)"
  using assms
proof (induction xs)
  case (Cons y ys)
  have le: "length (filter P ys) \<le> length (filter Q ys)"
    using Cons.prems(1) by (intro length_filter_le_mono) simp
  show ?case
  proof (cases "x = y")
    case True
    then show ?thesis using le Cons.prems by simp
  next
    case False
    then have "length (filter P ys) < length (filter Q ys)" using Cons by simp
    then show ?thesis using Cons.prems(1) by auto
  qed
qed simp

lemma missing_tasks_less:
  assumes "set ts \<subseteq> set us" and "(a, n, ty) \<in> set RUN_TASKS" and "task_of ts a n = None" and "task_of us a n \<noteq> None"
  shows "missing_tasks us < missing_tasks ts"
  unfolding missing_tasks_def
  by (rule length_filter_less [of _ _ _ "(a, n, ty)"]) (use assms in \<open>auto simp: task_of_None\<close>)

section \<open>The endpoint accepts\<close>

definition room :: "db \<Rightarrow> bool" where
  "room s \<longleftrightarrow>
     inj_on (uuid4 s) {drawn s..} \<and>
     (\<forall>n \<ge> drawn s. uuid4 s n \<notin> tk_id ` set (t_tasks s) \<and> uuid4 s n \<notin> jb_id ` set (t_jobs s))"

lemma fresh_room:
  assumes "fresh_ids s" and "uuid4 s' = uuid4 s" and "drawn s \<le> drawn s'" and "t_tasks s' = t_tasks s"
    and "t_jobs s' = t_jobs s"
  shows "room s'"
  using assms inj_on_subset [of "uuid4 s" "{drawn s..}" "{drawn s'..}"] by (auto simp: fresh_ids_def room_def)

lemma store_task_accepts:
  assumes "room s" and "te_message_id e \<notin> tk_message_id ` set (t_tasks s)"
    and "te_idempotency_key e \<notin> tk_idempotency_key ` set (t_tasks s)"
  shows "\<exists>s'. store_task run e s = Inr ((202, receipt_of (new_task (uuid4 s (drawn s)) run e (utcnow s))), s') \<and>
    t_tasks s' = t_tasks s @ [new_task (uuid4 s (drawn s)) run e (utcnow s)] \<and> t_runs s' = t_runs s \<and> room s'"
proof -
  let ?u = "uuid4 s" and ?n = "drawn s"
  let ?t = "new_task (?u ?n) run e (utcnow s)"
  let ?s1 = "s\<lparr>drawn := Suc ?n\<rparr>"
  let ?s2 = "?s1\<lparr>t_tasks := t_tasks s @ [?t]\<rparr>"
  have fresh: "?u m \<notin> tk_id ` set (t_tasks s)" "?u m \<notin> jb_id ` set (t_jobs s)" if "?n \<le> m" for m
    using assms(1) that by (auto simp: room_def)
  have inj: "?u m = ?u k \<longleftrightarrow> m = k" if "?n \<le> m" "?n \<le> k" for m k
    using assms(1) that by (auto simp: room_def inj_on_def)
  have nc: "\<not> task_conflict ?t ?s1"
    using assms(2,3) fresh(1) [of ?n] by (auto simp: task_conflict_def list_ex_iff new_task_def image_iff)
  obtain j s3 where q: "enqueue ''agent'' AGENT_EXECUTE_JOB (JObj [(Lit ''task_id'', JText (Id (?u ?n)))])
       (Some [Lit ''task:'', Id (?u ?n)]) None 3 ?s2 = Inr (j, s3)"
    and s3: "t_tasks s3 = t_tasks ?s2" "t_runs s3 = t_runs s" "uuid4 s3 = ?u" "drawn s3 = Suc (Suc ?n)"
      "t_jobs s3 = t_jobs s \<or> (\<exists>x. jb_id x = ?u (Suc ?n) \<and> t_jobs s3 = t_jobs s @ [x])"
  proof (cases "Some [Lit ''task:'', Id (?u ?n)] \<in> jb_dedupe_key ` set (t_jobs s)")
    case True
    then show thesis
      by (intro that [of None "?s2\<lparr>drawn := Suc (Suc ?n)\<rparr>"]) (auto simp: enqueue_def QUEUES_def draw_def)
  next
    case False
    let ?j = "new_job (?u (Suc ?n)) ''agent'' AGENT_EXECUTE_JOB (JObj [(Lit ''task_id'', JText (Id (?u ?n)))])
      (Some [Lit ''task:'', Id (?u ?n)]) (utcnow s) 3 (utcnow s)"
    show thesis using False fresh(2) [of "Suc ?n"]
      by (intro that [of "Some (?u (Suc ?n))" "?s2\<lparr>drawn := Suc (Suc ?n), t_jobs := t_jobs s @ [?j]\<rparr>"])
        (auto simp: enqueue_def QUEUES_def draw_def insert_row_def new_job_def)
  qed
  have "room s3"
    unfolding room_def s3(1,3,4)
  proof (intro conjI allI impI)
    have "inj_on ?u {?n..}" using assms(1) by (simp add: room_def)
    then show "inj_on ?u {Suc (Suc ?n)..}" by (rule inj_on_subset) auto
    fix m assume m: "Suc (Suc ?n) \<le> m"
    show "?u m \<notin> tk_id ` set (t_tasks ?s2)"
      using fresh(1) [of m] inj [of m ?n] m by (auto simp: new_task_def)
    show "?u m \<notin> jb_id ` set (t_jobs s3)"
      using s3(5) fresh(2) [of m] inj [of m "Suc ?n"] m by auto
  qed
  then have "room (append_event i ty a p s3)" for i ty a p by (simp add: room_def)
  then show ?thesis
    using nc q s3 by (auto simp: store_task_def draw_def)
qed

text \<open>A run as a step leaves it: only its status, times and counters have moved.\<close>

definition same_run :: "analysis_run \<Rightarrow> analysis_run \<Rightarrow> bool" where
  "same_run r run \<longleftrightarrow>
     ru_id r = ru_id run \<and> ru_organization_id r = ru_organization_id run \<and>
     ru_factory_id r = ru_factory_id run \<and> ru_order_id r = ru_order_id run \<and>
     ru_snapshot_id r = ru_snapshot_id run \<and> ru_deadline_at r = ru_deadline_at run \<and>
     ru_trace_id r = ru_trace_id run"

lemma sendable_same: "same_run r run \<Longrightarrow> sendable r sid tasks e = sendable run sid tasks e"
proof -
  assume "same_run r run"
  then have "envelope_to r = envelope_to run" by (intro ext) (simp add: same_run_def envelope_to_def)
  then show ?thesis by (simp add: sendable_def)
qed

lemma sendable_fields:
  assumes "sendable run sid tasks e"
  shows "te_run_id e = ru_id run" "te_organization_id e = ru_organization_id run" "te_factory_id e = ru_factory_id run"
    "te_order_id e = ru_order_id run" "te_snapshot_id e = sid" "te_deadline_at e = ru_deadline_at run"
    "te_idempotency_key e = idempotency_key_for (ru_id run) (te_recipient e) sid (te_round e)"
    "(te_recipient e, te_round e, te_task_type e) \<in> set RUN_TASKS"
    "te_task_type e \<in> set (ALLOWED_TASK_TYPES (te_recipient e))"
    "task_of tasks (te_recipient e) (te_round e) = None" "set (referenced_tasks e) \<subseteq> tk_id ` set tasks"
proof -
  from assms obtain ty parent refs i where
      e: "e = envelope_to run sid (te_recipient e) ty (te_round e) parent refs i"
    and ty: "(te_recipient e, te_round e, ty) \<in> set RUN_TASKS"
    and rest: "task_of tasks (te_recipient e) (te_round e) = None" "set (referenced_tasks e) \<subseteq> tk_id ` set tasks"
    unfolding sendable_def by blast
  have "te_task_type e = ty" by (subst e) (simp add: envelope_to_def)
  then show "(te_recipient e, te_round e, te_task_type e) \<in> set RUN_TASKS"
    "te_task_type e \<in> set (ALLOWED_TASK_TYPES (te_recipient e))" using ty RUN_TASKS_valid [OF ty] by simp_all
  show "te_run_id e = ru_id run" "te_organization_id e = ru_organization_id run" "te_factory_id e = ru_factory_id run"
    "te_order_id e = ru_order_id run" "te_snapshot_id e = sid" "te_deadline_at e = ru_deadline_at run"
    "te_idempotency_key e = idempotency_key_for (ru_id run) (te_recipient e) sid (te_round e)"
    by (subst e; simp add: envelope_to_def)+
  show "task_of tasks (te_recipient e) (te_round e) = None" "set (referenced_tasks e) \<subseteq> tk_id ` set tasks"
    by (fact rest)+
qed

lemma dispatch_accepts:
  assumes "sendable run sid tasks e" and "row ru_id (ru_id run) (t_runs s) = Some r" and "same_run r run"
    and "ru_snapshot_id run = Some sid" and "ru_status r \<in> set DISPATCHABLE_RUN_STATUSES"
    and "set tasks \<subseteq> {t \<in> set (t_tasks s). tk_run_id t = ru_id run}"
    and "room s" and "te_message_id e \<notin> tk_message_id ` set (t_tasks s)"
    and "te_idempotency_key e \<notin> tk_idempotency_key ` set (t_tasks s)"
  shows "\<exists>t s'. http_dispatch trace e s = (Response 202 (Some (receipt_of t)), s') \<and>
    t = new_task (uuid4 s (drawn s)) r e (utcnow s) \<and>
    t_tasks s' = t_tasks s @ [t] \<and> t_runs s' = t_runs s \<and> room s'"
proof -
  note f = sendable_fields [OF assms(1)]
  have m: "mismatches r e = []" using f assms(3,4) by (simp add: mismatches_def same_run_def)
  have none: "existing_task (te_idempotency_key e) s = None"
    using assms(9) by (auto simp: existing_task_def find_None_iff image_iff)
  have refs: "\<not> list_ex (\<lambda>i. \<not> list_ex (\<lambda>t. tk_id t = i \<and> tk_run_id t = ru_id r) (t_tasks s)) (referenced_tasks e)"
    using f(11) assms(3,6) by (fastforce simp: list_ex_iff same_run_def)
  show ?thesis
    using store_task_accepts [OF assms(7-9), of r] m none refs f assms(2,3,5)
    by (auto simp: http_dispatch_def dispatch_agent_task_def same_run_def)
qed

text \<open>Sending them all.\<close>

lemma dispatch_all_accepts:
  assumes "\<forall>e \<in> set es. sendable run sid tasks e" and "row ru_id (ru_id run) (t_runs s) = Some r"
    and "same_run r run" and "ru_snapshot_id run = Some sid" and "ru_status r \<in> set DISPATCHABLE_RUN_STATUSES"
    and "set tasks \<subseteq> {t \<in> set (t_tasks s). tk_run_id t = ru_id run}" and "room s"
    and "te_message_id ` set es \<inter> tk_message_id ` set (t_tasks s) = {}" and "distinct (map te_message_id es)"
    and "te_idempotency_key ` set es \<inter> tk_idempotency_key ` set (t_tasks s) = {}"
    and "distinct (map te_idempotency_key es)"
  shows "\<exists>news s'. dispatch_all (http_dispatch trace) es s = (Inr (), s') \<and> t_tasks s' = t_tasks s @ news \<and>
    map tk_envelope news = es \<and> (\<forall>t \<in> set news. tk_status t = TASK_PENDING \<and> tk_run_id t = ru_id run \<and>
      tk_recipient t = te_recipient (tk_envelope t) \<and> tk_round t = te_round (tk_envelope t) \<and>
      tk_task_type t = te_task_type (tk_envelope t))"
  using assms(1,2,6-)
proof (induction es arbitrary: s)
  case Nil
  then show ?case by (intro exI [of _ "[]"]) simp
next
  case (Cons e es)
  obtain t s1 where t: "http_dispatch trace e s = (Response 202 (Some (receipt_of t)), s1)"
      "t = new_task (uuid4 s (drawn s)) r e (utcnow s)"
      "t_tasks s1 = t_tasks s @ [t]" "t_runs s1 = t_runs s" "room s1"
    using dispatch_accepts [of run sid tasks e s r trace] Cons.prems assms(3-5) by auto
  have "\<exists>news s'. dispatch_all (http_dispatch trace) es s1 = (Inr (), s') \<and> t_tasks s' = t_tasks s1 @ news \<and>
    map tk_envelope news = es \<and> (\<forall>t \<in> set news. tk_status t = TASK_PENDING \<and> tk_run_id t = ru_id run \<and>
      tk_recipient t = te_recipient (tk_envelope t) \<and> tk_round t = te_round (tk_envelope t) \<and>
      tk_task_type t = te_task_type (tk_envelope t))"
    by (rule Cons.IH) (use Cons.prems t in \<open>auto simp: new_task_def\<close>)
  then obtain news s' where n: "dispatch_all (http_dispatch trace) es s1 = (Inr (), s')" "t_tasks s' = t_tasks s1 @ news"
      "map tk_envelope news = es" "\<forall>t \<in> set news. tk_status t = TASK_PENDING \<and> tk_run_id t = ru_id run \<and>
      tk_recipient t = te_recipient (tk_envelope t) \<and> tk_round t = te_round (tk_envelope t) \<and>
      tk_task_type t = te_task_type (tk_envelope t)" by blast
  show ?case
    using t n assms(3)
    by (intro exI [of _ "t # news"] exI [of _ s']) (auto simp: submit_reply_def new_task_def same_run_def)
qed

section \<open>A trace id that does not fit\<close>

lemma envelope_for_long:
  assumes "ru_snapshot_id run = Some sid" and "200 < length (ru_trace_id run)"
  shows "envelope_for run a ty n parent refs s = Inl (ValidationFailure ''TaskEnvelope'')"
  using assms by (simp add: envelope_for_def make_envelope_def draw_def envelope_valid_def)

lemma one_envelope_long:
  assumes "ru_snapshot_id run = Some sid" and "200 < length (ru_trace_id run)"
  shows "one_envelope run a ty n parent refs s = Inl (ValidationFailure ''TaskEnvelope'')"
  by (simp add: one_envelope_def envelope_for_long [OF assms])

lemma round_zero_long:
  assumes "ru_snapshot_id run = Some sid" and "200 < length (ru_trace_id run)" and "specs \<noteq> []"
  shows "round_zero_envelopes run refs specs s = Inl (ValidationFailure ''TaskEnvelope'')"
  using assms(3) envelope_for_long [OF assms(1,2)] by (cases specs) auto

lemma after_planning_long:
  assumes "ru_snapshot_id run = Some sid" and "200 < length (ru_trace_id run)" and "t \<in> set tasks" and "q \<in> set tasks"
  shows "(\<exists>x \<in> set tasks. \<not> task_terminal x) \<or>
     after_planning digest run sid tasks results t q s = Inl (ValidationFailure ''TaskEnvelope'') \<or>
     after_planning digest run sid tasks results t q s =
       bind_err (finalize digest run tasks results s) (\<lambda>(_, s). Inr ([], s))"
  using assms(3,4) one_envelope_long [OF assms(1,2)] task_of_in [of tasks AGENT_RM 1]
  by (cases "task_of tasks AGENT_RM 1") (auto simp: after_planning_def)

text \<open>Whatever a step would send, it fails.\<close>

lemma decide_tasks_long:
  assumes sid: "ru_snapshot_id run = Some sid" and tr: "200 < length (ru_trace_id run)"
  shows "(\<exists>x \<in> set tasks. \<not> task_terminal x) \<or>
     decide_tasks digest run sid tasks results s = Inl (ValidationFailure ''TaskEnvelope'') \<or>
     decide_tasks digest run sid tasks results s =
       bind_err (finalize digest run tasks results s) (\<lambda>(_, s). Inr ([], s))"
proof (cases "filter (\<lambda>(a, _). task_of tasks a 0 = None) ROUND_ZERO = []")
  case False
  then show ?thesis using round_zero_long [OF sid tr False] by (simp add: decide_tasks_def)
next
  case True
  then obtain rm0 ie0 q0 where t: "task_of tasks AGENT_RM 0 = Some rm0" "task_of tasks AGENT_IE 0 = Some ie0"
      "task_of tasks AGENT_QUALITY 0 = Some q0"
    by (auto simp: ROUND_ZERO_def split: if_splits)
  note ins = t [THEN task_of_in]
  show ?thesis
  proof (cases "task_terminal rm0 \<and> task_terminal ie0")
    case False
    then show ?thesis using ins by auto
  next
    case over: True
    show ?thesis
    proof (cases "task_of tasks AGENT_PLANNING 0")
      case None
      then show ?thesis using t True over one_envelope_long [OF sid tr] by (simp add: decide_tasks_def)
    next
      case (Some p0)
      note p0 = task_of_in [OF Some]
      show ?thesis
      proof (cases "task_terminal p0")
        case False
        then show ?thesis using p0 by auto
      next
        case p0_over: True
        show ?thesis
        proof (cases "task_of tasks AGENT_PLANNING 1")
          case p1: (Some p1)
          have "decide_tasks digest run sid tasks results s = after_planning digest run sid tasks results p1 q0 s"
            using t True over Some p0_over p1 by (simp add: decide_tasks_def)
          then show ?thesis using after_planning_long [OF sid tr task_of_in [OF p1] ins(3)] by simp
        next
          case None
          let ?reason = "needs_replan (map_of results (tk_id p0)) (map_of results (tk_id rm0))"
          obtain run1 s1 where n: "note_replan run ?reason s = (run1, s1)" by fastforce
          have run1: "ru_snapshot_id run1 = Some sid" "200 < length (ru_trace_id run1)"
            using n sid tr by (auto simp: note_replan_def Let_def split: if_splits)
          have "decide_tasks digest run sid tasks results s =
              (if ?reason \<noteq> None \<or> 0 < ru_replan_count run then Inl (ValidationFailure ''TaskEnvelope'')
               else after_planning digest run sid tasks results p0 q0 s)"
            using t True over Some p0_over None n one_envelope_long [OF run1] by (simp add: decide_tasks_def Let_def)
          then show ?thesis using after_planning_long [OF sid tr p0 ins(3)] by simp
        qed
      qed
    qed
  qed
qed

section \<open>A step\<close>

lemma start_run_same:
  assumes "start_run run sid s = (r, t)" and "ru_status run \<in> {RUN_QUEUED, RUN_RUNNING}"
  shows "same_run r run" "ru_replan_count r = ru_replan_count run" "ru_status r = RUN_RUNNING"
    "t_runs t = t_runs s \<and> r = run \<or> t_runs t = upd ru_id r (t_runs s)" "t_tasks t = t_tasks s" "t_jobs t = t_jobs s"
    "steady s t" "drawn t = drawn s" "t_notifications t = t_notifications s"
  using assms by (auto simp: start_run_def Let_def same_run_def split: if_splits
      intro: steady_trans [OF steady_run steady_event])

lemma finalize_deadline_total:
  assumes "fresh_ids s"
  shows "\<exists>run' s'. finalize_deadline run tasks results s = Inr (run', s')"
  unfolding finalize_deadline_def Let_def
  by (rule close_run_total) (use assms in \<open>simp add: fresh_ids_def cancel_active_def\<close>)

lemma run_closed_started:
  assumes "start_run run sid s = (r, t)" and "ru_status run \<in> {RUN_QUEUED, RUN_RUNNING}" and "run_closed r t s'"
  shows "run_closed run s s'"
proof -
  note st = start_run_same [OF assms(1,2)]
  from assms(3) obtain run' where run': "ru_id run' = ru_id r" "ru_status run' \<in> set TERMINAL_RUN_STATUSES"
      "ru_snapshot_id run' = ru_snapshot_id r" "t_runs s' = upd ru_id run' (t_runs t)" by (auto simp: run_closed_def)
  have "t_runs s' = upd ru_id run' (t_runs s)"
    using st(4) run' by (auto simp: upd_upd [of ru_id run' r])
  then have "\<exists>run'. ru_id run' = ru_id run \<and> ru_status run' \<in> set TERMINAL_RUN_STATUSES \<and>
        ru_snapshot_id run' = ru_snapshot_id run \<and> t_runs s' = upd ru_id run' (t_runs s)"
    using run'(1-3) st(1) by (intro exI [of _ run']) (simp add: same_run_def)
  then show ?thesis
    using assms(3) st(5-8) by (auto simp: run_closed_def steady_def)
qed

lemma fresh_ids_steady:
  assumes "fresh_ids s" and "steady s t" and "t_tasks t = t_tasks s" and "t_notifications t = t_notifications s"
    and "drawn t = drawn s"
  shows "fresh_ids t"
  using assms by (simp add: fresh_ids_def steady_def)

lemma decide_run_step:
  assumes st: "ru_status run \<in> {RUN_QUEUED, RUN_RUNNING}" and sid: "ru_snapshot_id run = Some sid"
    and fresh: "fresh_ids s" and over: "\<forall>t \<in> set (tasks_of run s). task_terminal t"
  obtains (closed) s' where "decide_run digest run s = Inr ([], s')" "run_closed run s s'"
  | (sending) r t es s' where "decide_run digest run s = Inr (es, s')" "start_run run sid s = (r, t)"
      "sent r sid (tasks_of run s) t es s'"
  | (too_long) "200 < length (ru_trace_id run)" "decide_run digest run s = Inl (ValidationFailure ''TaskEnvelope'')"
proof -
  let ?tasks = "tasks_of run s" and ?results = "results_of run s"
  have act: "ru_status run \<notin> set TERMINAL_RUN_STATUSES" using st by (auto simp: TERMINAL_RUN_STATUSES_def)
  show thesis
  proof (cases "ru_deadline_at run \<le> utcnow s")
    case True
    obtain run' s' where f: "finalize_deadline run ?tasks ?results s = Inr (run', s')"
      using finalize_deadline_total [OF fresh] by blast
    then have "decide_run digest run s = Inr ([], s')" using act sid True by (simp add: decide_run_def)
    then show thesis by (rule closed) (rule finalize_deadlineD(1) [OF f])
  next
    case False
    obtain r t where rt: "start_run run sid s = (r, t)" by fastforce
    note same = start_run_same [OF rt st]
    have de: "decide_run digest run s = decide_tasks digest r sid ?tasks ?results t"
      using act sid False rt by (simp add: decide_run_def)
    have r: "ru_snapshot_id r = Some sid" "length (ru_trace_id r) = length (ru_trace_id run)"
      using same(1) sid by (simp_all add: same_run_def)
    have fin: thesis if "decide_tasks digest r sid ?tasks ?results t =
        bind_err (finalize digest r ?tasks ?results t) (\<lambda>(_, s). Inr ([], s))"
    proof -
      have "fresh_ids t" by (rule fresh_ids_steady [OF fresh same(7,5,9,8)])
      from finalize_total [OF this] obtain run' s' where f: "finalize digest r ?tasks ?results t = Inr (run', s')"
        by blast
      show thesis
      proof (rule closed)
        show "decide_run digest run s = Inr ([], s')" using de that f by simp
        show "run_closed run s s'" by (rule run_closed_started [OF rt st finalizeD(1) [OF f]])
      qed
    qed
    show thesis
    proof (cases "length (ru_trace_id run) \<le> 200")
      case True
      with r(2) have "length (ru_trace_id r) \<le> 200" by simp
      from decide_tasks_form [OF r(1) this, of digest ?tasks ?results t] show thesis
        using over fin sending [OF _ rt] de by (elim disjE conjE bexE exE) auto
    next
      case False
      with r(2) have "200 < length (ru_trace_id r)" by simp
      from decide_tasks_long [OF r(1) this, of ?tasks digest ?results t] show thesis
        using over fin too_long False de by (elim disjE bexE) auto
    qed
  qed
qed

lemma decide_run_long:
  assumes "ru_status run \<in> {RUN_QUEUED, RUN_RUNNING}" and "ru_snapshot_id run = Some sid"
    and "200 < length (ru_trace_id run)" and "tasks_of run s = []" and "utcnow s < ru_deadline_at run"
  shows "decide_run digest run s = Inl (ValidationFailure ''TaskEnvelope'')"
proof -
  obtain r t where rt: "start_run run sid s = (r, t)" by fastforce
  have r: "ru_snapshot_id r = Some sid" "200 < length (ru_trace_id r)"
    using start_run_same(1) [OF rt assms(1)] assms(2,3) by (simp_all add: same_run_def)
  have "filter (\<lambda>(a, _). task_of [] a 0 = None) ROUND_ZERO \<noteq> []" by (simp add: ROUND_ZERO_def task_of_def)
  then have "decide_tasks digest r sid [] (results_of run s) t = Inl (ValidationFailure ''TaskEnvelope'')"
    by (simp add: decide_tasks_def round_zero_long [OF r])
  moreover have "ru_status run \<notin> set TERMINAL_RUN_STATUSES" using assms(1) by (auto simp: TERMINAL_RUN_STATUSES_def)
  ultimately show ?thesis using assms(2,4,5) rt by (simp add: decide_run_def)
qed

text \<open>What a step sends is accepted.\<close>

lemma sent_accepted:
  assumes st: "ru_status run \<in> {RUN_QUEUED, RUN_RUNNING}" and row: "row ru_id (ru_id run) (t_runs s) = Some run"
    and sid: "ru_snapshot_id run = Some sid" and fresh: "fresh_ids s" and keyed: "tasks_keyed s"
    and rt: "start_run run sid s = (r, t)" and sent: "sent r sid (tasks_of run s) t es s1"
  shows "\<exists>news s2. dispatch_all (http_dispatch trace) es (commit s1) = (Inr (), s2) \<and> t_tasks s2 = t_tasks s @ news \<and>
    map tk_envelope news = es \<and> (\<forall>x \<in> set news. tk_status x = TASK_PENDING \<and> tk_run_id x = ru_id run \<and>
      tk_recipient x = te_recipient (tk_envelope x) \<and> tk_round x = te_round (tk_envelope x) \<and>
      tk_task_type x = te_task_type (tk_envelope x))"
proof -
  note same = start_run_same [OF rt st]
  have id: "ru_id r = ru_id run" using same(1) by (simp add: same_run_def)
  have tasks: "t_tasks (commit s1) = t_tasks s" "uuid4 (commit s1) = uuid4 s" "t_jobs (commit s1) = t_jobs s"
      "drawn s \<le> drawn (commit s1)" "t_runs (commit s1) = t_runs s1"
    using sent same by (auto simp: sent_def commit_def steady_def)
  have env: "\<forall>e \<in> set es. sendable run sid (tasks_of run s) e"
    using sent sendable_same [OF same(1)] by (simp add: sent_def)
  have rowt: "row ru_id (ru_id run) (t_runs t) = Some r"
    using same(4) row id by (auto simp: row_upd)
  have "\<exists>q. row ru_id (ru_id run) (t_runs s1) = Some q \<and> same_run q run \<and> ru_status q = RUN_RUNNING"
    using sent same(1,3) rowt id unfolding sent_def
    by (elim conjE disjE) (auto simp: row_upd same_run_def)
  then obtain q where q: "row ru_id (ru_id run) (t_runs (commit s1)) = Some q" "same_run q run"
      "ru_status q \<in> set DISPATCHABLE_RUN_STATUSES"
    using tasks(5) by (auto simp: DISPATCHABLE_RUN_STATUSES_def)
  from sent obtain k where k: "map te_message_id es = map (uuid4 t) [k..<k + length es]" "drawn t \<le> k"
    by (auto simp: sent_def)
  have u: "uuid4 t = uuid4 s" "drawn t = drawn s" using same(7,8) by (simp_all add: steady_def)
  have inj: "inj_on (uuid4 s) {drawn s..}" using fresh by (simp add: fresh_ids_def)
  have dm: "distinct (map te_message_id es)"
    unfolding k(1) u(1) distinct_map using k(2) u(2) by (auto intro: inj_on_subset [OF inj])
  have "te_message_id ` set es \<subseteq> uuid4 s ` {drawn s..}"
  proof -
    have "te_message_id ` set es = set (map te_message_id es)" by simp
    also have "\<dots> \<subseteq> uuid4 s ` {drawn s..}" unfolding k(1) u(1) using k(2) u(2) by auto
    finally show ?thesis .
  qed
  moreover have "uuid4 s ` {drawn s..} \<inter> tk_message_id ` set (t_tasks s) = {}"
    using fresh unfolding fresh_ids_def by blast
  ultimately have mm: "te_message_id ` set es \<inter> tk_message_id ` set (t_tasks (commit s1)) = {}"
    unfolding tasks(1) by blast
  note dm mm
  moreover have "te_idempotency_key ` set es \<inter> tk_idempotency_key ` set (t_tasks (commit s1)) = {}"
  proof -
    have False if e: "e \<in> set es" and x: "x \<in> set (t_tasks s)" and eq: "te_idempotency_key e = tk_idempotency_key x" for e x
    proof -
      note f = sendable_fields [OF env [rule_format, OF e]]
      obtain sd where "tk_idempotency_key x = idempotency_key_for (tk_run_id x) (tk_recipient x) sd (tk_round x)"
        using keyed x by (auto simp: tasks_keyed_def)
      then have "tk_run_id x = ru_id run" "tk_recipient x = te_recipient e" "tk_round x = te_round e"
        using eq f(7) by (simp_all add: idempotency_key_inj)
      then show False using f(10) x by (auto simp: task_of_None tasks_of_set)
    qed
    then show ?thesis unfolding tasks(1) by fastforce
  qed
  moreover have "distinct (map te_idempotency_key es)" using sent by (simp add: sent_def)
  moreover have "room (commit s1)" by (rule fresh_room [OF fresh tasks(2,4,1,3)])
  moreover have "set (tasks_of run s) \<subseteq> {t \<in> set (t_tasks (commit s1)). tk_run_id t = ru_id run}"
    by (simp add: tasks_of_set tasks(1))
  ultimately have "\<exists>news s2. dispatch_all (http_dispatch trace) es (commit s1) = (Inr (), s2) \<and>
      t_tasks s2 = t_tasks (commit s1) @ news \<and> map tk_envelope news = es \<and>
      (\<forall>x \<in> set news. tk_status x = TASK_PENDING \<and> tk_run_id x = ru_id run \<and>
      tk_recipient x = te_recipient (tk_envelope x) \<and> tk_round x = te_round (tk_envelope x) \<and>
      tk_task_type x = te_task_type (tk_envelope x))"
    by (intro dispatch_all_accepts [OF env q(1,2) sid q(3)])
  then show ?thesis unfolding tasks(1) .
qed

lemma run_step_progress:
  assumes st: "ru_status run \<in> {RUN_QUEUED, RUN_RUNNING}" and row: "row ru_id (ru_id run) (t_runs s) = Some run"
    and sid: "ru_snapshot_id run = Some sid" and fresh: "fresh_ids s"
    and keyed: "tasks_keyed s" and over: "\<forall>t \<in> set (tasks_of run s). task_terminal t"
  shows "(\<exists>es s1. decide_run digest run s = Inr (es, s1) \<and>
    (es = [] \<and> run_closed run s s1 \<or>
     es \<noteq> [] \<and> (\<exists>news s2. dispatch_all (http_dispatch trace) es (commit s1) = (Inr (), s2) \<and>
       t_tasks s2 = t_tasks s @ news \<and> map tk_envelope news = es \<and>
       (\<forall>x \<in> set news. tk_status x = TASK_PENDING \<and> tk_run_id x = ru_id run \<and>
          (tk_recipient x, tk_round x, tk_task_type x) \<in> set RUN_TASKS \<and>
          task_of (tasks_of run s) (tk_recipient x) (tk_round x) = None) \<and>
       missing_tasks (tasks_of run s2) < missing_tasks (tasks_of run s)))) \<or>
     200 < length (ru_trace_id run) \<and> decide_run digest run s = Inl (ValidationFailure ''TaskEnvelope'')"
  using st sid fresh over
proof (cases rule: decide_run_step [of run sid s digest])
  case (closed s')
  then show ?thesis by blast
next
  case too_long
  then show ?thesis by blast
next
  case (sending r t es s1)
  note same = start_run_same [OF sending(2) st]
  have env: "\<forall>e \<in> set es. sendable run sid (tasks_of run s) e" and ne: "es \<noteq> []"
    using sending(3) sendable_same [OF same(1)] by (simp_all add: sent_def)
  from sent_accepted [OF st row sid fresh keyed sending(2,3), of trace] obtain news s2 where
      d: "dispatch_all (http_dispatch trace) es (commit s1) = (Inr (), s2)" "t_tasks s2 = t_tasks s @ news"
        "map tk_envelope news = es"
    and n: "\<And>x. x \<in> set news \<Longrightarrow> tk_status x = TASK_PENDING \<and> tk_run_id x = ru_id run \<and>
      tk_recipient x = te_recipient (tk_envelope x) \<and> tk_round x = te_round (tk_envelope x) \<and>
      tk_task_type x = te_task_type (tk_envelope x)" by blast
  have new: "(tk_recipient x, tk_round x, tk_task_type x) \<in> set RUN_TASKS \<and>
      task_of (tasks_of run s) (tk_recipient x) (tk_round x) = None" if x: "x \<in> set news" for x
  proof -
    have "tk_envelope x \<in> set es" using x d(3) by auto
    from sendable_fields [OF env [rule_format, OF this]] n [OF x] show ?thesis by simp
  qed
  obtain x where x: "x \<in> set news" using ne d(3) by (cases news) auto
  have "missing_tasks (tasks_of run s2) < missing_tasks (tasks_of run s)"
  proof (rule missing_tasks_less)
    show "set (tasks_of run s) \<subseteq> set (tasks_of run s2)" by (auto simp: tasks_of_set d(2))
    show "(tk_recipient x, tk_round x, tk_task_type x) \<in> set RUN_TASKS"
      "task_of (tasks_of run s) (tk_recipient x) (tk_round x) = None" using new [OF x] by simp_all
    show "task_of (tasks_of run s2) (tk_recipient x) (tk_round x) \<noteq> None"
      using x n [OF x] by (auto simp: task_of_None tasks_of_set d(2))
  qed
  then show ?thesis using sending(1) ne d n new by blast
qed

text \<open>
  C38. A run makes progress. When all tasks of an active run have ended, a step of the
  orchestrator does not wait: either the run is closed, in a terminal status, or the step sends
  envelopes, every one of them is accepted by the dispatch endpoint as a new pending task, of
  one of the six kinds a run can have and had not yet, so that the number of tasks still
  missing, at most six, goes down. The step fails in one case only: the trace id of the run is
  longer than the 200 characters an envelope may carry. Then the validation of the envelope
  raises, and a run that has no tasks yet fails at every step before its deadline.
\<close>

theorem run_progress:
  assumes st: "ru_status run \<in> {RUN_QUEUED, RUN_RUNNING}" and row: "row ru_id (ru_id run) (t_runs s) = Some run"
    and sid: "ru_snapshot_id run = Some sid" and fresh: "fresh_ids s"
    and keyed: "tasks_keyed s" and over: "\<forall>t \<in> set (tasks_of run s). task_terminal t"
  shows "((\<exists>es s1. decide_run digest run s = Inr (es, s1) \<and>
    (es = [] \<and> run_closed run s s1 \<or>
     es \<noteq> [] \<and> (\<exists>news s2. dispatch_all (http_dispatch trace) es (commit s1) = (Inr (), s2) \<and>
       t_tasks s2 = t_tasks s @ news \<and> map tk_envelope news = es \<and>
       (\<forall>x \<in> set news. tk_status x = TASK_PENDING \<and> tk_run_id x = ru_id run \<and>
          (tk_recipient x, tk_round x, tk_task_type x) \<in> set RUN_TASKS \<and>
          task_of (tasks_of run s) (tk_recipient x) (tk_round x) = None) \<and>
       missing_tasks (tasks_of run s2) < missing_tasks (tasks_of run s)))) \<or>
     200 < length (ru_trace_id run) \<and> decide_run digest run s = Inl (ValidationFailure ''TaskEnvelope'')) \<and>
    (200 < length (ru_trace_id run) \<and> tasks_of run s = [] \<and> utcnow s < ru_deadline_at run \<longrightarrow>
     decide_run digest run s = Inl (ValidationFailure ''TaskEnvelope''))"
proof (rule conjI [OF run_step_progress [OF assms]])
  show "200 < length (ru_trace_id run) \<and> tasks_of run s = [] \<and> utcnow s < ru_deadline_at run \<longrightarrow>
      decide_run digest run s = Inl (ValidationFailure ''TaskEnvelope'')"
    using decide_run_long [OF st sid] by blast
qed

text \<open>A run without tasks yet, and one whose trace id is too long.\<close>

definition progress_demo :: db where
  "progress_demo = empty_db\<lparr>t_runs := [demo_run_row]\<rparr>"

definition long_trace_run :: analysis_run where
  "long_trace_run = demo_run_row\<lparr>ru_trace_id := replicate 332 CHR ''-''\<rparr>"

definition long_trace_demo :: db where
  "long_trace_demo = empty_db\<lparr>t_runs := [long_trace_run]\<rparr>"

lemma progress_demo_value:
  "case decide_run (\<lambda>_. ''hash'') demo_run_row progress_demo of Inr (es, s1) \<Rightarrow> length es = 3 | Inl _ \<Rightarrow> False"
  by code_simp

theorem run_progress_witness:
  "(\<exists>es s1 news s2. decide_run (\<lambda>_. ''hash'') demo_run_row progress_demo = Inr (es, s1) \<and>
     dispatch_all (http_dispatch None) es (commit s1) = (Inr (), s2) \<and> t_tasks s2 = news \<and> length news = 3 \<and>
     (\<forall>x \<in> set news. tk_status x = TASK_PENDING)) \<and>
   decide_run (\<lambda>_. ''hash'') long_trace_run long_trace_demo = Inl (ValidationFailure ''TaskEnvelope'')"
proof
  have none: "t_tasks progress_demo = []" "t_tasks long_trace_demo = []"
    by (simp_all add: progress_demo_def long_trace_demo_def empty_db_def)
  have fresh: "fresh_ids progress_demo" "fresh_ids long_trace_demo"
    by (auto simp: fresh_ids_def progress_demo_def long_trace_demo_def empty_db_def inj_on_def)
  obtain es s1 where d: "decide_run (\<lambda>_. ''hash'') demo_run_row progress_demo = Inr (es, s1)" "length es = 3"
    using progress_demo_value by (cases "decide_run (\<lambda>_. ''hash'') demo_run_row progress_demo") auto
  note p = run_progress [where run = demo_run_row and s = progress_demo and sid = 21 and
      digest = "\<lambda>_. ''hash''" and trace = None]
  have "\<exists>news s2. dispatch_all (http_dispatch None) es (commit s1) = (Inr (), s2) \<and>
      t_tasks s2 = t_tasks progress_demo @ news \<and> map tk_envelope news = es \<and>
      (\<forall>x \<in> set news. tk_status x = TASK_PENDING)"
    using conjunct1 [OF p] fresh none d
    by (simp add: tasks_keyed_def tasks_of_def) (auto simp: demo_run_row_def progress_demo_def)
  then obtain news s2 where n: "dispatch_all (http_dispatch None) es (commit s1) = (Inr (), s2)"
      "t_tasks s2 = t_tasks progress_demo @ news" "map tk_envelope news = es"
      "\<forall>x \<in> set news. tk_status x = TASK_PENDING" by blast
  from n(3) d(2) have "length news = 3" by (metis length_map)
  then show "\<exists>es s1 news s2. decide_run (\<lambda>_. ''hash'') demo_run_row progress_demo = Inr (es, s1) \<and>
     dispatch_all (http_dispatch None) es (commit s1) = (Inr (), s2) \<and> t_tasks s2 = news \<and> length news = 3 \<and>
     (\<forall>x \<in> set news. tk_status x = TASK_PENDING)"
    using d(1) n none
    by (intro exI [of _ es] exI [of _ s1] exI [of _ news] exI [of _ s2]) simp
  have h: "ru_status long_trace_run \<in> {RUN_QUEUED, RUN_RUNNING}"
      "row ru_id (ru_id long_trace_run) (t_runs long_trace_demo) = Some long_trace_run"
      "ru_snapshot_id long_trace_run = Some 21" "tasks_keyed long_trace_demo"
      "\<forall>t \<in> set (tasks_of long_trace_run long_trace_demo). task_terminal t"
      "200 < length (ru_trace_id long_trace_run) \<and> tasks_of long_trace_run long_trace_demo = [] \<and>
       utcnow long_trace_demo < ru_deadline_at long_trace_run"
    by (simp_all add: tasks_keyed_def tasks_of_def none)
      (simp_all add: long_trace_run_def long_trace_demo_def demo_run_row_def empty_db_def)
  show "decide_run (\<lambda>_. ''hash'') long_trace_run long_trace_demo = Inl (ValidationFailure ''TaskEnvelope'')"
    using conjunct2 [OF run_progress [OF h(1-3) fresh(2) h(4,5)]] h(6) by blast
qed

end
