(* ===== verification/LS_IEService.thy ===== *)
theory LS_IEService
  imports LS_Quality LS_IECalc LS_Capacity
begin

text \<open>
  The industrial engineering service (\<open>app/domain/ie/service.py\<close>): cycle observations, marking
  them as outliers, the operator aliases and the analysis of a style on a line. What the
  service takes from PostgreSQL beyond reading rows is the record \<open>postgres\<close>: the average of a
  numeric column and the calendar of a time zone. The lemmas show that an analysis only depends
  on the observations that count, and that marking an observation takes it out of every later
  analysis.
\<close>

text \<open>
  \<open>avg(...)\<close> of a non-empty numeric column, \<open>CAST(timezone(tz, t) AS date)\<close> and
  \<open>timezone(tz, CAST(d AS timestamp))\<close>.
\<close>

record postgres =
  pg_avg :: "decimal list \<Rightarrow> decimal"
  pg_local_date :: "string \<Rightarrow> datetime \<Rightarrow> date"
  pg_local_midnight :: "string \<Rightarrow> date \<Rightarrow> datetime"

definition MIN_SAMPLES :: int where
  "MIN_SAMPLES = 3"

definition CAPACITY_WINDOW_DAYS :: int where
  "CAPACITY_WINDOW_DAYS = 7"

text \<open>The default of \<open>window_days\<close>.\<close>

definition DEFAULT_WINDOW_DAYS :: int where
  "DEFAULT_WINDOW_DAYS = 30"

definition MAX_OBSERVED_SECONDS :: decimal where
  "MAX_OBSERVED_SECONDS = 3600"

definition ASSUMPTIONS :: "string list" where
  "ASSUMPTIONS =
     [''Steady flow between sequential operations'',
      ''Operators on an operation are comparably skilled'',
      ''No unmodelled machine or material constraint'',
      ''Balance index is this model's index, not a universal KPI'']"

record new_observation_input =
  nb_line_id :: uuid
  nb_style_id :: uuid
  nb_operation_id :: uuid
  nb_operator_alias_code :: string
  nb_observed_seconds :: decimal
  nb_observed_at :: datetime

record operation_analysis =
  oy_operation_id :: uuid
  oy_code :: string
  oy_name :: string
  oy_sam_minutes :: decimal
  oy_sample_count :: int
  oy_representative_seconds :: "decimal option"
  oy_parallel_operators :: int
  oy_effective_seconds :: "decimal option"
  oy_insufficient_samples :: bool

record line_style_analysis =
  ly_line_id :: uuid
  ly_style_id :: uuid
  ly_operations :: "operation_analysis list"
  ly_balance :: "line_balance_result option"
  ly_observed_units_per_hour :: "decimal option"
  ly_sam_units_per_hour :: "decimal option"
  ly_assumptions :: "string list"
  ly_limitations :: "string list"
  ly_data_versions :: "(jtext \<times> json) list"

section \<open>Observations\<close>

definition insert_cycle :: "cycle_observation \<Rightarrow> db \<Rightarrow> exn + (cycle_observation \<times> db)" where
  "insert_cycle r s =
     (let (i, s) = draw s
      in bind_err (to_column 10 2 (cy_observed_seconds r)) (\<lambda>v.
         let r = r\<lparr>cy_id := i, cy_observed_seconds := v\<rparr>
         in bind_err (ensure (0 < v) (IntegrityError ''observed_seconds_positive'')) (\<lambda>_.
            bind_err (insert_row cy_id r (t_cycles s)) (\<lambda>rs.
            Inr (r, s\<lparr>t_cycles := rs\<rparr>)))))"

text \<open>The row of a table the service looks up by its key, when it passes a check.\<close>

definition known :: "exn \<Rightarrow> ('r \<Rightarrow> bool) \<Rightarrow> 'r option \<Rightarrow> exn + 'r" where
  "known e ok r =
     (case r of None \<Rightarrow> Inl e | Some x \<Rightarrow> if ok x then Inr x else Inl e)"

definition record_observation ::
  "principal \<Rightarrow> uuid \<Rightarrow> new_observation_input \<Rightarrow> db \<Rightarrow> exn + (cycle_observation \<times> db)" where
  "record_observation p factory_id data s =
     bind_err (load_factory factory_id p ''ie:write'' s) (\<lambda>factory.
     bind_err (ensure (0 < nb_observed_seconds data \<and> nb_observed_seconds data \<le> MAX_OBSERVED_SECONDS)
       (invalid_field ''observed_seconds'' ''Must be greater than zero and at most 3600 seconds.'')) (\<lambda>_.
     bind_err (ensure (nb_observed_at data \<le> utcnow s)
       (invalid_field ''observed_at'' ''Cannot be in the future.'')) (\<lambda>_.
     bind_err (known (invalid_field ''line_id'' ''Unknown line for this factory.'')
       (\<lambda>l. li_factory_id l = fa_id factory) (row li_id (nb_line_id data) (t_lines s))) (\<lambda>line.
     bind_err (known (invalid_field ''style_id'' ''Unknown style.'')
       (\<lambda>y. st_organization_id y = fa_organization_id factory)
       (row st_id (nb_style_id data) (t_styles s))) (\<lambda>style.
     bind_err (known (invalid_field ''operation_id'' ''Unknown operation for this style.'')
       (\<lambda>o'. so_style_id o' = st_id style)
       (row so_id (nb_operation_id data) (t_style_operations s))) (\<lambda>operation.
     bind_err (known (invalid_field ''operator_alias_code'' ''Unknown or inactive operator alias.'') oa_is_active
       (find (\<lambda>a. oa_factory_id a = fa_id factory \<and> oa_alias_code a = nb_operator_alias_code data)
         (t_operator_aliases s))) (\<lambda>alias.
     bind_err (insert_cycle
       \<lparr>cy_id = 0, cy_organization_id = fa_organization_id factory, cy_factory_id = fa_id factory,
        cy_line_id = li_id line, cy_style_id = st_id style, cy_operation_id = so_id operation,
        cy_operator_alias_id = oa_id alias, cy_observed_seconds = nb_observed_seconds data,
        cy_observed_at = nb_observed_at data, cy_recorded_by = Some (p_user_id p), cy_is_outlier = False,
        cy_outlier_approved_by = None\<rparr> s) (\<lambda>(observation, s).
     Inr (observation, record_audit (fa_organization_id factory) (Some (fa_id factory)) USER
       (Id (p_user_id p)) ''ie.observation.record'' ''cycle_observation'' (Id (cy_id observation)) SUCCESS
       None None None None
       (Some (JObj [(Lit ''line_id'', JText (Id (li_id line))), (Lit ''style_id'', JText (Id (st_id style))),
          (Lit ''operation_id'', JText (Id (so_id operation))),
          (Lit ''operator_alias_id'', JText (Id (oa_id alias))),
          (Lit ''observed_seconds'', JText (Dec (nb_observed_seconds data)))])) s)))))))))"

definition mark_outlier ::
  "principal \<Rightarrow> uuid \<Rightarrow> string option \<Rightarrow> db \<Rightarrow> exn + (cycle_observation \<times> db)" where
  "mark_outlier p observation_id reason s =
     bind_err (load_scoped cy_id (Some \<circ> cy_organization_id) (Some \<circ> cy_factory_id) (t_cycles s)
       observation_id p ''ie:write'') (\<lambda>observation.
     let observation = observation\<lparr>cy_is_outlier := True, cy_outlier_approved_by := Some (p_user_id p)\<rparr>;
         s = s\<lparr>t_cycles := upd cy_id observation (t_cycles s)\<rparr>
     in Inr (observation, record_audit (cy_organization_id observation) (Some (cy_factory_id observation))
          USER (Id (p_user_id p)) ''ie.observation.mark_outlier'' ''cycle_observation''
          (Id (cy_id observation)) SUCCESS reason None None None
          (Some (JObj [(Lit ''is_outlier'', JBool True),
             (Lit ''outlier_approved_by'', JText (Id (p_user_id p)))])) s))"

definition list_operator_aliases :: "uuid \<Rightarrow> nat \<Rightarrow> nat \<Rightarrow> db \<Rightarrow> operator_alias list \<times> nat" where
  "list_operator_aliases factory_id limit offset s =
     (let base = filter (\<lambda>a. oa_factory_id a = factory_id) (t_operator_aliases s)
      in (take limit (drop offset (sort_key oa_alias_code base)), length base))"

section \<open>The analysis of a style on a line\<close>

text \<open>\<open>utcnow().date()\<close>: the day number of 1970-01-01 is 719163.\<close>

definition utc_date :: "datetime \<Rightarrow> date" where
  "utc_date t = 719163 + t div MICROSECONDS_PER_DAY"

definition average_planned_efficiency :: "postgres \<Rightarrow> line \<Rightarrow> db \<Rightarrow> decimal option" where
  "average_planned_efficiency pg line s =
     (let today = (case row fa_id (li_factory_id line) (t_factories s) of
                     Some factory \<Rightarrow> today_in s (fa_timezone factory)
                   | None \<Rightarrow> utc_date (utcnow s));
          last_day = today + (CAPACITY_WINDOW_DAYS - 1);
          rows = filter (\<lambda>r. sl_line_id r = li_id line \<and> today \<le> sl_slot_date r \<and> sl_slot_date r \<le> last_day)
            (t_slots s)
      in if rows = [] then None else Some (pg_avg pg (map sl_planned_efficiency rows)))"

definition measured_units_per_hour :: "line \<Rightarrow> style \<Rightarrow> int \<Rightarrow> db \<Rightarrow> decimal option" where
  "measured_units_per_hour line style window_days s =
     (let window_start = utc_date (utcnow s) - window_days;
          rows = filter (\<lambda>m. lm_line_id m = li_id line \<and> lm_style_id m = st_id style \<and>
              window_start \<le> lm_measured_on m) (t_measurements s)
      in case observed_units_per_hour (sum_list (map lm_units_output rows)) (sum_list (map lm_hours rows)) of
           Inr v \<Rightarrow> Some v
         | Inl _ \<Rightarrow> None)"

text \<open>The cycles an analysis counts.\<close>

definition counted_cycles :: "line \<Rightarrow> style \<Rightarrow> int \<Rightarrow> db \<Rightarrow> cycle_observation list" where
  "counted_cycles line style window_days s =
     filter (\<lambda>c. cy_line_id c = li_id line \<and> cy_style_id c = st_id style \<and> \<not> cy_is_outlier c \<and>
        utcnow s - window_days * MICROSECONDS_PER_DAY \<le> cy_observed_at c) (t_cycles s)"

text \<open>One pass of the loop over the operations.\<close>

definition analyse_operation ::
  "cycle_observation list \<Rightarrow> (uuid \<times> int) list \<Rightarrow> style_operation \<Rightarrow> exn + operation_analysis" where
  "analyse_operation cycles staffing operation =
     (let samples = map cy_observed_seconds (filter (\<lambda>c. cy_operation_id c = so_id operation) cycles);
          parallel_operators = (case map_of (rev staffing) (so_id operation) of Some n \<Rightarrow> n | None \<Rightarrow> 1);
          sample_count = int (length samples);
          entry = (\<lambda>r e. \<lparr>oy_operation_id = so_id operation, oy_code = so_code operation,
            oy_name = so_name operation, oy_sam_minutes = so_sam_minutes operation,
            oy_sample_count = sample_count, oy_representative_seconds = r,
            oy_parallel_operators = parallel_operators, oy_effective_seconds = e,
            oy_insufficient_samples = (r = None)\<rparr>)
      in if MIN_SAMPLES \<le> sample_count
         then bind_err (representative_cycle_seconds samples MIN_SAMPLES) (\<lambda>representative.
              bind_err (effective_cycle_seconds representative parallel_operators) (\<lambda>effective.
              Inr (entry (Some representative) (Some effective))))
         else Inr (entry None None))"

text \<open>The balance of the line, when every operation has a representative cycle.\<close>

definition analysis_balance :: "operation_analysis list \<Rightarrow> exn + line_balance_result option" where
  "analysis_balance analyses =
     (let effective_cycles = List.map_filter oy_effective_seconds analyses
      in if analyses \<noteq> [] \<and> list_all (\<lambda>a. oy_representative_seconds a \<noteq> None) analyses \<and>
           effective_cycles \<noteq> []
         then bind_err (line_balance effective_cycles) (\<lambda>b. Inr (Some b)) else Inr None)"

definition few_samples :: "operation_analysis \<Rightarrow> string" where
  "few_samples a =
     ''Operation '' @ oy_code a @ '': fewer than '' @ int_text MIN_SAMPLES @
     '' recent cycle observations (has '' @ int_text (oy_sample_count a) @ '').''"

definition NO_CAPACITY_LIMITATION :: string where
  "NO_CAPACITY_LIMITATION =
     ''No planned capacity slots for this line in the next '' @ int_text CAPACITY_WINDOW_DAYS @
     '' days: SAM capacity assumes 100% planned efficiency.''"

definition NO_SAM_LIMITATION :: string where
  "NO_SAM_LIMITATION = ''SAM capacity could not be computed: the style has no operations.''"

definition line_style_analysis_of ::
  "postgres \<Rightarrow> uuid \<Rightarrow> uuid \<Rightarrow> uuid \<Rightarrow> int \<Rightarrow> db \<Rightarrow> exn + line_style_analysis" where
  "line_style_analysis_of pg factory_id line_id style_id window_days s =
     bind_err (known not_found (\<lambda>l. li_factory_id l = factory_id) (row li_id line_id (t_lines s))) (\<lambda>line.
     bind_err (known not_found (\<lambda>y. st_organization_id y = li_organization_id line)
       (row st_id style_id (t_styles s))) (\<lambda>style.
     let operations = sort_key so_sequence
           (filter (\<lambda>o'. so_style_id o' = st_id style) (t_style_operations s));
         staffing = map (\<lambda>r. (os_operation_id r, os_parallel_operators r))
           (filter (\<lambda>r. os_line_id r = li_id line \<and> os_style_id r = st_id style) (t_staffing s));
         cycles = counted_cycles line style window_days s
     in bind_err (map_err (analyse_operation cycles staffing) operations) (\<lambda>analyses.
        bind_err (analysis_balance analyses) (\<lambda>balance.
           let observed_throughput = measured_units_per_hour line style window_days s;
               sam_minutes_total = dsum (map so_sam_minutes operations);
               average = average_planned_efficiency pg line s;
               sam = sam_capacity_units_per_hour (li_operator_count line) sam_minutes_total
                 (case average of Some e \<Rightarrow> e | None \<Rightarrow> 1)
           in Inr \<lparr>ly_line_id = li_id line, ly_style_id = st_id style, ly_operations = analyses,
                ly_balance = balance, ly_observed_units_per_hour = observed_throughput,
                ly_sam_units_per_hour = (case sam of Inr v \<Rightarrow> Some v | Inl _ \<Rightarrow> None),
                ly_assumptions = ASSUMPTIONS,
                ly_limitations =
                  map few_samples (filter oy_insufficient_samples analyses) @
                  (if average = None then [NO_CAPACITY_LIMITATION] else []) @
                  (case sam of Inr _ \<Rightarrow> [] | Inl _ \<Rightarrow> [NO_SAM_LIMITATION]),
                ly_data_versions =
                  [(Lit ''cycle_observations_considered'', JInt (int (length cycles))),
                   (Lit ''operation_staffing_rows'', JInt (int (length (remdups (map fst staffing))))),
                   (Lit ''line_operator_count'', JInt (li_operator_count line)),
                   (Lit ''window_days'', JInt window_days)]\<rparr>))))"

section \<open>What an analysis depends on\<close>

lemma known_Inr [simp]: "known e ok r = Inr x \<longleftrightarrow> r = Some x \<and> ok x"
  by (auto simp: known_def split: option.splits)

lemma analysis_cong:
  assumes "\<And>line style. counted_cycles line style w s' = counted_cycles line style w s"
    and "t_lines s' = t_lines s" "t_styles s' = t_styles s" "t_style_operations s' = t_style_operations s"
      "t_staffing s' = t_staffing s" "t_measurements s' = t_measurements s" "t_factories s' = t_factories s"
      "t_slots s' = t_slots s" "utcnow s' = utcnow s" "today_in s' = today_in s"
  shows "line_style_analysis_of pg f l y w s' = line_style_analysis_of pg f l y w s"
  unfolding line_style_analysis_of_def average_planned_efficiency_def measured_units_per_hour_def assms ..

lemma counted_upd_outlier:
  assumes "cy_is_outlier r"
  shows "counted_cycles line style w (s\<lparr>t_cycles := upd cy_id r (t_cycles s)\<rparr>) =
    counted_cycles line style w (s\<lparr>t_cycles := filter (\<lambda>c. cy_id c \<noteq> cy_id r) (t_cycles s)\<rparr>)"
proof -
  have "filter P (upd cy_id r cs) = filter P (filter (\<lambda>c. cy_id c \<noteq> cy_id r) cs)" if "\<not> P r" for P cs
    using that by (induction cs) auto
  then show ?thesis using assms unfolding counted_cycles_def by simp
qed

text \<open>Every later analysis of any line and style is the one without the marked observation.\<close>

lemma mark_outlier_drops:
  assumes "mark_outlier p i reason s = Inr (r, s')"
  shows "line_style_analysis_of pg f l y w s' =
    line_style_analysis_of pg f l y w (s\<lparr>t_cycles := filter (\<lambda>c. cy_id c \<noteq> i) (t_cycles s)\<rparr>)"
proof -
  from assms obtain o' where o': "row cy_id i (t_cycles s) = Some o'"
    and r: "r = o'\<lparr>cy_is_outlier := True, cy_outlier_approved_by := Some (p_user_id p)\<rparr>"
    and s': "t_cycles s' = upd cy_id r (t_cycles s)"
      "t_lines s' = t_lines s" "t_styles s' = t_styles s" "t_style_operations s' = t_style_operations s"
      "t_staffing s' = t_staffing s" "t_measurements s' = t_measurements s" "t_factories s' = t_factories s"
      "t_slots s' = t_slots s" "utcnow s' = utcnow s" "today_in s' = today_in s"
    by (auto simp: mark_outlier_def run_simps load_scoped_def record_audit_def split: sum.splits option.splits if_splits)
  have i: "cy_id r = i" using row_SomeD [OF o'] by (simp add: r)
  have "counted_cycles line style w s' = counted_cycles line style w (s\<lparr>t_cycles := filter (\<lambda>c. cy_id c \<noteq> i) (t_cycles s)\<rparr>)"
    for line style
    using counted_upd_outlier [of r line style w s] s' by (simp add: counted_cycles_def r [THEN arg_cong, of cy_is_outlier] i)
  then show ?thesis by (rule analysis_cong) (simp_all add: s')
qed

section \<open>What a bottleneck means\<close>

lemma analyse_operationD:
  assumes "analyse_operation cycles staffing operation = Inr a"
  shows "oy_operation_id a = so_id operation"
    and "oy_sample_count a = int (length (filter (\<lambda>c. cy_operation_id c = so_id operation) cycles))"
    and "oy_representative_seconds a \<noteq> None \<longleftrightarrow> MIN_SAMPLES \<le> oy_sample_count a"
    and "oy_representative_seconds a = None \<longleftrightarrow> oy_effective_seconds a = None"
  using assms by (auto simp: analyse_operation_def run_simps split: if_splits)

lemma map_err_Inr: "map_err f xs = Inr ys \<longleftrightarrow> list_all2 (\<lambda>x y. f x = Inr y) xs ys"
  by (induction xs arbitrary: ys) (auto simp: bind_err_Inr list_all2_Cons1)

lemma map_filter_all_Some: "list_all (\<lambda>x. f x \<noteq> None) xs \<Longrightarrow> map Some (List.map_filter f xs) = map f xs"
  by (induction xs) (auto simp: List.map_filter_simps)

lemma analysis_balanceD:
  assumes "line_style_analysis_of pg f l y w s = Inr a" and "ly_balance a = Some b"
  obtains line style cycles staffing where "li_id line = l" and "st_id style = y"
    and "cycles = counted_cycles line style w s"
    and "\<And>x. x \<in> set (ly_operations a) \<Longrightarrow> \<exists>operation. analyse_operation cycles staffing operation = Inr x"
    and "list_all (\<lambda>x. oy_representative_seconds x \<noteq> None) (ly_operations a)"
    and "line_balance (List.map_filter oy_effective_seconds (ly_operations a)) = Inr b"
proof -
  from assms(1) obtain line style where line: "row li_id l (t_lines s) = Some line"
    and style: "row st_id y (t_styles s) = Some style"
    by (auto simp: line_style_analysis_of_def bind_err_Inr)
  let ?ops = "sort_key so_sequence (filter (\<lambda>o'. so_style_id o' = st_id style) (t_style_operations s))"
  let ?staffing = "map (\<lambda>r. (os_operation_id r, os_parallel_operators r))
      (filter (\<lambda>r. os_line_id r = li_id line \<and> os_style_id r = st_id style) (t_staffing s))"
  let ?cycles = "counted_cycles line style w s"
  have ops: "map_err (analyse_operation ?cycles ?staffing) ?ops = Inr (ly_operations a)"
    and bal: "analysis_balance (ly_operations a) = Inr (Some b)"
    using assms line style by (auto simp: line_style_analysis_of_def Let_def bind_err_Inr)
  show ?thesis
  proof (rule that [of line style ?cycles ?staffing])
    show "li_id line = l" "st_id style = y" using row_SomeD line style by fastforce+
    show "\<exists>operation. analyse_operation ?cycles ?staffing operation = Inr x" if "x \<in> set (ly_operations a)" for x
      using ops that by (auto simp: map_err_Inr list_all2_conv_all_nth in_set_conv_nth)
  qed (use bal in \<open>auto simp: analysis_balance_def Let_def bind_err_Inr split: if_splits\<close>)
qed

text \<open>
  C39. An analysis names a bottleneck only when every operation of the style has at least three
  counted cycles (of this line and style, recent, no outlier), and the bottleneck is an
  operation of the style whose effective cycle no other operation exceeds.
\<close>

theorem analysis_bottleneck:
  assumes "line_style_analysis_of pg f l y w s = Inr a" and "ly_balance a = Some b"
  shows "(\<forall>x \<in> set (ly_operations a).
       MIN_SAMPLES \<le> int (length (filter (\<lambda>c. cy_operation_id c = oy_operation_id x \<and> cy_line_id c = l \<and>
         cy_style_id c = y \<and> \<not> cy_is_outlier c \<and>
         utcnow s - w * MICROSECONDS_PER_DAY \<le> cy_observed_at c) (t_cycles s))) \<and>
       (\<exists>e. oy_effective_seconds x = Some e \<and> e \<le> lb_bottleneck_effective_seconds b)) \<and>
     lb_bottleneck_index b < length (ly_operations a) \<and>
     oy_effective_seconds (ly_operations a ! lb_bottleneck_index b) = Some (lb_bottleneck_effective_seconds b)"
proof -
  obtain line style cycles staffing where ids: "li_id line = l" "st_id style = y"
    and cycles: "cycles = counted_cycles line style w s"
    and ops: "\<And>x. x \<in> set (ly_operations a) \<Longrightarrow> \<exists>operation. analyse_operation cycles staffing operation = Inr x"
    and all: "list_all (\<lambda>x. oy_representative_seconds x \<noteq> None) (ly_operations a)"
    and bal: "line_balance (List.map_filter oy_effective_seconds (ly_operations a)) = Inr b"
    by (rule analysis_balanceD [OF assms]) (rule that)
  have "list_all (\<lambda>x. oy_effective_seconds x \<noteq> None) (ly_operations a)"
    using all ops analyse_operationD(4) by (fastforce simp: list_all_iff)
  from map_filter_all_Some [OF this]
  have effs: "map Some (List.map_filter oy_effective_seconds (ly_operations a)) = map oy_effective_seconds (ly_operations a)" .
  let ?es = "List.map_filter oy_effective_seconds (ly_operations a)"
  have len: "length ?es = length (ly_operations a)" using effs by (metis length_map)
  have nth: "oy_effective_seconds (ly_operations a ! j) = Some (?es ! j)" if "j < length ?es" for j
    using effs that len by (metis nth_map)
  note bot = line_balance_bottleneck [OF bal]
  have "MIN_SAMPLES \<le> int (length (filter (\<lambda>c. cy_operation_id c = oy_operation_id x \<and> cy_line_id c = l \<and>
         cy_style_id c = y \<and> \<not> cy_is_outlier c \<and>
         utcnow s - w * MICROSECONDS_PER_DAY \<le> cy_observed_at c) (t_cycles s)))" if x: "x \<in> set (ly_operations a)" for x
  proof -
    from ops [OF x] obtain operation where o': "analyse_operation cycles staffing operation = Inr x" by blast
    have "MIN_SAMPLES \<le> oy_sample_count x" using x all analyse_operationD(3) [OF o'] by (auto simp: list_all_iff)
    then show ?thesis using analyse_operationD(1,2) [OF o']
      by (simp add: cycles counted_cycles_def ids conj_ac)
  qed
  moreover have "\<exists>e. oy_effective_seconds x = Some e \<and> e \<le> lb_bottleneck_effective_seconds b"
    if "x \<in> set (ly_operations a)" for x
    using that nth bot len by (metis in_set_conv_nth)
  ultimately show ?thesis using bot nth len by simp
qed

text \<open>One operation, three cycles.\<close>

definition demo_operation :: style_operation where
  "demo_operation =
     \<lparr>so_id = 31, so_style_id = 1, so_sequence = 1, so_code = ''OP'', so_name = ''Sew'', so_sam_minutes = 1,
      so_machine_type = ''M'', so_skill_code = ''SK''\<rparr>"

definition demo_line :: line where
  "demo_line =
     \<lparr>li_id = 6, li_organization_id = 1, li_factory_id = 7, li_code = ''L1'', li_name = ''L1'',
      li_operator_count = 10, li_is_active = True\<rparr>"

definition demo_cycle :: "uuid \<Rightarrow> decimal \<Rightarrow> cycle_observation" where
  "demo_cycle i seconds =
     \<lparr>cy_id = i, cy_organization_id = 1, cy_factory_id = 7, cy_line_id = 6, cy_style_id = 1,
      cy_operation_id = 31, cy_operator_alias_id = 32, cy_observed_seconds = seconds, cy_observed_at = 0,
      cy_recorded_by = None, cy_is_outlier = False, cy_outlier_approved_by = None\<rparr>"

definition demo_style_row :: style where
  "demo_style_row =
     \<lparr>st_id = 1, st_organization_id = 1, st_code = ''S'', st_name = ''S'', st_product_type = ''T''\<rparr>"

definition ie_demo :: db where
  "ie_demo = empty_db
     \<lparr>t_lines := [demo_line], t_styles := [demo_style_row], t_style_operations := [demo_operation],
      t_cycles := [demo_cycle 41 30, demo_cycle 42 40, demo_cycle 43 36]\<rparr>"

definition demo_postgres :: postgres where
  "demo_postgres = \<lparr>pg_avg = hd, pg_local_date = (\<lambda>_. utc_date), pg_local_midnight =
     (\<lambda>_ d. (d - 719163) * MICROSECONDS_PER_DAY)\<rparr>"

definition demo_analysis :: "exn + line_style_analysis" where
  "demo_analysis = line_style_analysis_of demo_postgres 7 6 1 DEFAULT_WINDOW_DAYS ie_demo"

lemma demo_analysis_value:
  "case demo_analysis of
     Inr a \<Rightarrow> (case ly_balance a of Some b \<Rightarrow> lb_bottleneck_effective_seconds b = 36 | None \<Rightarrow> False)
   | Inl _ \<Rightarrow> False"
  by code_simp

theorem analysis_bottleneck_witness:
  "\<exists>a b. line_style_analysis_of demo_postgres 7 6 1 DEFAULT_WINDOW_DAYS ie_demo = Inr a \<and>
     ly_balance a = Some b \<and> lb_bottleneck_effective_seconds b = 36 \<and> lb_bottleneck_index b < length (ly_operations a)"
proof -
  obtain a b where a: "line_style_analysis_of demo_postgres 7 6 1 DEFAULT_WINDOW_DAYS ie_demo = Inr a"
    and b: "ly_balance a = Some b" "lb_bottleneck_effective_seconds b = 36"
    using demo_analysis_value by (auto simp: demo_analysis_def split: sum.splits option.splits)
  from analysis_bottleneck [OF a b(1)] have "lb_bottleneck_index b < length (ly_operations a)" by blast
  with a b show ?thesis by blast
qed

end
