(* ===== verification/LS_InventoryQueries.thy ===== *)
theory LS_InventoryQueries
  imports LS_IEService LS_Readiness
begin

text \<open>
  The inventory read models (\<open>app/domain/inventory/queries.py\<close>): the ledger and reservation
  lists, the issues of a factory by day and the material overview with consumption, coverage
  and reorder point. They read the same rows the inventory service keeps and change nothing.
\<close>

definition STATUS_SOURCE :: string where
  "STATUS_SOURCE = ''Calculated from records''"

definition CONSUMPTION_WINDOW_DAYS :: int where
  "CONSUMPTION_WINDOW_DAYS = 14"

record material_status_row =
  my_material_id :: uuid
  my_material_code :: string
  my_material_name :: string
  my_unit :: string
  my_on_hand :: decimal
  my_reserved :: decimal
  my_available_now :: decimal
  my_open_receipt_quantity :: decimal
  my_next_receipt_date :: "date option"
  my_average_daily_consumption :: decimal
  my_coverage_days :: "decimal option"
  my_reorder_point :: decimal
  my_below_reorder_point :: bool
  my_balance_version :: "int option"
  my_status_source :: string

record ledger_row =
  lg_movement :: stock_movement
  lg_lot_code :: "string option"

definition scoped_material :: "principal \<Rightarrow> uuid \<Rightarrow> uuid \<Rightarrow> db \<Rightarrow> exn + material" where
  "scoped_material p factory_id material_id s =
     bind_err (load_factory factory_id p ''inventory:read'' s) (\<lambda>_.
     known not_found (\<lambda>m. ma_organization_id m = p_organization_id p) (row ma_id material_id (t_materials s)))"

definition list_ledger ::
  "principal \<Rightarrow> uuid \<Rightarrow> uuid \<Rightarrow> nat \<Rightarrow> nat \<Rightarrow> db \<Rightarrow> exn + (ledger_row list \<times> nat)" where
  "list_ledger p factory_id material_id limit offset s =
     bind_err (scoped_material p factory_id material_id s) (\<lambda>material.
     let base = filter (\<lambda>m. mv_factory_id m = factory_id \<and> mv_material_id m = ma_id material) (t_movements s);
         page = take limit (drop offset (sort_key (\<lambda>m. (- mv_created_at m, - int (mv_id m))) base))
     in Inr (map (\<lambda>m. \<lparr>lg_movement = m,
          lg_lot_code = (case mv_lot_id m of None \<Rightarrow> None
            | Some l \<Rightarrow> map_option lo_lot_code (row lo_id l (t_lots s)))\<rparr>) page, length base))"

definition list_reservations ::
  "principal \<Rightarrow> uuid \<Rightarrow> uuid option \<Rightarrow> nat \<Rightarrow> nat \<Rightarrow> db \<Rightarrow> exn + (reservation list \<times> nat)" where
  "list_reservations p factory_id order_id limit offset s =
     bind_err (load_factory factory_id p ''inventory:read'' s) (\<lambda>_.
     let base = filter (\<lambda>r. rv_factory_id r = factory_id \<and>
           (case order_id of None \<Rightarrow> True | Some i \<Rightarrow> rv_order_id r = i)) (t_reservations s)
     in Inr (take limit (drop offset (sort_key (\<lambda>r. (- rv_created_at r, rv_id r)) base)), length base))"

section \<open>Issues by day\<close>

definition issue_rows :: "postgres \<Rightarrow> factory \<Rightarrow> date \<Rightarrow> uuid list option \<Rightarrow> db \<Rightarrow> stock_movement list" where
  "issue_rows pg factory as_of material_ids s =
     filter (\<lambda>m. mv_factory_id m = fa_id factory \<and> mv_movement_type m = ISSUE \<and>
         pg_local_midnight pg (fa_timezone factory) (as_of - (CONSUMPTION_WINDOW_DAYS + 1)) \<le> mv_created_at m \<and>
         (case material_ids of None \<Rightarrow> True | Some ids \<Rightarrow> mv_material_id m \<in> set ids)) (t_movements s)"

definition daily_issues ::
  "postgres \<Rightarrow> factory \<Rightarrow> date \<Rightarrow> uuid list option \<Rightarrow> db \<Rightarrow> (uuid \<times> (date \<times> decimal) list) list" where
  "daily_issues pg factory as_of material_ids s =
     (let local_date = pg_local_date pg (fa_timezone factory) \<circ> mv_created_at;
          rows = issue_rows pg factory as_of material_ids s;
          groups = sort (remdups (map (\<lambda>m. (mv_material_id m, local_date m)) rows))
      in map (\<lambda>i. (i, map (\<lambda>(_, d). (d, tsum (\<lambda>m. mv_material_id m = i \<and> local_date m = d) mv_quantity rows))
             (filter (\<lambda>g. fst g = i) groups)))
           (remdups (map fst groups)))"

definition issues_of :: "(uuid \<times> (date \<times> decimal) list) list \<Rightarrow> uuid \<Rightarrow> (date \<times> decimal) list" where
  "issues_of issues material_id = (case map_of issues material_id of Some xs \<Rightarrow> xs | None \<Rightarrow> [])"

section \<open>The overview\<close>

text \<open>One row of the overview: the loop body.\<close>

definition status_row ::
  "factory \<Rightarrow> date \<Rightarrow> (uuid \<times> (date \<times> decimal) list) list \<Rightarrow> material \<Rightarrow> db \<Rightarrow> exn + material_status_row" where
  "status_row factory as_of issues material s =
     (let balance = balance_of (fa_id factory) (ma_id material) s;
          on_hand = (case balance of Some b \<Rightarrow> ba_on_hand_accepted b | None \<Rightarrow> 0);
          reserved = (case balance of Some b \<Rightarrow> ba_reserved b | None \<Rightarrow> 0);
          available = available_now on_hand reserved;
          receipts = open_receipts (fa_id factory) (ma_id material) s
      in bind_err (average_daily_consumption (issues_of issues (ma_id material)) CONSUMPTION_WINDOW_DAYS as_of)
           (\<lambda>daily.
         let coverage = coverage_days available daily;
             rop = reorder_point daily (ma_lead_time_days material) (ma_safety_stock material)
         in bind_err (quantize_display daily 4) (\<lambda>shown_daily.
            bind_err (case coverage of None \<Rightarrow> Inr None
                | Some c \<Rightarrow> bind_err (quantize_display c 2) (\<lambda>v. Inr (Some v))) (\<lambda>shown_coverage.
            bind_err (quantize_display rop 4) (\<lambda>shown_rop.
            Inr \<lparr>my_material_id = ma_id material, my_material_code = ma_code material,
                 my_material_name = ma_name material, my_unit = ma_unit material, my_on_hand = on_hand,
                 my_reserved = reserved, my_available_now = available,
                 my_open_receipt_quantity = sum_list (map snd receipts),
                 my_next_receipt_date =
                   (if receipts = [] then None else Some (foldr min (map fst receipts) (fst (hd receipts)))),
                 my_average_daily_consumption = shown_daily, my_coverage_days = shown_coverage,
                 my_reorder_point = shown_rop, my_below_reorder_point = (available < rop),
                 my_balance_version = map_option ba_version balance,
                 my_status_source = STATUS_SOURCE\<rparr>)))))"

definition material_overview :: "postgres \<Rightarrow> uuid \<Rightarrow> date \<Rightarrow> db \<Rightarrow> exn + material_status_row list" where
  "material_overview pg factory_id as_of s =
     bind_err (some_or not_found (row fa_id factory_id (t_factories s))) (\<lambda>factory.
     let materials = sort_key ma_code
           (filter (\<lambda>m. ma_organization_id m = fa_organization_id factory) (t_materials s));
         issues = daily_issues pg factory as_of None s
     in map_err (\<lambda>m. status_row factory as_of issues m s) materials)"

section \<open>Grouping keeps the totals\<close>

lemma tsum_partition:
  assumes "distinct ds" and "\<And>x. x \<in> set xs \<Longrightarrow> P x \<Longrightarrow> f x \<in> set ds"
  shows "sum_list (map (\<lambda>d. tsum (\<lambda>x. P x \<and> f x = d) q xs) ds) = tsum P q xs"
  using assms(2)
proof (induction xs)
  case (Cons x xs)
  have "sum_list (map (\<lambda>d. (if P x \<and> f x = d then q x else 0) + tsum (\<lambda>x. P x \<and> f x = d) q xs) ds) =
      sum_list (map (\<lambda>d. if P x \<and> f x = d then q x else 0) ds) + tsum P q xs"
    using Cons by (simp add: sum_list_addf)
  moreover have "sum_list (map (\<lambda>d. if P x \<and> f x = d then q x else 0) ds) = (if P x then q x else 0)"
  proof (cases "P x")
    case True
    then have "f x \<in> set ds" using Cons.prems by simp
    then show ?thesis using True assms(1) by (simp add: sum_list_distinct_conv_sum_set)
  qed simp
  ultimately show ?case by (simp add: if_distrib [of "\<lambda>z. z + _"] cong: if_cong)
qed simp

lemma issues_of_keyed: "issues_of (map (\<lambda>i. (i, f i)) ks) i = (if i \<in> set ks then f i else [])"
  by (induction ks) (auto simp: issues_of_def)

lemma issues_of_daily:
  "issues_of (daily_issues pg factory as_of material_ids s) i =
     (let day = pg_local_date pg (fa_timezone factory) \<circ> mv_created_at;
          rows = issue_rows pg factory as_of material_ids s
      in map (\<lambda>(_, d). (d, tsum (\<lambda>m. mv_material_id m = i \<and> day m = d) mv_quantity rows))
           (filter (\<lambda>g. fst g = i) (sort (remdups (map (\<lambda>m. (mv_material_id m, day m)) rows)))))"
proof -
  have "map h (filter (\<lambda>g. fst g = i) gs) = []" if "i \<notin> set (map fst gs)" for h :: "uuid \<times> date \<Rightarrow> 'b" and gs
    using that by (auto simp: filter_empty_conv)
  note nil = this
  let ?gs = "sort (remdups (map (\<lambda>m. (mv_material_id m, (pg_local_date pg (fa_timezone factory) \<circ> mv_created_at) m))
      (issue_rows pg factory as_of material_ids s)))"
  show ?thesis
  proof (cases "i \<in> set (map fst ?gs)")
    case True
    then show ?thesis unfolding daily_issues_def Let_def issues_of_keyed set_remdups by (simp only: if_True)
  next
    case False
    show ?thesis unfolding daily_issues_def Let_def issues_of_keyed set_remdups
      by (simp only: False if_False nil [OF False])
  qed
qed

text \<open>
  The days of a material carry its issues: their totals add up to the issues of the window, and
  the days ascend without repetition.
\<close>

lemma daily_issues_total:
  shows "sum_list (map snd (issues_of (daily_issues pg factory as_of material_ids s) i)) =
      tsum (\<lambda>m. mv_material_id m = i) mv_quantity (issue_rows pg factory as_of material_ids s)"
    and "sorted_wrt (<) (map fst (issues_of (daily_issues pg factory as_of material_ids s) i))"
proof -
  let ?day = "pg_local_date pg (fa_timezone factory) \<circ> mv_created_at"
  let ?rows = "issue_rows pg factory as_of material_ids s"
  let ?groups = "sort (remdups (map (\<lambda>m. (mv_material_id m, ?day m)) ?rows))"
  let ?mine = "filter (\<lambda>g. fst g = i) ?groups"
  have "sorted_wrt (<) ?groups" by (simp add: strict_sorted_iff)
  then have "sorted_wrt (<) ?mine" by (rule sorted_wrt_filter)
  then have days: "sorted_wrt (<) (map snd ?mine)"
    by (auto simp: sorted_wrt_map less_prod_def' elim!: sorted_wrt_mono_rel [rotated])
  then show "sorted_wrt (<) (map fst (issues_of (daily_issues pg factory as_of material_ids s) i))"
    by (simp add: issues_of_daily Let_def comp_def case_prod_beta)
  have "distinct (map snd ?mine)" using days strict_sorted_iff by blast
  moreover have "?day m \<in> set (map snd ?mine)" if "m \<in> set ?rows" "mv_material_id m = i" for m
    using that by force
  ultimately have "sum_list (map (\<lambda>d. tsum (\<lambda>m. mv_material_id m = i \<and> ?day m = d) mv_quantity ?rows) (map snd ?mine)) =
      tsum (\<lambda>m. mv_material_id m = i) mv_quantity ?rows"
    by (rule tsum_partition)
  then show "sum_list (map snd (issues_of (daily_issues pg factory as_of material_ids s) i)) =
      tsum (\<lambda>m. mv_material_id m = i) mv_quantity ?rows"
    by (simp add: issues_of_daily Let_def comp_def case_prod_beta)
qed

end
