(* ===== verification/LS_Snapshot.thy ===== *)
theory LS_Snapshot
  imports LS_InventoryQueries LS_Grounded
begin

text \<open>
  The builder of a run's input snapshot (\<open>app/orchestration/snapshot.py\<close>): one read of the
  order, its bill of materials, the stock positions, the routing, the compatible lines with
  their slots and analyses, and the quality records, together with the versions of the rows a
  recommendation may later be checked against. The lemmas show that a snapshot is well formed
  and that its versions are the ones the rows have when it is built.
\<close>

section \<open>An analysis as a document\<close>

definition operation_analysis_json :: "operation_analysis \<Rightarrow> json" where
  "operation_analysis_json a =
     JObj [(Lit ''operation_id'', JText (Id (oy_operation_id a))), (Lit ''code'', JStr (oy_code a)),
       (Lit ''name'', JStr (oy_name a)), (Lit ''sam_minutes'', JText (Dec (oy_sam_minutes a))),
       (Lit ''sample_count'', JInt (oy_sample_count a)),
       (Lit ''representative_seconds'', json_opt (JText \<circ> Dec) (oy_representative_seconds a)),
       (Lit ''parallel_operators'', JInt (oy_parallel_operators a)),
       (Lit ''effective_seconds'', json_opt (JText \<circ> Dec) (oy_effective_seconds a)),
       (Lit ''insufficient_samples'', JBool (oy_insufficient_samples a))]"

definition line_balance_json :: "line_balance_result \<Rightarrow> json" where
  "line_balance_json b =
     JObj [(Lit ''effective_cycles'', JArr (map (JText \<circ> Dec) (lb_effective_cycles b))),
       (Lit ''bottleneck_index'', JInt (int (lb_bottleneck_index b))),
       (Lit ''bottleneck_effective_seconds'', JText (Dec (lb_bottleneck_effective_seconds b))),
       (Lit ''units_per_hour'', JText (Dec (lb_units_per_hour b))),
       (Lit ''balance_index_percent'', JText (Dec (lb_balance_index_percent b)))]"

definition analysis_json :: "line_style_analysis \<Rightarrow> (jtext \<times> json) list" where
  "analysis_json a =
     [(Lit ''line_id'', JText (Id (ly_line_id a))), (Lit ''style_id'', JText (Id (ly_style_id a))),
      (Lit ''operations'', JArr (map operation_analysis_json (ly_operations a))),
      (Lit ''balance'', json_opt line_balance_json (ly_balance a)),
      (Lit ''observed_units_per_hour'', json_opt (JText \<circ> Dec) (ly_observed_units_per_hour a)),
      (Lit ''sam_units_per_hour'', json_opt (JText \<circ> Dec) (ly_sam_units_per_hour a)),
      (Lit ''assumptions'', JArr (map JStr (ly_assumptions a))),
      (Lit ''limitations'', JArr (map JStr (ly_limitations a))),
      (Lit ''data_versions'', JObj (ly_data_versions a))]"

section \<open>Materials\<close>

definition bom_line_of :: "bom_line \<times> material \<Rightarrow> snapshot_bom_line" where
  "bom_line_of lm =
     (case lm of (l, m) \<Rightarrow>
       \<lparr>xl_bom_line_id = bl_id l, xl_material_id = ma_id m, xl_material_code = ma_code m,
        xl_material_name = ma_name m, xl_material_unit = ma_unit m, xl_bom_unit = bl_unit l,
        xl_quantity_per_unit = bl_quantity_per_unit l, xl_wastage_fraction = bl_wastage_fraction l,
        xl_safety_stock = ma_safety_stock m, xl_lead_time_days = ma_lead_time_days m,
        xl_pack_size = ma_pack_size m\<rparr>)"

definition snapshot_bom_of :: "order \<Rightarrow> db \<Rightarrow> exn + snapshot_bom" where
  "snapshot_bom_of ord s =
     bind_err (some_or (LookupError ''order references a missing BOM version'')
       (row bv_id (or_bom_version_id ord) (t_bom_versions s))) (\<lambda>bom_version.
     let rows = List.map_filter (\<lambda>l. map_option (Pair l) (row ma_id (bl_material_id l) (t_materials s)))
           (filter (\<lambda>l. bl_bom_version_id l = bv_id bom_version) (t_bom_lines s))
     in Inr \<lparr>xb_bom_version_id = bv_id bom_version, xb_version_no = bv_version_no bom_version,
          xb_lines = map bom_line_of (sort_key (\<lambda>(l, m). (ma_code m, bl_id l)) rows)\<rparr>)"

definition snapshot_receipts :: "factory \<Rightarrow> uuid \<Rightarrow> db \<Rightarrow> snapshot_receipt list" where
  "snapshot_receipts factory material_id s =
     map (\<lambda>r. \<lparr>xr_id = er_id r, xr_quantity = er_quantity r, xr_expected_date = er_expected_date r\<rparr>)
       (sort_key (\<lambda>r. (er_expected_date r, er_id r))
         (filter (\<lambda>r. er_factory_id r = fa_id factory \<and> er_material_id r = material_id \<and>
            er_status r = ER_OPEN) (t_expected_receipts s)))"

definition snapshot_material_of ::
  "factory \<Rightarrow> date \<Rightarrow> (uuid \<times> (date \<times> decimal) list) list \<Rightarrow> uuid \<Rightarrow> db \<Rightarrow> snapshot_material" where
  "snapshot_material_of factory as_of issues material_id s =
     (let balance = balance_of (fa_id factory) material_id s
      in \<lparr>xm_balance_id = map_option ba_id balance, xm_balance_version = map_option ba_version balance,
          xm_on_hand_accepted = (case balance of Some b \<Rightarrow> ba_on_hand_accepted b | None \<Rightarrow> 0),
          xm_reserved = (case balance of Some b \<Rightarrow> ba_reserved b | None \<Rightarrow> 0),
          xm_open_receipts = snapshot_receipts factory material_id s,
          xm_issues_14d = map (\<lambda>(d, q). (d, ctx_round \<bar>q\<bar>))
            (filter (\<lambda>(d, _). as_of - d < CONSUMPTION_WINDOW_DAYS \<and> d \<le> as_of)
              (issues_of issues material_id))\<rparr>)"

definition snapshot_materials ::
  "postgres \<Rightarrow> factory \<Rightarrow> uuid list \<Rightarrow> date \<Rightarrow> db \<Rightarrow> (uuid \<times> snapshot_material) list" where
  "snapshot_materials pg factory material_ids as_of s =
     (let issues = daily_issues pg factory as_of (Some material_ids) s
      in map (\<lambda>i. (i, snapshot_material_of factory as_of issues i s)) material_ids)"

section \<open>Lines and slots\<close>

definition snapshot_operations :: "uuid \<Rightarrow> db \<Rightarrow> snapshot_operation list" where
  "snapshot_operations style_id s =
     map (\<lambda>p. \<lparr>xp_operation_id = so_id p, xp_sequence = so_sequence p, xp_code = so_code p,
         xp_name = so_name p, xp_sam_minutes = so_sam_minutes p, xp_skill_code = so_skill_code p\<rparr>)
       (sort_key so_sequence (filter (\<lambda>p. so_style_id p = style_id) (t_style_operations s)))"

definition snapshot_line_of :: "string list \<Rightarrow> db \<Rightarrow> line \<Rightarrow> snapshot_line" where
  "snapshot_line_of required s l =
     (let skills = map lc_skill_code (filter (\<lambda>c. lc_line_id c = li_id l) (t_line_capabilities s));
          missing = sorted_set (filter (\<lambda>k. k \<notin> set skills) required)
      in \<lparr>xn_line_id = li_id l, xn_code = li_code l, xn_name = li_name l,
          xn_operator_count = li_operator_count l, xn_compatible = (required \<noteq> [] \<and> missing = []),
          xn_missing_skills = missing\<rparr>)"

definition snapshot_lines :: "uuid \<Rightarrow> string list \<Rightarrow> db \<Rightarrow> snapshot_line list" where
  "snapshot_lines factory_id required s =
     map (snapshot_line_of required s)
       (sort_key li_code (filter (\<lambda>l. li_factory_id l = factory_id \<and> li_is_active l) (t_lines s)))"

definition snapshot_slot_of :: "(uuid \<times> string) list \<Rightarrow> line_capacity_slot \<Rightarrow> snapshot_slot option" where
  "snapshot_slot_of codes r =
     map_option (\<lambda>line_code.
       \<lparr>xs_slot_id = sl_id r, xs_line_id = sl_line_id r, xs_line_code = line_code,
        xs_slot_date = sl_slot_date r, xs_shift_code = sl_shift_code r,
        xs_available_operator_minutes = sl_available_operator_minutes r,
        xs_planned_efficiency = sl_planned_efficiency r,
        xs_allocated_standard_minutes = sl_allocated_standard_minutes r, xs_version = sl_version r\<rparr>)
       (map_of codes (sl_line_id r))"

definition snapshot_slots :: "snapshot_line list \<Rightarrow> date \<Rightarrow> date \<Rightarrow> db \<Rightarrow> snapshot_slot list" where
  "snapshot_slots compatible start end_date s =
     (if compatible = [] \<or> end_date < start then []
      else List.map_filter (snapshot_slot_of (map (\<lambda>l. (xn_line_id l, xn_code l)) compatible))
        (sort_key (\<lambda>r. (sl_slot_date r, sl_shift_code r, sl_line_id r))
          (filter (\<lambda>r. sl_line_id r \<in> set (map xn_line_id compatible) \<and> start \<le> sl_slot_date r \<and>
             sl_slot_date r \<le> end_date) (t_slots s))))"

definition snapshot_ie ::
  "postgres \<Rightarrow> order \<Rightarrow> snapshot_line list \<Rightarrow> db \<Rightarrow> exn + (uuid \<times> (jtext \<times> json) list) list" where
  "snapshot_ie pg ord compatible s =
     bind_err (map_err (\<lambda>l. bind_err (line_style_analysis_of pg (or_factory_id ord) (xn_line_id l)
         (or_style_id ord) DEFAULT_WINDOW_DAYS s) (\<lambda>a. Inr (xn_line_id l, a))) compatible) (\<lambda>analyses.
     Inr (map (\<lambda>(i, a). (i, analysis_json a))
       (filter (\<lambda>(_, a). list_ex (\<lambda>o'. 0 < oy_sample_count o') (ly_operations a)) analyses)))"

section \<open>Quality\<close>

fun defect_severity_value :: "defect_severity \<Rightarrow> string" where
  "defect_severity_value MINOR = ''MINOR''"
| "defect_severity_value MAJOR = ''MAJOR''"
| "defect_severity_value CRITICAL = ''CRITICAL''"

definition policy_json :: "quality_policy_version \<Rightarrow> (jtext \<times> json) list" where
  "policy_json p =
     [(Lit ''id'', JText (Id (qp_id p))), (Lit ''code'', JStr (qp_code p)),
      (Lit ''version_no'', JInt (qp_version_no p)), (Lit ''is_demo'', JBool (qp_is_demo p)),
      (Lit ''rules'', JObj (qp_rules p))]"

definition defect_json :: "defect_observation \<Rightarrow> json" where
  "defect_json d =
     JObj [(Lit ''defect_code'', JStr (df_defect_code d)),
       (Lit ''severity'', JStr (defect_severity_value (df_severity d))), (Lit ''count'', JInt (df_count d)),
       (Lit ''operation_id'', json_id_opt (df_operation_id d))]"

definition inspection_json :: "(uuid \<times> defect_observation list) list \<Rightarrow> inspection \<Rightarrow> (jtext \<times> json) list" where
  "inspection_json defects i =
     [(Lit ''id'', JText (Id (in_id i))),
      (Lit ''inspection_type'', JStr (inspection_type_value (in_inspection_type i))),
      (Lit ''inspected_units'', JInt (in_inspected_units i)),
      (Lit ''defective_units'', JInt (in_defective_units i)),
      (Lit ''result'', JStr (inspection_result_value (in_result i))),
      (Lit ''policy_version_id'', JText (Id (in_policy_version_id i))),
      (Lit ''line_id'', json_id_opt (in_line_id i)),
      (Lit ''inspected_at'', JText (Time (in_inspected_at i))),
      (Lit ''defects'', JArr (map defect_json (case map_of defects (in_id i) of Some ds \<Rightarrow> ds | None \<Rightarrow> [])))]"

definition snapshot_quality_of :: "order \<Rightarrow> db \<Rightarrow> exn + snapshot_quality" where
  "snapshot_quality_of ord s =
     (let policy = active_policy (or_organization_id ord) DEMO_POLICY_CODE s;
          inspections = list_inspections (or_id ord) s;
          holds = order_holds (or_id ord) s;
          releases = list_releases (or_id ord) s;
          defects = defects_by_inspection (map in_id inspections) s
      in bind_err (shipment_facts_of ord s) (\<lambda>facts.
         let eligibility = shipment_eligibility_of facts
         in Inr \<lparr>xq_policy = map_option policy_json policy,
              xq_inspections = map (inspection_json defects) inspections,
              xq_active_holds = map (\<lambda>h.
                [(Lit ''id'', JText (Id (ho_id h))), (Lit ''reason'', JStr (ho_reason h)),
                 (Lit ''inspection_id'', json_id_opt (ho_inspection_id h)),
                 (Lit ''created_at'', JText (Time (ho_created_at h)))])
                (filter (\<lambda>h. ho_status h = HOLD_ACTIVE) holds),
              xq_releases = map (\<lambda>r.
                [(Lit ''id'', JText (Id (re_id r))), (Lit ''inspection_id'', JText (Id (re_inspection_id r))),
                 (Lit ''policy_version_id'', JText (Id (re_policy_version_id r))),
                 (Lit ''released_at'', JText (Time (re_released_at r)))]) releases,
              xq_shipment = (se_eligible eligibility, se_reasons eligibility),
              xq_quality_state = or_quality_state ord\<rparr>))"

section \<open>The snapshot\<close>

definition snapshot_versions :: "order \<Rightarrow> snapshot_data \<Rightarrow> (jtext \<times> json) list" where
  "snapshot_versions ord d =
     [(Lit ''order'', JObj [(Id (or_id ord), JInt (or_version ord))]),
      (Lit ''material_balances'', JObj (List.map_filter (\<lambda>m.
         case (xm_balance_id m, xm_balance_version m) of
           (Some i, Some v) \<Rightarrow> Some (Id i, JInt v)
         | (Some i, None) \<Rightarrow> Some (Id i, JNull)
         | _ \<Rightarrow> None) (map snd (xd_materials d)))),
      (Lit ''capacity_slots'', JObj (map (\<lambda>r. (Id (xs_slot_id r), JInt (xs_version r))) (xd_slots d))),
      (Lit ''quality_policy'', JObj (case xq_policy (xd_quality d) of
         None \<Rightarrow> []
       | Some p \<Rightarrow> (case json_at p ''id'' of JText i \<Rightarrow> [(i, json_at p ''version_no'')] | _ \<Rightarrow> [])))]"

text \<open>\<open>list(dict.fromkeys(...))\<close>: first occurrences.\<close>

definition unique_first :: "'a list \<Rightarrow> 'a list" where
  "unique_first xs = rev (remdups (rev xs))"

definition build_snapshot :: "postgres \<Rightarrow> order \<Rightarrow> db \<Rightarrow> exn + (snapshot_data \<times> (jtext \<times> json) list)" where
  "build_snapshot pg ord s =
     (let missing = LookupError ''order references a missing factory, customer or style''
      in bind_err (some_or missing (row fa_id (or_factory_id ord) (t_factories s))) (\<lambda>factory.
         bind_err (some_or missing (row cu_id (or_customer_id ord) (t_customers s))) (\<lambda>customer.
         bind_err (some_or missing (row st_id (or_style_id ord) (t_styles s))) (\<lambda>style.
         let as_of = today_in s (fa_timezone factory)
         in bind_err (snapshot_bom_of ord s) (\<lambda>bom.
            let materials = snapshot_materials pg factory (unique_first (map xl_material_id (xb_lines bom))) as_of s;
                operations = snapshot_operations (or_style_id ord) s;
                lines = snapshot_lines (or_factory_id ord) (map xp_skill_code operations) s;
                compatible = filter xn_compatible lines;
                slots = snapshot_slots compatible as_of (or_due_date ord) s
            in bind_err (snapshot_quality_of ord s) (\<lambda>quality.
               bind_err (snapshot_ie pg ord compatible s) (\<lambda>ie.
               let d =
                 \<lparr>xd_order = \<lparr>xo_id = or_id ord, xo_version = or_version ord,
                    xo_external_ref = or_external_ref ord, xo_customer_code = cu_code customer,
                    xo_style_id = st_id style, xo_style_code = st_code style,
                    xo_quantity = or_quantity ord, xo_produced_units = or_produced_units ord,
                    xo_remaining_units = max 0 (or_quantity ord - or_produced_units ord),
                    xo_due_date = or_due_date ord, xo_priority = or_priority ord,
                    xo_production_state = or_production_state ord,
                    xo_factory_timezone = fa_timezone factory\<rparr>,
                  xd_as_of_date = as_of, xd_bom = bom, xd_materials = materials,
                  xd_operations = operations, xd_sam_total_minutes = dsum (map xp_sam_minutes operations),
                  xd_lines = lines, xd_slots = slots, xd_ie = ie, xd_quality = quality\<rparr>
               in Inr (d, snapshot_versions ord d))))))))"

section \<open>What a snapshot pins\<close>

lemma pins_of:
  assumes "distinct (map k xs)"
  shows "map_of (expected_versions (Some (JObj (map (\<lambda>x. (Id (k x), JInt (v x))) xs)))) i =
    map_option v (row k i xs)"
proof -
  have "List.map_filter (\<lambda>(k, v). case uuid_of_text k of None \<Rightarrow> None
          | Some i \<Rightarrow> (case v of JInt n \<Rightarrow> Some (i, n) | _ \<Rightarrow> None)) (map (\<lambda>x. (Id (k x), JInt (v x))) ys) =
      map (\<lambda>x. (k x, v x)) ys" for ys
    by (induction ys) (simp_all add: List.map_filter_simps uuid_of_text_def)
  moreover have "map_of (map (\<lambda>x. (k x, v x)) ys) i = map_option v (row k i ys)" for ys
    by (induction ys) auto
  moreover have "row k i (rev xs) = row k i xs"
  proof (cases "row k i xs")
    case None
    then have "row k i (rev xs) = None" by (simp add: row_None_iff)
    with None show ?thesis by simp
  next
    case (Some x)
    have "distinct (map k (rev xs))" using assms by (simp add: rev_map [symmetric])
    moreover have "x \<in> set (rev xs)" "k x = i" using row_SomeD [OF Some] by simp_all
    ultimately show ?thesis using row_distinct [of k "rev xs" x] Some by simp
  qed
  ultimately show ?thesis by (simp add: expected_versions_def rev_map)
qed

lemma pins_rows:
  assumes "distinct (map k xs)" and "distinct (map key rows)"
    and "\<And>x. x \<in> set xs \<Longrightarrow> \<exists>r \<in> set rows. key r = k x \<and> ver r = v x"
  shows "map_of (expected_versions (Some (JObj (map (\<lambda>x. (Id (k x), JInt (v x))) xs)))) i =
    (if i \<in> set (map k xs) then map_option ver (row key i rows) else None)"
proof (cases "i \<in> set (map k xs)")
  case True
  then obtain x where x: "x \<in> set xs" "k x = i" by auto
  from assms(3) [OF x(1)] obtain r where r: "r \<in> set rows" "key r = i" "ver r = v x" using x(2) by blast
  show ?thesis using True row_distinct [OF assms(1) x(1)] row_distinct [OF assms(2) r(1)] x r
    by (simp add: pins_of [OF assms(1)])
next
  case False
  then have "row k i xs = None" by (simp add: row_None_iff)
  with False show ?thesis by (simp add: pins_of [OF assms(1)])
qed

lemma section_pins:
  "section_pin (snapshot_versions ord d) ''order'' i = (if i = or_id ord then Some (or_version ord) else None)"
  "section_pin (snapshot_versions ord d) ''capacity_slots'' i =
     map_of (expected_versions (Some (JObj (map (\<lambda>r. (Id (xs_slot_id r), JInt (xs_version r))) (xd_slots d))))) i"
  by (simp_all add: section_pin_def snapshot_versions_def json_get_def expected_versions_def
      List.map_filter_simps uuid_of_text_def)

lemma map_filter_eq_map: "List.map_filter f xs = map (the \<circ> f) (filter (\<lambda>x. f x \<noteq> None) xs)"
  by (auto simp: List.map_filter_def)

text \<open>The stock positions of the listed materials that have one.\<close>

definition listed_balances :: "uuid \<Rightarrow> uuid list \<Rightarrow> db \<Rightarrow> material_balance list" where
  "listed_balances factory_id material_ids s = List.map_filter (\<lambda>i. balance_of factory_id i s) material_ids"

lemma balance_of_SomeD:
  "balance_of f i s = Some b \<Longrightarrow> b \<in> set (t_balances s) \<and> ba_factory_id b = f \<and> ba_material_id b = i"
  by (auto simp: balance_of_def find_Some_iff)

lemma balance_entries:
  assumes "xd_materials d = snapshot_materials pg factory ids as_of s"
  shows "section_pin (snapshot_versions ord d) ''material_balances'' i =
     map_of (expected_versions (Some (JObj (map (\<lambda>b. (Id (ba_id b), JInt (ba_version b)))
       (listed_balances (fa_id factory) ids s))))) i"
    and "snapshot_balance_ids d = map ba_id (listed_balances (fa_id factory) ids s)"
proof -
  have "List.map_filter (\<lambda>m. case (xm_balance_id m, xm_balance_version m) of
           (Some i, Some v) \<Rightarrow> Some (Id i, JInt v)
         | (Some i, None) \<Rightarrow> Some (Id i, JNull)
         | _ \<Rightarrow> None) (map snd (map (\<lambda>i. (i, snapshot_material_of factory as_of issues i s)) ids)) =
      map (\<lambda>b. (Id (ba_id b), JInt (ba_version b))) (listed_balances (fa_id factory) ids s)" for issues
    by (induction ids)
      (auto simp: listed_balances_def List.map_filter_simps snapshot_material_of_def Let_def split: option.splits)
  then show "section_pin (snapshot_versions ord d) ''material_balances'' i =
     map_of (expected_versions (Some (JObj (map (\<lambda>b. (Id (ba_id b), JInt (ba_version b)))
       (listed_balances (fa_id factory) ids s))))) i"
    by (simp add: section_pin_def snapshot_versions_def json_get_def assms snapshot_materials_def Let_def)
  have "List.map_filter (xm_balance_id \<circ> snd) (map (\<lambda>i. (i, snapshot_material_of factory as_of issues i s)) ids) =
      map ba_id (listed_balances (fa_id factory) ids s)" for issues
    by (induction ids)
      (auto simp: listed_balances_def List.map_filter_simps snapshot_material_of_def Let_def split: option.splits)
  then show "snapshot_balance_ids d = map ba_id (listed_balances (fa_id factory) ids s)"
    by (simp add: snapshot_balance_ids_def assms snapshot_materials_def Let_def)
qed

lemma listed_balances_distinct:
  assumes "distinct ids" and "distinct (map ba_id (t_balances s))"
  shows "distinct (map ba_id (listed_balances f ids s))"
proof -
  have "inj_on ba_id (set (t_balances s))" using assms(2) by (simp add: distinct_map)
  then have "inj_on ba_id (set (listed_balances f ids s))"
    by (rule inj_on_subset) (auto simp: listed_balances_def set_map_filter dest: balance_of_SomeD)
  moreover have "distinct (listed_balances f ids s)" using assms(1)
    by (induction ids) (auto simp: listed_balances_def List.map_filter_simps set_map_filter split: option.splits
        dest!: balance_of_SomeD)
  ultimately show ?thesis by (simp add: distinct_map)
qed

lemma snapshot_slotD:
  assumes "x \<in> set (snapshot_slots compatible start end_date s)"
  shows "\<exists>r \<in> set (t_slots s). \<exists>l \<in> set compatible. sl_id r = xs_slot_id x \<and> sl_version r = xs_version x \<and>
    sl_line_id r = xn_line_id l \<and> xs_line_id x = xn_line_id l \<and> sl_slot_date r = xs_slot_date x \<and>
    start \<le> xs_slot_date x \<and> xs_slot_date x \<le> end_date"
  using assms
  by (fastforce simp: snapshot_slots_def set_map_filter snapshot_slot_of_def split: if_splits dest: map_of_SomeD)

lemma snapshot_slots_distinct:
  assumes "distinct (map sl_id (t_slots s))"
  shows "distinct (map xs_slot_id (snapshot_slots compatible start end_date s))"
proof -
  have "map xs_slot_id (List.map_filter (snapshot_slot_of codes) rs) =
      map sl_id (filter (\<lambda>r. snapshot_slot_of codes r \<noteq> None) rs)" for codes rs
    by (induction rs) (auto simp: List.map_filter_simps snapshot_slot_of_def split: option.splits)
  then show ?thesis using assms
    by (simp add: snapshot_slots_def) (simp add: distinct_map inj_on_def)
qed

text \<open>A line is compatible when there is a routing and no skill of it is missing.\<close>

definition covers_routing :: "uuid \<Rightarrow> uuid \<Rightarrow> db \<Rightarrow> bool" where
  "covers_routing style_id line_id s \<longleftrightarrow>
     (\<exists>p \<in> set (t_style_operations s). so_style_id p = style_id) \<and>
     (\<forall>p \<in> set (t_style_operations s). so_style_id p = style_id \<longrightarrow>
        (\<exists>c \<in> set (t_line_capabilities s). lc_line_id c = line_id \<and> lc_skill_code c = so_skill_code p))"

lemma sorted_set_Nil [simp]: "sorted_set xs = [] \<longleftrightarrow> xs = []"
  by (simp add: sorted_set_def) (metis length_0_conv length_sort remdups_eq_nil_iff)

lemma line_compatible:
  "xn_compatible (snapshot_line_of required s r) \<longleftrightarrow> required \<noteq> [] \<and>
     (\<forall>k \<in> set required. \<exists>c \<in> set (t_line_capabilities s). lc_line_id c = li_id r \<and> lc_skill_code c = k)"
  by (force simp: snapshot_line_of_def Let_def filter_empty_conv)

lemma snapshot_lineD:
  assumes "l \<in> set (snapshot_lines f (map so_skill_code
      (sort_key so_sequence (filter (\<lambda>p. so_style_id p = y) (t_style_operations s)))) s)"
  shows "(xn_compatible l \<longleftrightarrow> covers_routing y (xn_line_id l) s) \<and>
    (\<exists>r \<in> set (t_lines s). li_id r = xn_line_id l \<and> li_factory_id r = f \<and> li_is_active r)"
proof -
  let ?skills = "map so_skill_code (sort_key so_sequence (filter (\<lambda>p. so_style_id p = y) (t_style_operations s)))"
  obtain r where r: "r \<in> set (t_lines s)" "li_factory_id r = f" "li_is_active r" "l = snapshot_line_of ?skills s r"
    using assms by (auto simp: snapshot_lines_def)
  have "xn_compatible l \<longleftrightarrow> set ?skills \<noteq> {} \<and>
      (\<forall>k \<in> set ?skills. \<exists>c \<in> set (t_line_capabilities s). lc_line_id c = li_id r \<and> lc_skill_code c = k)"
    unfolding r(4) line_compatible set_empty ..
  moreover have "set ?skills = so_skill_code ` {p \<in> set (t_style_operations s). so_style_id p = y}" by auto
  moreover have "xn_line_id l = li_id r" by (simp add: r(4) snapshot_line_of_def)
  ultimately show ?thesis using r(1-3) unfolding covers_routing_def by auto
qed

lemma build_snapshotD:
  assumes "build_snapshot pg ord s = Inr (d, versions)"
  obtains factory ids where "row fa_id (or_factory_id ord) (t_factories s) = Some factory"
    and "distinct ids" and "xd_materials d = snapshot_materials pg factory ids (xd_as_of_date d) s"
    and "versions = snapshot_versions ord d"
    and "xd_as_of_date d = today_in s (fa_timezone factory)"
    and "xo_id (xd_order d) = or_id ord" and "xo_remaining_units (xd_order d) = max 0 (or_quantity ord - or_produced_units ord)"
    and "xd_lines d = snapshot_lines (or_factory_id ord) (map so_skill_code
        (sort_key so_sequence (filter (\<lambda>p. so_style_id p = or_style_id ord) (t_style_operations s)))) s"
    and "xd_slots d = snapshot_slots (filter xn_compatible (xd_lines d)) (xd_as_of_date d) (or_due_date ord) s"
proof -
  have skills: "map xp_skill_code (snapshot_operations (or_style_id ord) s) = map so_skill_code
      (sort_key so_sequence (filter (\<lambda>p. so_style_id p = or_style_id ord) (t_style_operations s)))"
    by (simp add: snapshot_operations_def comp_def)
  from assms show ?thesis
    unfolding build_snapshot_def Let_def bind_err_Inr some_or_simps
    apply (elim exE conjE)
    subgoal for factory customer style bom quality ie
      using skills by (intro that [of factory "unique_first (map xl_material_id (xb_lines bom))"])
        (auto simp: unique_first_def)
    done
qed

text \<open>
  C40. A snapshot is well formed. It names the order with its version and what remains of it, its
  lines are the active ones of the factory and compatible exactly when they have every skill of
  the routing, its slots are slots of compatible lines between today and the due date, its stock
  positions those of the factory, and the input versions give exactly the listed slots and
  balances the versions their rows have.
\<close>

theorem snapshot_well_formed:
  assumes "build_snapshot pg ord s = Inr (d, versions)"
    and "distinct (map sl_id (t_slots s))" and "distinct (map ba_id (t_balances s))"
  shows "xo_id (xd_order d) = or_id ord \<and> section_pin versions ''order'' (or_id ord) = Some (or_version ord) \<and>
    xo_remaining_units (xd_order d) = max 0 (or_quantity ord - or_produced_units ord) \<and>
    (\<forall>l \<in> set (xd_lines d). (xn_compatible l \<longleftrightarrow> covers_routing (or_style_id ord) (xn_line_id l) s) \<and>
       (\<exists>r \<in> set (t_lines s). li_id r = xn_line_id l \<and> li_factory_id r = or_factory_id ord \<and> li_is_active r)) \<and>
    (\<forall>x \<in> set (xd_slots d).
       (\<exists>r \<in> set (t_slots s). sl_id r = xs_slot_id x \<and> sl_version r = xs_version x \<and> sl_line_id r = xs_line_id x) \<and>
       (\<exists>l \<in> set (xd_lines d). xn_line_id l = xs_line_id x \<and> xn_compatible l) \<and>
       xd_as_of_date d \<le> xs_slot_date x \<and> xs_slot_date x \<le> or_due_date ord) \<and>
    (\<forall>i. section_pin versions ''capacity_slots'' i =
       (if i \<in> set (snapshot_slot_ids d) then map_option sl_version (row sl_id i (t_slots s)) else None)) \<and>
    (\<forall>i. section_pin versions ''material_balances'' i =
       (if i \<in> set (snapshot_balance_ids d) then map_option ba_version (row ba_id i (t_balances s)) else None)) \<and>
    (\<forall>i \<in> set (snapshot_balance_ids d). \<exists>b \<in> set (t_balances s). ba_id b = i \<and> ba_factory_id b = or_factory_id ord)"
proof -
  obtain factory ids where fac: "row fa_id (or_factory_id ord) (t_factories s) = Some factory"
    and ids: "distinct ids" and mats: "xd_materials d = snapshot_materials pg factory ids (xd_as_of_date d) s"
    and versions: "versions = snapshot_versions ord d"
    and ord: "xo_id (xd_order d) = or_id ord"
      "xo_remaining_units (xd_order d) = max 0 (or_quantity ord - or_produced_units ord)"
    and lines: "xd_lines d = snapshot_lines (or_factory_id ord) (map so_skill_code
        (sort_key so_sequence (filter (\<lambda>p. so_style_id p = or_style_id ord) (t_style_operations s)))) s"
    and slots: "xd_slots d = snapshot_slots (filter xn_compatible (xd_lines d)) (xd_as_of_date d) (or_due_date ord) s"
    by (rule build_snapshotD [OF assms(1)]) (rule that)
  let ?bs = "listed_balances (fa_id factory) ids s"
  have line: "(xn_compatible l \<longleftrightarrow> covers_routing (or_style_id ord) (xn_line_id l) s) \<and>
      (\<exists>r \<in> set (t_lines s). li_id r = xn_line_id l \<and> li_factory_id r = or_factory_id ord \<and> li_is_active r)"
    if "l \<in> set (xd_lines d)" for l
    using that unfolding lines by (rule snapshot_lineD)
  have bs: "b \<in> set (t_balances s) \<and> ba_factory_id b = or_factory_id ord" if "b \<in> set ?bs" for b
    using that row_key [OF fac] by (auto simp: listed_balances_def set_map_filter dest: balance_of_SomeD)
  have ds: "distinct (map xs_slot_id (xd_slots d))"
    unfolding slots using assms(2) by (rule snapshot_slots_distinct)
  have slot: "\<exists>r \<in> set (t_slots s). \<exists>l \<in> set (xd_lines d). xn_compatible l \<and> sl_id r = xs_slot_id x \<and>
      sl_version r = xs_version x \<and> sl_line_id r = xn_line_id l \<and> xs_line_id x = xn_line_id l \<and>
      xd_as_of_date d \<le> xs_slot_date x \<and> xs_slot_date x \<le> or_due_date ord" if "x \<in> set (xd_slots d)" for x
    using snapshot_slotD [OF that [unfolded slots]] by fastforce
  have pin_slot: "section_pin versions ''capacity_slots'' i =
       (if i \<in> set (snapshot_slot_ids d) then map_option sl_version (row sl_id i (t_slots s)) else None)" for i
    unfolding versions section_pins snapshot_slot_ids_def
    by (rule pins_rows [OF ds assms(2)]) (use slot in blast)
  have pin_balance: "section_pin versions ''material_balances'' i =
       (if i \<in> set (snapshot_balance_ids d) then map_option ba_version (row ba_id i (t_balances s)) else None)" for i
    unfolding versions balance_entries [OF mats]
    by (rule pins_rows [OF listed_balances_distinct [OF ids assms(3)] assms(3)]) (use bs in blast)
  show ?thesis
    using slot bs pin_slot pin_balance balance_entries(2) [OF mats] ord line
    by (auto simp: versions section_pins; fastforce)
qed

definition snapshot_demo :: db where
  "snapshot_demo = ie_demo
     \<lparr>t_factories := [demo_factory], t_cycles := [],
      t_customers := [\<lparr>cu_id = 1, cu_organization_id = 1, cu_code = ''C'', cu_name = ''C''\<rparr>],
      t_bom_versions := [\<lparr>bv_id = 1, bv_style_id = 1, bv_version_no = 1, bv_is_active = True,
        bv_approved_by = None, bv_approved_at = None\<rparr>],
      t_bom_lines := [\<lparr>bl_id = 51, bl_bom_version_id = 1, bl_material_id = 3, bl_quantity_per_unit = 2,
        bl_unit = ''m'', bl_wastage_fraction = 0\<rparr>],
      t_materials := [\<lparr>ma_id = 3, ma_organization_id = 1, ma_code = ''FAB'', ma_name = ''Fabric'', ma_unit = ''m'',
        ma_safety_stock = 0, ma_lead_time_days = 5, ma_pack_size = None\<rparr>],
      t_balances := [\<lparr>ba_id = 5, ba_organization_id = 1, ba_factory_id = 7, ba_material_id = 3,
        ba_on_hand_accepted = 40, ba_reserved = 10, ba_version = 2\<rparr>],
      t_line_capabilities := [\<lparr>lc_id = 61, lc_line_id = 6, lc_skill_code = ''SK''\<rparr>],
      t_slots := [\<lparr>sl_id = 4, sl_organization_id = 1, sl_factory_id = 7, sl_line_id = 6, sl_slot_date = 3,
        sl_shift_code = ''A'', sl_available_operator_minutes = 600, sl_planned_efficiency = 1,
        sl_allocated_standard_minutes = 0, sl_version = 7\<rparr>]\<rparr>"

lemma demo_built_value:
  "case build_snapshot demo_postgres demo_order snapshot_demo of
     Inr (d, v) \<Rightarrow> snapshot_slot_ids d = [4] \<and> snapshot_balance_ids d = [5] | Inl _ \<Rightarrow> False"
  by code_simp

theorem snapshot_well_formed_witness:
  "\<exists>d versions. build_snapshot demo_postgres demo_order snapshot_demo = Inr (d, versions) \<and>
     section_pin versions ''capacity_slots'' 4 = Some 7 \<and>
     section_pin versions ''material_balances'' 5 = Some 2"
proof -
  obtain d versions where b: "build_snapshot demo_postgres demo_order snapshot_demo = Inr (d, versions)"
    and ids: "snapshot_slot_ids d = [4]" "snapshot_balance_ids d = [5]"
    using demo_built_value by (auto split: sum.splits prod.splits)
  from snapshot_well_formed [OF b] ids have
      "section_pin versions ''capacity_slots'' 4 = map_option sl_version (row sl_id 4 (t_slots snapshot_demo))"
      "section_pin versions ''material_balances'' 5 = map_option ba_version (row ba_id 5 (t_balances snapshot_demo))"
    by (simp_all add: snapshot_demo_def)
  with b show ?thesis by (simp add: snapshot_demo_def)
qed

end
