(* ===== verification/LS_Worker.thy ===== *)
theory LS_Worker
  imports LS_Reconcile LS_Grounded
begin

text \<open>
  The job registry of the worker (\<open>app/jobs/worker.py\<close>, \<open>app/jobs/handlers.py\<close>): which handler
  and which hook run for a job type, the hook of the document jobs (\<open>app/retrieval/pipeline.py\<close>),
  and the claim a worker makes. The handler of the document jobs, which calls the embedding
  models, is an argument; the removal of a rejected file from the quarantine directory is left
  out. Other transactions run between the transactions of a hook and before the next statement
  of the claim. The lemmas show that the hooks are queue transactions that use up no job, so
  that a worker's claim returns and serves the jobs that are due.
\<close>

section \<open>Rejecting a document\<close>

definition DOCUMENT_PROCESS_JOB :: string where
  "DOCUMENT_PROCESS_JOB = ''document.process''"

definition PROCESSING_FAILED_MESSAGE :: string where
  "PROCESSING_FAILED_MESSAGE = ''Processing failed''"

definition TERMINAL_VERSION_STATUSES :: "document_version_status list" where
  "TERMINAL_VERSION_STATUSES = [DV_ACTIVE, DV_REJECTED, DV_SUPERSEDED]"

text \<open>\<open>LIMIT 1\<close> without an order takes the rows in the order of the table.\<close>

definition notification_factory_id :: "uuid \<Rightarrow> uuid option \<Rightarrow> uuid option \<Rightarrow> db \<Rightarrow> uuid option" where
  "notification_factory_id organization_id document_factory_id user_id s =
     (case document_factory_id of
        Some f \<Rightarrow> Some f
      | None \<Rightarrow>
          let held = (case user_id of
                None \<Rightarrow> []
              | Some u \<Rightarrow> List.map_filter (\<lambda>a.
                  if list_ex (\<lambda>m. mb_id m = as_membership_id a \<and> mb_organization_id m = organization_id \<and>
                       mb_user_id m = u) (t_memberships s)
                  then as_factory_id a else None) (t_role_assignments s))
          in (case held of
                f # _ \<Rightarrow> Some f
              | [] \<Rightarrow>
                  (case sort_key fa_code (filter (\<lambda>f. fa_organization_id f = organization_id) (t_factories s)) of
                     [] \<Rightarrow> None
                   | f # _ \<Rightarrow> Some (fa_id f))))"

definition reject_document_version :: "uuid \<Rightarrow> string \<Rightarrow> db \<Rightarrow> exn + db" where
  "reject_document_version version_id reason s =
     (case row dv_id version_id (t_document_versions s) of
        None \<Rightarrow> Inr s
      | Some version \<Rightarrow>
          if dv_status version \<in> set TERMINAL_VERSION_STATUSES then Inr s
          else
          bind_err (some_or (RuntimeError ''document version references a missing document'')
            (row dc_id (dv_document_id version) (t_documents s))) (\<lambda>doc.
          let version = version\<lparr>dv_status := DV_REJECTED, dv_rejection_reason := Some (take 2000 reason)\<rparr>;
              s = s\<lparr>t_document_versions := upd dv_id version (t_document_versions s)\<rparr>;
              s = record_audit (dc_organization_id doc) (dc_factory_id doc) SYSTEM (Lit ''document-pipeline'')
                    ''document.reject'' ''document_version'' (Id (dv_id version)) SUCCESS (Some reason)
                    None None None None s
          in (case (dv_created_by version, notification_factory_id (dc_organization_id doc)
                  (dc_factory_id doc) (dv_created_by version) s) of
                (Some u, Some f) \<Rightarrow>
                  insert_notification
                    \<lparr>no_id = 0, no_organization_id = dc_organization_id doc, no_factory_id = f,
                     no_user_id = Some u, no_role = None, no_kind = ''document.rejected'',
                     no_title = ''Document upload rejected: '' @ dc_title doc, no_body = reason,
                     no_link = None, no_read_at = None\<rparr> s
              | _ \<Rightarrow> Inr s)))"

definition job_version_id :: "claimed_job \<Rightarrow> exn + uuid" where
  "job_version_id job =
     (case cj_payload job of
        JObj fs \<Rightarrow>
          bind_err (some_or (KeyError ''document_version_id'') (json_get fs ''document_version_id'')) (\<lambda>v.
          some_or (ValueError ''badly formed hexadecimal UUID string'') (uuid_of_json v))
      | _ \<Rightarrow> Inl (TypeError ''payload''))"

text \<open>The hook of the queue; what it raises leaves its transaction undone.\<close>

definition on_document_process_exhausted :: "claimed_job \<Rightarrow> string \<Rightarrow> db \<Rightarrow> db" where
  "on_document_process_exhausted job err s =
     (case bind_err (job_version_id job) (\<lambda>i. reject_document_version i PROCESSING_FAILED_MESSAGE s) of
        Inl e \<Rightarrow> s
      | Inr s' \<Rightarrow> commit s')"

section \<open>The registry\<close>

definition MAINTENANCE_RECONCILE :: string where
  "MAINTENANCE_RECONCILE = ''maintenance.reconcile''"

definition MAINTENANCE_PURGE_IDEMPOTENCY :: string where
  "MAINTENANCE_PURGE_IDEMPOTENCY = ''maintenance.purge_idempotency''"

definition MAINTENANCE_REFRESH_MATERIAL_STATES :: string where
  "MAINTENANCE_REFRESH_MATERIAL_STATES = ''maintenance.refresh_material_states''"

type_synonym job_handler = "claimed_job \<Rightarrow> db \<Rightarrow> (exn + unit) \<times> db"

record registered_handler =
  rh_job_type :: string
  rh_handler :: job_handler
  rh_on_exhausted :: "exhausted_callback option"

type_synonym registry = "registered_handler list"

definition register ::
  "string \<Rightarrow> job_handler \<Rightarrow> exhausted_callback option \<Rightarrow> registry \<Rightarrow> exn + registry" where
  "register job_type handler on_exhausted registry =
     (if list_ex (\<lambda>h. rh_job_type h = job_type) registry
      then Inl (ValueError ''a handler for job type is already registered'')
      else Inr (registry @ [\<lparr>rh_job_type = job_type, rh_handler = handler, rh_on_exhausted = on_exhausted\<rparr>]))"

text \<open>\<open>UnknownJobTypeError\<close> is a \<open>PermanentJobError\<close>.\<close>

definition get_handler :: "registry \<Rightarrow> string \<Rightarrow> exn + registered_handler" where
  "get_handler registry job_type =
     some_or (PermanentJobError ''no handler registered for job type'')
       (find (\<lambda>h. rh_job_type h = job_type) registry)"

text \<open>What the handlers are built from: the agents, the model, the digest, the transport of the
  dispatch, the rows others have locked, and what other transactions do in between.\<close>

record worker_parts =
  wp_agents :: "agent_recipient \<Rightarrow> base_agent option"
  wp_llm :: "llm_client option"
  wp_meanwhile :: "nat \<Rightarrow> db \<Rightarrow> db"
  wp_between :: "nat \<Rightarrow> db \<Rightarrow> db"
  wp_hook_gap :: "db \<Rightarrow> db"
  wp_busy :: "uuid list"
  wp_digest :: "json \<Rightarrow> string"
  wp_post :: "task_envelope \<Rightarrow> db \<Rightarrow> http_reply \<times> db"
  wp_process_document :: job_handler

definition build_registry :: "worker_parts \<Rightarrow> exn + registry" where
  "build_registry p =
     bind_err (register MAINTENANCE_RECONCILE (handle_reconcile (wp_busy p)) None []) (\<lambda>r.
     bind_err (register MAINTENANCE_PURGE_IDEMPOTENCY (handle_purge_idempotency (wp_busy p)) None r) (\<lambda>r.
     bind_err (register MAINTENANCE_REFRESH_MATERIAL_STATES handle_refresh_material_states None r) (\<lambda>r.
     bind_err (register AGENT_EXECUTE_JOB
       (execute_agent_task (wp_agents p) (wp_llm p) (wp_meanwhile p) (wp_between p))
       (Some (on_agent_task_exhausted (wp_agents p) (wp_llm p) (wp_hook_gap p))) r) (\<lambda>r.
     bind_err (register ORCHESTRATOR_ADVANCE_JOB (advance_run (wp_digest p) (wp_post p)) None r) (\<lambda>r.
     register DOCUMENT_PROCESS_JOB (wp_process_document p) (Some on_document_process_exhausted) r)))))"

definition worker_on_exhausted :: "registry \<Rightarrow> exhausted_callback" where
  "worker_on_exhausted registry job err s =
     (case get_handler registry (cj_job_type job) of
        Inl e \<Rightarrow> s
      | Inr entry \<Rightarrow>
          (case rh_on_exhausted entry of None \<Rightarrow> s | Some hook \<Rightarrow> hook job err s))"

text \<open>The claim of \<open>run_once\<close>; \<open>others\<close> is what the other transactions do after a hook.\<close>

definition worker_claim ::
  "registry \<Rightarrow> (db \<Rightarrow> db) \<Rightarrow> string list \<Rightarrow> string \<Rightarrow> int \<Rightarrow> (nat \<Rightarrow> uuid list) \<Rightarrow> db \<Rightarrow>
   (exn + (claimed_job option \<times> db)) option" where
  "worker_claim registry others queues worker_id lease_seconds busy s =
     claim (Some (\<lambda>job err s. others (worker_on_exhausted registry job err s)))
       queues worker_id lease_seconds busy s"

section \<open>The hooks on the queue\<close>

lemma build_registry_value:
  "build_registry p =
     Inr [\<lparr>rh_job_type = MAINTENANCE_RECONCILE, rh_handler = handle_reconcile (wp_busy p), rh_on_exhausted = None\<rparr>,
       \<lparr>rh_job_type = MAINTENANCE_PURGE_IDEMPOTENCY, rh_handler = handle_purge_idempotency (wp_busy p), rh_on_exhausted = None\<rparr>,
       \<lparr>rh_job_type = MAINTENANCE_REFRESH_MATERIAL_STATES, rh_handler = handle_refresh_material_states, rh_on_exhausted = None\<rparr>,
       \<lparr>rh_job_type = AGENT_EXECUTE_JOB,
        rh_handler = execute_agent_task (wp_agents p) (wp_llm p) (wp_meanwhile p) (wp_between p),
        rh_on_exhausted = Some (on_agent_task_exhausted (wp_agents p) (wp_llm p) (wp_hook_gap p))\<rparr>,
       \<lparr>rh_job_type = ORCHESTRATOR_ADVANCE_JOB, rh_handler = advance_run (wp_digest p) (wp_post p), rh_on_exhausted = None\<rparr>,
       \<lparr>rh_job_type = DOCUMENT_PROCESS_JOB, rh_handler = wp_process_document p,
        rh_on_exhausted = Some on_document_process_exhausted\<rparr>]"
  by (simp add: build_registry_def register_def MAINTENANCE_RECONCILE_def MAINTENANCE_PURGE_IDEMPOTENCY_def
      MAINTENANCE_REFRESH_MATERIAL_STATES_def AGENT_EXECUTE_JOB_def ORCHESTRATOR_ADVANCE_JOB_def
      DOCUMENT_PROCESS_JOB_def)

lemma worker_hook_cases:
  assumes "build_registry p = Inr registry"
  obtains "worker_on_exhausted registry job err = (\<lambda>s. s)"
  | "worker_on_exhausted registry job err = on_agent_task_exhausted (wp_agents p) (wp_llm p) (wp_hook_gap p) job err"
  | "worker_on_exhausted registry job err = on_document_process_exhausted job err"
proof -
  have r: "registry = projr (build_registry p)" using assms by simp
  show thesis
  proof (cases "get_handler registry (cj_job_type job)")
    case (Inl e)
    then show thesis by (intro that(1)) (simp add: worker_on_exhausted_def fun_eq_iff)
  next
    case (Inr entry)
    then have "entry \<in> set registry" by (auto simp: get_handler_def find_Some_iff run_simps split: option.splits)
    then have "rh_on_exhausted entry \<in> {None,
        Some (on_agent_task_exhausted (wp_agents p) (wp_llm p) (wp_hook_gap p)), Some on_document_process_exhausted}"
      unfolding r build_registry_value by auto
    then show thesis using Inr that by (auto simp: worker_on_exhausted_def fun_eq_iff)
  qed
qed

lemma same_jobs_work: "t_jobs s' = t_jobs s \<Longrightarrow> queue_run s [] s' \<and> used_up_jobs s' = used_up_jobs s"
  using queue_run.run_step [OF run_start queue_step.elsewhere [of s' s]] by (simp add: used_up_jobs_def)

text \<open>A result is stored with one fresh job at most.\<close>

lemma store_outcome_work:
  assumes "store_outcome task run sn r s = Inr (r', s')"
  shows "(\<exists>ids. queue_run s ids s') \<and> used_up_jobs s' \<subseteq> used_up_jobs s \<and> utcnow s' = utcnow s \<and>
    set (t_jobs s) \<subseteq> set (t_jobs s')"
proof (cases "list_ex (\<lambda>x. rr_task_id x = tk_id task) (t_results s)")
  case True
  then have "t_jobs s' = t_jobs s" "utcnow s' = utcnow s" using assms by (auto simp: store_outcome_def draw_def)
  then show ?thesis using same_jobs_work [of s' s] by auto
next
  case False
  then obtain s1 i where e: "enqueue ''orchestrator'' ORCHESTRATOR_ADVANCE_JOB
        (JObj [(Lit ''run_id'', JText (Id (ru_id run)))])
        (Some [Lit ''run:'', Id (ru_id run), Lit '':after:'', Id (tk_id task)]) None 3 s1 = Inr (i, s')"
    and s1: "t_jobs s1 = t_jobs s" "utcnow s1 = utcnow s"
    using assms by (auto simp: store_outcome_def draw_def complete_task_def run_simps Let_def)
  have "utcnow s' = utcnow s1"
    using e by (auto simp: enqueue_def draw_def run_simps split: if_splits)
  moreover have "queue_run s1 [] s'" using queue_run.run_step [OF run_start queue_step.enqueued [OF e]] by simp
  then have "queue_run s [] s'" using run_trans [of s1 "[]" s' s "[]"] same_jobs_work [OF s1(1)] by simp
  moreover have "used_up_jobs s' \<subseteq> used_up_jobs s" "set (t_jobs s) \<subseteq> set (t_jobs s')"
    using enqueueD [OF e] s1 by (auto simp: used_up_jobs_def)
  ultimately show ?thesis using s1 by auto
qed

text \<open>The hook of an agent task, with what runs in its gap.\<close>

lemma agent_hook_cases:
  obtains "on_agent_task_exhausted agents llm gap job err s = s"
  | "on_agent_task_exhausted agents llm gap job err s = gap s"
  | task run sn r r' s' where "store_outcome task run sn r (gap s) = Inr (r', s')"
      "on_agent_task_exhausted agents llm gap job err s = commit s'"
proof -
  have "on_agent_task_exhausted agents llm gap job err s = s \<or>
      on_agent_task_exhausted agents llm gap job err s = gap s \<or>
      (\<exists>task run sn r r' s'. store_outcome task run sn r (gap s) = Inr (r', s') \<and>
         on_agent_task_exhausted agents llm gap job err s = commit s')"
    unfolding on_agent_task_exhausted_def Let_def
    by (simp split: sum.splits option.splits prod.splits) blast
  then show thesis using that by blast
qed

lemma agent_hook_work:
  assumes "queue_work K gap"
  shows "queue_work K (on_agent_task_exhausted agents llm gap job err)"
  unfolding queue_work_def
proof (intro allI impI)
  fix s assume s: "queue_ok s"
  have gap: "\<exists>ids. queue_run s ids (gap s)" "used_up_jobs s \<subseteq> K \<longrightarrow> used_up_jobs (gap s) \<subseteq> K"
    using assms s by (auto simp: queue_work_def)
  show "(\<exists>ids. queue_run s ids (on_agent_task_exhausted agents llm gap job err s)) \<and>
      (used_up_jobs s \<subseteq> K \<longrightarrow> used_up_jobs (on_agent_task_exhausted agents llm gap job err s) \<subseteq> K)"
  proof (cases rule: agent_hook_cases [of agents llm gap job err s])
    case 1
    then show ?thesis using run_start [of s] by auto
  next
    case 2
    then show ?thesis using gap by simp
  next
    case (3 task run sn r r' s')
    have "t_jobs (commit s') = t_jobs s'" by (simp add: commit_def)
    note c = same_jobs_work [OF this] and o = store_outcome_work [OF 3(1)]
    have "\<exists>ids. queue_run s ids (commit s')" using gap(1) o c run_trans by blast
    then show ?thesis using 3(2) o c gap(2) by auto
  qed
qed

lemma insert_notification_same:
  "insert_notification r s = Inr s' \<Longrightarrow> t_jobs s' = t_jobs s \<and> utcnow s' = utcnow s"
  by (auto simp: insert_notification_def draw_def run_simps)

lemma reject_same:
  assumes "reject_document_version i reason s = Inr s'"
  shows "t_jobs s' = t_jobs s \<and> utcnow s' = utcnow s"
proof (cases "row dv_id i (t_document_versions s)")
  case None
  then show ?thesis using assms by (simp add: reject_document_version_def)
next
  case (Some v)
  show ?thesis
  proof (cases "dv_status v \<in> set TERMINAL_VERSION_STATUSES")
    case True
    then show ?thesis using assms Some by (simp add: reject_document_version_def)
  next
    case False
    with assms Some obtain x where d: "row dc_id (dv_document_id v) (t_documents s) = Some x"
      by (auto simp: reject_document_version_def run_simps)
    show ?thesis using assms Some False d
      by (auto simp: reject_document_version_def Let_def split: option.splits dest: insert_notification_same)
  qed
qed

lemma document_hook_jobs:
  "t_jobs (on_document_process_exhausted job err s) = t_jobs s \<and>
   utcnow (on_document_process_exhausted job err s) = utcnow s"
proof (cases "bind_err (job_version_id job) (\<lambda>i. reject_document_version i PROCESSING_FAILED_MESSAGE s)")
  case (Inl e)
  then show ?thesis by (simp add: on_document_process_exhausted_def)
next
  case (Inr s')
  then obtain i where "reject_document_version i PROCESSING_FAILED_MESSAGE s = Inr s'"
    by (auto simp: run_simps)
  then show ?thesis using Inr reject_same by (simp add: on_document_process_exhausted_def commit_def)
qed

text \<open>The worker's hook.\<close>

lemma worker_hook_work:
  assumes "build_registry p = Inr registry" and "queue_work K (wp_hook_gap p)"
  shows "queue_work K (worker_on_exhausted registry job err)"
proof (cases rule: worker_hook_cases [OF assms(1), of job err])
  case 3
  have "queue_work K (on_document_process_exhausted job err)"
    unfolding queue_work_def using same_jobs_work [OF document_hook_jobs [THEN conjunct1]] by blast
  then show ?thesis using 3 by simp
qed (use agent_hook_work [OF assms(2)] in simp_all)

lemma worker_hook_keeps:
  assumes "build_registry p = Inr registry" and "keeps j (wp_hook_gap p)"
  shows "keeps j (worker_on_exhausted registry job err)"
proof (cases rule: worker_hook_cases [OF assms(1), of job err])
  case 2
  have "keeps j (on_agent_task_exhausted (wp_agents p) (wp_llm p) (wp_hook_gap p) job err)"
    unfolding keeps_def
  proof (intro allI impI)
    fix s :: db assume j: "j \<in> set (t_jobs s)"
    then have "j \<in> set (t_jobs (wp_hook_gap p s))" using assms(2) by (simp add: keeps_def)
    then show "j \<in> set (t_jobs (on_agent_task_exhausted (wp_agents p) (wp_llm p) (wp_hook_gap p) job err s))"
      using j
      by (cases rule: agent_hook_cases [of "wp_agents p" "wp_llm p" "wp_hook_gap p" job err s])
        (auto simp: commit_def dest!: store_outcome_work)
  qed
  then show ?thesis using 2 by simp
qed (simp_all add: keeps_def document_hook_jobs)

lemma worker_hook_clock:
  fixes s :: db
  assumes "build_registry p = Inr registry" and "\<And>s :: db. utcnow s \<le> utcnow (wp_hook_gap p s)"
  shows "utcnow s \<le> utcnow (worker_on_exhausted registry job err s)"
proof (cases rule: worker_hook_cases [OF assms(1), of job err])
  case 2
  have "utcnow s \<le> utcnow (on_agent_task_exhausted (wp_agents p) (wp_llm p) (wp_hook_gap p) job err s)"
    using assms(2) [of s]
    by (cases rule: agent_hook_cases [of "wp_agents p" "wp_llm p" "wp_hook_gap p" job err s])
      (auto simp: commit_def dest!: store_outcome_work)
  then show ?thesis using 2 by simp
qed (simp_all add: document_hook_jobs)

lemma claim_hook_work:
  assumes "build_registry p = Inr registry" and "queue_work K (wp_hook_gap p)" and "queue_work K others"
  shows "queue_work K (run_exhausted (Some (\<lambda>job err s. others (worker_on_exhausted registry job err s))) job err)"
proof -
  have "run_exhausted (Some h) = h" for h by (intro ext) (simp add: run_exhausted_def)
  then show ?thesis using queue_work_comp [OF worker_hook_work [OF assms(1,2)] assms(3), of job err] by simp
qed

section \<open>Properties\<close>

text \<open>
  The last worker died while it executed task 54; job 2 waits.
\<close>

definition worker_demo :: db where
  "worker_demo = empty_db\<lparr>t_runs := [demo_run_row], t_snapshots := [demo_sn],
     t_tasks := [demo_task 54 AGENT_PLANNING 0 TASK_RUNNING],
     t_jobs := [(demo_job 1 JOB_LEASED 3)\<lparr>jb_payload := JObj [(Lit ''task_id'', JText (Id 54))]\<rparr>,
       demo_job 2 JOB_READY 0], utcnow := 10\<rparr>"

definition demo_parts :: worker_parts where
  "demo_parts = \<lparr>wp_agents = (\<lambda>_. None), wp_llm = None, wp_meanwhile = (\<lambda>_ s. s), wp_between = (\<lambda>_ s. s),
     wp_hook_gap = (\<lambda>s. s), wp_busy = [], wp_digest = (\<lambda>_. ''hash''),
     wp_post = (\<lambda>_ s. (Response 202 None, s)), wp_process_document = (\<lambda>_ s. (Inr (), s))\<rparr>"

definition demo_worker_claim :: "(exn + (claimed_job option \<times> db)) option" where
  "demo_worker_claim =
     worker_claim (projr (build_registry demo_parts)) (\<lambda>s. s) [''agent''] ''w'' 30 (\<lambda>_. [7]) worker_demo"

text \<open>Its evaluation, in steps: job 1 is claimed, failed, its hook runs, then job 2 is claimed.\<close>

lemma sum_value: "(case r of Inr x \<Rightarrow> P x | Inl _ \<Rightarrow> False) \<Longrightarrow> \<exists>x. r = Inr x \<and> P x"
  by (cases r) auto

lemma sum_projr: "r = Inr x \<Longrightarrow> r = Inr (projr r)"
  by simp

lemma option_value: "(case r of Some x \<Rightarrow> P x | None \<Rightarrow> False) \<Longrightarrow> \<exists>x. r = Some x \<and> P x"
  by (cases r) auto

lemma agent_hook_run:
  assumes "job_task_id job = Inr i" and "load_task i s = Inr (task, run, sn)"
    and "tk_status task \<in> set ACTIVE_TASK_STATUSES"
    and "exhausted_result agents llm task run sn err s = Inr r"
    and "store_outcome task run sn r s = Inr (r', s')"
  shows "on_agent_task_exhausted agents llm (\<lambda>s. s) job err s = commit s'"
  using assms by (simp add: on_agent_task_exhausted_def)

definition demo_worn :: "claimed_job option \<times> db" where
  "demo_worn = claim_statement [''agent''] ''w'' 30 [7] worker_demo"

definition demo_failed :: db where
  "demo_failed = fail_exhausted (the (fst demo_worn)) (snd demo_worn)"

definition demo_result :: "exn + agent_result" where
  "demo_result = exhausted_result (\<lambda>_. None) None (demo_task 54 AGENT_PLANNING 0 TASK_RUNNING) demo_run_row demo_sn
     EXHAUSTED_AFTER_LEASE_EXPIRY demo_failed"

definition demo_stored :: "exn + (agent_result \<times> db)" where
  "demo_stored = store_outcome (demo_task 54 AGENT_PLANNING 0 TASK_RUNNING) demo_run_row demo_sn
     (projr demo_result) demo_failed"

lemma demo_worn_value:
  "case fst demo_worn of Some job \<Rightarrow> cj_max_attempts job < cj_attempt job \<and> cj_job_type job = AGENT_EXECUTE_JOB \<and>
     job_task_id job = Inr 54 | None \<Rightarrow> False"
  by code_simp

lemma demo_result_value: "case demo_result of Inr r \<Rightarrow> ar_status r = AR_FAILED | Inl _ \<Rightarrow> False"
  by code_simp

lemma demo_stored_value:
  "case demo_stored of Inr (r, s') \<Rightarrow>
     (case claim_statement [''agent''] ''w'' 30 [7] (commit s') of
        (Some job, s'') \<Rightarrow> cj_id job = 2 \<and> cj_attempt job \<le> cj_max_attempts job \<and>
          map jb_status (t_jobs s'') = [JOB_FAILED, JOB_LEASED, JOB_READY] \<and>
          map jb_job_type (t_jobs s'') = [AGENT_EXECUTE_JOB, AGENT_EXECUTE_JOB, ORCHESTRATOR_ADVANCE_JOB] \<and>
          map tk_status (t_tasks s'') = [TASK_FAILED]
      | _ \<Rightarrow> False)
   | Inl _ \<Rightarrow> False"
  by code_simp

lemma demo_hook_run:
  assumes "job_task_id job = Inr 54" and "cj_job_type job = AGENT_EXECUTE_JOB"
    and "demo_stored = Inr (r, s')"
  shows "worker_on_exhausted (projr (build_registry demo_parts)) job EXHAUSTED_AFTER_LEASE_EXPIRY demo_failed = commit s'"
proof -
  have rows: "t_tasks demo_failed = [demo_task 54 AGENT_PLANNING 0 TASK_RUNNING]"
    "t_runs demo_failed = [demo_run_row]" "t_snapshots demo_failed = [demo_sn]"
    by (simp_all add: demo_failed_def fail_exhausted_def demo_worn_def claim_statement_def draw_def Let_def
        worker_demo_def split: option.split)
  have load: "load_task 54 demo_failed = Inr (demo_task 54 AGENT_PLANNING 0 TASK_RUNNING, demo_run_row, demo_sn)"
    by (simp add: load_task_def rows snapshot_of_def demo_task_def demo_run_row_def demo_sn_def run_simps)
  obtain x where "demo_result = Inr x" using sum_value [OF demo_result_value] by blast
  then have "demo_result = Inr (projr demo_result)" by (rule sum_projr)
  note hook = agent_hook_run [OF assms(1) load _ this [unfolded demo_result_def] assms(3) [unfolded demo_stored_def demo_result_def]]
  show ?thesis
    using hook assms(2)
    by (simp add: worker_on_exhausted_def get_handler_def build_registry_value demo_parts_def demo_task_def
        ACTIVE_TASK_STATUSES_def MAINTENANCE_RECONCILE_def MAINTENANCE_PURGE_IDEMPOTENCY_def
        MAINTENANCE_REFRESH_MATERIAL_STATES_def AGENT_EXECUTE_JOB_def)
qed

text \<open>The hook stored a failed result and enqueued the next step of the run; job 2 was handed out.\<close>

lemma demo_worker_claim_value:
  "\<exists>job s'. demo_worker_claim = Some (Inr (Some job, s')) \<and> cj_id job = 2 \<and>
     map jb_status (t_jobs s') = [JOB_FAILED, JOB_LEASED, JOB_READY] \<and>
     map jb_job_type (t_jobs s') = [AGENT_EXECUTE_JOB, AGENT_EXECUTE_JOB, ORCHESTRATOR_ADVANCE_JOB] \<and>
     map tk_status (t_tasks s') = [TASK_FAILED]"
proof -
  from option_value [OF demo_worn_value] obtain j where "fst demo_worn = Some j \<and> cj_max_attempts j < cj_attempt j \<and>
      cj_job_type j = AGENT_EXECUTE_JOB \<and> job_task_id j = Inr 54" ..
  then obtain s1 where w: "demo_worn = (Some j, s1)" "cj_max_attempts j < cj_attempt j"
      "cj_job_type j = AGENT_EXECUTE_JOB" "job_task_id j = Inr 54"
    by (metis prod.collapse)
  have e: "job_task_id (exhausted_of j) = Inr 54" "cj_job_type (exhausted_of j) = AGENT_EXECUTE_JOB"
    using w(3,4) by (simp_all add: exhausted_of_def job_task_id_def)
  obtain r s2 job s3 where st: "demo_stored = Inr (r, s2)"
    and c: "claim_statement [''agent''] ''w'' 30 [7] (commit s2) = (Some job, s3)"
      "cj_attempt job \<le> cj_max_attempts job"
    and v: "cj_id job = 2" "map jb_status (t_jobs s3) = [JOB_FAILED, JOB_LEASED, JOB_READY]"
      "map jb_job_type (t_jobs s3) = [AGENT_EXECUTE_JOB, AGENT_EXECUTE_JOB, ORCHESTRATOR_ADVANCE_JOB]"
      "map tk_status (t_tasks s3) = [TASK_FAILED]"
    using demo_stored_value by (auto split: sum.splits prod.splits option.splits)
  have "fail_exhausted j s1 = demo_failed" by (simp add: demo_failed_def w(1))
  then have "demo_worker_claim = Some (Inr (Some job, s3))"
    using w(1,2) c demo_hook_run [OF e st]
    by (simp add: demo_worker_claim_def worker_claim_def claim_def claim_loop.simps run_exhausted_def demo_worn_def)
  then show ?thesis using v by (intro exI [of _ job] exI [of _ s3] conjI)
qed

lemma worker_demo_ok:
  "queue_ok worker_demo" "used_up_jobs worker_demo \<subseteq> {1}"
  by (auto simp: queue_ok_def worker_demo_def demo_job_def new_job_def job_ok_def used_up_jobs_def)

text \<open>
  C21. A worker's claim returns: with the hooks of the repository (the one of an agent task stores
  its failed result and enqueues the next step of the run, the one of a document rejects it), the
  \<open>while True\<close> loop of \<open>claim\<close> ends, whatever rows other transactions have locked and
  whatever transactions on the queue run in the gap of the hook and after it (enqueues, claims,
  reclaims, heartbeats, completions, failures, cancellations, in any number and order), as long
  as the jobs that get handed out for the last time, before or during the claim, are finitely
  many (the set \<open>K\<close>).
\<close>

theorem claim_returns:
  assumes "build_registry p = Inr registry" and "queue_ok s" and "finite K" and "used_up_jobs s \<subseteq> K"
    and "queue_work K (wp_hook_gap p)" and "queue_work K others"
  shows "\<exists>r. worker_claim registry others qs w ls busy s = Some r"
  using claim_loop_returns [OF assms(2,4,3) claim_hook_work [OF assms(1,5,6)], of qs w ls busy 0]
  by (auto simp: worker_claim_def claim_def)

theorem claim_returns_witness:
  "\<exists>job s'. demo_worker_claim = Some (Inr (Some job, s')) \<and>
     map jb_job_type (t_jobs s') = [AGENT_EXECUTE_JOB, AGENT_EXECUTE_JOB, ORCHESTRATOR_ADVANCE_JOB]"
proof -
  have reg: "build_registry demo_parts = Inr (projr (build_registry demo_parts))"
    by (simp add: build_registry_value)
  have "\<exists>r. demo_worker_claim = Some r"
    unfolding demo_worker_claim_def
    by (rule claim_returns [OF reg worker_demo_ok(1) _ worker_demo_ok(2)]) (simp_all add: demo_parts_def)
  then obtain r where r: "demo_worker_claim = Some r" by blast
  from demo_worker_claim_value obtain job s' where v: "demo_worker_claim = Some (Inr (Some job, s'))"
      "map jb_job_type (t_jobs s') = [AGENT_EXECUTE_JOB, AGENT_EXECUTE_JOB, ORCHESTRATOR_ADVANCE_JOB]"
    by (elim exE conjE)
  then show ?thesis using r by (intro exI [of _ job] exI [of _ s'] conjI) simp_all
qed

text \<open>
  C22. A job that is due is not left behind. Under the conditions of C21, with a clock that does
  not go back, let a READY job of the listed queues be due and let no other transaction hold a
  lock on its row (a claim passes over locked rows). Then the worker's claim returns, however
  many used-up jobs it has to fail first, and it comes back empty only if that row is no longer
  as it was, so that another transaction has taken or changed it; if no other transaction does,
  the claim hands out a job.
\<close>

theorem due_job_is_served:
  assumes "build_registry p = Inr registry" and "queue_ok s" and "finite K" and "used_up_jobs s \<subseteq> K"
    and "queue_work K (wp_hook_gap p)" and "queue_work K others"
    and "\<And>s. utcnow s \<le> utcnow (wp_hook_gap p s)" and "\<And>s. utcnow s \<le> utcnow (others s)"
    and "j \<in> set (t_jobs s)" and "jb_status j = JOB_READY" and "jb_queue j \<in> set qs"
    and "jb_available_at j \<le> utcnow s" and "\<And>n. jb_id j \<notin> set (busy n)"
  shows "\<exists>r s'. worker_claim registry others qs w ls busy s = Some (Inr (r, s')) \<and>
    (r = None \<longrightarrow> j \<notin> set (t_jobs s')) \<and>
    (keeps j (wp_hook_gap p) \<and> keeps j others \<longrightarrow> r \<noteq> None)"
proof -
  let ?h = "Some (\<lambda>job err s. others (worker_on_exhausted registry job err s))"
  note work = claim_hook_work [OF assms(1,5,6)]
  obtain y where y: "claim_loop ?h qs w ls busy 0 s = Some y"
    using claim_loop_returns [OF assms(2,4,3) work, of qs w ls busy 0] by blast
  have clock: "utcnow s \<le> utcnow (run_exhausted ?h job err s)" for job err s
    using worker_hook_clock [OF assms(1,7), of s job err] assms(8)
    by (auto simp: run_exhausted_def intro: order_trans)
  have gone: "j \<notin> set (t_jobs (snd y))" if none: "fst y = None"
  proof
    assume j: "j \<in> set (t_jobs (snd y))"
    from claim_loop_empty [OF y none clock] obtain m where
      m: "utcnow s \<le> utcnow (snd y)" "claim_candidate qs (busy m) (snd y) = None" by blast
    have "runnable qs (utcnow (snd y)) j" using assms(10-12) m(1) by (simp add: runnable_def)
    then show False using candidate_some [OF j _ assms(13)] m(2) by blast
  qed
  have "fst y \<noteq> None" if k: "keeps j (wp_hook_gap p)" "keeps j others"
  proof
    assume none: "fst y = None"
    have "keeps j (run_exhausted ?h job err)" for job err
      using worker_hook_keeps [OF assms(1) k(1)] k(2) by (simp add: run_exhausted_def keeps_def)
    from claim_loop_keeps [OF y none assms(2) work this assms(9,10)] gone [OF none] show False by blast
  qed
  moreover have "qs \<noteq> []" using assms(11) by auto
  ultimately show ?thesis using y gone
    by (intro exI [of _ "fst y"] exI [of _ "snd y"]) (simp add: worker_claim_def claim_def)
qed

theorem due_job_is_served_witness:
  "\<exists>job s'. demo_worker_claim = Some (Inr (Some job, s'))"
proof -
  have reg: "build_registry demo_parts = Inr (projr (build_registry demo_parts))"
    by (simp add: build_registry_value)
  have "\<exists>r s'. worker_claim (projr (build_registry demo_parts)) (\<lambda>s. s) [''agent''] ''w'' 30 (\<lambda>_. [7]) worker_demo =
        Some (Inr (r, s')) \<and> (r = None \<longrightarrow> demo_job 2 JOB_READY 0 \<notin> set (t_jobs s')) \<and>
      (keeps (demo_job 2 JOB_READY 0) (wp_hook_gap demo_parts) \<and> keeps (demo_job 2 JOB_READY 0) (\<lambda>s. s) \<longrightarrow> r \<noteq> None)"
    by (rule due_job_is_served [OF reg worker_demo_ok(1) _ worker_demo_ok(2)])
      (simp_all add: demo_parts_def worker_demo_def demo_job_def new_job_def)
  then show ?thesis by (auto simp: demo_worker_claim_def keeps_def demo_parts_def)
qed

end
