(* ===== verification/LS_Runs.thy ===== *)
theory LS_Runs
  imports LS_Snapshot LS_Idempotency LS_Grounded LS_Progress
begin

text \<open>
  The run routes (\<open>app/api/analyses.py\<close>, \<open>app/api/runs.py\<close>): requesting an analysis, cancelling
  and retrying a run, and the read routes. A request is one transaction under its idempotency
  key; a request that raises leaves nothing behind but the audit entry of a refusal with status
  403. The order lock makes the check for an active run and the insertion of the new one a unit
  for each order.
\<close>

section \<open>The trace id of a request\<close>

text \<open>
  What \<open>uuid.UUID(value)\<close> reads: the prefixes \<open>urn:\<close> and \<open>uuid:\<close>, braces around the text and all
  dashes are dropped, and 32 characters have to remain that \<open>int\<close> reads in base 16, which
  allows for spaces around the number, a sign, \<open>0x\<close> and single underscores between digits.
\<close>

function delete_all :: "string \<Rightarrow> string \<Rightarrow> string" where
  "delete_all p [] = []"
| "delete_all p (c # cs) =
     (if p \<noteq> [] \<and> take (length p) (c # cs) = p then delete_all p (drop (length p) (c # cs))
      else c # delete_all p cs)"
  by pat_completeness auto
termination by (relation "measure (length \<circ> snd)") (auto simp: neq_Nil_conv)

definition strip_chars :: "(char \<Rightarrow> bool) \<Rightarrow> string \<Rightarrow> string" where
  "strip_chars P s = rev (dropWhile P (rev (dropWhile P s)))"

definition is_latin1_space :: "char \<Rightarrow> bool" where
  "is_latin1_space c \<longleftrightarrow> is_space c \<or> (of_char c :: nat) \<in> {133, 160}"

definition is_hex_char :: "char \<Rightarrow> bool" where
  "is_hex_char c \<longleftrightarrow>
     (let n = of_char c :: nat in (48 \<le> n \<and> n \<le> 57) \<or> (65 \<le> n \<and> n \<le> 70) \<or> (97 \<le> n \<and> n \<le> 102))"

fun hex_literal :: "string \<Rightarrow> bool" where
  "hex_literal [] = False"
| "hex_literal [c] = is_hex_char c"
| "hex_literal (c # d # cs) =
     (is_hex_char c \<and> (if d = CHR ''_'' then hex_literal cs else hex_literal (d # cs)))"

definition int_base_16 :: "string \<Rightarrow> bool" where
  "int_base_16 s =
     (let s = strip_chars is_latin1_space s;
          s = (case s of c # cs \<Rightarrow> if c = CHR ''+'' \<or> c = CHR ''-'' then cs else s | [] \<Rightarrow> s)
      in if take 2 s = ''0x'' \<or> take 2 s = ''0X''
         then (case drop 2 s of c # cs \<Rightarrow> hex_literal (if c = CHR ''_'' then cs else c # cs) | [] \<Rightarrow> False)
         else hex_literal s)"

definition is_uuid :: "string \<Rightarrow> bool" where
  "is_uuid v =
     (let h = filter (\<lambda>c. c \<noteq> CHR ''-'')
            (strip_chars (\<lambda>c. c = CHR ''{'' \<or> c = CHR ''}'') (delete_all ''uuid:'' (delete_all ''urn:'' v)))
      in length h = 32 \<and> int_base_16 h)"

text \<open>
  The id the middleware gives a request, from its headers (the last of equal names counts);
  \<open>uuid4().hex\<close> is the text without dashes.
\<close>

definition trace_id_of_request :: "(string \<times> string) list \<Rightarrow> db \<Rightarrow> string \<times> db" where
  "trace_id_of_request headers s =
     (let drawn_id = (let (i, s) = draw s in (filter (\<lambda>c. c \<noteq> CHR ''-'') (uuid_text i), s))
      in case map_of (rev headers) ''x-request-id'' of
           None \<Rightarrow> drawn_id
         | Some inbound \<Rightarrow> if inbound \<noteq> '''' \<and> is_uuid inbound then (inbound, s) else drawn_id)"

section \<open>Requesting a run\<close>

definition ANALYSIS_PERMISSION :: string where
  "ANALYSIS_PERMISSION = ''analysis:run''"

definition ANALYSIS_OPERATION :: string where
  "ANALYSIS_OPERATION = ''analysis:run''"

definition CANCEL_OPERATION :: string where
  "CANCEL_OPERATION = ''run:cancel''"

definition RETRY_OPERATION :: string where
  "RETRY_OPERATION = ''run:retry''"

definition BUSY_RUN_STATUSES :: "run_status list" where
  "BUSY_RUN_STATUSES = [RUN_QUEUED, RUN_RUNNING]"

definition MAX_ACTIVE_RUNS_PER_FACTORY :: nat where
  "MAX_ACTIVE_RUNS_PER_FACTORY = 5"

definition BLOCKED_ORDER_STATES :: "production_state list" where
  "BLOCKED_ORDER_STATES = [CANCELLED, DISPATCHED]"

text \<open>The settings a run is created with; the deadline is in seconds.\<close>

record run_settings =
  llm_provider :: string
  gemini_model :: string
  anthropic_model :: string
  run_deadline_seconds :: int

definition llm_identity :: "run_settings \<Rightarrow> string \<times> string" where
  "llm_identity settings =
     (if llm_provider settings = ''disabled'' then (''disabled'', ''disabled'')
      else if llm_provider settings = ''fixture'' then (''fixture'', ''fixture-scripted-v1'')
      else if llm_provider settings = ''gemini'' then (''gemini'', gemini_model settings)
      else (llm_provider settings, anthropic_model settings))"

text \<open>\<open>WHERE order_id = ... ORDER BY created_at LIMIT 1\<close>.\<close>

definition active_run_of :: "uuid \<Rightarrow> db \<Rightarrow> analysis_run option" where
  "active_run_of order_id s =
     (case sort_key ru_created_at
        (filter (\<lambda>r. ru_order_id r = order_id \<and> ru_status r \<in> set BUSY_RUN_STATUSES) (t_runs s)) of
        [] \<Rightarrow> None
      | r # _ \<Rightarrow> Some r)"

definition factory_active :: "uuid \<Rightarrow> db \<Rightarrow> nat" where
  "factory_active factory_id s =
     length (filter (\<lambda>r. ru_factory_id r = factory_id \<and> ru_status r \<in> set BUSY_RUN_STATUSES) (t_runs s))"

text \<open>The guards of \<open>start_run\<close>.\<close>

definition may_start :: "order \<Rightarrow> db \<Rightarrow> exn + unit" where
  "may_start ord s =
     bind_err (ensure (or_production_state ord \<notin> set BLOCKED_ORDER_STATES)
       (AppError 409 INVALID_TRANSITION
         (''An order in state '' @ production_state_value (or_production_state ord) @ '' cannot be analysed.'')
         [])) (\<lambda>_.
     bind_err (case active_run_of (or_id ord) s of
         None \<Rightarrow> Inr ()
       | Some r \<Rightarrow> Inl (AppError 409 CONFLICT
           (''Analysis run '' @ uuid_text (ru_id r) @ '' is already in progress.'') [])) (\<lambda>_.
     ensure (factory_active (or_factory_id ord) s < MAX_ACTIVE_RUNS_PER_FACTORY)
       (AppError 429 RATE_LIMITED
         ''Too many analysis runs are active in this factory; try again shortly.'' [])))"

text \<open>The row of a new run, with the defaults of its table; the trace identifier may be drawn.\<close>

definition new_run ::
  "principal \<Rightarrow> order \<Rightarrow> run_settings \<Rightarrow> string option \<Rightarrow> string \<Rightarrow> db \<Rightarrow> analysis_run \<times> db" where
  "new_run p ord settings trace key s =
     (let (i, s) = draw s;
          (trace_id, s) = (case trace of
              Some t \<Rightarrow> if t \<noteq> '''' then (t, s) else (let (j, s) = draw s in (uuid_text j, s))
            | None \<Rightarrow> (let (j, s) = draw s in (uuid_text j, s)));
          (provider, model) = llm_identity settings
      in (\<lparr>ru_id = i, ru_organization_id = or_organization_id ord, ru_factory_id = or_factory_id ord,
           ru_order_id = or_id ord, ru_status = RUN_QUEUED, ru_requested_by = p_user_id p,
           ru_idempotency_key = key, ru_snapshot_id = None, ru_replan_count = 0, ru_model_calls_used = 0,
           ru_model_calls_limit = 12, ru_tokens_used = 0, ru_token_budget = 200000,
           ru_llm_provider = provider, ru_llm_model = model, ru_degraded_reason = None,
           ru_error_code = None, ru_trace_id = trace_id,
           ru_deadline_at = utcnow s + run_deadline_seconds settings * 1000000, ru_started_at = None,
           ru_completed_at = None, ru_version = 1, ru_created_at = utcnow s\<rparr>, s))"

definition new_snapshot :: "uuid \<Rightarrow> analysis_run \<Rightarrow> snapshot_data \<times> (jtext \<times> json) list \<Rightarrow> run_snapshot" where
  "new_snapshot i run built =
     \<lparr>sn_id = i, sn_run_id = ru_id run, sn_organization_id = ru_organization_id run,
      sn_factory_id = ru_factory_id run, sn_order_id = ru_order_id run, sn_input_versions = snd built,
      sn_data = fst built\<rparr>"

definition user_actor :: "principal \<Rightarrow> string" where
  "user_actor p = ''user:'' @ uuid_text (p_user_id p)"

text \<open>The snapshot row, its link, the event, the first job and the audit entry of a new run.\<close>

definition created_event :: "analysis_run \<Rightarrow> order \<Rightarrow> uuid \<Rightarrow> json" where
  "created_event run ord snapshot_id =
     JObj [(Lit ''order_id'', JText (Id (or_id ord))), (Lit ''order_version'', JInt (or_version ord)),
       (Lit ''snapshot_id'', JText (Id snapshot_id)), (Lit ''llm_provider'', JStr (ru_llm_provider run)),
       (Lit ''llm_model'', JStr (ru_llm_model run))]"

definition requested_audit :: "principal \<Rightarrow> order \<Rightarrow> string option \<Rightarrow> analysis_run \<Rightarrow> db \<Rightarrow> db" where
  "requested_audit p ord trace run s =
     record_audit (or_organization_id ord) (Some (or_factory_id ord)) USER (Id (p_user_id p))
       ''analysis.requested'' ''analysis_run'' (Id (ru_id run)) SUCCESS None trace (Some (ru_id run)) None
       (Some (JObj [(Lit ''order_id'', JText (Id (or_id ord))), (Lit ''order_version'', JInt (or_version ord)),
          (Lit ''provider'', JStr (ru_llm_provider run))])) s"

definition store_run ::
  "principal \<Rightarrow> order \<Rightarrow> string option \<Rightarrow> analysis_run \<Rightarrow> snapshot_data \<times> (jtext \<times> json) list \<Rightarrow> db \<Rightarrow>
   exn + (analysis_run \<times> db)" where
  "store_run p ord trace run built s =
     (let (i, s) = draw s
      in bind_err (insert_row sn_id (new_snapshot i run built) (t_snapshots s)) (\<lambda>snapshots.
         let run = run\<lparr>ru_snapshot_id := Some i\<rparr>;
             s = update_run run (s\<lparr>t_snapshots := snapshots\<rparr>);
             s = append_event (ru_id run) ''run.created'' (user_actor p) (created_event run ord i) s
         in bind_err (enqueue ''orchestrator'' ORCHESTRATOR_ADVANCE_JOB
              (JObj [(Lit ''run_id'', JText (Id (ru_id run)))])
              (Some [Lit ''run:'', Id (ru_id run), Lit '':start'']) None 3 s) (\<lambda>(_, s).
            Inr (run, requested_audit p ord trace run s))))"

definition start_analysis ::
  "postgres \<Rightarrow> run_settings \<Rightarrow> principal \<Rightarrow> order \<Rightarrow> string option \<Rightarrow> string \<Rightarrow> db \<Rightarrow>
   exn + (analysis_run \<times> db)" where
  "start_analysis pg settings p ord trace key s =
     bind_err (may_start ord s) (\<lambda>_.
     let (run, s) = new_run p ord settings trace key s
     in bind_err (insert_row ru_id run (t_runs s)) (\<lambda>runs.
        let s = s\<lparr>t_runs := runs\<rparr>
        in bind_err (build_snapshot pg ord s) (\<lambda>built. store_run p ord trace run built s)))"

section \<open>The commands under their keys\<close>

definition accepted_body :: "analysis_run \<Rightarrow> json" where
  "accepted_body run =
     JObj [(Lit ''run_id'', JText (Id (ru_id run))), (Lit ''status'', JStr (run_status_value (ru_status run)))]"

text \<open>What a command answers: the stored response, or its own under the key.\<close>

definition keyed ::
  "(wire \<Rightarrow> string) \<Rightarrow> (nat \<Rightarrow> db \<Rightarrow> db) \<Rightarrow> principal \<Rightarrow> string \<Rightarrow> string \<Rightarrow> payload \<Rightarrow> int \<Rightarrow>
   (db \<Rightarrow> exn + (analysis_run \<times> db)) \<Rightarrow> db \<Rightarrow> exn + (stored_response \<times> db)" where
  "keyed sha meanwhile p operation key request_payload status command s =
     bind_err (idempotent_start sha meanwhile p operation key request_payload s) (\<lambda>(early, s).
     case early of
       Some r \<Rightarrow> Inr (r, s)
     | None \<Rightarrow>
         bind_err (command s) (\<lambda>(run, s).
         idempotent_finish p operation key status (accepted_body run) s))"

definition request_run ::
  "postgres \<Rightarrow> run_settings \<Rightarrow> principal \<Rightarrow> uuid \<Rightarrow> int \<Rightarrow> string option \<Rightarrow> string \<Rightarrow> db \<Rightarrow>
   exn + (analysis_run \<times> db)" where
  "request_run pg settings p order_id expected_version trace key s =
     bind_err (load_order order_id p ANALYSIS_PERMISSION s) (\<lambda>_.
     bind_err (lock_order order_id s) (\<lambda>(ord, s).
     bind_err (ensure (or_version ord = expected_version)
       (AppError 409 STALE_INPUT
         (''The order has changed (version '' @ int_text (or_version ord) @ ''); reload and try again.'') []))
       (\<lambda>_. start_analysis pg settings p ord trace key s)))"

definition load_run :: "uuid \<Rightarrow> principal \<Rightarrow> string \<Rightarrow> db \<Rightarrow> exn + analysis_run" where
  "load_run i p perm s =
     load_scoped ru_id (Some \<circ> ru_organization_id) (Some \<circ> ru_factory_id) (t_runs s) i p perm"

definition CANCELLABLE_STATUSES :: "run_status list" where
  "CANCELLABLE_STATUSES = [RUN_QUEUED, RUN_RUNNING, RUN_AWAITING_REVIEW]"

definition RETRYABLE_STATUSES :: "run_status list" where
  "RETRYABLE_STATUSES = [RUN_FAILED, RUN_DEGRADED, RUN_CANCELLED]"

definition SUPERSEDABLE_STATUSES :: "recommendation_status list" where
  "SUPERSEDABLE_STATUSES = [REC_DRAFT, REC_PROPOSED, REC_APPROVED]"

definition RUN_CANCELLED_REASON :: string where
  "RUN_CANCELLED_REASON = ''RUN_CANCELLED''"

text \<open>The three bulk updates of a cancellation.\<close>

definition cancel_tasks :: "uuid \<Rightarrow> db \<Rightarrow> db" where
  "cancel_tasks run_id s =
     s\<lparr>t_tasks := map (\<lambda>t. if tk_run_id t = run_id \<and> tk_status t \<in> set ACTIVE_TASK_STATUSES
         then t\<lparr>tk_status := TASK_CANCELLED, tk_completed_at := Some (utcnow s)\<rparr> else t) (t_tasks s)\<rparr>"

definition executes_one_of :: "uuid list \<Rightarrow> job \<Rightarrow> bool" where
  "executes_one_of task_ids j \<longleftrightarrow>
     jb_job_type j = AGENT_EXECUTE_JOB \<and>
     job_field j ''task_id'' \<in> JText ` Id ` set task_ids"

definition cancel_jobs :: "uuid list \<Rightarrow> db \<Rightarrow> db" where
  "cancel_jobs task_ids s = (if task_ids = [] then s else cancel_ready (executes_one_of task_ids) s)"

definition supersede_proposals :: "uuid \<Rightarrow> db \<Rightarrow> db" where
  "supersede_proposals run_id s =
     s\<lparr>t_recommendations := map (\<lambda>r. if rc_run_id r = run_id \<and> rc_status r \<in> set SUPERSEDABLE_STATUSES
         then r\<lparr>rc_status := REC_SUPERSEDED, rc_superseded_reason := Some RUN_CANCELLED_REASON,
                rc_version := rc_version r + 1\<rparr> else r) (t_recommendations s)\<rparr>"

definition cancel_locked :: "principal \<Rightarrow> analysis_run \<Rightarrow> string option \<Rightarrow> db \<Rightarrow> analysis_run \<times> db" where
  "cancel_locked p run trace s =
     (let previous = JStr (run_status_value (ru_status run));
          task_ids = map tk_id (filter (\<lambda>t. tk_run_id t = ru_id run) (t_tasks s));
          s = supersede_proposals (ru_id run) (cancel_jobs task_ids (cancel_tasks (ru_id run) s));
          run = run\<lparr>ru_status := RUN_CANCELLED, ru_completed_at := Some (utcnow s),
                    ru_version := ru_version run + 1\<rparr>;
          s = update_run run s;
          s = append_event (ru_id run) ''run.cancelled'' (user_actor p)
                (JObj [(Lit ''previous_status'', previous),
                   (Lit ''cancelled_tasks'', JArr (map (JText \<circ> Id) task_ids))]) s
      in (run, record_audit (ru_organization_id run) (Some (ru_factory_id run)) USER (Id (p_user_id p))
           ''analysis.cancelled'' ''analysis_run'' (Id (ru_id run)) SUCCESS None trace (Some (ru_id run))
           (Some (JObj [(Lit ''status'', previous)]))
           (Some (JObj [(Lit ''status'', JStr (run_status_value RUN_CANCELLED))])) s))"

definition cancel_run :: "principal \<Rightarrow> uuid \<Rightarrow> string option \<Rightarrow> db \<Rightarrow> exn + (analysis_run \<times> db)" where
  "cancel_run p run_id trace s =
     bind_err (load_run run_id p ANALYSIS_PERMISSION s) (\<lambda>scoped.
     let (locked, s) = lock_run (ru_id scoped) s
     in bind_err (some_or NoResultFound locked) (\<lambda>run.
        bind_err (ensure (ru_status run \<in> set CANCELLABLE_STATUSES)
          (AppError 409 INVALID_TRANSITION
            (''A '' @ run_status_value (ru_status run) @ '' run cannot be cancelled.'') [])) (\<lambda>_.
        Inr (cancel_locked p run trace s))))"

definition retry_run ::
  "postgres \<Rightarrow> run_settings \<Rightarrow> principal \<Rightarrow> uuid \<Rightarrow> string option \<Rightarrow> string \<Rightarrow> db \<Rightarrow>
   exn + (analysis_run \<times> db)" where
  "retry_run pg settings p run_id trace key s =
     bind_err (load_run run_id p ANALYSIS_PERMISSION s) (\<lambda>run.
     bind_err (ensure (ru_status run \<in> set RETRYABLE_STATUSES)
       (AppError 409 INVALID_TRANSITION
         (''A '' @ run_status_value (ru_status run) @ '' run cannot be retried.'') [])) (\<lambda>_.
     bind_err (lock_order (ru_order_id run) s) (\<lambda>(ord, s).
     start_analysis pg settings p ord trace key s)))"

section \<open>The routes\<close>

text \<open>The transaction of a request: committed with its answer, or rolled back.\<close>

definition settle ::
  "principal \<Rightarrow> uuid option \<Rightarrow> string \<Rightarrow> string \<Rightarrow> uuid \<Rightarrow> string option \<Rightarrow>
   exn + (stored_response \<times> db) \<Rightarrow> db \<Rightarrow> (exn + stored_response) \<times> db" where
  "settle p factory_id action target_type target_id trace out s =
     (case out of
        Inr (r, s') \<Rightarrow> (Inr r, commit s')
      | Inl e \<Rightarrow> (Inl e, audit_denial_from_error p e factory_id action target_type (Id target_id) trace s))"

definition request_analysis ::
  "(wire \<Rightarrow> string) \<Rightarrow> (nat \<Rightarrow> db \<Rightarrow> db) \<Rightarrow> postgres \<Rightarrow> run_settings \<Rightarrow> principal \<Rightarrow> uuid \<Rightarrow> int \<Rightarrow>
   string option \<Rightarrow> string \<Rightarrow> db \<Rightarrow> (exn + stored_response) \<times> db" where
  "request_analysis sha meanwhile pg settings p order_id expected_version trace key s =
     settle p (map_option or_factory_id (row or_id order_id (t_orders s))) ''analysis.requested'' ''order''
       order_id trace
       (keyed sha meanwhile p ANALYSIS_OPERATION key
         (PyDict [(PyStr ''order_id'', PyStr (uuid_text order_id)),
            (PyStr ''expected_order_version'', PyInt expected_version)]) 202
         (request_run pg settings p order_id expected_version trace key) s) s"

definition run_payload :: "uuid \<Rightarrow> payload" where
  "run_payload run_id = PyDict [(PyStr ''run_id'', PyStr (uuid_text run_id))]"

definition cancel_route ::
  "(wire \<Rightarrow> string) \<Rightarrow> (nat \<Rightarrow> db \<Rightarrow> db) \<Rightarrow> principal \<Rightarrow> uuid \<Rightarrow> string option \<Rightarrow> string \<Rightarrow> db \<Rightarrow>
   (exn + stored_response) \<times> db" where
  "cancel_route sha meanwhile p run_id trace key s =
     settle p (map_option ru_factory_id (row ru_id run_id (t_runs s))) ''analysis.cancelled'' ''analysis_run''
       run_id trace
       (keyed sha meanwhile p CANCEL_OPERATION key (run_payload run_id) 200 (cancel_run p run_id trace) s) s"

definition retry_route ::
  "(wire \<Rightarrow> string) \<Rightarrow> (nat \<Rightarrow> db \<Rightarrow> db) \<Rightarrow> postgres \<Rightarrow> run_settings \<Rightarrow> principal \<Rightarrow> uuid \<Rightarrow> string option \<Rightarrow>
   string \<Rightarrow> db \<Rightarrow> (exn + stored_response) \<times> db" where
  "retry_route sha meanwhile pg settings p run_id trace key s =
     settle p (map_option ru_factory_id (row ru_id run_id (t_runs s))) ''analysis.requested'' ''analysis_run''
       run_id trace
       (keyed sha meanwhile p RETRY_OPERATION key (run_payload run_id) 202
         (retry_run pg settings p run_id trace key) s) s"

section \<open>Reading runs\<close>

text \<open>How a provider is shown; the two fixed labels are constants of the schema module.\<close>

datatype llm_label_text = FIXTURE_LABEL | DISABLED_LABEL | ProviderLabel string string

record llm_label =
  ll_provider :: string
  ll_model :: string
  ll_is_fixture :: bool
  ll_label :: llm_label_text

definition llm_label_of :: "string \<Rightarrow> string \<Rightarrow> llm_label" where
  "llm_label_of provider model =
     \<lparr>ll_provider = provider, ll_model = model, ll_is_fixture = (provider = ''fixture''),
      ll_label = (if provider = ''fixture'' then FIXTURE_LABEL
                  else if provider = ''disabled'' then DISABLED_LABEL
                  else ProviderLabel provider model)\<rparr>"

record run_summary =
  sm_run :: analysis_run
  sm_order_ref :: "uuid \<times> string"
  sm_requested_by :: "uuid \<times> string"
  sm_llm :: llm_label

record run_detail =
  rd_summary :: run_summary
  rd_tasks :: "agent_task list"
  rd_results :: "agent_result list"
  rd_recommendations :: "recommendation list"
  rd_report :: "json option"

definition run_summary_of :: "analysis_run \<Rightarrow> db \<Rightarrow> exn + run_summary" where
  "run_summary_of run s =
     (case (row or_id (ru_order_id run) (t_orders s), row us_id (ru_requested_by run) (t_users s)) of
        (Some ord, Some u) \<Rightarrow>
          Inr \<lparr>sm_run = run, sm_order_ref = (or_id ord, or_external_ref ord),
               sm_requested_by = (us_id u, us_display_name u),
               sm_llm = llm_label_of (ru_llm_provider run) (ru_llm_model run)\<rparr>
      | _ \<Rightarrow> Inl (RuntimeError ''run references a missing order or user''))"

definition RUN_READ_PERMISSION :: string where
  "RUN_READ_PERMISSION = ''analysis:read''"

definition MAX_EVENTS :: nat where
  "MAX_EVENTS = 500"

definition get_run :: "principal \<Rightarrow> uuid \<Rightarrow> db \<Rightarrow> exn + run_detail" where
  "get_run p run_id s =
     bind_err (load_run run_id p RUN_READ_PERMISSION s) (\<lambda>run.
     bind_err (run_summary_of run s) (\<lambda>summary.
     Inr \<lparr>rd_summary = summary, rd_tasks = tasks_of run s,
          rd_results = map rr_payload (filter (\<lambda>r. rr_run_id r = ru_id run) (t_results s)),
          rd_recommendations = sort_key (\<lambda>r. - rc_created_at r)
            (filter (\<lambda>r. rc_run_id r = ru_id run) (t_recommendations s)),
          rd_report = map_option rn_payload (find (\<lambda>e. rn_run_id e = ru_id run \<and>
            rn_event_type e = REPORT_EVENT_TYPE) (rev (t_events s)))\<rparr>))"

text \<open>The serial number of an event is its place in the append-only list, from 1.\<close>

definition list_run_events :: "principal \<Rightarrow> uuid \<Rightarrow> nat \<Rightarrow> db \<Rightarrow> exn + (nat \<times> run_event) list" where
  "list_run_events p run_id after_id s =
     bind_err (load_run run_id p RUN_READ_PERMISSION s) (\<lambda>run.
     Inr (take MAX_EVENTS (filter (\<lambda>(i, e). rn_run_id e = ru_id run \<and> after_id < i)
       (zip [1..<Suc (length (t_events s))] (t_events s)))))"

definition list_order_runs ::
  "principal \<Rightarrow> uuid \<Rightarrow> nat \<Rightarrow> nat \<Rightarrow> db \<Rightarrow> exn + (run_summary list \<times> nat)" where
  "list_order_runs p order_id limit offset s =
     bind_err (load_order order_id p RUN_READ_PERMISSION s) (\<lambda>_.
     let base = filter (\<lambda>r. ru_order_id r = order_id) (t_runs s)
     in bind_err (map_err (\<lambda>r. run_summary_of r s)
          (take limit (drop offset (sort_key (\<lambda>r. - ru_created_at r) base)))) (\<lambda>items.
        Inr (items, length base)))"

section \<open>One active run for each order\<close>

definition run_busy :: "analysis_run \<Rightarrow> bool" where
  "run_busy r \<longleftrightarrow> ru_status r \<in> set BUSY_RUN_STATUSES"

definition one_active :: "db \<Rightarrow> bool" where
  "one_active s \<longleftrightarrow> distinct (map ru_id (t_runs s)) \<and> distinct (map ru_order_id (filter run_busy (t_runs s)))"

text \<open>What an update of a run may do: it ends, or it goes on for the same order.\<close>

definition run_moves :: "analysis_run \<Rightarrow> analysis_run \<Rightarrow> bool" where
  "run_moves r r' \<longleftrightarrow> ru_id r' = ru_id r \<and> (run_busy r' \<longrightarrow> run_busy r \<and> ru_order_id r' = ru_order_id r)"

lemma distinct_busy_upd:
  assumes "distinct (map ru_id rs)" and "distinct (map ru_order_id (filter run_busy rs))"
    and "row ru_id i rs = Some r" and "run_moves r r'"
  shows "distinct (map ru_order_id (filter run_busy (upd ru_id r' rs)))"
proof -
  have "set (map ru_order_id (filter run_busy (upd ru_id r' rs))) \<subseteq> set (map ru_order_id (filter run_busy rs)) \<and>
      distinct (map ru_order_id (filter run_busy (upd ru_id r' rs)))"
    using assms
  proof (induction rs)
    case (Cons x xs)
    show ?case
    proof (cases "ru_id x = i")
      case True
      then have "x = r" using Cons.prems(3) by simp
      moreover have "upd ru_id r' xs = xs"
        using Cons.prems(1,4) True \<open>x = r\<close> by (fastforce simp: upd_def run_moves_def image_iff intro!: map_idI)
      ultimately show ?thesis using Cons.prems(1,2,4) by (auto simp: run_moves_def)
    next
      case False
      then have r: "row ru_id i xs = Some r" using Cons.prems(3) by simp
      have "set (map ru_order_id (filter run_busy (upd ru_id r' xs))) \<subseteq> set (map ru_order_id (filter run_busy xs)) \<and>
          distinct (map ru_order_id (filter run_busy (upd ru_id r' xs)))"
        using Cons.prems(1,2,4) r by (intro Cons.IH) (auto split: if_splits)
      moreover have "ru_id r' \<noteq> ru_id x" using row_key [OF r] Cons.prems(4) False by (simp add: run_moves_def)
      ultimately show ?thesis using Cons.prems(2) by auto
    qed
  qed simp
  then show ?thesis by blast
qed

lemma one_active_upd:
  assumes "one_active s" and "row ru_id i (t_runs s) = Some r" and "run_moves r r'"
    and "t_runs s' = upd ru_id r' (t_runs s)"
  shows "one_active s'"
  using assms distinct_busy_upd unfolding one_active_def by (metis keys_upd)

lemma run_moves_refl [simp]: "run_moves r r"
  by (simp add: run_moves_def)

lemma run_moves_trans: "run_moves a b \<Longrightarrow> run_moves b c \<Longrightarrow> run_moves a c"
  by (auto simp: run_moves_def)

text \<open>Ended runs are not active.\<close>

lemma terminal_not_busy: "ru_status r \<in> set TERMINAL_RUN_STATUSES \<longleftrightarrow> \<not> run_busy r"
  by (cases "ru_status r") (simp_all add: TERMINAL_RUN_STATUSES_def run_busy_def BUSY_RUN_STATUSES_def)

text \<open>A step of the orchestrator moves at most the run it decides about.\<close>

definition moved_run :: "analysis_run \<Rightarrow> db \<Rightarrow> db \<Rightarrow> bool" where
  "moved_run run s s' \<longleftrightarrow>
     t_runs s' = t_runs s \<or> (\<exists>r'. run_moves run r' \<and> t_runs s' = upd ru_id r' (t_runs s))"

lemma moved_same: "t_runs s' = t_runs s \<Longrightarrow> moved_run run s s'"
  by (simp add: moved_run_def)

lemma one_envelope_runs: "one_envelope r a ty n pa refs s = Inr (es, s') \<Longrightarrow> t_runs s' = t_runs s"
  by (auto simp: one_envelope_def envelope_for_def make_envelope_def run_simps draw_def split: option.splits)

lemma round_zero_runs: "round_zero_envelopes r refs specs s = Inr (es, s') \<Longrightarrow> t_runs s' = t_runs s"
proof (induction specs arbitrary: s es)
  case (Cons x specs)
  obtain a ty where "x = (a, ty)" by fastforce
  with Cons show ?case
    by (fastforce simp: run_simps envelope_for_def make_envelope_def draw_def split: option.splits)
qed simp

lemma closed_moves: "run_closed run s s' \<Longrightarrow> moved_run run s s'"
  by (auto simp: run_closed_def moved_run_def run_moves_def terminal_not_busy)

lemma after_planning_runs:
  assumes "after_planning digest run sid tasks results t q s = Inr (es, s')"
  shows "moved_run run s s'"
  using assms
  by (auto simp: after_planning_def run_simps split: if_splits option.splits
      dest: one_envelope_runs finalizeD(1) intro: moved_same closed_moves)

lemma note_replan_runs:
  assumes "note_replan run reason s = (r, s')"
  shows "moved_run run s s'"
proof -
  have "run_moves run r \<and> (t_runs s' = t_runs s \<or> t_runs s' = upd ru_id r (t_runs s))"
    using assms by (auto simp: note_replan_def Let_def run_moves_def run_busy_def split: if_splits)
  then show ?thesis by (auto simp: moved_run_def)
qed

lemma decide_tasks_runs:
  assumes "decide_tasks digest run sid tasks results s = Inr (es, s')"
  shows "moved_run run s s'"
  using assms
  by (auto simp: decide_tasks_def Let_def split: if_splits option.splits prod.splits
      dest!: round_zero_runs one_envelope_runs note_replan_runs after_planning_runs
      intro: moved_same simp: moved_run_def)

lemma decide_run_moves:
  assumes "decide_run digest run s = Inr (es, s')"
  shows "moved_run run s s'"
proof (cases "ru_status run \<in> set TERMINAL_RUN_STATUSES \<or> ru_deadline_at run \<le> utcnow s")
  case True
  with assms show ?thesis
    by (auto simp: decide_run_def run_simps split: if_splits option.splits
        intro: moved_same closed_moves dest: finalize_deadlineD(1))
next
  case False
  obtain r t sid where st: "start_run run sid s = (r, t)"
    and de: "decide_tasks digest r sid (tasks_of run s) (results_of run s) t = Inr (es, s')"
    using assms False by (auto simp: decide_run_def Let_def split: option.splits prod.splits)
  have r: "run_moves run r" "t_runs t = t_runs s \<or> t_runs t = upd ru_id r (t_runs s)"
    using st False by (auto simp: start_run_def Let_def run_moves_def run_busy_def BUSY_RUN_STATUSES_def split: if_splits)
  from decide_tasks_runs [OF de] show ?thesis
    unfolding moved_run_def
  proof (elim disjE exE conjE)
    assume "t_runs s' = t_runs t"
    with r show "t_runs s' = t_runs s \<or> (\<exists>r'. run_moves run r' \<and> t_runs s' = upd ru_id r' (t_runs s))" by auto
  next
    fix r' assume r': "run_moves r r'" "t_runs s' = upd ru_id r' (t_runs t)"
    then have "ru_id r' = ru_id r" by (simp add: run_moves_def)
    with r r' have "t_runs s' = upd ru_id r' (t_runs s)" by (auto simp: upd_upd [of ru_id r' r])
    with run_moves_trans [OF r(1) r'(1)]
    show "t_runs s' = t_runs s \<or> (\<exists>r'. run_moves run r' \<and> t_runs s' = upd ru_id r' (t_runs s))" by blast
  qed
qed


section \<open>What the commands do to the runs\<close>

lemma upd_appended: "key r \<notin> key ` set rs \<Longrightarrow> key x = key r \<Longrightarrow> upd key r (rs @ [x]) = rs @ [r]"
  using upd_absent [of key r rs] by (simp add: upd_def)

lemma enqueue_runs: "enqueue q ty pl key av m s = Inr (i, s') \<Longrightarrow> t_runs s' = t_runs s"
  by (auto simp: enqueue_def run_simps draw_def split: if_splits)

lemma store_runD:
  assumes "store_run p ord trace run0 built s = Inr (run, s')"
  obtains i j where "i = uuid4 s (drawn s)" and "run = run0\<lparr>ru_snapshot_id := Some i\<rparr>"
    and "t_runs s' = upd ru_id run (t_runs s)" and "t_snapshots s' = t_snapshots s @ [new_snapshot i run0 built]"
    and "t_jobs s' = t_jobs s \<or> t_jobs s' = t_jobs s @ [j]"
  using assms
  by (auto simp: store_run_def run_simps draw_def enqueue_def requested_audit_def insert_row_Inr split: if_splits)

lemma start_analysisD:
  assumes "start_analysis pg settings p ord trace key s = Inr (run, s')"
  shows "t_runs s' = t_runs s @ [run]" and "ru_id run \<notin> ru_id ` set (t_runs s)"
    and "ru_status run = RUN_QUEUED" and "ru_order_id run = or_id ord" and "active_run_of (or_id ord) s = None"
proof -
  obtain run0 s0 where n: "new_run p ord settings trace key s = (run0, s0)" by fastforce
  have r0: "t_runs s0 = t_runs s" "ru_status run0 = RUN_QUEUED" "ru_order_id run0 = or_id ord"
    using n by (auto simp: new_run_def Let_def draw_def split: option.splits if_splits prod.splits)
  from assms n obtain built where new: "ru_id run0 \<notin> ru_id ` set (t_runs s0)"
    and st: "store_run p ord trace run0 built (s0\<lparr>t_runs := t_runs s0 @ [run0]\<rparr>) = Inr (run, s')"
    and "may_start ord s = Inr ()"
    by (auto simp: start_analysis_def bind_err_Inr insert_row_Inr Let_def)
  from st obtain i where run: "run = run0\<lparr>ru_snapshot_id := Some i\<rparr>"
    and runs: "t_runs s' = upd ru_id run (t_runs s0 @ [run0])" by (rule store_runD) simp
  show "t_runs s' = t_runs s @ [run]"
    unfolding runs r0(1) [symmetric] using new run by (intro upd_appended) simp_all
  show "ru_id run \<notin> ru_id ` set (t_runs s)" "ru_status run = RUN_QUEUED" "ru_order_id run = or_id ord"
    using new r0 run by simp_all
  show "active_run_of (or_id ord) s = None"
    using \<open>may_start ord s = Inr ()\<close>
    by (cases "active_run_of (or_id ord) s") (simp_all add: may_start_def bind_err_Inr)
qed

lemma active_run_None:
  "active_run_of i s = None \<longleftrightarrow> (\<forall>r \<in> set (t_runs s). run_busy r \<longrightarrow> ru_order_id r \<noteq> i)"
proof -
  have n: "sort_key ru_created_at xs = [] \<longleftrightarrow> xs = []" for xs by (metis length_0_conv length_sort)
  have c: "(case xs of [] \<Rightarrow> None | r # _ \<Rightarrow> Some r) = None \<longleftrightarrow> xs = []" for xs :: "analysis_run list"
    by (cases xs) simp_all
  show ?thesis unfolding active_run_of_def c n filter_empty_conv run_busy_def by blast
qed

lemma one_active_started:
  assumes "one_active s" and "start_analysis pg settings p ord trace key s = Inr (run, s')"
  shows "one_active s'"
  using assms(1) start_analysisD [OF assms(2)]
  by (auto simp: one_active_def active_run_None image_iff)

lemma cancel_lockedD:
  assumes "cancel_locked p run trace s = (run', s')"
  shows "run' = run\<lparr>ru_status := RUN_CANCELLED, ru_completed_at := Some (utcnow s), ru_version := ru_version run + 1\<rparr>"
    and "t_runs s' = upd ru_id run' (t_runs s)"
    and "t_tasks s' = t_tasks (cancel_tasks (ru_id run) s)"
    and "t_jobs s' = t_jobs (cancel_jobs (map tk_id (filter (\<lambda>t. tk_run_id t = ru_id run) (t_tasks s))) s)"
    and "t_recommendations s' = t_recommendations (supersede_proposals (ru_id run) s)"
  using assms
  by (auto simp: cancel_locked_def Let_def cancel_tasks_def cancel_jobs_def cancel_ready_def supersede_proposals_def)

lemma cancel_runD:
  assumes "cancel_run p run_id trace s = Inr (run', s')"
  obtains run s1 where "row ru_id run_id (t_runs s) = Some run" and "ru_status run \<in> set CANCELLABLE_STATUSES"
    and "s1 = take_locks [LockRun run_id] s" and "cancel_locked p run trace s1 = (run', s')" and "ru_id run = run_id"
proof -
  from assms obtain x y where x: "row ru_id run_id (t_runs s) = Some x" "row ru_id (ru_id x) (t_runs s) = Some y"
    and "ru_status y \<in> set CANCELLABLE_STATUSES"
      "cancel_locked p y trace (take_locks [LockRun (ru_id x)] s) = (run', s')"
    by (auto simp: cancel_run_def run_simps lock_run_def load_run_def load_scoped_def
        split: option.splits sum.splits if_splits)
  with row_key [OF x(1)] show thesis by (intro that [of x]) auto
qed


text \<open>
  The transactions that touch runs: the commands, a step of the orchestrator, and any other
  that leaves the order and the status of every run alone.
\<close>

definition run_core :: "analysis_run \<Rightarrow> uuid \<times> uuid \<times> run_status" where
  "run_core r = (ru_id r, ru_order_id r, ru_status r)"

inductive run_step :: "(json \<Rightarrow> string) \<Rightarrow> postgres \<Rightarrow> db \<Rightarrow> db \<Rightarrow> bool" for digest pg where
  requested: "request_run pg settings p order_id v trace key s = Inr (run, s') \<Longrightarrow> run_step digest pg s s'"
| retried: "retry_run pg settings p run_id trace key s = Inr (run, s') \<Longrightarrow> run_step digest pg s s'"
| cancelled: "cancel_run p run_id trace s = Inr (run, s') \<Longrightarrow> run_step digest pg s s'"
| advanced: "row ru_id i (t_runs s) = Some run \<Longrightarrow> decide_run digest run s = Inr (es, s') \<Longrightarrow>
    run_step digest pg s s'"
| elsewhere: "map run_core (t_runs s') = map run_core (t_runs s) \<Longrightarrow> run_step digest pg s s'"

lemma one_active_core:
  assumes "map run_core (t_runs s') = map run_core (t_runs s)"
  shows "one_active s' \<longleftrightarrow> one_active s"
proof -
  have ids: "map ru_id rs = map fst (map run_core rs)" for rs by (simp add: run_core_def)
  have busy: "map ru_order_id (filter run_busy rs) =
      map (fst \<circ> snd) (filter (\<lambda>c. snd (snd c) \<in> set BUSY_RUN_STATUSES) (map run_core rs))" for rs
    by (induction rs) (auto simp: run_core_def run_busy_def)
  show ?thesis unfolding one_active_def ids busy assms ..
qed

lemma locked_start:
  assumes "one_active s" and "lock_order i s = Inr (ord, s1)"
    and "start_analysis pg settings p ord trace key s1 = Inr (run, s')"
  shows "one_active s'"
proof -
  have "t_runs s1 = t_runs s" using assms(2) by (auto simp: lock_order_def run_simps take_locks_def)
  then have "one_active s1" using assms(1) by (simp add: one_active_def)
  then show ?thesis using assms(3) by (rule one_active_started)
qed

lemma run_step_one_active:
  assumes "run_step digest pg s s'" and "one_active s"
  shows "one_active s'"
  using assms
proof (induction rule: run_step.induct)
  case (requested settings p order_id v trace key s run s')
  then show ?case by (auto simp: request_run_def run_simps intro: locked_start)
next
  case (retried settings p run_id trace key s run s')
  then show ?case by (auto simp: retry_run_def run_simps intro: locked_start)
next
  case (cancelled p run_id trace s run' s')
  obtain run s1 where r: "row ru_id run_id (t_runs s) = Some run" and s1: "s1 = take_locks [LockRun run_id] s"
    and c: "cancel_locked p run trace s1 = (run', s')" and "ru_id run = run_id"
    by (rule cancel_runD [OF cancelled(1)]) (rule that)
  have "run_moves run run'"
    using cancel_lockedD(1) [OF c] by (simp add: run_moves_def run_busy_def BUSY_RUN_STATUSES_def)
  then show ?case
    using cancelled(2) r cancel_lockedD(2) [OF c] s1 by (intro one_active_upd [of s run_id run run' s'])
      (simp_all add: take_locks_def)
next
  case (advanced i s run es s')
  from decide_run_moves [OF advanced(2)] show ?case
    unfolding moved_run_def
  proof (elim disjE exE conjE)
    assume "t_runs s' = t_runs s"
    then show "one_active s'" using advanced(3) by (simp add: one_active_def)
  next
    fix r' assume "run_moves run r'" "t_runs s' = upd ru_id r' (t_runs s)"
    then show "one_active s'" using one_active_upd [OF advanced(3,1)] by blast
  qed
next
  case (elsewhere s' s)
  then show ?case using one_active_core by blast
qed

lemma run_steps_one_active: "(run_step digest pg)\<^sup>*\<^sup>* s s' \<Longrightarrow> one_active s \<Longrightarrow> one_active s'"
  by (induction rule: rtranclp_induct) (auto intro: run_step_one_active)

text \<open>
  Along every sequence of transactions (requests, retries, cancellations, steps of the
  orchestrator and whatever leaves the runs' orders and statuses alone) an order has at most one
  QUEUED or RUNNING analysis run.
\<close>

theorem one_active_run_always:
  assumes "(run_step digest pg)\<^sup>*\<^sup>* s s'" and "one_active s"
  shows "\<forall>a \<in> set (t_runs s'). \<forall>b \<in> set (t_runs s').
    ru_status a \<in> {RUN_QUEUED, RUN_RUNNING} \<longrightarrow> ru_status b \<in> {RUN_QUEUED, RUN_RUNNING} \<longrightarrow>
    ru_order_id a = ru_order_id b \<longrightarrow> a = b"
proof -
  have "inj_on ru_order_id {r \<in> set (t_runs s'). run_busy r}"
    using run_steps_one_active [OF assms] by (simp add: one_active_def distinct_map)
  then have "a = b" if "a \<in> set (t_runs s')" "b \<in> set (t_runs s')" "run_busy a" "run_busy b" "ru_order_id a = ru_order_id b" for a b
    using that by (auto dest: inj_onD)
  then show ?thesis by (simp add: run_busy_def BUSY_RUN_STATUSES_def)
qed

section \<open>A cancelled run is over\<close>

lemma decide_cancelled: "ru_status run = RUN_CANCELLED \<Longrightarrow> decide_run digest run s = Inr ([], s)"
  by (simp add: decide_run_def TERMINAL_RUN_STATUSES_def)

lemma dispatch_cancelled:
  assumes "row ru_id (te_run_id e) (t_runs s) = Some run" and "ru_status run = RUN_CANCELLED"
    and "existing_task (te_idempotency_key e) s = None"
  shows "\<exists>err s'. dispatch_agent_task e trace s = (Inl err, s') \<and> t_tasks s' = t_tasks s \<and> t_jobs s' = t_jobs s"
  using assms by (auto simp: dispatch_agent_task_def deny_def DISPATCHABLE_RUN_STATUSES_def audit_denied_def)

lemma execute_cancelled:
  assumes "job_task_id job = Inr i" and "row tk_id i (t_tasks s) = Some t"
    and "row ru_id (tk_run_id t) (t_runs s) = Some run" and "ru_status run = RUN_CANCELLED"
  shows "execute_agent_task agents llm meanwhile between job s = finish_job job s"
  using assms by (cases "snapshot_of run s") (simp_all add: execute_agent_task_def load_task_def)

lemma loaded_row: "load_recommendation i p perm s = Inr r \<Longrightarrow> row rc_id i (t_recommendations s) = Some r"
  by (auto simp: load_recommendation_def load_scoped_def Let_def split: option.splits sum.splits if_splits)

lemma apply_needs_approved:
  assumes "apply_recommendation p i h trace s = Inr out"
  shows "\<exists>r. row rc_id i (t_recommendations s) = Some r \<and> rc_status r = REC_APPROVED"
proof -
  from assms obtain scoped x s1 rec s2 where "load_recommendation i p APPLY_PERMISSION s = Inr scoped"
    and "lock_order (rc_order_id scoped) s = Inr (x, s1)" and "lock_recommendation (rc_id scoped) s1 = Inr (rec, s2)"
    and "rc_status rec = REC_APPROVED"
    unfolding apply_recommendation_def bind_err_Inr case_prod_Inr ensure_simps by blast
  moreover from calculation(1) have "row rc_id i (t_recommendations s) = Some scoped" by (rule loaded_row)
  ultimately show ?thesis using row_key [of rc_id i "t_recommendations s" scoped]
    by (auto simp: lock_order_def lock_recommendation_def take_locks_def run_simps)
qed

lemma decide_needs_proposed:
  assumes "decide p i d reason h trace s = Inr out"
  shows "\<exists>r. row rc_id i (t_recommendations s) = Some r \<and> rc_status r = REC_PROPOSED"
proof -
  from assms obtain scoped x s1 rec s2 where "load_recommendation i p DECIDE_PERMISSION s = Inr scoped"
    and "lock_order (rc_order_id scoped) s = Inr (x, s1)" and "lock_recommendation (rc_id scoped) s1 = Inr (rec, s2)"
    and "rc_status rec = REC_PROPOSED"
    unfolding decide_def bind_err_Inr case_prod_Inr ensure_simps by blast
  moreover from calculation(1) have "row rc_id i (t_recommendations s) = Some scoped" by (rule loaded_row)
  ultimately show ?thesis using row_key [of rc_id i "t_recommendations s" scoped]
    by (auto simp: lock_order_def lock_recommendation_def take_locks_def run_simps)
qed

text \<open>An element of a bulk update was changed, or does not satisfy its condition.\<close>

lemma in_bulk: "x \<in> set (map (\<lambda>u. if P u then g u else u) xs) \<Longrightarrow> (\<exists>u. P u \<and> x = g u) \<or> \<not> P x"
  by (auto split: if_splits)

lemma cancelled_tasks_ended:
  assumes "t \<in> set (t_tasks (cancel_tasks i s))" and "tk_run_id t = i"
  shows "tk_status t \<notin> {TASK_PENDING, TASK_RUNNING}"
proof -
  have "(\<exists>u. (tk_run_id u = i \<and> tk_status u \<in> set ACTIVE_TASK_STATUSES) \<and>
        t = u\<lparr>tk_status := TASK_CANCELLED, tk_completed_at := Some (utcnow s)\<rparr>) \<or>
      \<not> (tk_run_id t = i \<and> tk_status t \<in> set ACTIVE_TASK_STATUSES)"
    by (rule in_bulk [where xs = "t_tasks s"]) (use assms(1) in \<open>simp add: cancel_tasks_def\<close>)
  then show ?thesis using assms(2) by (elim disjE exE conjE) (simp_all add: ACTIVE_TASK_STATUSES_def)
qed

lemma cancelled_proposals_closed:
  assumes "x \<in> set (t_recommendations (supersede_proposals i s))" and "rc_run_id x = i"
  shows "rc_status x \<notin> {REC_DRAFT, REC_PROPOSED, REC_APPROVED}"
proof -
  have "(\<exists>u. (rc_run_id u = i \<and> rc_status u \<in> set SUPERSEDABLE_STATUSES) \<and>
        x = u\<lparr>rc_status := REC_SUPERSEDED, rc_superseded_reason := Some RUN_CANCELLED_REASON,
              rc_version := rc_version u + 1\<rparr>) \<or>
      \<not> (rc_run_id x = i \<and> rc_status x \<in> set SUPERSEDABLE_STATUSES)"
    by (rule in_bulk [where xs = "t_recommendations s"]) (use assms(1) in \<open>simp add: supersede_proposals_def\<close>)
  then show ?thesis using assms(2) by (elim disjE exE conjE) (simp_all add: SUPERSEDABLE_STATUSES_def)
qed

lemma cancelled_jobs_stopped:
  assumes "j \<in> set (t_jobs (cancel_jobs ids s))" and "executes_one_of ids j"
  shows "jb_status j \<noteq> JOB_READY"
proof (cases "ids = []")
  case True
  then show ?thesis using assms(2) by (simp add: executes_one_of_def)
next
  case False
  have "(\<exists>u. (executes_one_of ids u \<and> jb_status u = JOB_READY) \<and>
        j = u\<lparr>jb_status := JOB_CANCELLED, jb_completed_at := Some (utcnow s)\<rparr>) \<or>
      \<not> (executes_one_of ids j \<and> jb_status j = JOB_READY)"
    by (rule in_bulk [where xs = "t_jobs s"]) (use assms(1) False in \<open>simp add: cancel_jobs_def cancel_ready_def\<close>)
  then show ?thesis using assms(2) by auto
qed

lemma cancel_tasks_ids:
  "map tk_id (filter (\<lambda>t. tk_run_id t = j) (t_tasks (cancel_tasks i s))) =
   map tk_id (filter (\<lambda>t. tk_run_id t = j) (t_tasks s))"
proof -
  have "map tk_id (filter (\<lambda>t. tk_run_id t = j) (map (\<lambda>t. if P t then t\<lparr>tk_status := a, tk_completed_at := b\<rparr> else t) ts)) =
      map tk_id (filter (\<lambda>t. tk_run_id t = j) ts)" for P a b ts
    by (induction ts) auto
  then show ?thesis by (simp add: cancel_tasks_def)
qed

lemma never_Inr: "(\<And>y. x \<noteq> Inr y) \<Longrightarrow> \<exists>e. x = Inl e"
  by (cases x) auto

text \<open>
  A cancelled run is over. It is CANCELLED; no step of the orchestrator decides anything for
  it any more; an envelope for a new task of it is refused and stores nothing; no task of it is
  PENDING or RUNNING, a job that executes one only completes, and none is READY; and every
  proposal of it is beyond decision and application.
\<close>

theorem cancelled_run_is_over:
  assumes "cancel_run p run_id trace s = Inr (run, s')"
  shows "row ru_id run_id (t_runs s') = Some run \<and> ru_status run = RUN_CANCELLED \<and>
    (\<forall>digest t. decide_run digest run t = Inr ([], t)) \<and>
    (\<forall>e tr. te_run_id e = run_id \<and> existing_task (te_idempotency_key e) s' = None \<longrightarrow>
       (\<exists>err t. dispatch_agent_task e tr s' = (Inl err, t) \<and> t_tasks t = t_tasks s' \<and> t_jobs t = t_jobs s')) \<and>
    (\<forall>t \<in> set (t_tasks s'). tk_run_id t = run_id \<longrightarrow> tk_status t \<notin> {TASK_PENDING, TASK_RUNNING}) \<and>
    (\<forall>job i t agents llm meanwhile between. job_task_id job = Inr i \<and> row tk_id i (t_tasks s') = Some t \<and>
       tk_run_id t = run_id \<longrightarrow> execute_agent_task agents llm meanwhile between job s' = finish_job job s') \<and>
    (\<forall>j \<in> set (t_jobs s'). executes_one_of (map tk_id (filter (\<lambda>t. tk_run_id t = run_id) (t_tasks s'))) j \<longrightarrow>
       jb_status j \<noteq> JOB_READY) \<and>
    (\<forall>i r. row rc_id i (t_recommendations s') = Some r \<and> rc_run_id r = run_id \<longrightarrow>
       rc_status r \<notin> {REC_DRAFT, REC_PROPOSED, REC_APPROVED} \<and>
       (\<forall>u d reason h tr. (\<exists>err. decide u i d reason h tr s' = Inl err) \<and>
          (\<exists>err. apply_recommendation u i h tr s' = Inl err)))"
proof -
  obtain run0 s1 where r: "row ru_id run_id (t_runs s) = Some run0" "ru_id run0 = run_id"
    and s1: "s1 = take_locks [LockRun run_id] s" and c: "cancel_locked p run0 trace s1 = (run, s')"
    by (rule cancel_runD [OF assms]) (rule that)
  note c = cancel_lockedD [OF c]
  have run: "row ru_id run_id (t_runs s') = Some run" "ru_status run = RUN_CANCELLED"
    using r c(1,2) s1 by (simp_all add: row_upd take_locks_def)
  have tasks: "tk_status t \<notin> {TASK_PENDING, TASK_RUNNING}" if "t \<in> set (t_tasks s')" "tk_run_id t = run_id" for t
    using that unfolding c(3) r(2) by (rule cancelled_tasks_ended)
  have recs: "rc_status x \<notin> {REC_DRAFT, REC_PROPOSED, REC_APPROVED}"
    if x: "row rc_id i (t_recommendations s') = Some x \<and> rc_run_id x = run_id" for i x
    using row_in_set [OF x [THEN conjunct1]] conjunct2 [OF x] unfolding c(5) r(2)
    by (rule cancelled_proposals_closed)
  have ids: "map tk_id (filter (\<lambda>t. tk_run_id t = run_id) (t_tasks s')) =
      map tk_id (filter (\<lambda>t. tk_run_id t = run_id) (t_tasks s1))"
    unfolding c(3) r(2) by (rule cancel_tasks_ids)
  have jobs: "jb_status j \<noteq> JOB_READY"
    if "j \<in> set (t_jobs s')" "executes_one_of (map tk_id (filter (\<lambda>t. tk_run_id t = run_id) (t_tasks s'))) j" for j
    using that unfolding c(4) ids r(2) by (rule cancelled_jobs_stopped)
  have sent: "\<exists>err t. dispatch_agent_task e tr s' = (Inl err, t) \<and> t_tasks t = t_tasks s' \<and> t_jobs t = t_jobs s'"
    if "te_run_id e = run_id \<and> existing_task (te_idempotency_key e) s' = None" for e tr
    using that run by (intro dispatch_cancelled) simp_all
  have idle: "execute_agent_task agents llm meanwhile between job s' = finish_job job s'"
    if "job_task_id job = Inr i \<and> row tk_id i (t_tasks s') = Some t \<and> tk_run_id t = run_id"
    for job i t agents llm meanwhile between
    by (rule execute_cancelled [of job i s' t run]) (use that run in simp_all)
  have undecidable: "\<exists>err. decide u i d reason h tr s' = Inl err"
    if "row rc_id i (t_recommendations s') = Some x \<and> rc_run_id x = run_id" for i x u d reason h tr
    using decide_needs_proposed [of u i d reason h tr s'] recs that by (fastforce intro: never_Inr)
  have inapplicable: "\<exists>err. apply_recommendation u i h tr s' = Inl err"
    if "row rc_id i (t_recommendations s') = Some x \<and> rc_run_id x = run_id" for i x u h tr
    using apply_needs_approved [of u i h tr s'] recs that by (fastforce intro: never_Inr)
  note facts = run tasks jobs sent idle recs undecidable inapplicable decide_cancelled [OF run(2)]
  show ?thesis
    by (intro conjI allI impI ballI) (assumption | rule facts)+
qed


section \<open>Concrete runs\<close>

definition runs_demo :: db where
  "runs_demo = empty_db
     \<lparr>t_runs := [demo_run_row], t_tasks := [demo_task 30 AGENT_RM 0 TASK_SUCCEEDED, demo_task 31 AGENT_IE 0 TASK_RUNNING],
      t_jobs := [(demo_job 71 JOB_READY 0)
        \<lparr>jb_job_type := AGENT_EXECUTE_JOB, jb_payload := JObj [(Lit ''task_id'', JText (Id 31))]\<rparr>]\<rparr>"

definition demo_cancel_run :: "exn + (analysis_run \<times> db)" where
  "demo_cancel_run = cancel_run (demo_user 2 [PLANNER]) 20 None runs_demo"

lemma demo_cancel_run_value:
  "case demo_cancel_run of
     Inr (run, s') \<Rightarrow> map tk_status (t_tasks s') = [TASK_SUCCEEDED, TASK_CANCELLED] \<and>
       map jb_status (t_jobs s') = [JOB_CANCELLED] \<and>
       map (\<lambda>e. case rn_payload e of JObj fs \<Rightarrow> json_at fs ''cancelled_tasks'' | _ \<Rightarrow> JNull) (t_events s') =
         [JArr [JText (Id 30), JText (Id 31)]]
   | Inl _ \<Rightarrow> False"
  by code_simp

theorem cancelled_run_is_over_witness:
  "\<exists>run s'. cancel_run (demo_user 2 [PLANNER]) 20 None runs_demo = Inr (run, s') \<and>
     ru_status run = RUN_CANCELLED \<and> decide_run demo_digest run s' = Inr ([], s')"
proof -
  obtain run s' where "cancel_run (demo_user 2 [PLANNER]) 20 None runs_demo = Inr (run, s')"
    using demo_cancel_run_value by (auto simp: demo_cancel_run_def split: sum.splits)
  note c = cancelled_run_is_over [OF this]
  from c have "ru_status run = RUN_CANCELLED" by (elim conjE)
  moreover from c have "\<forall>digest t. decide_run digest run t = Inr ([], t)" by (elim conjE)
  then have "decide_run demo_digest run s' = Inr ([], s')" by (elim allE)
  ultimately show ?thesis
    using \<open>cancel_run (demo_user 2 [PLANNER]) 20 None runs_demo = Inr (run, s')\<close>
    by (intro exI [of _ run] exI [of _ s'] conjI)
qed

definition demo_settings :: run_settings where
  "demo_settings = \<lparr>llm_provider = ''fixture'', gemini_model = '''', anthropic_model = '''', run_deadline_seconds = 120\<rparr>"

definition demo_requested :: "exn + (analysis_run \<times> db)" where
  "demo_requested = request_run demo_postgres demo_settings (demo_user 2 [PLANNER]) 9 1 (Some ''t'') ''k''
     (snapshot_demo\<lparr>t_orders := [demo_order]\<rparr>)"

lemma demo_requested_value:
  "case demo_requested of
     Inr (run, s') \<Rightarrow> map ru_status (t_runs s') = [RUN_QUEUED] \<and> map jb_queue (t_jobs s') = [''orchestrator'']
   | Inl _ \<Rightarrow> False"
  by code_simp

theorem one_active_run_always_witness:
  "\<exists>s'. (run_step demo_digest demo_postgres)\<^sup>*\<^sup>* (snapshot_demo\<lparr>t_orders := [demo_order]\<rparr>) s' \<and>
     length (t_runs s') = 1 \<and>
     (\<forall>a \<in> set (t_runs s'). \<forall>b \<in> set (t_runs s').
        ru_status a \<in> {RUN_QUEUED, RUN_RUNNING} \<longrightarrow> ru_status b \<in> {RUN_QUEUED, RUN_RUNNING} \<longrightarrow>
        ru_order_id a = ru_order_id b \<longrightarrow> a = b)"
proof -
  obtain run s' where r: "request_run demo_postgres demo_settings (demo_user 2 [PLANNER]) 9 1 (Some ''t'') ''k''
      (snapshot_demo\<lparr>t_orders := [demo_order]\<rparr>) = Inr (run, s')" and l: "map ru_status (t_runs s') = [RUN_QUEUED]"
    using demo_requested_value by (auto simp: demo_requested_def split: sum.splits)
  have step: "(run_step demo_digest demo_postgres)\<^sup>*\<^sup>* (snapshot_demo\<lparr>t_orders := [demo_order]\<rparr>) s'"
    using r by (blast intro: run_step.requested)
  moreover have "one_active (snapshot_demo\<lparr>t_orders := [demo_order]\<rparr>)"
    by (simp add: one_active_def snapshot_demo_def ie_demo_def empty_db_def)
  moreover have "length (t_runs s') = 1" using arg_cong [OF l, of length] by simp
  ultimately show ?thesis using one_active_run_always [OF step] by blast
qed

section \<open>A request with a long trace id\<close>

text \<open>Any number of dashes before the 32 digits passes as a UUID.\<close>

definition dashed_id :: "nat \<Rightarrow> string" where
  "dashed_id n = replicate n CHR ''-'' @ replicate 32 CHR ''0''"

lemma dashed_id_accepted: "is_uuid (dashed_id n)"
proof -
  let ?v = "replicate n CHR ''-'' @ replicate 32 CHR ''0''"
  have v: "set ?v \<subseteq> {CHR ''-'', CHR ''0''}" by (auto simp: set_replicate_conv_if)
  have del: "delete_all (u # us) cs = cs" if "u \<noteq> CHR ''-''" "u \<noteq> CHR ''0''" "set cs \<subseteq> {CHR ''-'', CHR ''0''}"
    for u us cs using that by (induction cs) auto
  have "dropWhile (\<lambda>c. c = CHR ''{'' \<or> c = CHR ''}'') cs = cs" if "set cs \<subseteq> {CHR ''-'', CHR ''0''}" for cs
    using that by (cases cs) auto
  then have strip: "strip_chars (\<lambda>c. c = CHR ''{'' \<or> c = CHR ''}'') ?v = ?v"
    using v by (simp only: strip_chars_def set_rev rev_rev_ident)
  have lit: "int_base_16 (replicate 32 CHR ''0'')"
    by (simp add: numeral_eq_Suc int_base_16_def strip_chars_def is_latin1_space_def is_space_def is_hex_char_def)
  have "delete_all ''uuid:'' (delete_all ''urn:'' ?v) = ?v" using del v by simp
  then show ?thesis
    unfolding is_uuid_def dashed_id_def Let_def using lit strip by simp
qed

text \<open>A run keeps the trace id of its request.\<close>

lemma start_analysis_trace:
  assumes "start_analysis pg settings p ord (Some t) key s = Inr (run, s')" and "t \<noteq> ''''"
  shows "ru_trace_id run = t"
proof -
  obtain j where "run = (fst (new_run p ord settings (Some t) key s))\<lparr>ru_snapshot_id := Some j\<rparr>"
    using assms(1) by (auto simp: start_analysis_def store_run_def run_simps draw_def Let_def
        split: prod.splits)
  then show ?thesis using assms(2) by (simp add: new_run_def draw_def split: prod.splits)
qed

text \<open>
  A request whose \<open>X-Request-Id\<close> is a UUID behind 169 or more dashes is served, and the run it
  starts keeps the whole header as its trace id; then every step of the orchestrator fails until
  the deadline of the run, because no envelope of the run passes validation.
\<close>

theorem dashed_request_stalls:
  assumes "trace_id_of_request [(''x-request-id'', dashed_id n)] s0 = (t, s)" and "169 \<le> n"
    and "start_analysis pg settings p ord (Some t) key s = Inr (run, s')"
    and "ru_status run \<in> {RUN_QUEUED, RUN_RUNNING}" and "ru_snapshot_id run = Some sid"
    and "tasks_of run u = []" and "utcnow u < ru_deadline_at run"
  shows "ru_trace_id run = dashed_id n \<and>
    decide_run digest run u = Inl (ValidationFailure ''TaskEnvelope'')"
proof -
  have t: "t = dashed_id n"
    using assms(1) dashed_id_accepted [of n] by (simp add: trace_id_of_request_def dashed_id_def)
  then have "t \<noteq> ''''" by (simp add: dashed_id_def)
  from start_analysis_trace [OF assms(3) this] t have tr: "ru_trace_id run = dashed_id n" by simp
  then have "200 < length (ru_trace_id run)" using assms(2) by (simp add: dashed_id_def)
  from decide_run_long [OF assms(4,5) this assms(6,7)] tr show ?thesis by simp
qed

end
