(* ===== verification/Spec2Isabelle.thy ===== *)
theory Spec2Isabelle
  imports LS_Lifecycle LS_PlanningCalc LS_QualityCalc LS_IECalc LS_Capacity LS_Reservations LS_Orders LS_ApprovalRules LS_Reconcile LS_FourEyes LS_Grounded LS_Idempotency LS_Progress LS_Snapshot LS_Worker LS_Runs
begin

text \<open>
  The backend of LineSense (\<open>src/services/backend/app\<close>): a modular monolith over one
  PostgreSQL database that plans apparel orders, keeps the books of capacity and material,
  records quality decisions, and lets four bounded agents analyse an order and propose a plan
  that people approve and apply. Source paths below are relative to that directory.

  \<^bold>\<open>The shape of the model.\<close> The database is one record \<open>db\<close> (theory \<open>LS_Models\<close>): a list of
  rows per table, the clock of the current transaction (\<open>utcnow\<close>), the row locks it holds
  (\<open>locks\<close>, in the order taken), and the identifiers still to be drawn (\<open>uuid4\<close>, \<open>drawn\<close>). A
  service function is a HOL function that takes the state and returns \<open>exn + (result \<times> db)\<close>:
  what Python raises is \<open>Inl\<close>, and the caller's transaction is rolled back by using the state
  before the call. A call that commits although it raises (\<open>PersistedRejection\<close>) returns
  \<open>exn + ((exn + result) \<times> db)\<close>. A job handler runs several transactions and returns the state
  it leaves next to its result. What runs outside the repository or between two transactions is
  an argument: what other transactions commit meanwhile, which rows \<open>SKIP LOCKED\<close> skips, the
  answers of a language model, the registered agents and tools, SHA-256.

  \<^bold>\<open>Numbers and texts.\<close> \<open>Decimal\<close> is a rational rounded to 28 significant digits after every
  operation (\<open>LS_Decimal\<close>: \<open>dadd\<close>, \<open>dmul\<close>, \<open>quantize\<close>, \<open>to_column\<close> with their errors); Python
  integers are \<open>int\<close>; instants are microseconds and dates day numbers. JSON texts are kept by
  what they denote (\<open>LS_Json\<close>). Where the source interpolates values into a message, the model
  keeps the message without the values.

  \<^bold>\<open>Theories, bottom up.\<close>
    \<^item> \<open>LS_Prelude\<close>, \<open>LS_Errors\<close>, \<open>LS_Json\<close>, \<open>LS_Decimal\<close>, \<open>LS_Vocab\<close> (\<open>domain/vocab.py\<close>): shared
      tables of rows, the error monad, exceptions, JSON, decimals and enums.
    \<^item> \<open>LS_Policy\<close> (\<open>auth/policy.py\<close>, \<open>auth/scope.py\<close>): the permission table and tenancy; a row out
      of scope is answered like a missing one, list filters agree with row checks.
    \<^item> \<open>LS_Lifecycle\<close> (\<open>domain/orders/lifecycle.py\<close>), \<open>LS_InventoryCalc\<close>, \<open>LS_PlanningCalc\<close>,
      \<open>LS_QualityCalc\<close>, \<open>LS_IECalc\<close> (the \<open>calc.py\<close> of each domain, \<open>domain/rounding.py\<close>): the
      pure formulas, with their rounding; bounds, maximality and the capacity of a plan.
    \<^item> \<open>LS_Protocol\<close>, \<open>LS_Models\<close> (\<open>orchestration/protocol.py\<close>, \<open>db/models\<close>): the protocol's
      records, the tables, and what a flush checks.
    \<^item> \<open>LS_Audit\<close> (\<open>audit/service.py\<close>): redaction and the append-only log, against a
      specification of the names of credentials on the words of a key.
    \<^item> \<open>LS_Booking\<close>, \<open>LS_Capacity\<close>, \<open>LS_Readiness\<close>, \<open>LS_Inventory\<close>, \<open>LS_Stock\<close>,
      \<open>LS_StockCommands\<close>, \<open>LS_Reservations\<close> (\<open>domain/capacity\<close>, \<open>domain/inventory\<close>): a locale of
      books with charges and releases, interpreted for slots with allocations and for balances
      with reservations; every command keeps the books balanced with the active rows and the
      ledger, takes its locks in the agreed order, and releases are total on sound books.
    \<^item> \<open>LS_Quality\<close> (\<open>domain/quality/service.py\<close>): holds, separated releases, shipment facts, the
      step relation of the quality commands and of the transactions around them, and its
      invariant.
    \<^item> \<open>LS_Orders\<close> (\<open>domain/orders/service.py\<close>): creation, transitions, progress, cancellation,
      lists; transitions refine the lifecycle automaton.
    \<^item> \<open>LS_IEService\<close> (\<open>domain/ie/service.py\<close>), \<open>LS_InventoryQueries\<close>
      (\<open>domain/inventory/queries.py\<close>): cycle observations and the analysis of a style on a line;
      the read models of the inventory.
    \<^item> \<open>LS_Snapshot\<close> (\<open>orchestration/snapshot.py\<close>): the read a run starts from, and the versions
      it pins.
    \<^item> \<open>LS_Queue\<close> (\<open>jobs/queue.py\<close>): leases, fencing, retries; the interleavings of queue
      transactions as a step relation, and the claim loop against an environment of them.
    \<^item> \<open>LS_Worker\<close> (\<open>jobs/worker.py\<close>, \<open>jobs/handlers.py\<close>, \<open>retrieval/pipeline.py\<close>): the registry
      of handlers and exhaustion hooks, and the claim of a worker with these hooks.
    \<^item> \<open>LS_Dispatch\<close>, \<open>LS_Orchestrator\<close>, \<open>LS_Report\<close>, \<open>LS_AgentLoop\<close>, \<open>LS_Executor\<close>,
      \<open>LS_Reconcile\<close> (\<open>orchestration\<close>, \<open>api/internal.py\<close>, \<open>agents/base.py\<close>, \<open>llm\<close>,
      \<open>jobs/reconcile.py\<close>, \<open>jobs/handlers.py\<close>): the life of an analysis run, from the envelopes
      of its tasks through the agents' bounded loop and the checks of their results to the
      report and the proposal.
    \<^item> \<open>LS_Approvals\<close>, \<open>LS_ApprovalRules\<close> (\<open>domain/approvals/service.py\<close>): staleness, decisions,
      the transactional application of a proposal.
    \<^item> \<open>LS_RunFrames\<close>, \<open>LS_FourEyes\<close>, \<open>LS_Grounded\<close>, \<open>LS_Progress\<close>: what spans components: the
      tables each step leaves alone, the separation of duties over the life of a proposal, the
      grounding of a proposal in its snapshot, the progress of a run.
    \<^item> \<open>LS_Idempotency\<close> (\<open>idempotency/service.py\<close>, \<open>api/recommendations.py\<close>): keys, request
      hashes, and the apply endpoint.
    \<^item> \<open>LS_Runs\<close> (\<open>api/analyses.py\<close>, \<open>api/runs.py\<close>, \<open>api/middleware.py\<close>): requests, retries and
      cancellations of runs and the read routes; at most one active run for an order, a
      cancelled run is over, and a trace id the middleware lets pass that stalls a run.

  \<^bold>\<open>Recursion and fuel.\<close> Loops over rows are structural. The claim loop of the queue
  (\<open>claim_loop\<close>) may run for ever and is a \<open>partial_function\<close>; it returns by a measure: every
  iteration that does not hand out a job ends one of the finitely many jobs that were handed
  out for the last time, whatever its hook and other transactions do meanwhile (\<open>queue_work\<close>).
  The agent loop (\<open>run_rounds\<close>) has the seven model calls of the source as its
  fuel, the claim of an idempotency key its three attempts, the apply endpoint its three.

  \<^bold>\<open>Concurrency.\<close> A transaction is one step; the locks it takes are recorded, and lemmas show
  that the agreed order (orders, slots, balances, lots and reservations) is kept. Interleavings
  of transactions are step relations (\<open>LS_Queue\<close>, \<open>LS_Quality\<close>, \<open>LS_StockCommands\<close>,
  \<open>LS_FourEyes\<close>). An attempt that is rolled back leaves the state it started from; what other
  transactions committed during it is not kept.

  \<^bold>\<open>Not modelled.\<close> Rendering and parsing of HTTP requests (\<open>api\<close> routes beyond those named, the
  pydantic schemas, the rest of the middleware, rate limits), sessions and OIDC, the adapters
  of model providers and their redaction, the text pipelines (\<open>nlp\<close>, \<open>retrieval\<close> but the
  rejection of a document), the deterministic assessments of the four agents (an argument of
  the agent loop), the polling, heartbeats and shutdown of a worker process, seed data,
  evaluation, migrations and scripts, the dashboard, search and detail pages, and
  configuration: I/O, third-party libraries, or views without rules of their own. The manifest
  lists them one by one.
\<close>

end
